(* ===== verification/Prelude.thy ===== *)
theory Prelude
  imports Main "HOL-Library.Word" "HOL-Library.Finite_Map" "HOL-Library.Char_ord"
    "HOL-Library.List_Lexorder" "HOL-Library.Multiset" "HOL-Library.Code_Target_Nat"
begin

text \<open>
  Shared vocabulary of the development.

  Go values are read as follows.  \<open>string\<close> and \<open>[]byte\<close> are the HOL type \<^typ>\<open>string\<close>: an
  Isabelle \<^typ>\<open>char\<close> is one byte, so lengths and comparisons are the bytewise ones of Go (the
  order on strings is the lexicographic order of \<open>sort.Strings\<close>).  \<open>uint64\<close> is \<^typ>\<open>64 word\<close>, whose
  arithmetic wraps.  \<open>int64\<close> is \<^typ>\<open>int\<close> with the wrap-around written out by \<open>wrap64\<close>.  A Go map
  is a finite map, and a function that can fail returns a value of \<open>'a res\<close>: \<^term>\<open>Inl\<close> of the
  error, or \<^term>\<open>Inr\<close> of the result.
\<close>

named_theorems go_simps \<open>evaluation rules of the modelled Go library\<close>
named_theorems res_simps \<open>rules that push case distinctions through fallible calls\<close>

section \<open>Types\<close>

type_synonym u64 = "64 word"
type_synonym byte = char

text \<open>
  The errors of the modelled packages.  Go errors are an open interface; the development needs the
  sentinel values the code compares against (\<open>raft.ErrCompacted\<close>, \<open>raft.ErrSnapOutOfDate\<close>), the typed
  error \<open>engine.ErrNotLeader\<close>, and one constructor per place that builds an error of its own.
\<close>

datatype err =
    ErrIO
  | ErrJSON
  | ErrBase64
  | ErrTooLong
  | ErrCorruptWal
  | ErrMissingSnapshot u64 u64
  | ErrCompacted
  | ErrUnavailable
  | ErrSnapOutOfDate
  | ErrNotLeader u64
  | ErrStopped
  | ErrDropped
  | ErrPanic
  | ErrMsg string

type_synonym 'a res = "err + 'a"

definition rbind :: "'a res \<Rightarrow> ('a \<Rightarrow> 'b res) \<Rightarrow> 'b res" where
  "rbind m f = (case m of Inl e \<Rightarrow> Inl e | Inr x \<Rightarrow> f x)"

lemma rbind_simps [simp, res_simps]:
  "rbind (Inl e) f = Inl e"
  "rbind (Inr x) f = f x"
  by (simp_all add: rbind_def)

lemma rbind_Inr_iff [res_simps]: "rbind m f = Inr y \<longleftrightarrow> (\<exists>x. m = Inr x \<and> f x = Inr y)"
  by (cases m) auto

lemma rbind_Inl_iff [res_simps]:
  "rbind m f = Inl e \<longleftrightarrow> m = Inl e \<or> (\<exists>x. m = Inr x \<and> f x = Inl e)"
  by (cases m) auto

section \<open>Machine integers\<close>

definition wrap64 :: "int \<Rightarrow> int" where
  "wrap64 x = (x + 2 ^ 63) mod 2 ^ 64 - 2 ^ 63"

definition max_int64 :: int where
  "max_int64 = 2 ^ 63 - 1"

lemma wrap64_id: "- (2 ^ 63) \<le> x \<Longrightarrow> x < 2 ^ 63 \<Longrightarrow> wrap64 x = x"
  by (simp add: wrap64_def)

lemma wrap64_range: "- (2 ^ 63) \<le> wrap64 x" "wrap64 x < 2 ^ 63"
proof -
  have "0 \<le> (x + 2 ^ 63) mod 2 ^ 64" "(x + 2 ^ 63) mod 2 ^ 64 < (2::int) ^ 64"
    by simp_all
  then show "- (2 ^ 63) \<le> wrap64 x" "wrap64 x < 2 ^ 63"
    by (simp_all add: wrap64_def)
qed

lemma u64_Suc_unat: "x < y \<Longrightarrow> unat (x + 1) = Suc (unat (x :: u64))"
proof -
  assume "x < y"
  then have "unat x < unat y" by (simp add: word_less_nat_alt)
  moreover have "unat y < 2 ^ 64" using unsigned_less [of y, where ?'a = nat] by simp
  ultimately have "Suc (unat x) < 2 ^ 64" by linarith
  then show ?thesis by (simp add: unat_word_ariths)
qed

lemma u64_le_diff: "y \<le> x \<Longrightarrow> unat (x - y) = unat x - unat (y :: u64)"
  by (simp add: unat_sub)

section \<open>Lists\<close>

lemma takeWhile_dropWhile_sorted:
  "sorted_wrt (\<lambda>a b. f a < f b) xs \<Longrightarrow> filter (\<lambda>x. (f x :: 'b :: linorder) < n) xs = takeWhile (\<lambda>x. f x < n) xs"
proof (induction xs)
  case (Cons x xs)
  show ?case
  proof (cases "f x < n")
    case True
    with Cons show ?thesis by simp
  next
    case False
    with Cons.prems have "\<forall>y \<in> set xs. \<not> f y < n" by force
    with False show ?thesis by (simp add: filter_empty_conv)
  qed
qed simp

lemma prefix_butlast_Nil: "xs @ ys = zs @ [z] \<Longrightarrow> ys \<noteq> [] \<Longrightarrow> last ys = z"
  by (metis last_appendR last_snoc)

lemma sorted_wrt_last_less:
  "sorted_wrt (<) (xs @ [x]) \<Longrightarrow> y \<in> set xs \<Longrightarrow> y < (x :: 'a :: linorder)"
  by (simp add: sorted_wrt_append)

end
