(* ===== verification/GoText.thy ===== *)
theory GoText
  imports Prelude
begin

text \<open>
  The parts of Go's \<open>strconv\<close>, \<open>fmt\<close> and \<open>encoding/base64\<close> the sources use: decimal printing and
  \<open>ParseUint\<close> of unsigned integers, and \<open>base64.StdEncoding\<close>.  Each printer comes with the lemma
  that its reader inverts it.
\<close>

section \<open>Bytes\<close>

abbreviation code :: "char \<Rightarrow> nat" where
  "code c \<equiv> of_char c"

lemma code_less: "code c < 256"
  by simp

lemma code_char_of [simp]: "n < 256 \<Longrightarrow> code (char_of n) = n"
  by simp

lemma char_of_code [simp]: "char_of (code c) = c"
  by simp

lemma code_inj: "code c = code d \<longleftrightarrow> c = d"
  by simp

section \<open>Decimal numerals\<close>

definition is_digit :: "char \<Rightarrow> bool" where
  "is_digit c \<longleftrightarrow> 48 \<le> code c \<and> code c \<le> 57"

definition digit_char :: "nat \<Rightarrow> char" where
  "digit_char n = char_of (48 + n)"

fun dec_of_nat :: "nat \<Rightarrow> string" where
  "dec_of_nat n =
     (if n < 10 then [digit_char n] else dec_of_nat (n div 10) @ [digit_char (n mod 10)])"

declare dec_of_nat.simps [simp del]

fun nat_of_dec :: "nat \<Rightarrow> string \<Rightarrow> nat" where
  "nat_of_dec acc [] = acc"
| "nat_of_dec acc (c # cs) = nat_of_dec (10 * acc + (code c - 48)) cs"

text \<open>\<open>strconv.FormatUint(n, 10)\<close>, which is also what \<open>fmt\<close> prints for \<open>%d\<close>.\<close>

definition format_uint :: "u64 \<Rightarrow> string" where
  "format_uint w = dec_of_nat (unat w)"

text \<open>\<open>strconv.ParseUint(s, 10, 64)\<close>: a syntax error or a range error is \<^term>\<open>None\<close>.\<close>

definition parse_uint :: "string \<Rightarrow> u64 option" where
  "parse_uint s =
     (if s \<noteq> [] \<and> list_all is_digit s \<and> nat_of_dec 0 s < 2 ^ 64
      then Some (of_nat (nat_of_dec 0 s)) else None)"

lemma code_digit_char [simp]: "n < 10 \<Longrightarrow> code (digit_char n) = 48 + n"
  by (simp add: digit_char_def)

lemma is_digit_digit_char [simp]: "n < 10 \<Longrightarrow> is_digit (digit_char n)"
  by (simp add: is_digit_def)

lemma nat_of_dec_append: "nat_of_dec acc (xs @ ys) = nat_of_dec (nat_of_dec acc xs) ys"
  by (induction xs arbitrary: acc) auto

lemma dec_of_nat_digits: "list_all is_digit (dec_of_nat n)"
proof (induction n rule: dec_of_nat.induct)
  case (1 n)
  then show ?case by (subst dec_of_nat.simps) simp
qed

lemma dec_of_nat_neq_Nil [simp]: "dec_of_nat n \<noteq> []"
  by (subst dec_of_nat.simps) simp

lemma nat_of_dec_of_nat [simp]: "nat_of_dec 0 (dec_of_nat n) = n"
proof (induction n rule: dec_of_nat.induct)
  case (1 n)
  show ?case
  proof (cases "n < 10")
    case True
    then show ?thesis by (subst dec_of_nat.simps) simp
  next
    case False
    with 1 show ?thesis by (subst dec_of_nat.simps) (simp add: nat_of_dec_append)
  qed
qed

lemma dec_of_nat_inj: "dec_of_nat m = dec_of_nat n \<longleftrightarrow> m = n"
  by (metis nat_of_dec_of_nat)

lemma parse_format_uint [simp, go_simps]: "parse_uint (format_uint w) = Some w"
  using unsigned_less [of w, where ?'a = nat] by (simp add: parse_uint_def format_uint_def dec_of_nat_digits)

lemma format_uint_inj: "format_uint v = format_uint w \<longleftrightarrow> v = w"
  by (metis option.inject parse_format_uint)

lemma format_uint_digits: "list_all is_digit (format_uint w)" "format_uint w \<noteq> []"
  by (simp_all add: format_uint_def dec_of_nat_digits)

lemma dec_of_nat_no_leading_zero: "n \<noteq> 0 \<Longrightarrow> hd (dec_of_nat n) \<noteq> CHR ''0''"
proof (induction n rule: dec_of_nat.induct)
  case (1 n)
  show ?case
  proof (cases "n < 10")
    case True
    with "1.prems" have "code (digit_char n) \<noteq> 48" by simp
    then have "digit_char n \<noteq> CHR ''0''" by auto
    with True show ?thesis by (subst dec_of_nat.simps) simp
  next
    case False
    with 1 show ?thesis by (subst dec_of_nat.simps) simp
  qed
qed

lemma dec_of_nat_0 [simp]: "dec_of_nat 0 = ''0''"
  by (subst dec_of_nat.simps) code_simp

text \<open>A decimal suffix after a separator that is no digit determines both parts.\<close>

lemma split_at_last_separator:
  assumes eq: "xs @ sep # ds = ys @ sep # es"
    and "\<not> is_digit sep" "list_all is_digit ds" "list_all is_digit es"
  shows "xs = ys \<and> ds = es"
proof -
  have no: "\<And>us vs. us @ sep # ds = vs @ sep # es \<Longrightarrow> length ds \<le> length es"
  proof (rule ccontr)
    fix us vs assume eq': "us @ sep # ds = vs @ sep # es" and "\<not> length ds \<le> length es"
    then have "length es < length ds" by simp
    from arg_cong [OF eq', of "\<lambda>l. rev l ! length es"] this have "rev ds ! length es = sep"
      by (simp add: nth_append)
    moreover have "rev ds ! length es \<in> set ds"
      using \<open>length es < length ds\<close> by (metis length_rev nth_mem set_rev)
    ultimately show False using assms(2,3) by (auto simp: list_all_iff)
  qed
  have no': "length es \<le> length ds"
  proof (rule ccontr)
    assume "\<not> length es \<le> length ds"
    then have "length ds < length es" by simp
    from arg_cong [OF eq, of "\<lambda>l. rev l ! length ds"] this have "rev es ! length ds = sep"
      by (simp add: nth_append)
    moreover have "rev es ! length ds \<in> set es"
      using \<open>length ds < length es\<close> by (metis length_rev nth_mem set_rev)
    ultimately show False using assms(2,4) by (auto simp: list_all_iff)
  qed
  from no [OF eq] no' have "length ds = length es" by simp
  with eq show ?thesis by simp
qed

section \<open>Base64\<close>

definition b64_char :: "nat \<Rightarrow> char" where
  "b64_char n =
     (if n < 26 then char_of (65 + n) else if n < 52 then char_of (71 + n)
      else if n < 62 then char_of (n - 4) else if n = 62 then CHR ''+'' else CHR ''/'')"

definition b64_val :: "char \<Rightarrow> nat option" where
  "b64_val c =
     (let n = code c in
      if 65 \<le> n \<and> n \<le> 90 then Some (n - 65)
      else if 97 \<le> n \<and> n \<le> 122 then Some (n - 71)
      else if 48 \<le> n \<and> n \<le> 57 then Some (n + 4)
      else if n = 43 then Some 62 else if n = 47 then Some 63 else None)"

fun b64_encode :: "string \<Rightarrow> string" where
  "b64_encode [] = []"
| "b64_encode [a] = [b64_char (code a div 4), b64_char (code a mod 4 * 16), CHR ''='', CHR ''='']"
| "b64_encode [a, b] =
     [b64_char (code a div 4), b64_char (code a mod 4 * 16 + code b div 16),
      b64_char (code b mod 16 * 4), CHR ''='']"
| "b64_encode (a # b # c # r) =
     b64_char (code a div 4) # b64_char (code a mod 4 * 16 + code b div 16) #
     b64_char (code b mod 16 * 4 + code c div 64) # b64_char (code c mod 64) # b64_encode r"

text \<open>
  \<open>DecodeString\<close> skips carriage returns and newlines, then reads groups of four; padding may only
  close the input, and the unused low bits of the last group are not checked (the encoding is not
  \<open>Strict\<close>).
\<close>

fun b64_groups :: "string \<Rightarrow> string option" where
  "b64_groups [] = Some []"
| "b64_groups (p # q # r # s # t) =
     (case (b64_val p, b64_val q) of
        (Some x, Some y) \<Rightarrow>
          (if s = CHR ''='' then
             (if t \<noteq> [] then None
              else if r = CHR ''='' then Some [char_of (x * 4 + y div 16)]
              else case b64_val r of None \<Rightarrow> None
                | Some z \<Rightarrow> Some [char_of (x * 4 + y div 16), char_of (y mod 16 * 16 + z div 4)])
           else case (b64_val r, b64_val s) of
               (Some z, Some w) \<Rightarrow>
                 map_option (\<lambda>u. char_of (x * 4 + y div 16) # char_of (y mod 16 * 16 + z div 4) #
                                 char_of (z mod 4 * 64 + w) # u) (b64_groups t)
             | _ \<Rightarrow> None)
      | _ \<Rightarrow> None)"
| "b64_groups _ = None"

definition b64_decode :: "string \<Rightarrow> string option" where
  "b64_decode s = b64_groups (filter (\<lambda>c. code c \<noteq> 10 \<and> code c \<noteq> 13) s)"

lemma code_b64_char:
  "n < 64 \<Longrightarrow> code (b64_char n) =
     (if n < 26 then 65 + n else if n < 52 then 71 + n else if n < 62 then n - 4
      else if n = 62 then 43 else 47)"
  by (auto simp: b64_char_def)

lemma b64_val_char [simp]: "n < 64 \<Longrightarrow> b64_val (b64_char n) = Some n"
  by (auto simp: b64_val_def code_b64_char Let_def)

lemma b64_char_not_special [simp]:
  assumes "n < 64"
  shows "b64_char n \<noteq> CHR ''=''" "code (b64_char n) \<noteq> 10" "code (b64_char n) \<noteq> 13"
    "code (b64_char n) \<noteq> 34" "code (b64_char n) \<noteq> 92"
proof -
  have "code (b64_char n) \<noteq> 61"
    using assms by (auto simp: code_b64_char)
  then show "b64_char n \<noteq> CHR ''=''" by auto
qed (use assms in \<open>auto simp: code_b64_char\<close>)

lemma byte_div:
  assumes "n < (256 :: nat)"
  shows "n div 4 < 64" "n div 16 < 16" "n div 64 < 4"
  using assms by simp_all

lemma byte_join:
  assumes "n < (256 :: nat)"
  shows "n div 16 div 16 = 0" "n div 16 mod 16 * 16 + n mod 16 = n"
    "n div 64 div 4 = 0" "n div 64 mod 4 * 64 + n mod 64 = n"
  using byte_div [OF assms] by simp_all

lemma byte_sextets:
  assumes "a < 256" "b < 256" "c < (256 :: nat)"
  shows "a mod 4 * 16 + b div 16 < 64" "a mod 4 * 16 < 64"
    "b mod 16 * 4 + c div 64 < 64" "b mod 16 * 4 < 64" "c mod 64 < 64"
proof -
  have "a mod 4 < 4" "b mod 16 < 16" by simp_all
  then show "a mod 4 * 16 + b div 16 < 64" "a mod 4 * 16 < 64"
    "b mod 16 * 4 + c div 64 < 64" "b mod 16 * 4 < 64" "c mod 64 < 64"
    using byte_div [OF assms(2)] byte_div [OF assms(3)] by linarith+
qed

lemmas code_arith [simp] =
  byte_div(1) [OF code_less] byte_sextets [OF code_less code_less code_less]
  byte_join [OF code_less]

lemma b64_encode_no_newline: "c \<in> set (b64_encode s) \<Longrightarrow> code c \<noteq> 10 \<and> code c \<noteq> 13"
  by (induction s rule: b64_encode.induct) (auto simp: ball_Un)

lemma b64_groups_encode: "b64_groups (b64_encode s) = Some s"
  by (induction s rule: b64_encode.induct) simp_all

lemma b64_decode_encode [simp, go_simps]: "b64_decode (b64_encode s) = Some s"
proof -
  have "filter (\<lambda>c. code c \<noteq> 10 \<and> code c \<noteq> 13) (b64_encode s) = b64_encode s"
    using b64_encode_no_newline by (auto intro: filter_True)
  then show ?thesis by (simp add: b64_decode_def b64_groups_encode)
qed

end
