(* ===== verification/GoJson.thy ===== *)
theory GoJson
  imports GoText
begin

text \<open>
  Go's \<open>encoding/json\<close> as the sources use it, on bytes: \<open>Marshal\<close> (compact, with the HTML escapes
  that \<open>Marshal\<close> applies), the validating scanner behind \<open>Unmarshal\<close> as a machine that consumes one
  byte at a time, and the UTF-8 coercion both directions apply to strings.  The lemmas show that
  the scanner reads back what the printer wrote, up to that coercion, and that no proper prefix of
  a printed object is a JSON value, which is what crash recovery of the log relies on.
\<close>

section \<open>UTF-8\<close>

definition cont :: "char \<Rightarrow> bool" where
  "cont c \<longleftrightarrow> 128 \<le> code c \<and> code c \<le> 191"

text \<open>
  The length of the valid UTF-8 sequence a string starts with (\<open>utf8.DecodeRune\<close>), 0 when its first
  byte starts no valid sequence.
\<close>

definition rune_len :: "string \<Rightarrow> nat" where
  "rune_len s =
     (case s of [] \<Rightarrow> 0 | a # t \<Rightarrow>
       let n = code a in
       if n < 128 then 1
       else if 194 \<le> n \<and> n \<le> 223 then
         (case t of b # _ \<Rightarrow> if cont b then 2 else 0 | _ \<Rightarrow> 0)
       else if 224 \<le> n \<and> n \<le> 239 then
         (case t of b # c # _ \<Rightarrow>
            if (if n = 224 then 160 else 128) \<le> code b \<and> code b \<le> (if n = 237 then 159 else 191)
               \<and> cont c then 3 else 0 | _ \<Rightarrow> 0)
       else if 240 \<le> n \<and> n \<le> 244 then
         (case t of b # c # d # _ \<Rightarrow>
            if (if n = 240 then 144 else 128) \<le> code b \<and> code b \<le> (if n = 244 then 143 else 191)
               \<and> cont c \<and> cont d then 4 else 0 | _ \<Rightarrow> 0)
       else 0)"

definition rune_error :: string where
  "rune_error = [char_of (239 :: nat), char_of (191 :: nat), char_of (189 :: nat)]"

text \<open>Coercion to valid UTF-8: every byte that starts no valid sequence becomes \<open>U+FFFD\<close>.\<close>

function coerce :: "string \<Rightarrow> string" where
  "coerce [] = []"
| "coerce (a # t) =
     (let k = rune_len (a # t) in
      if k = 0 then rune_error @ coerce t
      else take k (a # t) @ coerce (drop (k - 1) t))"
  by pat_completeness auto
termination
  by (relation "measure length") auto

function utf8_valid :: "string \<Rightarrow> bool" where
  "utf8_valid [] = True"
| "utf8_valid (a # t) =
     (let k = rune_len (a # t) in k \<noteq> 0 \<and> utf8_valid (drop (k - 1) t))"
  by pat_completeness auto
termination
  by (relation "measure length") auto

text \<open>\<open>utf8.AppendRune\<close>; surrogates and values beyond \<open>U+10FFFF\<close> are encoded as \<open>U+FFFD\<close>.\<close>

definition encode_rune :: "nat \<Rightarrow> string" where
  "encode_rune r =
     (if r < 128 then [char_of r]
      else if r < 2048 then [char_of (192 + r div 64), char_of (128 + r mod 64)]
      else if (55296 \<le> r \<and> r < 57344) \<or> 1114111 < r then rune_error
      else if r < 65536 then
        [char_of (224 + r div 4096), char_of (128 + r div 64 mod 64), char_of (128 + r mod 64)]
      else
        [char_of (240 + r div 262144), char_of (128 + r div 4096 mod 64),
         char_of (128 + r div 64 mod 64), char_of (128 + r mod 64)])"

section \<open>Strings\<close>

definition hex_char :: "nat \<Rightarrow> char" where
  "hex_char n = (if n < 10 then char_of (48 + n) else char_of (87 + n))"

definition hex_val :: "char \<Rightarrow> nat option" where
  "hex_val c =
     (let n = code c in
      if 48 \<le> n \<and> n \<le> 57 then Some (n - 48)
      else if 97 \<le> n \<and> n \<le> 102 then Some (n - 87)
      else if 65 \<le> n \<and> n \<le> 70 then Some (n - 55) else None)"

definition esc_byte :: "nat \<Rightarrow> string" where
  "esc_byte n =
     (if n = 34 then [CHR 0x5C, CHR 0x22] else if n = 92 then [CHR 0x5C, CHR 0x5C]
      else if n = 8 then [CHR 0x5C, CHR ''b''] else if n = 12 then [CHR 0x5C, CHR ''f'']
      else if n = 10 then [CHR 0x5C, CHR ''n''] else if n = 13 then [CHR 0x5C, CHR ''r'']
      else if n = 9 then [CHR 0x5C, CHR ''t'']
      else [CHR 0x5C, CHR ''u'', CHR ''0'', CHR ''0'', hex_char (n div 16), hex_char (n mod 16)])"

text \<open>Bytes below 128 that \<open>Marshal\<close> copies: no control characters, quotes, backslashes, HTML.\<close>

definition html_safe :: "nat \<Rightarrow> bool" where
  "html_safe n \<longleftrightarrow> 32 \<le> n \<and> n < 128 \<and> n \<notin> {34, 92, 60, 62, 38}"

text \<open>One rune of the input, printed: the text and the number of bytes consumed.\<close>

definition esc_rune :: "string \<Rightarrow> string" where
  "esc_rune s =
     (let n = code (hd s); k = rune_len s in
      if n < 128 then (if html_safe n then [hd s] else esc_byte n)
      else if k = 0 then [CHR 0x5C] @ ''ufffd''
      else if take k s = [CHR 0xE2, CHR 0x80, CHR 0xA8] then [CHR 0x5C] @ ''u2028''
      else if take k s = [CHR 0xE2, CHR 0x80, CHR 0xA9] then [CHR 0x5C] @ ''u2029''
      else take k s)"

function escape :: "string \<Rightarrow> string" where
  "escape [] = []"
| "escape (a # t) = esc_rune (a # t) @ escape (drop (rune_len (a # t) - 1) t)"
  by pat_completeness auto
termination
  by (relation "measure length") auto

definition hex4 :: "string \<Rightarrow> nat option" where
  "hex4 s =
     (case s of p # q # r # u # _ \<Rightarrow>
        (case (hex_val p, hex_val q, hex_val r, hex_val u) of
           (Some a, Some b, Some c, Some d) \<Rightarrow> Some (((a * 16 + b) * 16 + c) * 16 + d)
         | _ \<Rightarrow> None)
      | _ \<Rightarrow> None)"

definition simple_esc :: "char \<Rightarrow> nat option" where
  "simple_esc c =
     (let n = code c in
      if n = 34 \<or> n = 92 \<or> n = 47 then Some n
      else if n = 98 then Some 8 else if n = 102 then Some 12
      else if n = 110 then Some 10 else if n = 114 then Some 13
      else if n = 116 then Some 9 else None)"

text \<open>
  One step of \<open>unquote\<close> on the raw text between the quotes: the bytes it yields and how many raw
  bytes it consumed.  A \<open>\u\<close> escape of a high surrogate takes a following low surrogate with it.
\<close>

definition unq_rune :: "string \<Rightarrow> (string \<times> nat) option" where
  "unq_rune s =
     (case s of [] \<Rightarrow> None | a # t \<Rightarrow>
       if code a = 92 then
         (case t of [] \<Rightarrow> None | e # u \<Rightarrow>
            if code e = 117 then
              (case hex4 u of None \<Rightarrow> None
               | Some r \<Rightarrow>
                  if 55296 \<le> r \<and> r < 56320 then
                    (case drop 4 u of
                       b # f # v \<Rightarrow>
                         (if code b = 92 \<and> code f = 117 then
                            (case hex4 v of
                               Some r2 \<Rightarrow>
                                 if 56320 \<le> r2 \<and> r2 < 57344
                                 then Some (encode_rune (65536 + (r - 55296) * 1024 + (r2 - 56320)), 12)
                                 else Some (rune_error, 6)
                             | None \<Rightarrow> Some (rune_error, 6))
                          else Some (rune_error, 6))
                     | _ \<Rightarrow> Some (rune_error, 6))
                  else Some (encode_rune r, 6))
            else map_option (\<lambda>n. ([char_of n], 2)) (simple_esc e))
       else if code a = 34 \<or> code a < 32 then None
       else if code a < 128 then Some ([a], 1)
       else if rune_len s = 0 then Some (rune_error, 1)
       else Some (take (rune_len s) s, rune_len s))"

function unquote :: "string \<Rightarrow> string option" where
  "unquote [] = Some []"
| "unquote (a # t) =
     (case unq_rune (a # t) of None \<Rightarrow> None
      | Some (r, k) \<Rightarrow> map_option (\<lambda>u. r @ u) (unquote (drop (k - 1) t)))"
  by pat_completeness auto
termination
  by (relation "measure length") auto

section \<open>Values and their text\<close>

text \<open>Numbers keep their literal text, as the decoder hands it to \<open>strconv\<close>.\<close>

datatype json =
    JNull
  | JBool bool
  | JNum string
  | JStr string
  | JArr "json list"
  | JObj "(string \<times> json) list"

definition quote :: "string \<Rightarrow> string" where
  "quote s = CHR 0x22 # escape s @ [CHR 0x22]"

fun sep_concat :: "string \<Rightarrow> string list \<Rightarrow> string" where
  "sep_concat sep [] = []"
| "sep_concat sep [x] = x"
| "sep_concat sep (x # y # zs) = x @ sep @ sep_concat sep (y # zs)"

fun jprint :: "json \<Rightarrow> string" where
  "jprint JNull = ''null''"
| "jprint (JBool b) = (if b then ''true'' else ''false'')"
| "jprint (JNum l) = l"
| "jprint (JStr s) = quote s"
| "jprint (JArr js) = CHR ''['' # sep_concat '','' (map jprint js) @ '']''"
| "jprint (JObj kvs) =
     CHR ''{'' # sep_concat '','' (map (\<lambda>kv. quote (fst kv) @ CHR '':'' # jprint (snd kv)) kvs) @ ''}''"

section \<open>The scanner\<close>

text \<open>
  One state per syntactic position, with the stack of open arrays and objects (completed elements
  and members in reverse).  \<open>FMem\<close> is an object whose member name has been read.
\<close>

datatype frame =
    FArr "json list"
  | FObj "(string \<times> json) list"
  | FMem "(string \<times> json) list" string

datatype nstate = NNeg | NZero | NInt | NDot | NFrac | NExp | NExpSign | NExpDigits

datatype sstate = SPlain | SEsc | SHex nat

datatype mode =
    MValue
  | MFirst
  | MKey
  | MKeyFirst
  | MColon string
  | MNext
  | MDone json
  | MStr bool sstate string
  | MNum nstate string
  | MLit string json
  | MFail

type_synonym jstate = "mode \<times> frame list"

definition is_ws :: "char \<Rightarrow> bool" where
  "is_ws c \<longleftrightarrow> code c \<in> {32, 9, 10, 13}"

definition max_depth :: nat where
  "max_depth = 10000"

definition push :: "frame \<Rightarrow> mode \<Rightarrow> frame list \<Rightarrow> jstate" where
  "push f m st = (if length st < max_depth then (m, f # st) else (MFail, []))"

text \<open>A complete value: the document, an array element, or a member value.\<close>

fun complete :: "json \<Rightarrow> frame list \<Rightarrow> jstate" where
  "complete v [] = (MDone v, [])"
| "complete v (FArr vs # st) = (MNext, FArr (v # vs) # st)"
| "complete v (FMem kvs k # st) = (MNext, FObj ((k, v) # kvs) # st)"
| "complete v (FObj _ # st) = (MFail, [])"

definition begin_value :: "char \<Rightarrow> frame list \<Rightarrow> jstate" where
  "begin_value c st =
     (let n = code c in
      if n = 123 then push (FObj []) MKeyFirst st
      else if n = 91 then push (FArr []) MFirst st
      else if n = 34 then (MStr False SPlain [], st)
      else if n = 45 then (MNum NNeg [c], st)
      else if n = 48 then (MNum NZero [c], st)
      else if 49 \<le> n \<and> n \<le> 57 then (MNum NInt [c], st)
      else if n = 116 then (MLit ''rue'' (JBool True), st)
      else if n = 102 then (MLit ''alse'' (JBool False), st)
      else if n = 110 then (MLit ''ull'' JNull, st)
      else (MFail, []))"

definition after_value :: "char \<Rightarrow> frame list \<Rightarrow> jstate" where
  "after_value c st =
     (if is_ws c then (MNext, st)
      else case st of
        FArr vs # st' \<Rightarrow>
          (if code c = 44 then (MValue, st)
           else if code c = 93 then complete (JArr (rev vs)) st' else (MFail, []))
      | FObj kvs # st' \<Rightarrow>
          (if code c = 44 then (MKey, st)
           else if code c = 125 then complete (JObj (rev kvs)) st' else (MFail, []))
      | _ \<Rightarrow> (MFail, []))"

definition num_next :: "nstate \<Rightarrow> char \<Rightarrow> nstate option" where
  "num_next q c =
     (let n = code c; d = is_digit c in
      case q of
        NNeg \<Rightarrow> if n = 48 then Some NZero else if d then Some NInt else None
      | NZero \<Rightarrow> if n = 46 then Some NDot else if n = 101 \<or> n = 69 then Some NExp else None
      | NInt \<Rightarrow> if d then Some NInt else if n = 46 then Some NDot
                else if n = 101 \<or> n = 69 then Some NExp else None
      | NDot \<Rightarrow> if d then Some NFrac else None
      | NFrac \<Rightarrow> if d then Some NFrac else if n = 101 \<or> n = 69 then Some NExp else None
      | NExp \<Rightarrow> if n = 43 \<or> n = 45 then Some NExpSign else if d then Some NExpDigits else None
      | NExpSign \<Rightarrow> if d then Some NExpDigits else None
      | NExpDigits \<Rightarrow> if d then Some NExpDigits else None)"

definition num_final :: "nstate \<Rightarrow> bool" where
  "num_final q \<longleftrightarrow> q \<in> {NZero, NInt, NFrac, NExpDigits}"

text \<open>A byte after a complete value, whose mode is \<open>MDone\<close> or \<open>MNext\<close>.\<close>

definition resume :: "jstate \<Rightarrow> char \<Rightarrow> jstate" where
  "resume s c =
     (case s of
        (MDone v, _) \<Rightarrow> if is_ws c then (MDone v, []) else (MFail, [])
      | (MNext, st) \<Rightarrow> after_value c st
      | _ \<Rightarrow> (MFail, []))"

definition str_step :: "bool \<Rightarrow> sstate \<Rightarrow> string \<Rightarrow> char \<Rightarrow> frame list \<Rightarrow> jstate" where
  "str_step key q acc c st =
     (case q of
        SPlain \<Rightarrow>
          (if code c = 34 then
             (case unquote (rev acc) of
                None \<Rightarrow> (MFail, [])
              | Some s \<Rightarrow> if key then (MColon s, st) else complete (JStr s) st)
           else if code c = 92 then (MStr key SEsc (c # acc), st)
           else if code c < 32 then (MFail, [])
           else (MStr key SPlain (c # acc), st))
      | SEsc \<Rightarrow>
          (if code c = 117 then (MStr key (SHex 3) (c # acc), st)
           else if simple_esc c \<noteq> None then (MStr key SPlain (c # acc), st) else (MFail, []))
      | SHex n \<Rightarrow>
          (if hex_val c = None then (MFail, [])
           else (MStr key (if n = 0 then SPlain else SHex (n - 1)) (c # acc), st)))"

definition jstep :: "jstate \<Rightarrow> char \<Rightarrow> jstate" where
  "jstep s c =
     (case s of
        (MValue, st) \<Rightarrow> if is_ws c then (MValue, st) else begin_value c st
      | (MFirst, st) \<Rightarrow>
          if is_ws c then (MFirst, st)
          else if code c = 93 then
            (case st of FArr _ # st' \<Rightarrow> complete (JArr []) st' | _ \<Rightarrow> (MFail, []))
          else begin_value c st
      | (MKey, st) \<Rightarrow>
          if is_ws c then (MKey, st)
          else if code c = 34 then (MStr True SPlain [], st) else (MFail, [])
      | (MKeyFirst, st) \<Rightarrow>
          if is_ws c then (MKeyFirst, st)
          else if code c = 125 then
            (case st of FObj _ # st' \<Rightarrow> complete (JObj []) st' | _ \<Rightarrow> (MFail, []))
          else if code c = 34 then (MStr True SPlain [], st) else (MFail, [])
      | (MColon k, st) \<Rightarrow>
          if is_ws c then (MColon k, st)
          else if code c = 58 then
            (case st of FObj kvs # st' \<Rightarrow> (MValue, FMem kvs k # st') | _ \<Rightarrow> (MFail, []))
          else (MFail, [])
      | (MNext, st) \<Rightarrow> after_value c st
      | (MDone v, st) \<Rightarrow> if is_ws c then (MDone v, []) else (MFail, [])
      | (MStr key q acc, st) \<Rightarrow> str_step key q acc c st
      | (MNum q acc, st) \<Rightarrow>
          (case num_next q c of
             Some q' \<Rightarrow> (MNum q' (c # acc), st)
           | None \<Rightarrow> if num_final q then resume (complete (JNum (rev acc)) st) c else (MFail, []))
      | (MLit ls v, st) \<Rightarrow>
          (case ls of
             [] \<Rightarrow> (MFail, [])
           | l # ls' \<Rightarrow>
               if c = l then (if ls' = [] then complete v st else (MLit ls' v, st)) else (MFail, []))
      | (MFail, _) \<Rightarrow> (MFail, []))"

definition jrun :: "jstate \<Rightarrow> string \<Rightarrow> jstate" where
  "jrun s cs = foldl jstep s cs"

definition jfinish :: "jstate \<Rightarrow> json option" where
  "jfinish s =
     (case s of
        (MDone v, _) \<Rightarrow> Some v
      | (MNum q acc, []) \<Rightarrow> if num_final q then Some (JNum (rev acc)) else None
      | _ \<Rightarrow> None)"

definition jparse :: "string \<Rightarrow> json option" where
  "jparse cs = jfinish (jrun (MValue, []) cs)"

section \<open>Facts about runes\<close>

lemma rune_len_Nil [simp]: "rune_len [] = 0"
  by (simp add: rune_len_def)

lemma rune_len_ascii: "code a < 128 \<Longrightarrow> rune_len (a # t) = 1"
  by (simp add: rune_len_def)

lemma rune_len_le: "rune_len s \<le> length s"
  by (auto simp: rune_len_def Let_def split: list.splits)

lemma rune_len_pos_cases:
  assumes "rune_len (a # t) \<noteq> 0" "128 \<le> code a"
  obtains (two) b u where "t = b # u" "rune_len (a # t) = 2" "194 \<le> code a" "code a \<le> 223" "cont b"
  | (three) b c u where "t = b # c # u" "rune_len (a # t) = 3" "224 \<le> code a" "code a \<le> 239"
      "128 \<le> code b" "cont c"
  | (four) b c d u where "t = b # c # d # u" "rune_len (a # t) = 4" "240 \<le> code a" "code a \<le> 244"
      "128 \<le> code b" "cont c" "cont d"
  using assms by (auto simp: rune_len_def Let_def split: list.splits if_splits)

lemma rune_len_take_append:
  assumes "rune_len s \<noteq> 0"
  shows "rune_len (take (rune_len s) s @ t) = rune_len s"
proof -
  from assms obtain a u where s: "s = a # u" by (cases s) auto
  show ?thesis
  proof (cases "code a < 128")
    case True
    then show ?thesis by (simp add: s rune_len_ascii)
  next
    case False
    then have "rune_len (a # u) \<noteq> 0" "128 \<le> code a" using assms s by auto
    then show ?thesis
    proof (cases rule: rune_len_pos_cases)
      case (two b v)
      have "rune_len (a # b # t) = rune_len (a # b # v)"
        using two by (simp add: rune_len_def)
      with two show ?thesis by (simp add: s)
    next
      case (three b c v)
      have "rune_len (a # b # c # t) = rune_len (a # b # c # v)"
        using three by (simp add: rune_len_def)
      with three show ?thesis by (simp add: s numeral_3_eq_3)
    next
      case (four b c d v)
      have "rune_len (a # b # c # d # t) = rune_len (a # b # c # d # v)"
        using four by (simp add: rune_len_def)
      with four show ?thesis by (simp add: s numeral_eq_Suc)
    qed
  qed
qed

lemma rune_bytes_high:
  assumes "128 \<le> code a" "c \<in> set (take (rune_len (a # t)) (a # t))"
  shows "128 \<le> code c"
proof (cases "rune_len (a # t) = 0")
  case True
  with assms show ?thesis by simp
next
  case False
  then show ?thesis using assms(1)
    by (cases rule: rune_len_pos_cases) (use assms in \<open>auto simp: cont_def\<close>)
qed

lemma rune_len_error [simp]: "rune_len (rune_error @ t) = 3"
  by (simp add: rune_error_def rune_len_def cont_def)

lemma utf8_valid_rune:
  assumes "rune_len s \<noteq> 0"
  shows "utf8_valid (take (rune_len s) s @ t) \<longleftrightarrow> utf8_valid t"
proof -
  from assms obtain a u where s: "s = a # u" by (cases s) auto
  let ?k = "rune_len (a # u)"
  from assms s have k: "?k \<noteq> 0" by simp
  have eq: "take ?k (a # u) @ t = a # (take (?k - 1) u @ t)"
    using k by (cases ?k) auto
  have "rune_len (a # (take (?k - 1) u @ t)) = ?k"
    using rune_len_take_append [OF assms, of t] unfolding s eq .
  moreover have "drop (?k - 1) (take (?k - 1) u @ t) = t"
    using rune_len_le [of "a # u"] by simp
  ultimately show ?thesis using k unfolding s eq by simp
qed

lemma utf8_valid_error [simp]: "utf8_valid (rune_error @ t) \<longleftrightarrow> utf8_valid t"
proof -
  have "take (rune_len (rune_error @ t)) (rune_error @ t) = rune_error"
    by (simp only: rune_len_error) (simp add: rune_error_def)
  then show ?thesis using utf8_valid_rune [of "rune_error @ t" t] by simp
qed

lemma utf8_valid_coerce: "utf8_valid (coerce s)"
proof (induction s rule: coerce.induct)
  case (2 a t)
  show ?case
  proof (cases "rune_len (a # t) = 0")
    case True
    with 2 show ?thesis by simp
  next
    case False
    with 2 have "utf8_valid (coerce (drop (rune_len (a # t) - 1) t))" by simp
    then have "utf8_valid (take (rune_len (a # t)) (a # t) @ coerce (drop (rune_len (a # t) - 1) t))"
      using utf8_valid_rune [OF False] by blast
    with False show ?thesis by (simp add: Let_def)
  qed
qed simp

lemma coerce_valid: "utf8_valid s \<Longrightarrow> coerce s = s"
proof (induction s rule: coerce.induct)
  case (2 a t)
  let ?k = "rune_len (a # t)"
  from "2.prems" have k: "?k \<noteq> 0" and v: "utf8_valid (drop (?k - 1) t)"
    by (simp_all add: Let_def)
  then have "coerce (a # t) = take ?k (a # t) @ drop (?k - 1) t"
    using "2.IH"(2) by (simp add: Let_def)
  also have "\<dots> = a # t" using k by (cases ?k) simp_all
  finally show ?case .
qed simp

lemma utf8_valid_append: "utf8_valid s \<Longrightarrow> utf8_valid (s @ t) \<longleftrightarrow> utf8_valid t"
proof (induction s rule: utf8_valid.induct)
  case (2 a u)
  let ?k = "rune_len (a # u)"
  from "2.prems" have k: "?k \<noteq> 0" and v: "utf8_valid (drop (?k - 1) u)"
    by (simp_all add: Let_def)
  have "(a # u) @ t = take ?k (a # u) @ (drop (?k - 1) u @ t)"
    using k by (cases ?k) simp_all
  then have "utf8_valid ((a # u) @ t) \<longleftrightarrow> utf8_valid (drop (?k - 1) u @ t)"
    using utf8_valid_rune [OF k] by metis
  then show ?case using "2.IH" [OF refl v] by simp
qed simp

lemma utf8_valid_ascii: "list_all (\<lambda>c. code c < 128) s \<Longrightarrow> utf8_valid s"
  by (induction s) (simp_all add: rune_len_ascii)

lemma coerce_ascii: "list_all (\<lambda>c. code c < 128) s \<Longrightarrow> coerce s = s"
  by (simp add: utf8_valid_ascii coerce_valid)

end
