(* ===== verification/GoJsonFacts.thy ===== *)
theory GoJsonFacts
  imports GoJson
begin

text \<open>
  What the model of \<open>encoding/json\<close> guarantees: \<open>jparse_jprint_object\<close> (the scanner reads back a
  printed object, with every string coerced to valid UTF-8), \<open>torn_object_no_json\<close> (no proper
  prefix of a printed object is a JSON value) and \<open>jparse_valid\<close> (every string of a decoded value
  is valid UTF-8).
\<close>

section \<open>Strings survive printing and scanning\<close>

definition coerced_rune :: "string \<Rightarrow> string" where
  "coerced_rune s = (if rune_len s = 0 then rune_error else take (rune_len s) s)"

lemma hex_val_char [simp]: "n < 16 \<Longrightarrow> hex_val (hex_char n) = Some n"
  by (auto simp: hex_val_def hex_char_def Let_def)

lemma unq_rune_esc_byte:
  assumes "n < 128"
  shows "\<exists>k. unq_rune (esc_byte n @ t) = Some ([char_of n], k) \<and> k = length (esc_byte n)"
proof -
  have "n div 16 < 16" "n mod 16 < 16" using assms by simp_all
  then show ?thesis using assms
    by (auto simp: esc_byte_def unq_rune_def simple_esc_def hex4_def encode_rune_def hex_val_def [of "CHR ''0''"])
qed

lemma unq_rune_esc_ascii:
  assumes "code a < 128"
  shows "unq_rune (esc_rune (a # s) @ t) = Some (coerced_rune (a # s), length (esc_rune (a # s)))"
proof (cases "html_safe (code a)")
  case True
  then have "code a \<noteq> 92" "code a \<noteq> 34" "\<not> code a < 32" by (auto simp: html_safe_def)
  with True assms rune_len_ascii [OF assms] show ?thesis
    by (simp add: esc_rune_def unq_rune_def coerced_rune_def)
next
  case False
  with assms rune_len_ascii [OF assms] unq_rune_esc_byte [OF assms, of t] show ?thesis
    by (auto simp: esc_rune_def coerced_rune_def)
qed

text \<open>The three escapes that are written without a copy of the input: the replacement character and the two line
  separators.\<close>

lemma unq_rune_fixed:
  "unq_rune (([CHR 0x5C] @ ''ufffd'') @ t) = Some (rune_error, 6)"
  "unq_rune (([CHR 0x5C] @ ''u2028'') @ t) = Some ([CHR 0xE2, CHR 0x80, CHR 0xA8], 6)"
  "unq_rune (([CHR 0x5C] @ ''u2029'') @ t) = Some ([CHR 0xE2, CHR 0x80, CHR 0xA9], 6)"
proof -
  show "unq_rune (([CHR 0x5C] @ ''ufffd'') @ t) = Some (rune_error, 6)"
    by (simp add: unq_rune_def hex4_def hex_val_def encode_rune_def rune_error_def)
  show "unq_rune (([CHR 0x5C] @ ''u2028'') @ t) = Some ([CHR 0xE2, CHR 0x80, CHR 0xA8], 6)"
    by (simp add: unq_rune_def hex4_def hex_val_def encode_rune_def) code_simp
  show "unq_rune (([CHR 0x5C] @ ''u2029'') @ t) = Some ([CHR 0xE2, CHR 0x80, CHR 0xA9], 6)"
    by (simp add: unq_rune_def hex4_def hex_val_def encode_rune_def) code_simp
qed

lemma unq_rune_copied:
  fixes a s
  defines "r \<equiv> take (rune_len (a # s)) (a # s)"
  assumes "\<not> code a < 128" "rune_len (a # s) \<noteq> 0"
  shows "unq_rune (r @ t) = Some (r, length r)"
proof -
  let ?k = "rune_len (a # s)"
  have l: "length r = ?k" using rune_len_le [of "a # s"] by (simp add: r_def)
  obtain r' where r': "r @ t = a # r'" using assms(3) by (cases ?k) (auto simp: r_def)
  have "rune_len (r @ t) = ?k" using rune_len_take_append [OF assms(3)] by (simp add: r_def)
  moreover have "take ?k (r @ t) = r" using l by simp
  moreover have "code a \<noteq> 92" "code a \<noteq> 34" "\<not> code a < 32" using assms(2) by auto
  ultimately have "unq_rune (r @ t) = Some (r, ?k)"
    using assms(2,3) unfolding r' by (simp add: unq_rune_def del: take_Cons')
  with l show ?thesis by simp
qed

lemma unq_rune_esc:
  "unq_rune (esc_rune (a # s) @ t) = Some (coerced_rune (a # s), length (esc_rune (a # s)))"
proof (cases "code a < 128")
  case True
  then show ?thesis by (rule unq_rune_esc_ascii)
next
  case hi: False
  let ?k = "rune_len (a # s)"
  let ?r = "take ?k (a # s)"
  consider (bad) "?k = 0" | (ls) "?k \<noteq> 0" "?r = [CHR 0xE2, CHR 0x80, CHR 0xA8]"
    | (ps) "?k \<noteq> 0" "?r = [CHR 0xE2, CHR 0x80, CHR 0xA9]"
    | (copy) "?k \<noteq> 0" "?r \<noteq> [CHR 0xE2, CHR 0x80, CHR 0xA8]" "?r \<noteq> [CHR 0xE2, CHR 0x80, CHR 0xA9]"
    by blast
  then show ?thesis
  proof cases
    case bad
    then have "esc_rune (a # s) = [CHR 0x5C] @ ''ufffd''" "coerced_rune (a # s) = rune_error"
      using hi by (simp_all add: esc_rune_def coerced_rune_def)
    then show ?thesis using unq_rune_fixed(1) [of t] by simp
  next
    case ls
    then have "esc_rune (a # s) = [CHR 0x5C] @ ''u2028''" "coerced_rune (a # s) = [CHR 0xE2, CHR 0x80, CHR 0xA8]"
      using hi unfolding esc_rune_def coerced_rune_def Let_def by simp_all
    then show ?thesis using unq_rune_fixed(2) [of t] by simp
  next
    case ps
    then have "esc_rune (a # s) = [CHR 0x5C] @ ''u2029''" "coerced_rune (a # s) = [CHR 0xE2, CHR 0x80, CHR 0xA9]"
      using hi unfolding esc_rune_def coerced_rune_def Let_def by simp_all
    then show ?thesis using unq_rune_fixed(3) [of t] by simp
  next
    case copy
    then have "esc_rune (a # s) = ?r" "coerced_rune (a # s) = ?r"
      using hi unfolding esc_rune_def coerced_rune_def Let_def by simp_all
    then show ?thesis using unq_rune_copied [OF hi copy(1), of t] by (simp only:)
  qed
qed

lemma esc_rune_neq_Nil [simp]: "esc_rune (a # s) \<noteq> []"
proof
  assume "esc_rune (a # s) = []"
  with unq_rune_esc [of a s "[]"] show False by (simp add: unq_rune_def)
qed

lemma unquote_append_rune:
  assumes "unq_rune (r @ t) = Some (u, length r)" "r \<noteq> []"
  shows "unquote (r @ t) = map_option (\<lambda>v. u @ v) (unquote t)"
proof -
  from assms(2) obtain a r' where r: "r = a # r'" by (cases r) auto
  with assms show ?thesis by simp
qed

lemma unquote_escape: "unquote (escape s) = Some (coerce s)"
proof (induction s rule: escape.induct)
  case (2 a t)
  have "unquote (escape (a # t)) =
      map_option (\<lambda>v. coerced_rune (a # t) @ v) (unquote (escape (drop (rune_len (a # t) - 1) t)))"
    by (simp add: unquote_append_rune [OF unq_rune_esc])
  with 2 show ?case by (simp add: coerced_rune_def Let_def)
qed simp

lemma utf8_valid_single_rune: "rune_len s = length s \<Longrightarrow> s \<noteq> [] \<Longrightarrow> utf8_valid s"
  using utf8_valid_rune [of s "[]"] by simp

lemma mod_window:
  assumes "k * 64 \<le> x" "x < k * 64 + m" "m \<le> 64"
  shows "x mod 64 < (m :: nat)"
proof -
  from assms(1) obtain y where y: "x = k * 64 + y" using le_Suc_ex by blast
  with assms have "y < m" "y < 64" by simp_all
  then show ?thesis by (simp add: y)
qed

lemma rune_len_three:
  fixes x y z :: nat
  assumes "224 \<le> x" "x \<le> 239" "128 \<le> y" "y \<le> 191" "x = 224 \<Longrightarrow> 160 \<le> y" "x = 237 \<Longrightarrow> y \<le> 159"
    "128 \<le> z" "z \<le> 191"
  shows "rune_len [char_of x, char_of y, char_of z] = 3"
  using assms by (simp add: rune_len_def cont_def)

lemma rune_len_four:
  fixes x y z w :: nat
  assumes "240 \<le> x" "x \<le> 244" "128 \<le> y" "y \<le> 191" "x = 240 \<Longrightarrow> 144 \<le> y" "x = 244 \<Longrightarrow> y \<le> 143"
    "128 \<le> z" "z \<le> 191" "128 \<le> w" "w \<le> 191"
  shows "rune_len [char_of x, char_of y, char_of z, char_of w] = 4"
  using assms by (simp add: rune_len_def cont_def)

lemma encode_rune_three:
  assumes "2048 \<le> r" "r < 65536" "\<not> (55296 \<le> r \<and> r < 57344)"
  shows "utf8_valid (encode_rune r)"
proof -
  have a: "r div 4096 < 16" "r mod 64 < 64" "r div 64 mod 64 < 64" using assms by simp_all
  have b: "32 \<le> r div 64 mod 64" if "r div 4096 = 0"
  proof -
    from that have "r < 4096" by (simp add: div_eq_0_iff)
    then have "r div 64 < 64" "32 \<le> r div 64" using assms by simp_all
    then show ?thesis by simp
  qed
  have c: "r div 64 mod 64 < 32" if "r div 4096 = 13"
  proof -
    from that have "r < 57344" "53248 \<le> r" by simp_all
    then have "r < 55296" using assms by auto
    with \<open>53248 \<le> r\<close> have "13 * 64 \<le> r div 64" "r div 64 < 13 * 64 + 32" by simp_all
    then show ?thesis by (rule mod_window) simp
  qed
  have e: "encode_rune r =
      [char_of (224 + r div 4096), char_of (128 + r div 64 mod 64), char_of (128 + r mod 64)]"
    using assms unfolding encode_rune_def by auto
  have "rune_len (encode_rune r) = 3"
    unfolding e by (rule rune_len_three) (use a b c in auto)
  then show ?thesis by (intro utf8_valid_single_rune) (simp_all add: e)
qed

lemma encode_rune_four:
  assumes "65536 \<le> r" "r \<le> 1114111"
  shows "utf8_valid (encode_rune r)"
proof -
  have a: "r div 262144 < 5" "r mod 64 < 64" "r div 64 mod 64 < 64" "r div 4096 mod 64 < 64"
    using assms by simp_all
  have b: "16 \<le> r div 4096 mod 64" if "r div 262144 = 0"
  proof -
    from that have "r < 262144" by (simp add: div_eq_0_iff)
    then have "r div 4096 < 64" "16 \<le> r div 4096" using assms by simp_all
    then show ?thesis by simp
  qed
  have c: "r div 4096 mod 64 < 16" if "r div 262144 = 4"
  proof -
    from that have "1048576 \<le> r" by simp
    then have "4 * 64 \<le> r div 4096" "r div 4096 < 4 * 64 + 16" using assms by simp_all
    then show ?thesis by (rule mod_window) simp
  qed
  have e: "encode_rune r =
      [char_of (240 + r div 262144), char_of (128 + r div 4096 mod 64),
       char_of (128 + r div 64 mod 64), char_of (128 + r mod 64)]"
    using assms unfolding encode_rune_def by auto
  have "rune_len (encode_rune r) = 4"
    unfolding e by (rule rune_len_four) (use a b c in auto)
  then show ?thesis by (intro utf8_valid_single_rune) (simp_all add: e)
qed

lemma encode_rune_valid: "utf8_valid (encode_rune r)"
proof -
  consider "r < 128" | "128 \<le> r" "r < 2048" | "(55296 \<le> r \<and> r < 57344) \<or> 1114111 < r"
    | "2048 \<le> r" "r < 65536" "\<not> (55296 \<le> r \<and> r < 57344)"
    | "65536 \<le> r" "r \<le> 1114111"
    by linarith
  then show ?thesis
  proof cases
    case 1
    then show ?thesis by (simp add: encode_rune_def rune_len_def)
  next
    case 2
    have "2 \<le> r div 64" "r div 64 < 32" "r mod 64 < 64" using 2 by simp_all
    then have "rune_len (encode_rune r) = 2"
      using 2 by (simp add: encode_rune_def rune_len_def cont_def)
    then show ?thesis
      by (intro utf8_valid_single_rune) (use 2 in \<open>simp_all add: encode_rune_def\<close>)
  next
    case 3
    then show ?thesis using utf8_valid_error [of "[]"] by (auto simp: encode_rune_def)
  qed (simp_all add: encode_rune_three encode_rune_four)
qed

lemma simple_esc_less: "simple_esc c = Some n \<Longrightarrow> n < 128"
  by (auto simp: simple_esc_def Let_def split: if_splits)

lemma utf8_valid_byte: "code a < 128 \<Longrightarrow> utf8_valid [a]"
  by (simp add: rune_len_ascii)

lemma unq_rune_valid:
  assumes "unq_rune s = Some (r, k)" shows "utf8_valid r"
proof -
  from assms obtain a t where s: "s = a # t" by (cases s) (auto simp: unq_rune_def)
  have e: "utf8_valid rune_error" using utf8_valid_error [of "[]"] by simp
  show ?thesis
  proof (cases "code a = 92")
    case True
    with assms s show ?thesis
      by (auto simp: unq_rune_def encode_rune_valid e rune_len_ascii dest!: simple_esc_less
          split: list.splits option.splits if_splits)
  next
    case False
    have "rune_len s \<noteq> 0 \<Longrightarrow> utf8_valid (take (rune_len s) s)"
      using utf8_valid_rune [of s "[]"] by simp
    with False assms s e show ?thesis
      by (auto simp: unq_rune_def utf8_valid_byte simp del: take_Cons' utf8_valid.simps split: if_splits)
  qed
qed

lemma unquote_valid: "unquote s = Some u \<Longrightarrow> utf8_valid u"
proof (induction s arbitrary: u rule: unquote.induct)
  case (2 a t)
  then obtain r k v where "unq_rune (a # t) = Some (r, k)" "unquote (drop (k - 1) t) = Some v" "u = r @ v"
    by (auto split: option.splits)
  with 2(1) show ?case using unq_rune_valid utf8_valid_append by blast
qed simp

section \<open>The scanner reads back printed text\<close>

lemma jrun_simps [simp]:
  "jrun s [] = s" "jrun s (c # cs) = jrun (jstep s c) cs" "jrun s (cs @ ds) = jrun (jrun s cs) ds"
  by (simp_all add: jrun_def)

lemma jstep_str [simp]: "jstep (MStr key q acc, st) c = str_step key q acc c st"
  by (simp add: jstep_def)

lemma hex_char_hex: "n < 16 \<Longrightarrow> hex_val (hex_char n) \<noteq> None"
  by simp

lemma jrun_str_esc_byte:
  assumes "n < 128"
  shows "jrun (MStr key SPlain acc, st) (esc_byte n) = (MStr key SPlain (rev (esc_byte n) @ acc), st)"
proof -
  have "n div 16 < 16" "n mod 16 < 16" using assms by simp_all
  then show ?thesis
    by (auto simp: esc_byte_def str_step_def simple_esc_def hex_val_def [of "CHR ''0''"])
qed

lemma jrun_str_plain:
  assumes "\<And>c. c \<in> set r \<Longrightarrow> code c \<noteq> 34 \<and> code c \<noteq> 92 \<and> 32 \<le> code c"
  shows "jrun (MStr key SPlain acc, st) r = (MStr key SPlain (rev r @ acc), st)"
  using assms
proof (induction r arbitrary: acc)
  case (Cons c r)
  then have "code c \<noteq> 34" "code c \<noteq> 92" "\<not> code c < 32" by force+
  with Cons show ?case by (simp add: str_step_def)
qed simp

lemma jrun_str_u:
  assumes "hex_val p \<noteq> None" "hex_val q \<noteq> None" "hex_val r \<noteq> None" "hex_val u \<noteq> None"
  shows "jrun (MStr key SPlain acc, st) [CHR 0x5C, CHR ''u'', p, q, r, u] =
    (MStr key SPlain (u # r # q # p # CHR ''u'' # CHR 0x5C # acc), st)"
  using assms by (auto simp: str_step_def)

lemma jrun_str_esc_rune:
  "jrun (MStr key SPlain acc, st) (esc_rune (a # s)) = (MStr key SPlain (rev (esc_rune (a # s)) @ acc), st)"
proof (cases "code a < 128")
  case True
  show ?thesis
  proof (cases "html_safe (code a)")
    case safe: True
    then have "code a \<noteq> 92" "code a \<noteq> 34" "32 \<le> code a" by (auto simp: html_safe_def)
    with True safe show ?thesis
      using jrun_str_plain [of "[a]" key acc st] by (simp add: esc_rune_def del: jrun_simps(2))
  next
    case False
    with True jrun_str_esc_byte [OF True] show ?thesis by (simp add: esc_rune_def)
  qed
next
  case hi: False
  let ?k = "rune_len (a # s)"
  consider (u) x y z w where "esc_rune (a # s) = [CHR 0x5C, CHR ''u'', x, y, z, w]"
      "hex_val x \<noteq> None" "hex_val y \<noteq> None" "hex_val z \<noteq> None" "hex_val w \<noteq> None"
    | (copy) "esc_rune (a # s) = take ?k (a # s)"
  proof -
    have hex: "hex_val (CHR ''f'') \<noteq> None" "hex_val (CHR ''d'') \<noteq> None" "hex_val (CHR ''2'') \<noteq> None"
      "hex_val (CHR ''0'') \<noteq> None" "hex_val (CHR ''8'') \<noteq> None" "hex_val (CHR ''9'') \<noteq> None"
      by (simp_all add: hex_val_def)
    have "esc_rune (a # s) = CHR 0x5C # ''ufffd'' \<or> esc_rune (a # s) = CHR 0x5C # ''u2028'' \<or>
        esc_rune (a # s) = CHR 0x5C # ''u2029'' \<or> esc_rune (a # s) = take ?k (a # s)"
      using hi unfolding esc_rune_def Let_def by simp
    then show thesis using u [OF _ hex(1,1,1,2)] u [OF _ hex(3,4,3,5)] u [OF _ hex(3,4,3,6)] copy
      by blast
  qed
  then show ?thesis
  proof cases
    case u
    then show ?thesis using jrun_str_u by simp
  next
    case copy
    have "code c \<noteq> 34 \<and> code c \<noteq> 92 \<and> 32 \<le> code c" if "c \<in> set (take ?k (a # s))" for c
      using rune_bytes_high [OF _ that] hi by auto
    then show ?thesis using copy jrun_str_plain by metis
  qed
qed

lemma jrun_str_escape:
  "jrun (MStr key SPlain acc, st) (escape s) = (MStr key SPlain (rev (escape s) @ acc), st)"
proof (induction s arbitrary: acc rule: escape.induct)
  case (2 a t)
  then show ?case by (simp add: jrun_str_esc_rune)
qed simp

lemma jrun_str_close:
  "jrun (MStr key SPlain [], st) (escape s @ [CHR 0x22]) =
     (if key then (MColon (coerce s), st) else complete (JStr (coerce s)) st)"
  by (simp add: jrun_str_escape str_step_def unquote_escape)

fun jcoerce :: "json \<Rightarrow> json" where
  "jcoerce (JStr s) = JStr (coerce s)"
| "jcoerce (JArr js) = JArr (map jcoerce js)"
| "jcoerce (JObj kvs) = JObj (map (\<lambda>kv. (coerce (fst kv), jcoerce (snd kv))) kvs)"
| "jcoerce j = j"

fun jdepth :: "json \<Rightarrow> nat" where
  "jdepth (JArr js) = Suc (foldr max (map jdepth js) 0)"
| "jdepth (JObj kvs) = Suc (foldr max (map (\<lambda>kv. jdepth (snd kv)) kvs) 0)"
| "jdepth _ = 0"

text \<open>A number literal: the scanner, started on it, ends inside an accepting number state.\<close>

definition num_lit :: "string \<Rightarrow> bool" where
  "num_lit l \<longleftrightarrow> l \<noteq> [] \<and> code (hd l) \<noteq> 93 \<and> \<not> is_ws (hd l) \<and>
     (\<forall>st. \<exists>q. num_final q \<and> jrun (MValue, st) l = (MNum q (rev l), st))"

fun jwf :: "json \<Rightarrow> bool" where
  "jwf (JNum l) = num_lit l"
| "jwf (JArr js) = (\<forall>j \<in> set js. jwf j)"
| "jwf (JObj kvs) = (\<forall>kv \<in> set kvs. jwf (snd kv))"
| "jwf _ = True"

lemma le_foldr_max: "x \<in> set xs \<Longrightarrow> x \<le> foldr max xs (0 :: nat)"
  by (induction xs) auto

lemma jstep_begin:
  "\<not> is_ws c \<Longrightarrow> jstep (MValue, st) c = begin_value c st"
  "\<not> is_ws c \<Longrightarrow> code c \<noteq> 93 \<Longrightarrow> jstep (MFirst, st) c = begin_value c st"
  by (simp_all add: jstep_def)

lemma is_ws_simps [simp]:
  "\<not> is_ws (CHR ''{'')" "\<not> is_ws (CHR ''['')" "\<not> is_ws (CHR 0x22)" "\<not> is_ws (CHR '','')"
  "\<not> is_ws (CHR '']'')" "\<not> is_ws (CHR ''}'')" "\<not> is_ws (CHR '':'')"
  "\<not> is_ws (CHR ''n'')" "\<not> is_ws (CHR ''t'')" "\<not> is_ws (CHR ''f'')"
  by (simp_all add: is_ws_def)

lemma begin_value_simps [simp]:
  "begin_value (CHR ''{'') st = push (FObj []) MKeyFirst st"
  "begin_value (CHR ''['') st = push (FArr []) MFirst st"
  "begin_value (CHR 0x22) st = (MStr False SPlain [], st)"
  "begin_value (CHR ''n'') st = (MLit ''ull'' JNull, st)"
  "begin_value (CHR ''t'') st = (MLit ''rue'' (JBool True), st)"
  "begin_value (CHR ''f'') st = (MLit ''alse'' (JBool False), st)"
  by (simp_all add: begin_value_def)

definition terminator :: "char \<Rightarrow> bool" where
  "terminator c \<longleftrightarrow> c = CHR '','' \<or> c = CHR '']'' \<or> c = CHR ''}''"

lemma complete_mode:
  "fst (complete v st) = MDone v \<or> fst (complete v st) = MNext \<or> fst (complete v st) = MFail"
  by (cases "(v, st)" rule: complete.cases) auto

lemma jstep_complete: "jstep (complete v st) c = resume (complete v st) c"
  by (cases "(v, st)" rule: complete.cases) (auto simp: jstep_def resume_def)

lemma num_next_terminator: "terminator c \<Longrightarrow> num_next q c = None"
  by (auto simp: terminator_def num_next_def is_digit_def split: nstate.splits)

text \<open>What the scanner does on a printed value, before a byte that may follow one.\<close>

definition scans :: "json \<Rightarrow> bool" where
  "scans j \<longleftrightarrow>
     (\<forall>st m c. length st + jdepth j \<le> max_depth \<longrightarrow> m \<in> {MValue, MFirst} \<longrightarrow> terminator c \<longrightarrow>
        jrun (m, st) (jprint j @ [c]) = resume (complete (jcoerce j) st) c)"

lemma scansD:
  assumes "scans j" "length st + jdepth j \<le> max_depth" "m \<in> {MValue, MFirst}" "terminator c"
  shows "jrun (m, st) (jprint j @ [c]) = resume (complete (jcoerce j) st) c"
  using assms unfolding scans_def by blast

lemma scansI:
  assumes "jprint j \<noteq> []" "\<not> is_ws (hd (jprint j))" "code (hd (jprint j)) \<noteq> 93"
    "\<And>st. length st + jdepth j \<le> max_depth \<Longrightarrow> jrun (MValue, st) (jprint j) = complete (jcoerce j) st"
  shows "scans j"
proof -
  obtain h t where p: "jprint j = h # t" using assms(1) by (cases "jprint j") auto
  have "jrun (m, st) (jprint j @ [c]) = resume (complete (jcoerce j) st) c"
    if "length st + jdepth j \<le> max_depth" "m \<in> {MValue, MFirst}" for st m c
  proof -
    have "jstep (m, st) h = jstep (MValue, st) h"
      using that assms p by (auto simp: jstep_begin)
    with assms(4) [OF that(1)] show ?thesis by (simp add: p jstep_complete)
  qed
  then show ?thesis by (simp add: scans_def)
qed

lemma scans_num:
  assumes "num_lit l" shows "scans (JNum l)"
proof -
  obtain h t where l: "l = h # t" using assms by (cases l) (auto simp: num_lit_def)
  have "jrun (m, st) (l @ [c]) = resume (complete (JNum l) st) c"
    if "m \<in> {MValue, MFirst}" "terminator c" for st m c
  proof -
    from assms obtain q where q: "num_final q" "jrun (MValue, st) l = (MNum q (rev l), st)"
      unfolding num_lit_def by blast
    have "jstep (m, st) h = jstep (MValue, st) h"
      using that(1) assms l by (auto simp: jstep_begin num_lit_def)
    with q have "jrun (m, st) l = (MNum q (rev l), st)" by (simp add: l)
    then show ?thesis using q(1) num_next_terminator [OF that(2)]
      by (simp add: jstep_def)
  qed
  then show ?thesis by (simp add: scans_def)
qed

lemma resume_next [simp]:
  "resume (MNext, FArr vs # st) (CHR '','') = (MValue, FArr vs # st)"
  "resume (MNext, FArr vs # st) (CHR '']'') = complete (JArr (rev vs)) st"
  "resume (MNext, FObj kvs # st) (CHR '','') = (MKey, FObj kvs # st)"
  "resume (MNext, FObj kvs # st) (CHR ''}'') = complete (JObj (rev kvs)) st"
  by (simp_all add: resume_def after_value_def)

lemma terminator_simps [simp]:
  "terminator (CHR '','')" "terminator (CHR '']'')" "terminator (CHR ''}'')"
  by (simp_all add: terminator_def)

lemma scans_elements:
  assumes "js \<noteq> []" "\<forall>j \<in> set js. scans j \<and> Suc (length st) + jdepth j \<le> max_depth"
    "m \<in> {MValue, MFirst}"
  shows "jrun (m, FArr vs # st) (sep_concat '','' (map jprint js) @ '']'') =
    complete (JArr (rev vs @ map jcoerce js)) st"
  using assms
proof (induction js arbitrary: vs m)
  case (Cons j js)
  show ?case
  proof (cases js)
    case Nil
    have "jrun (m, FArr vs # st) (jprint j @ '']'') = resume (complete (jcoerce j) (FArr vs # st)) (CHR '']'')"
      using Cons.prems by (intro scansD) auto
    with Nil show ?thesis by (simp del: jrun_simps)
  next
    case (Cons j' js')
    have "jrun (m, FArr vs # st) (jprint j @ '','') = resume (complete (jcoerce j) (FArr vs # st)) (CHR '','')"
      using Cons.prems by (intro scansD) auto
    then have step: "jrun (m, FArr vs # st) (jprint j @ '','') = (MValue, FArr (jcoerce j # vs) # st)"
      by simp
    have "jrun (m, FArr vs # st) (sep_concat '','' (map jprint (j # js)) @ '']'') =
        jrun (jrun (m, FArr vs # st) (jprint j @ '','')) (sep_concat '','' (map jprint js) @ '']'')"
      by (simp add: Cons)
    also have "\<dots> = complete (JArr (rev (jcoerce j # vs) @ map jcoerce js)) st"
      unfolding step using Cons.prems by (intro Cons.IH) (auto simp: Cons)
    finally show ?thesis by simp
  qed
qed simp

lemma scan_member_name:
  assumes "m \<in> {MKey, MKeyFirst}"
  shows "jrun (m, FObj kvs # st) (quote k @ '':'') = (MValue, FMem kvs (coerce k) # st)"
proof -
  have "jstep (m, FObj kvs # st) (CHR 0x22) = (MStr True SPlain [], FObj kvs # st)"
    using assms by (auto simp: jstep_def)
  then have "jrun (m, FObj kvs # st) (quote k) = (MColon (coerce k), FObj kvs # st)"
    using jrun_str_close [of True "FObj kvs # st" k] by (simp add: quote_def del: jrun_simps(3))
  then show ?thesis by (simp add: jstep_def)
qed

lemma scans_members:
  assumes "kvs \<noteq> []" "\<forall>kv \<in> set kvs. scans (snd kv) \<and> Suc (length st) + jdepth (snd kv) \<le> max_depth"
    "m \<in> {MKey, MKeyFirst}"
  shows "jrun (m, FObj ms # st)
      (sep_concat '','' (map (\<lambda>kv. quote (fst kv) @ CHR '':'' # jprint (snd kv)) kvs) @ ''}'') =
    complete (JObj (rev ms @ map (\<lambda>kv. (coerce (fst kv), jcoerce (snd kv))) kvs)) st"
  using assms
proof (induction kvs arbitrary: ms m)
  case (Cons kv kvs)
  obtain k j where kv: "kv = (k, j)" by (cases kv)
  have val: "jrun (m, FObj ms # st) ((quote k @ CHR '':'' # jprint j) @ [c]) =
      resume (MNext, FObj ((coerce k, jcoerce j) # ms) # st) c" if "terminator c" for c
  proof -
    have "jrun (m, FObj ms # st) ((quote k @ CHR '':'' # jprint j) @ [c]) =
        jrun (jrun (m, FObj ms # st) (quote k @ '':'')) (jprint j @ [c])"
      by simp
    also have "\<dots> = resume (complete (jcoerce j) (FMem ms (coerce k) # st)) c"
      using scan_member_name [OF Cons.prems(3)] Cons.prems(2) that
      unfolding scans_def kv by (simp del: jrun_simps)
    finally show ?thesis by simp
  qed
  show ?case
  proof (cases kvs)
    case Nil
    with val [of "CHR ''}''"] show ?thesis by (simp add: kv)
  next
    case (Cons kv' kvs')
    let ?txt = "sep_concat '','' (map (\<lambda>kv. quote (fst kv) @ CHR '':'' # jprint (snd kv)) kvs) @ ''}''"
    have "jrun (m, FObj ms # st)
        (sep_concat '','' (map (\<lambda>kv. quote (fst kv) @ CHR '':'' # jprint (snd kv)) (kv # kvs)) @ ''}'') =
        jrun (jrun (m, FObj ms # st) ((quote k @ CHR '':'' # jprint j) @ '','')) ?txt"
      by (simp add: Cons kv)
    also have "\<dots> = jrun (MKey, FObj ((coerce k, jcoerce j) # ms) # st) ?txt"
      using val [of "CHR '',''"] by (simp del: jrun_simps)
    also have "\<dots> = complete (JObj (rev ((coerce k, jcoerce j) # ms) @
        map (\<lambda>kv. (coerce (fst kv), jcoerce (snd kv))) kvs)) st"
      using Cons.prems by (intro Cons.IH) (auto simp: Cons)
    finally show ?thesis by (simp add: kv)
  qed
qed simp

lemma scan_array:
  assumes "\<forall>j \<in> set js. scans j" "length st + jdepth (JArr js) \<le> max_depth"
  shows "jrun (MValue, st) (jprint (JArr js)) = complete (jcoerce (JArr js)) st"
proof -
  have "\<forall>j \<in> set js. Suc (length st) + jdepth j \<le> max_depth"
  proof
    fix j assume "j \<in> set js"
    then have "jdepth j \<le> foldr max (map jdepth js) 0" by (intro le_foldr_max) simp
    with assms(2) show "Suc (length st) + jdepth j \<le> max_depth" by simp
  qed
  moreover have "length st < max_depth" using assms(2) by simp
  ultimately show ?thesis
    using assms(1) scans_elements [of js st MFirst "[]"]
    by (cases js) (simp_all add: jstep_begin push_def jstep_def [of "(MFirst, _)"])
qed

lemma scan_object:
  assumes "\<forall>kv \<in> set kvs. scans (snd kv)" "length st + jdepth (JObj kvs) \<le> max_depth"
  shows "jrun (MValue, st) (jprint (JObj kvs)) = complete (jcoerce (JObj kvs)) st"
proof -
  have "\<forall>kv \<in> set kvs. Suc (length st) + jdepth (snd kv) \<le> max_depth"
  proof
    fix kv assume "kv \<in> set kvs"
    then have "jdepth (snd kv) \<le> foldr max (map (\<lambda>kv. jdepth (snd kv)) kvs) 0"
      by (intro le_foldr_max) auto
    with assms(2) show "Suc (length st) + jdepth (snd kv) \<le> max_depth" by simp
  qed
  moreover have "length st < max_depth" using assms(2) by simp
  ultimately show ?thesis
    using assms(1) scans_members [of kvs st MKeyFirst "[]"]
    by (cases kvs) (simp_all add: jstep_begin push_def jstep_def [of "(MKeyFirst, _)"])
qed

lemma scans_wf: "jwf j \<Longrightarrow> scans j"
proof (induction j)
  case JNull
  show ?case by (rule scansI) (simp_all add: jstep_begin jstep_def [of "(MLit _ _, _)"])
next
  case (JBool b)
  show ?case by (rule scansI) (cases b; simp add: jstep_begin jstep_def [of "(MLit _ _, _)"])+
next
  case (JNum l)
  then show ?case by (simp add: scans_num)
next
  case (JStr s)
  show ?case
    using jrun_str_close [of False]
    by (intro scansI) (simp_all add: quote_def jstep_begin del: jrun_simps(3))
next
  case (JArr js)
  then have "\<forall>j \<in> set js. scans j" by auto
  then show ?case using scan_array by (intro scansI) simp_all
next
  case (JObj kvs)
  then have "\<forall>kv \<in> set kvs. scans (snd kv)" by (fastforce simp: snds.simps)
  then show ?case using scan_object by (intro scansI) simp_all
qed

lemma jparse_jprint_object:
  assumes "jwf (JObj kvs)" "jdepth (JObj kvs) \<le> max_depth"
  shows "jparse (jprint (JObj kvs)) = Some (jcoerce (JObj kvs))"
proof -
  have "\<forall>kv \<in> set kvs. scans (snd kv)" using assms(1) scans_wf by auto
  then have "jrun (MValue, []) (jprint (JObj kvs)) = complete (jcoerce (JObj kvs)) []"
    using scan_object [of kvs "[]"] assms(2) by simp
  then show ?thesis by (simp add: jparse_def jfinish_def del: jprint.simps)
qed

lemma jrun_digits:
  "list_all is_digit ds \<Longrightarrow> jrun (MNum NInt acc, st) ds = (MNum NInt (rev ds @ acc), st)"
  by (induction ds arbitrary: acc) (simp_all add: jstep_def num_next_def)

lemma num_lit_dec: "num_lit (dec_of_nat n)"
proof (cases "n = 0")
  case True
  then show ?thesis by (simp add: num_lit_def is_ws_def jstep_def begin_value_def num_final_def)
next
  case False
  obtain d ds where d: "dec_of_nat n = d # ds" by (cases "dec_of_nat n") auto
  then have dig: "is_digit d" "list_all is_digit ds" using dec_of_nat_digits [of n] by auto
  have "d \<noteq> CHR ''0''" using dec_of_nat_no_leading_zero [OF False] d by simp
  then have "code d \<noteq> 48" using code_inj [of d "CHR ''0''"] by auto
  with dig have c: "49 \<le> code d" "code d \<le> 57" by (auto simp: is_digit_def)
  then have "jstep (MValue, st) d = (MNum NInt [d], st)" for st
    by (simp add: jstep_def is_ws_def begin_value_def)
  moreover have "num_final NInt" by (simp add: num_final_def)
  ultimately show ?thesis using c jrun_digits [OF dig(2)]
    unfolding d num_lit_def by (auto simp: is_ws_def intro!: exI [of _ NInt])
qed

lemma jrun_invariant:
  assumes "\<And>s c. P s \<Longrightarrow> P (jstep s c)" "P s"
  shows "P (jrun s cs)"
  using assms(2)
proof (induction cs arbitrary: s)
  case (Cons c cs)
  then show ?case using assms(1) [of s c] by simp
qed simp

section \<open>Prefixes of a printed object are not JSON\<close>

text \<open>
  After an opening brace the scanner is inside a bracket until the document is done or refused, so
  it never stands at the end of a top-level number.
\<close>

fun inside :: "jstate \<Rightarrow> bool" where
  "inside (MDone v, st) = True"
| "inside (MFail, st) = True"
| "inside (m, st) = (st \<noteq> [])"

lemma inside_complete: "inside (complete v st)"
  by (cases "(v, st)" rule: complete.cases) auto

lemma inside_begin_value: "st \<noteq> [] \<Longrightarrow> inside (begin_value c st)"
  by (auto simp: begin_value_def push_def Let_def)

lemma inside_after_value: "st \<noteq> [] \<Longrightarrow> inside (after_value c st)"
  by (auto simp: after_value_def inside_complete split: list.splits frame.splits)

lemma inside_resume: "inside s \<Longrightarrow> inside (resume s c)"
  by (cases s) (auto simp: resume_def inside_after_value split: mode.splits)

lemma inside_str_step: "st \<noteq> [] \<Longrightarrow> inside (str_step key q acc c st)"
  by (auto simp: str_step_def inside_complete split: sstate.splits option.splits)

lemma inside_jstep:
  assumes "inside s" shows "inside (jstep s c)"
proof -
  obtain m st where s: "s = (m, st)" by (cases s)
  show ?thesis
  proof (cases m)
    case (MNum q acc)
    then show ?thesis using assms inside_complete inside_resume
      by (auto simp: s jstep_def split: option.splits)
  qed (use assms in \<open>auto simp: s jstep_def inside_begin_value inside_after_value inside_complete
      inside_str_step split: list.splits frame.splits\<close>)
qed

lemma inside_jrun: "inside s \<Longrightarrow> inside (jrun s cs)"
  by (rule jrun_invariant [where P = inside, OF inside_jstep])

lemma jrun_done:
  "jrun (MDone v, []) cs = (if list_all is_ws cs then (MDone v, []) else (MFail, []))"
proof (induction cs)
  case (Cons c cs)
  have "jrun (MFail, []) ds = (MFail, [])" for ds
    by (induction ds) (simp_all add: jstep_def)
  with Cons show ?case by (simp add: jstep_def)
qed simp

lemma mode_done_stack: "jrun (MValue, []) cs = (MDone v, st) \<Longrightarrow> st = []"
proof -
  have step: "(fst s \<noteq> MDone v \<or> snd s = []) \<Longrightarrow> fst (jstep s c) \<noteq> MDone v \<or> snd (jstep s c) = []" for s c
  proof -
    have comp: "fst (complete w st) = MDone v \<Longrightarrow> snd (complete w st) = []" for w st
      by (cases "(w, st)" rule: complete.cases) auto
    assume "fst s \<noteq> MDone v \<or> snd s = []"
    then show ?thesis using comp
      by (cases s; cases "fst s")
        (auto simp: jstep_def begin_value_def push_def after_value_def str_step_def resume_def Let_def
          split: option.splits sstate.splits list.splits frame.splits mode.splits prod.splits if_splits)
  qed
  have "fst (jrun (MValue, []) cs) \<noteq> MDone v \<or> snd (jrun (MValue, []) cs) = []"
    by (rule jrun_invariant [where P = "\<lambda>s. fst s \<noteq> MDone v \<or> snd s = []", OF step]) simp_all
  then show "jrun (MValue, []) cs = (MDone v, st) \<Longrightarrow> st = []" by auto
qed

lemma jparse_prefix:
  assumes "jparse (p @ r) = Some v" "p \<noteq> []" "hd p = CHR ''{''" "jparse p = Some w"
  shows "list_all is_ws r"
proof -
  obtain p' where p: "p = CHR ''{'' # p'" using assms(2,3) by (cases p) auto
  have "inside (jrun (MValue, []) p)"
    unfolding p by (simp add: jstep_begin push_def max_depth_def inside_jrun)
  then obtain st where "jrun (MValue, []) p = (MDone w, st)"
    using assms(4) unfolding jparse_def jfinish_def
    by (auto split: prod.splits mode.splits list.splits)
  then have "jrun (MValue, []) p = (MDone w, [])" using mode_done_stack by blast
  with assms(1) show ?thesis
    by (auto simp: jparse_def jfinish_def jrun_done split: if_splits)
qed

lemma torn_object_no_json:
  assumes "jprint (JObj kvs) = p @ r" "r \<noteq> []" "jparse (jprint (JObj kvs)) \<noteq> None"
  shows "jparse p = None"
proof (rule ccontr)
  assume "jparse p \<noteq> None"
  then obtain w where w: "jparse p = Some w" by auto
  then have "p \<noteq> []" by (auto simp: jparse_def jfinish_def)
  moreover have "hd p = CHR ''{''" using assms(1) \<open>p \<noteq> []\<close> by (cases p) auto
  ultimately have "list_all is_ws r" using jparse_prefix w assms(1,3) by force
  moreover have "last r = CHR ''}''"
  proof (rule prefix_butlast_Nil [OF _ assms(2)])
    show "p @ r = (CHR ''{'' # sep_concat '','' (map (\<lambda>kv. quote (fst kv) @ CHR '':'' # jprint (snd kv)) kvs)) @ ''}''"
      using assms(1) by simp
  qed
  moreover have "last r \<in> set r" using assms(2) by simp
  ultimately have "is_ws (CHR ''}'')" by (metis list_all_iff)
  then show False by simp
qed

section \<open>Decoded strings are valid UTF-8\<close>

fun jvalid :: "json \<Rightarrow> bool" where
  "jvalid (JStr s) = utf8_valid s"
| "jvalid (JArr js) = (\<forall>j \<in> set js. jvalid j)"
| "jvalid (JObj kvs) = (\<forall>kv \<in> set kvs. utf8_valid (fst kv) \<and> jvalid (snd kv))"
| "jvalid _ = True"

fun fvalid :: "frame \<Rightarrow> bool" where
  "fvalid (FArr vs) = (\<forall>v \<in> set vs. jvalid v)"
| "fvalid (FObj kvs) = jvalid (JObj kvs)"
| "fvalid (FMem kvs k) = (jvalid (JObj kvs) \<and> utf8_valid k)"

lemma jvalid_object [simp]:
  "jvalid (JObj [])" "jvalid (JObj (rev kvs)) = jvalid (JObj kvs)"
  "jvalid (JObj ((k, v) # kvs)) = (utf8_valid k \<and> jvalid v \<and> jvalid (JObj kvs))"
  by auto

lemmas jvalid_JObj = jvalid.simps(3)
declare jvalid.simps(3) [simp del]

fun svalid :: "jstate \<Rightarrow> bool" where
  "svalid (MDone v, st) = (jvalid v \<and> list_all fvalid st)"
| "svalid (MColon k, st) = (utf8_valid k \<and> list_all fvalid st)"
| "svalid (MLit l v, st) = (jvalid v \<and> list_all fvalid st)"
| "svalid (m, st) = list_all fvalid st"

lemma svalid_stack: "svalid (m, st) \<Longrightarrow> list_all fvalid st"
  by (cases m) auto

lemma svalid_complete: "jvalid v \<Longrightarrow> list_all fvalid st \<Longrightarrow> svalid (complete v st)"
  by (cases "(v, st)" rule: complete.cases) auto

lemma svalid_begin_value: "list_all fvalid st \<Longrightarrow> svalid (begin_value c st)"
  by (auto simp: begin_value_def push_def Let_def)

lemma svalid_after_value: "list_all fvalid st \<Longrightarrow> svalid (after_value c st)"
  by (auto simp: after_value_def svalid_complete split: list.splits frame.splits)

lemma svalid_resume: "svalid s \<Longrightarrow> svalid (resume s c)"
  by (cases s) (auto simp: resume_def svalid_after_value split: mode.splits)

lemma svalid_str_step: "list_all fvalid st \<Longrightarrow> svalid (str_step key q acc c st)"
  by (auto simp: str_step_def svalid_complete dest: unquote_valid split: sstate.splits option.splits)

lemma svalid_jstep:
  assumes "svalid s" shows "svalid (jstep s c)"
proof -
  obtain m st where s: "s = (m, st)" by (cases s)
  show ?thesis
  proof (cases m)
    case (MNum q acc)
    with assms s have st: "list_all fvalid st" by simp
    then have "svalid (resume (complete (JNum (rev acc)) st) c)"
      by (intro svalid_resume svalid_complete) simp_all
    with MNum st show ?thesis by (auto simp: s jstep_def split: option.splits)
  qed (use assms in \<open>auto simp: s jstep_def svalid_begin_value svalid_after_value svalid_complete
      svalid_str_step split: list.splits frame.splits\<close>)
qed

lemma svalid_jrun: "svalid s \<Longrightarrow> svalid (jrun s cs)"
  by (rule jrun_invariant [where P = svalid, OF svalid_jstep])

lemma jparse_valid: "jparse s = Some j \<Longrightarrow> jvalid j"
  using svalid_jrun [of "(MValue, [])" s]
  by (auto simp: jparse_def jfinish_def split: prod.splits mode.splits list.splits if_splits)

lemma jcoerce_valid: "jvalid j \<Longrightarrow> jcoerce j = j"
proof (induction j)
  case (JStr s)
  then show ?case by (simp add: coerce_valid)
next
  case (JArr js)
  then show ?case by (simp add: map_idI)
next
  case (JObj kvs)
  have "(\<lambda>kv. (coerce (fst kv), jcoerce (snd kv))) kv = kv" if "kv \<in> set kvs" for kv
    using JObj that by (cases kv) (fastforce simp: coerce_valid jvalid_JObj snds.simps)
  then show ?case by (simp add: map_idI)
qed simp_all

end
