(* ===== verification/GoStruct.thy ===== *)
theory GoStruct
  imports GoJsonFacts
begin

text \<open>
  Decoding a JSON value into a Go struct, as \<open>json.Unmarshal\<close> does it: members are assigned in
  document order, an unknown member is skipped, a member name that is no field name is matched
  without regard to case, \<open>null\<close> leaves the field as it is, and a value of the wrong type is an
  error.  (\<open>Unmarshal\<close> goes on after such an error and reports it at the end; its callers drop the
  half-decoded value, so the model stops.)
\<close>

declare coerce.simps(2) [simp del] utf8_valid.simps(2) [simp del] escape.simps(2) [simp del]
  unquote.simps(2) [simp del]

section \<open>Member names\<close>

text \<open>
  The case folding of \<open>encoding/json\<close> on UTF-8 text, for field names that are ASCII: besides the
  ASCII letters only the Kelvin sign (bytes E2 84 AA) and the long s (bytes C5 BF) fold to ASCII.
\<close>

fun fold_name :: "string \<Rightarrow> string" where
  "fold_name [] = []"
| "fold_name (c # s) =
     (if 65 \<le> code c \<and> code c \<le> 90 then char_of (code c + 32) # fold_name s
      else if code c = 226 then
        (case s of a # b # u \<Rightarrow>
           if code a = 132 \<and> code b = 170 then CHR ''k'' # fold_name u else c # fold_name s
         | _ \<Rightarrow> c # fold_name s)
      else if code c = 197 then
        (case s of a # u \<Rightarrow>
           if code a = 191 then CHR ''s'' # fold_name u else c # fold_name s
         | _ \<Rightarrow> c # fold_name s)
      else c # fold_name s)"

definition match_field :: "string list \<Rightarrow> string \<Rightarrow> string option" where
  "match_field names k =
     (if k \<in> set names then Some k else find (\<lambda>n. fold_name n = fold_name k) names)"

lemma match_field_known [simp]: "k \<in> set names \<Longrightarrow> match_field names k = Some k"
  by (simp add: match_field_def)

section \<open>Scalar fields\<close>

definition get_str :: "json \<Rightarrow> string \<Rightarrow> string option" where
  "get_str j cur = (case j of JStr s \<Rightarrow> Some s | JNull \<Rightarrow> Some cur | _ \<Rightarrow> None)"

definition get_u64 :: "json \<Rightarrow> u64 \<Rightarrow> u64 option" where
  "get_u64 j cur = (case j of JNum l \<Rightarrow> parse_uint l | JNull \<Rightarrow> Some cur | _ \<Rightarrow> None)"

definition get_bool :: "json \<Rightarrow> bool \<Rightarrow> bool option" where
  "get_bool j cur = (case j of JBool b \<Rightarrow> Some b | JNull \<Rightarrow> Some cur | _ \<Rightarrow> None)"

text \<open>\<open>int32\<close>: \<open>strconv.ParseInt\<close> and the overflow check of the decoder.\<close>

definition parse_int32 :: "string \<Rightarrow> int option" where
  "parse_int32 l =
     (let neg = (l \<noteq> [] \<and> hd l = CHR ''-''); ds = (if neg then tl l else l) in
      if ds \<noteq> [] \<and> list_all is_digit ds then
        let n = int (nat_of_dec 0 ds); v = (if neg then - n else n) in
        if - (2 ^ 31) \<le> v \<and> v < 2 ^ 31 then Some v else None
      else None)"

definition get_i32 :: "json \<Rightarrow> int \<Rightarrow> int option" where
  "get_i32 j cur = (case j of JNum l \<Rightarrow> parse_int32 l | JNull \<Rightarrow> Some cur | _ \<Rightarrow> None)"

definition format_int :: "int \<Rightarrow> string" where
  "format_int v = (if v < 0 then CHR ''-'' # dec_of_nat (nat (- v)) else dec_of_nat (nat v))"

lemma num_lit_format_uint [simp]: "num_lit (format_uint w)"
  by (simp add: format_uint_def num_lit_dec)

lemma num_lit_format_int [simp]: "0 \<le> v \<Longrightarrow> num_lit (format_int v)"
  by (simp add: format_int_def num_lit_dec)

text \<open>\<open>[]uint64\<close>: \<open>null\<close> gives the nil slice, which the code treats like the empty one.\<close>

fun get_u64s :: "json list \<Rightarrow> u64 list option" where
  "get_u64s [] = Some []"
| "get_u64s (j # js) =
     (case (get_u64 j 0, get_u64s js) of (Some x, Some xs) \<Rightarrow> Some (x # xs) | _ \<Rightarrow> None)"

definition get_u64_slice :: "json \<Rightarrow> u64 list \<Rightarrow> u64 list option" where
  "get_u64_slice j cur = (case j of JArr js \<Rightarrow> get_u64s js | JNull \<Rightarrow> Some [] | _ \<Rightarrow> None)"

section \<open>Structs and maps\<close>

fun set_members ::
  "(string \<Rightarrow> json \<Rightarrow> 'a \<Rightarrow> 'a option) \<Rightarrow> string list \<Rightarrow> (string \<times> json) list \<Rightarrow> 'a \<Rightarrow> 'a option" where
  "set_members f names [] x = Some x"
| "set_members f names (kv # kvs) x =
     (case match_field names (fst kv) of
        None \<Rightarrow> set_members f names kvs x
      | Some n \<Rightarrow> (case f n (snd kv) x of None \<Rightarrow> None | Some y \<Rightarrow> set_members f names kvs y))"

definition get_struct ::
  "(string \<Rightarrow> json \<Rightarrow> 'a \<Rightarrow> 'a option) \<Rightarrow> string list \<Rightarrow> json \<Rightarrow> 'a \<Rightarrow> 'a option" where
  "get_struct f names j cur =
     (case j of JObj kvs \<Rightarrow> set_members f names kvs cur | JNull \<Rightarrow> Some cur | _ \<Rightarrow> None)"

text \<open>Members of a map: each element is decoded into a zero value, and a later member wins.\<close>

fun map_members :: "(json \<Rightarrow> 'a option) \<Rightarrow> (string \<times> json) list \<Rightarrow> (string, 'a) fmap \<Rightarrow> (string, 'a) fmap option" where
  "map_members f [] m = Some m"
| "map_members f (kv # kvs) m =
     (case f (snd kv) of None \<Rightarrow> None | Some x \<Rightarrow> map_members f kvs (fmupd (fst kv) x m))"

text \<open>The nil map is \<^term>\<open>None\<close>; decoding an object into it makes it a map.\<close>

definition get_map :: "(json \<Rightarrow> 'a option) \<Rightarrow> json \<Rightarrow> (string, 'a) fmap option \<Rightarrow> (string, 'a) fmap option option" where
  "get_map f j cur =
     (case j of
        JObj kvs \<Rightarrow> map_option Some (map_members f kvs (case cur of None \<Rightarrow> fmempty | Some m \<Rightarrow> m))
      | JNull \<Rightarrow> Some None
      | _ \<Rightarrow> None)"

text \<open>A map is printed with its keys in byte order.\<close>

definition jmap :: "('a \<Rightarrow> json) \<Rightarrow> (string, 'a) fmap \<Rightarrow> json" where
  "jmap f m = JObj (map (\<lambda>kv. (fst kv, f (snd kv))) (sorted_list_of_fmap m))"

lemma get_str_JStr [simp]: "get_str (JStr s) cur = Some s"
  by (simp add: get_str_def)

lemma get_bool_JBool [simp]: "get_bool (JBool b) cur = Some b"
  by (simp add: get_bool_def)

lemma get_u64_format [simp]: "get_u64 (JNum (format_uint w)) cur = Some w"
  by (simp add: get_u64_def)

lemma get_u64s_format [simp]: "get_u64s (map (\<lambda>w. JNum (format_uint w)) ws) = Some ws"
  by (induction ws) simp_all

lemma parse_int32_format:
  assumes "- (2 ^ 31) \<le> v" "v < 2 ^ 31"
  shows "parse_int32 (format_int v) = Some v"
proof (cases "v < 0")
  case True
  then have "format_int v = CHR ''-'' # dec_of_nat (nat (- v))" by (simp add: format_int_def)
  with True assms show ?thesis
    by (simp add: parse_int32_def Let_def dec_of_nat_digits)
next
  case False
  obtain d ds where d: "dec_of_nat (nat v) = d # ds" by (cases "dec_of_nat (nat v)") auto
  then have "is_digit d" using dec_of_nat_digits [of "nat v"] by simp
  then have "d \<noteq> CHR ''-''" by (auto simp: is_digit_def)
  moreover have "list_all is_digit (d # ds)" "nat_of_dec 0 (d # ds) = nat v"
    using dec_of_nat_digits [of "nat v"] nat_of_dec_of_nat [of "nat v"] d by simp_all
  moreover have "format_int v = d # ds" using False d by (simp add: format_int_def)
  ultimately show ?thesis using False assms by (simp add: parse_int32_def Let_def)
qed

lemma map_members_sorted:
  assumes "\<And>x. x \<in> set (map snd kvs) \<Longrightarrow> f (g x) = Some x"
  shows "map_members f (map (\<lambda>kv. (fst kv, g (snd kv))) kvs) m = Some (m ++\<^sub>f fmap_of_list (rev kvs))"
  using assms
proof (induction kvs arbitrary: m)
  case (Cons kv kvs)
  then have "map_members f (map (\<lambda>kv. (fst kv, g (snd kv))) (kv # kvs)) m =
      Some (fmupd (fst kv) (snd kv) m ++\<^sub>f fmap_of_list (rev kvs))"
    by simp
  moreover have "fmupd (fst kv) (snd kv) m ++\<^sub>f fmap_of_list (rev kvs) =
      m ++\<^sub>f fmap_of_list (rev (kv # kvs))"
    by (rule fmap_ext) (auto simp: fmlookup_of_list map_of_append split: option.splits)
  ultimately show ?case by simp
qed simp

lemma distinct_sorted_list_of_fmap: "distinct (map fst (sorted_list_of_fmap m))"
  by (simp add: sorted_list_of_fmap_def comp_def sorted_list_of_fset.rep_eq)

lemma fmap_of_rev_sorted [simp]: "fmap_of_list (rev (sorted_list_of_fmap m)) = m"
proof (rule fmap_ext)
  fix k
  have "map_of (rev (sorted_list_of_fmap m)) = map_of (sorted_list_of_fmap m)"
    by (rule map_of_inject_set [THEN iffD2])
      (simp_all add: distinct_sorted_list_of_fmap rev_map [symmetric])
  then show "fmlookup (fmap_of_list (rev (sorted_list_of_fmap m))) k = fmlookup m k"
    by (simp add: fmlookup_of_list)
qed

lemma set_sorted_list_of_fmap: "set (sorted_list_of_fmap m) = {(k, v). fmlookup m k = Some v}"
  using map_of_eq_Some_iff [OF distinct_sorted_list_of_fmap] by force

lemma get_map_jmap:
  assumes "\<And>k x. fmlookup m k = Some x \<Longrightarrow> f (g x) = Some x"
  shows "get_map f (jmap g m) None = Some (Some m)"
proof -
  have "f (g x) = Some x" if "x \<in> set (map snd (sorted_list_of_fmap m))" for x
    using that assms by (auto simp: set_sorted_list_of_fmap)
  then have "map_members f (map (\<lambda>kv. (fst kv, g (snd kv))) (sorted_list_of_fmap m)) fmempty = Some m"
    by (subst map_members_sorted) simp_all
  then show ?thesis by (simp add: get_map_def jmap_def)
qed

lemma jwf_jmap: "(\<And>x. jwf (g x)) \<Longrightarrow> jwf (jmap g m)"
  by (simp add: jmap_def)

lemma jvalid_jmap:
  assumes "\<And>k x. fmlookup m k = Some x \<Longrightarrow> utf8_valid k \<and> jvalid (g x)"
  shows "jvalid (jmap g m)"
  using assms by (fastforce simp: jmap_def jvalid_JObj set_sorted_list_of_fmap)

lemma jdepth_jmap: "(\<And>x. jdepth (g x) \<le> n) \<Longrightarrow> jdepth (jmap g m) \<le> Suc n"
proof -
  assume g: "\<And>x. jdepth (g x) \<le> n"
  have "foldr max xs 0 \<le> n" if "\<forall>x \<in> set xs. x \<le> n" for xs :: "nat list"
    using that by (induction xs) auto
  then show ?thesis using g by (simp add: jmap_def comp_def)
qed

text \<open>The strings a decoder hands out occur in the value, so they are valid UTF-8.\<close>

lemma get_str_valid: "jvalid j \<Longrightarrow> utf8_valid cur \<Longrightarrow> get_str j cur = Some s \<Longrightarrow> utf8_valid s"
  by (auto simp: get_str_def split: json.splits)

lemma set_members_invariant:
  assumes "\<And>n j x y. jvalid j \<Longrightarrow> I x \<Longrightarrow> f n j x = Some y \<Longrightarrow> I y"
    "jvalid (JObj kvs)" "I x" "set_members f names kvs x = Some y"
  shows "I y"
  using assms(2-4)
proof (induction kvs arbitrary: x)
  case (Cons kv kvs)
  obtain k j where kv: "kv = (k, j)" by (cases kv)
  from Cons.prems kv have v: "jvalid j" "jvalid (JObj kvs)" by simp_all
  show ?case
  proof (cases "match_field names k")
    case None
    with Cons v kv show ?thesis by simp
  next
    case (Some n)
    with Cons.prems kv obtain z where z: "f n j x = Some z" "set_members f names kvs z = Some y"
      by (auto split: option.splits)
    with assms(1) v(1) Cons.prems(2) have "I z" by blast
    with Cons.IH v(2) z(2) show ?thesis by blast
  qed
qed simp

lemma get_struct_invariant:
  assumes "\<And>n j x y. jvalid j \<Longrightarrow> I x \<Longrightarrow> f n j x = Some y \<Longrightarrow> I y"
    "jvalid j" "I x" "get_struct f names j x = Some y"
  shows "I y"
proof (cases j)
  case (JObj kvs)
  with assms(4) have m: "set_members f names kvs x = Some y" by (simp add: get_struct_def)
  show ?thesis
  proof (rule set_members_invariant [where I = I and f = f, OF _ _ assms(3) m])
    show "jvalid (JObj kvs)" using assms(2) JObj by simp
  qed (fact assms(1))
qed (use assms(3,4) in \<open>simp_all add: get_struct_def\<close>)

lemma map_members_invariant:
  assumes "\<And>j x. jvalid j \<Longrightarrow> f j = Some x \<Longrightarrow> P x"
    "jvalid (JObj kvs)" "\<And>k x. fmlookup m k = Some x \<Longrightarrow> utf8_valid k \<and> P x"
    "map_members f kvs m = Some m'" "fmlookup m' k = Some x"
  shows "utf8_valid k \<and> P x"
  using assms(2-5)
proof (induction kvs arbitrary: m)
  case (Cons kv kvs)
  obtain l j where kv: "kv = (l, j)" by (cases kv)
  from Cons.prems(3) kv obtain y where y: "f j = Some y" "map_members f kvs (fmupd l y m) = Some m'"
    by (auto split: option.splits)
  from Cons.prems(1) kv have v: "utf8_valid l" "jvalid j" "jvalid (JObj kvs)" by simp_all
  show ?case
  proof (rule Cons.IH [OF v(3) _ y(2) Cons.prems(4)])
    fix k x assume "fmlookup (fmupd l y m) k = Some x"
    then show "utf8_valid k \<and> P x"
      using Cons.prems(2) v(1,2) y(1) assms(1) by (auto split: if_splits)
  qed
qed simp

end
