(* ===== verification/StateMachine.thy ===== *)
theory StateMachine
  imports GoStruct
begin

text \<open>
  The replicated state machine of \<open>internal/sm/sm.go\<close>: a key-value store with one session per
  client that makes retried requests apply once.  \<open>Apply\<close>, \<open>Get\<close>, \<open>Len\<close>, \<open>Snapshot\<close>, \<open>Restore\<close>,
  \<open>Hash\<close>, \<open>Encode\<close> and \<open>DecodeOp\<close> are the methods of the same names.  The abstract specification is
  a store without sessions (\<open>exec_op\<close>) run on the requests of the log that are not retries
  (\<open>effective\<close>); \<open>apply_log_refines\<close> is the refinement.
\<close>

section \<open>Data\<close>

definition OpPut :: string where "OpPut = ''put''"
definition OpAppend :: string where "OpAppend = ''append''"
definition OpDelete :: string where "OpDelete = ''delete''"

record Op =
  op_Type :: string
  op_Key :: string
  op_Val :: string
  op_ClientID :: string
  op_ReqID :: u64

record Result =
  res_Val :: string
  res_OK :: bool

record session =
  LastReq :: u64
  LastRes :: Result

type_synonym store = "(string, string) fmap"

record SM =
  kv :: store
  sessions :: "(string, session) fmap"

definition zero_Op :: Op where
  "zero_Op = \<lparr>op_Type = '''', op_Key = '''', op_Val = '''', op_ClientID = '''', op_ReqID = 0\<rparr>"

definition zero_Result :: Result where
  "zero_Result = \<lparr>res_Val = '''', res_OK = False\<rparr>"

definition zero_session :: session where
  "zero_session = \<lparr>LastReq = 0, LastRes = zero_Result\<rparr>"

definition sm_New :: SM where
  "sm_New = \<lparr>kv = fmempty, sessions = fmempty\<rparr>"

section \<open>Applying commands\<close>

text \<open>The command switch of \<open>Apply\<close>: the effect on the store and the result.\<close>

definition exec_op :: "store \<Rightarrow> Op \<Rightarrow> store \<times> Result" where
  "exec_op m op =
     (if op_Type op = OpPut then
        (fmupd (op_Key op) (op_Val op) m, \<lparr>res_Val = op_Val op, res_OK = True\<rparr>)
      else if op_Type op = OpAppend then
        (let v = (case fmlookup m (op_Key op) of None \<Rightarrow> '''' | Some w \<Rightarrow> w) @ op_Val op
         in (fmupd (op_Key op) v m, \<lparr>res_Val = v, res_OK = True\<rparr>))
      else if op_Type op = OpDelete then
        (fmdrop (op_Key op) m, \<lparr>res_Val = '''', res_OK = True\<rparr>)
      else (m, \<lparr>res_Val = '''', res_OK = False\<rparr>))"

text \<open>The cached result that answers a request, when the request is a retry.\<close>

definition cached :: "SM \<Rightarrow> Op \<Rightarrow> Result option" where
  "cached s op =
     (if op_ClientID op \<noteq> '''' then
        (case fmlookup (sessions s) (op_ClientID op) of
           Some sess \<Rightarrow> if op_ReqID op \<le> LastReq sess then Some (LastRes sess) else None
         | None \<Rightarrow> None)
      else None)"

definition Apply :: "SM \<Rightarrow> Op \<Rightarrow> SM \<times> Result" where
  "Apply s op =
     (case cached s op of
        Some r \<Rightarrow> (s, r)
      | None \<Rightarrow>
          (let (m, res) = exec_op (kv s) op;
               s' = s\<lparr>kv := m\<rparr>
           in (if op_ClientID op \<noteq> ''''
               then s'\<lparr>sessions := fmupd (op_ClientID op) \<lparr>LastReq = op_ReqID op, LastRes = res\<rparr> (sessions s)\<rparr>
               else s', res)))"

definition Get :: "SM \<Rightarrow> string \<Rightarrow> string \<times> bool" where
  "Get s key = (case fmlookup (kv s) key of Some v \<Rightarrow> (v, True) | None \<Rightarrow> ('''', False))"

definition Len :: "SM \<Rightarrow> nat" where
  "Len s = length (sorted_list_of_fmap (kv s))"

fun apply_log :: "SM \<Rightarrow> Op list \<Rightarrow> SM \<times> Result list" where
  "apply_log s [] = (s, [])"
| "apply_log s (op # ops) =
     (let (s', r) = Apply s op; (s'', rs) = apply_log s' ops in (s'', r # rs))"

section \<open>Encoding\<close>

definition op_json :: "Op \<Rightarrow> json" where
  "op_json op =
     JObj ([(''type'', JStr (op_Type op)), (''key'', JStr (op_Key op))] @
       (if op_Val op = '''' then [] else [(''val'', JStr (op_Val op))]) @
       (if op_ClientID op = '''' then [] else [(''client_id'', JStr (op_ClientID op))]) @
       (if op_ReqID op = 0 then [] else [(''req_id'', JNum (format_uint (op_ReqID op)))]))"

definition Encode :: "Op \<Rightarrow> string" where
  "Encode op = jprint (op_json op)"

definition op_names :: "string list" where
  "op_names = [''type'', ''key'', ''val'', ''client_id'', ''req_id'']"

definition set_op :: "string \<Rightarrow> json \<Rightarrow> Op \<Rightarrow> Op option" where
  "set_op n j o1 =
     (if n = ''type'' then map_option (\<lambda>s. o1\<lparr>op_Type := s\<rparr>) (get_str j (op_Type o1))
      else if n = ''key'' then map_option (\<lambda>s. o1\<lparr>op_Key := s\<rparr>) (get_str j (op_Key o1))
      else if n = ''val'' then map_option (\<lambda>s. o1\<lparr>op_Val := s\<rparr>) (get_str j (op_Val o1))
      else if n = ''client_id'' then map_option (\<lambda>s. o1\<lparr>op_ClientID := s\<rparr>) (get_str j (op_ClientID o1))
      else map_option (\<lambda>w. o1\<lparr>op_ReqID := w\<rparr>) (get_u64 j (op_ReqID o1)))"

definition DecodeOp :: "string \<Rightarrow> Op res" where
  "DecodeOp data =
     (case jparse data of
        None \<Rightarrow> Inl ErrJSON
      | Some j \<Rightarrow> (case get_struct set_op op_names j zero_Op of None \<Rightarrow> Inl ErrJSON | Some op \<Rightarrow> Inr op))"

definition result_json :: "Result \<Rightarrow> json" where
  "result_json r = JObj [(''val'', JStr (res_Val r)), (''ok'', JBool (res_OK r))]"

definition session_json :: "session \<Rightarrow> json" where
  "session_json s = JObj [(''last_req'', JNum (format_uint (LastReq s))), (''last_res'', result_json (LastRes s))]"

definition set_result :: "string \<Rightarrow> json \<Rightarrow> Result \<Rightarrow> Result option" where
  "set_result n j r =
     (if n = ''val'' then map_option (\<lambda>s. r\<lparr>res_Val := s\<rparr>) (get_str j (res_Val r))
      else map_option (\<lambda>b. r\<lparr>res_OK := b\<rparr>) (get_bool j (res_OK r)))"

definition set_session :: "string \<Rightarrow> json \<Rightarrow> session \<Rightarrow> session option" where
  "set_session n j s =
     (if n = ''last_req'' then map_option (\<lambda>w. s\<lparr>LastReq := w\<rparr>) (get_u64 j (LastReq s))
      else map_option (\<lambda>r. s\<lparr>LastRes := r\<rparr>) (get_struct set_result [''val'', ''ok''] j (LastRes s)))"

definition get_session :: "json \<Rightarrow> session option" where
  "get_session j = get_struct set_session [''last_req'', ''last_res''] j zero_session"

text \<open>\<open>snapshotData\<close>: both maps may be nil after decoding.\<close>

record snapshotData =
  sd_KV :: "(string, string) fmap option"
  sd_Sessions :: "(string, session) fmap option"

definition set_snapshotData :: "string \<Rightarrow> json \<Rightarrow> snapshotData \<Rightarrow> snapshotData option" where
  "set_snapshotData n j d =
     (if n = ''kv'' then map_option (\<lambda>m. d\<lparr>sd_KV := m\<rparr>) (get_map (\<lambda>v. get_str v '''') j (sd_KV d))
      else map_option (\<lambda>m. d\<lparr>sd_Sessions := m\<rparr>) (get_map get_session j (sd_Sessions d)))"

definition snapshot_json :: "SM \<Rightarrow> json" where
  "snapshot_json s = JObj [(''kv'', jmap JStr (kv s)), (''sessions'', jmap session_json (sessions s))]"

definition Snapshot :: "SM \<Rightarrow> string" where
  "Snapshot s = jprint (snapshot_json s)"

definition Restore :: "SM \<Rightarrow> string \<Rightarrow> SM res" where
  "Restore s data =
     (case jparse data of
        None \<Rightarrow> Inl ErrJSON
      | Some j \<Rightarrow>
          (case get_struct set_snapshotData [''kv'', ''sessions''] j \<lparr>sd_KV = None, sd_Sessions = None\<rparr> of
             None \<Rightarrow> Inl ErrJSON
           | Some d \<Rightarrow>
               Inr (s\<lparr>kv := (case sd_KV d of None \<Rightarrow> fmempty | Some m \<Rightarrow> m),
                      sessions := (case sd_Sessions d of None \<Rightarrow> fmempty | Some m \<Rightarrow> m)\<rparr>)))"

section \<open>Digest\<close>

definition fnv64a :: "string \<Rightarrow> u64" where
  "fnv64a s = foldl (\<lambda>h c. xor h (of_nat (code c)) * 1099511628211) 14695981039346656037 s"

definition digest :: "SM \<Rightarrow> string" where
  "digest s =
     concat (map (\<lambda>p. ''k|'' @ fst p @ ''|'' @ snd p @ [CHR 0x0A]) (sorted_list_of_fmap (kv s))) @
     concat (map (\<lambda>p. ''s|'' @ fst p @ ''|'' @ format_uint (LastReq (snd p)) @ ''|'' @
        res_Val (LastRes (snd p)) @ ''|'' @ (if res_OK (LastRes (snd p)) then ''true'' else ''false'') @
        [CHR 0x0A]) (sorted_list_of_fmap (sessions s)))"

definition Hash :: "SM \<Rightarrow> u64" where
  "Hash s = fnv64a (digest s)"

section \<open>The abstract store\<close>

text \<open>
  A request of a log is fresh when it is anonymous or no earlier request of its client has a
  request number as large.  The effective requests of a log are its fresh ones, in order.
\<close>

definition fresh :: "Op list \<Rightarrow> Op \<Rightarrow> bool" where
  "fresh pre op \<longleftrightarrow> op_ClientID op = '''' \<or>
     list_all (\<lambda>p. op_ClientID p = op_ClientID op \<longrightarrow> op_ReqID p < op_ReqID op) pre"

fun effective :: "Op list \<Rightarrow> Op list \<Rightarrow> Op list" where
  "effective pre [] = []"
| "effective pre (op # ops) = (if fresh pre op then [op] else []) @ effective (pre @ [op]) ops"

fun exec_log :: "store \<Rightarrow> Op list \<Rightarrow> store" where
  "exec_log m [] = m"
| "exec_log m (op # ops) = exec_log (fst (exec_op m op)) ops"

text \<open>The strings of a state are valid UTF-8 (JSON encoding then loses nothing).\<close>

definition op_valid :: "Op \<Rightarrow> bool" where
  "op_valid op \<longleftrightarrow> utf8_valid (op_Type op) \<and> utf8_valid (op_Key op) \<and> utf8_valid (op_Val op) \<and>
     utf8_valid (op_ClientID op)"

definition sm_valid :: "SM \<Rightarrow> bool" where
  "sm_valid s \<longleftrightarrow>
     fmpred (\<lambda>k v. utf8_valid k \<and> utf8_valid v) (kv s) \<and>
     fmpred (\<lambda>c sess. utf8_valid c \<and> utf8_valid (res_Val (LastRes sess))) (sessions s)"

definition op_coerce :: "Op \<Rightarrow> Op" where
  "op_coerce op = op\<lparr>op_Type := coerce (op_Type op), op_Key := coerce (op_Key op),
     op_Val := coerce (op_Val op), op_ClientID := coerce (op_ClientID op)\<rparr>"

section \<open>Exactly-once application\<close>

text \<open>What a session says about the log that led to it.\<close>

definition session_at :: "Op list \<Rightarrow> session option \<Rightarrow> string \<Rightarrow> bool" where
  "session_at pre o1 c \<longleftrightarrow>
     (case o1 of
        None \<Rightarrow> \<forall>p \<in> set pre. op_ClientID p \<noteq> c
      | Some sess \<Rightarrow> (\<forall>p \<in> set pre. op_ClientID p = c \<longrightarrow> op_ReqID p \<le> LastReq sess) \<and>
          (\<exists>p \<in> set pre. op_ClientID p = c \<and> op_ReqID p = LastReq sess))"

definition session_inv :: "Op list \<Rightarrow> SM \<Rightarrow> bool" where
  "session_inv pre s \<longleftrightarrow>
     (\<forall>c. c \<noteq> '''' \<longrightarrow>
        (case fmlookup (sessions s) c of
           None \<Rightarrow> \<forall>p \<in> set pre. op_ClientID p \<noteq> c
         | Some sess \<Rightarrow> (\<forall>p \<in> set pre. op_ClientID p = c \<longrightarrow> op_ReqID p \<le> LastReq sess) \<and>
             (\<exists>p \<in> set pre. op_ClientID p = c \<and> op_ReqID p = LastReq sess)))"

lemma session_inv_New: "session_inv [] sm_New"
  by (simp add: session_inv_def sm_New_def)

lemma cached_iff_not_fresh:
  assumes "session_inv pre s"
  shows "cached s op = None \<longleftrightarrow> fresh pre op"
proof (cases "op_ClientID op = ''''")
  case True
  then show ?thesis by (simp add: cached_def fresh_def)
next
  case False
  with assms have inv: "case fmlookup (sessions s) (op_ClientID op) of
           None \<Rightarrow> \<forall>p \<in> set pre. op_ClientID p \<noteq> op_ClientID op
         | Some sess \<Rightarrow> (\<forall>p \<in> set pre. op_ClientID p = op_ClientID op \<longrightarrow> op_ReqID p \<le> LastReq sess) \<and>
             (\<exists>p \<in> set pre. op_ClientID p = op_ClientID op \<and> op_ReqID p = LastReq sess)"
    unfolding session_inv_def by blast
  show ?thesis
  proof (cases "fmlookup (sessions s) (op_ClientID op)")
    case None
    with inv False show ?thesis by (auto simp: cached_def fresh_def list_all_iff)
  next
    case (Some sess)
    with inv obtain p where p: "p \<in> set pre" "op_ClientID p = op_ClientID op" "op_ReqID p = LastReq sess"
      and le: "\<And>p. p \<in> set pre \<Longrightarrow> op_ClientID p = op_ClientID op \<Longrightarrow> op_ReqID p \<le> LastReq sess"
      by auto
    have "fresh pre op \<longleftrightarrow> LastReq sess < op_ReqID op"
      using False p le unfolding fresh_def list_all_iff by (metis le_less_trans)
    with Some False show ?thesis by (auto simp: cached_def)
  qed
qed

lemma Apply_fresh:
  "cached s op = None \<Longrightarrow> Apply s op =
     (s\<lparr>kv := fst (exec_op (kv s) op),
        sessions := (if op_ClientID op = '''' then sessions s
          else fmupd (op_ClientID op) \<lparr>LastReq = op_ReqID op, LastRes = snd (exec_op (kv s) op)\<rparr> (sessions s))\<rparr>,
      snd (exec_op (kv s) op))"
  by (simp add: Apply_def split_beta Let_def)

lemma Apply_cached: "cached s op = Some r \<Longrightarrow> Apply s op = (s, r)"
  by (simp add: Apply_def)

lemma session_inv_at:
  "session_inv pre s \<longleftrightarrow> (\<forall>c. c \<noteq> '''' \<longrightarrow> session_at pre (fmlookup (sessions s) c) c)"
  by (simp add: session_inv_def session_at_def)

lemma session_at_other:
  "session_at pre o1 c \<Longrightarrow> op_ClientID op \<noteq> c \<Longrightarrow> session_at (pre @ [op]) o1 c"
  by (auto simp: session_at_def split: option.splits)

lemma session_inv_Apply:
  assumes "session_inv pre s"
  shows "session_inv (pre @ [op]) (fst (Apply s op))"
  unfolding session_inv_at
proof (intro allI impI)
  fix c :: string assume c: "c \<noteq> ''''"
  with assms have at: "session_at pre (fmlookup (sessions s) c) c" by (simp add: session_inv_at)
  show "session_at (pre @ [op]) (fmlookup (sessions (fst (Apply s op))) c) c"
  proof (cases "op_ClientID op = c")
    case False
    then have "fmlookup (sessions (fst (Apply s op))) c = fmlookup (sessions s) c"
      by (cases "cached s op") (simp_all add: Apply_fresh Apply_cached)
    with session_at_other [OF at False] show ?thesis by simp
  next
    case True
    show ?thesis
    proof (cases "cached s op")
      case None
      with cached_iff_not_fresh [OF assms] have "fresh pre op" by blast
      with True c None show ?thesis
        by (auto simp: session_at_def Apply_fresh fresh_def list_all_iff less_imp_le)
    next
      case (Some r)
      with True c at show ?thesis
        by (auto simp: session_at_def Apply_cached cached_def split: option.splits if_splits)
    qed
  qed
qed

lemma apply_log_append:
  "apply_log s (xs @ ys) =
     (let (s', rs) = apply_log s xs; (s'', rs') = apply_log s' ys in (s'', rs @ rs'))"
  by (induction xs arbitrary: s) (auto simp: split_beta Let_def)

lemma apply_log_state_append: "fst (apply_log s (xs @ ys)) = fst (apply_log (fst (apply_log s xs)) ys)"
  by (simp add: apply_log_append split_beta Let_def)

lemma length_apply_log [simp]: "length (snd (apply_log s ops)) = length ops"
  by (induction ops arbitrary: s) (auto simp: split_beta Let_def)

lemma apply_log_effective:
  assumes "session_inv pre s"
  shows "kv (fst (apply_log s ops)) = exec_log (kv s) (effective pre ops)"
    "session_inv (pre @ ops) (fst (apply_log s ops))"
  using assms
proof (induction ops arbitrary: pre s)
  case (Cons op ops)
  {
    case 1
    have "kv (fst (apply_log (fst (Apply s op)) ops)) =
        exec_log (kv (fst (Apply s op))) (effective (pre @ [op]) ops)"
      using Cons(1) session_inv_Apply [OF 1] by blast
    moreover have "kv (fst (Apply s op)) = (if fresh pre op then fst (exec_op (kv s) op) else kv s)"
      using cached_iff_not_fresh [OF 1, of op]
      by (cases "cached s op") (auto simp: Apply_fresh Apply_cached)
    ultimately show ?case by (simp add: split_beta Let_def)
  next
    case 2
    then show ?case using Cons(2) [OF session_inv_Apply [OF 2]] by (simp add: split_beta Let_def)
  }
qed simp_all

text \<open>
  The newest effective request of a client in a log (given newest first), with the log before it;
  and the answer the specification gives to a request after a log.
\<close>

fun last_effective :: "Op list \<Rightarrow> string \<Rightarrow> (Op list \<times> Op) option" where
  "last_effective [] c = None"
| "last_effective (op # rpre) c =
     (if op_ClientID op = c \<and> fresh (rev rpre) op then Some (rev rpre, op) else last_effective rpre c)"

definition spec_store :: "Op list \<Rightarrow> store" where
  "spec_store pre = exec_log fmempty (effective [] pre)"

definition spec_answer :: "Op list \<Rightarrow> Op \<Rightarrow> Result" where
  "spec_answer pre op =
     (if fresh pre op then snd (exec_op (spec_store pre) op)
      else (case last_effective (rev pre) (op_ClientID op) of
              None \<Rightarrow> zero_Result
            | Some (pre', op') \<Rightarrow> snd (exec_op (spec_store pre') op')))"

abbreviation run_log :: "Op list \<Rightarrow> SM" where
  "run_log ops \<equiv> fst (apply_log sm_New ops)"

lemma run_log_snoc: "run_log (ops @ [op]) = fst (Apply (run_log ops) op)"
  by (simp add: apply_log_state_append split_beta Let_def)

lemma run_log_inv: "session_inv ops (run_log ops)"
  using apply_log_effective(2) [OF session_inv_New, of ops] by simp

lemma kv_run_log: "kv (run_log ops) = spec_store ops"
  using apply_log_effective(1) [OF session_inv_New, of ops] by (simp add: spec_store_def sm_New_def)

lemma sessions_run_log:
  assumes "c \<noteq> ''''"
  shows "fmlookup (sessions (run_log ops)) c =
     map_option (\<lambda>(pre, op). \<lparr>LastReq = op_ReqID op, LastRes = snd (exec_op (spec_store pre) op)\<rparr>)
       (last_effective (rev ops) c)"
proof (induction ops rule: rev_induct)
  case (snoc op ops)
  have fr: "cached (run_log ops) op = None \<longleftrightarrow> fresh ops op"
    by (rule cached_iff_not_fresh [OF run_log_inv])
  show ?case
  proof (cases "cached (run_log ops) op")
    case None
    with fr snoc assms show ?thesis
      by (auto simp: run_log_snoc Apply_fresh kv_run_log)
  next
    case (Some r)
    with fr snoc show ?thesis by (auto simp: run_log_snoc Apply_cached)
  qed
qed (simp add: sm_New_def)

lemma Apply_run_log: "snd (Apply (run_log ops) op) = spec_answer ops op"
proof (cases "cached (run_log ops) op")
  case None
  with cached_iff_not_fresh [OF run_log_inv, of ops op] show ?thesis
    by (simp add: Apply_fresh spec_answer_def kv_run_log)
next
  case (Some r)
  with cached_iff_not_fresh [OF run_log_inv, of ops op] have nf: "\<not> fresh ops op" by simp
  from Some have c: "op_ClientID op \<noteq> ''''" by (auto simp: cached_def split: if_splits)
  from Some c obtain sess where "fmlookup (sessions (run_log ops)) (op_ClientID op) = Some sess" "r = LastRes sess"
    by (auto simp: cached_def split: option.splits if_splits)
  with nf Some sessions_run_log [OF c, of ops] show ?thesis
    by (auto simp: spec_answer_def Apply_cached split: option.splits)
qed

lemma apply_log_results: "i < length ops \<Longrightarrow> snd (apply_log sm_New ops) ! i = spec_answer (take i ops) (ops ! i)"
proof (induction ops rule: rev_induct)
  case (snoc op ops)
  then show ?case
    by (cases "i < length ops")
      (auto simp: apply_log_append split_beta Let_def nth_append Apply_run_log)
qed simp

lemma Apply_other_session:
  "op_ClientID p \<noteq> c \<Longrightarrow> fmlookup (sessions (fst (Apply s p))) c = fmlookup (sessions s) c"
  by (cases "cached s p") (simp_all add: Apply_fresh Apply_cached)

lemma apply_log_other_session:
  "\<forall>p \<in> set mid. op_ClientID p \<noteq> c \<Longrightarrow>
     fmlookup (sessions (fst (apply_log s mid))) c = fmlookup (sessions s) c"
  by (induction mid arbitrary: s) (simp_all add: split_beta Let_def Apply_other_session)

lemma cached_after_Apply:
  "op_ClientID op \<noteq> '''' \<Longrightarrow>
     \<exists>sess. fmlookup (sessions (fst (Apply s op))) (op_ClientID op) = Some sess \<and>
       op_ReqID op \<le> LastReq sess \<and> LastRes sess = snd (Apply s op)"
  by (cases "cached s op") (auto simp: Apply_fresh Apply_cached cached_def split: if_splits option.splits)

text \<open>
  C5: the state machine is an exactly-once store.  After any log, the store is the one obtained by
  executing only the fresh requests (the requests that are not retries of their client) in log
  order, and the answer to every request is the result of its own execution when it is fresh and
  otherwise the recorded result of its client's newest fresh request.
\<close>

theorem apply_log_refines:
  "kv (fst (apply_log sm_New ops)) = exec_log fmempty (effective [] ops) \<and>
   snd (apply_log sm_New ops) = map (\<lambda>i. spec_answer (take i ops) (ops ! i)) [0..<length ops]"
  by (intro conjI nth_equalityI) (simp_all add: kv_run_log spec_store_def apply_log_results)

text \<open>
  C13: a retry is harmless and gets the original answer.  When a client with an id repeats a request,
  with requests of other clients in between, the state does not change and the result is the one of
  the first application.
\<close>

theorem retry_gets_first_answer:
  assumes "op_ClientID op \<noteq> ''''"
    and "Apply s op = (s1, r)"
    and "list_all (\<lambda>p. op_ClientID p \<noteq> op_ClientID op) mid"
    and "s2 = fst (apply_log s1 mid)"
  shows "Apply s2 op = (s2, r)"
proof -
  from cached_after_Apply [OF assms(1), of s] assms(2) obtain sess
    where "fmlookup (sessions s1) (op_ClientID op) = Some sess" "op_ReqID op \<le> LastReq sess" "LastRes sess = r"
    by auto
  with assms(1,3,4) have "cached s2 op = Some r"
    by (simp add: cached_def apply_log_other_session list_all_iff)
  then show ?thesis by (rule Apply_cached)
qed

definition wit_append :: Op where
  "wit_append = \<lparr>op_Type = OpAppend, op_Key = ''k'', op_Val = ''x'', op_ClientID = ''c1'', op_ReqID = 1\<rparr>"

definition wit_other :: Op where
  "wit_other = wit_append\<lparr>op_ClientID := ''c2''\<rparr>"

theorem retry_gets_first_answer_witness:
  "let s1 = fst (Apply sm_New wit_append); s2 = fst (apply_log s1 [wit_other])
   in Apply s2 wit_append = (s2, \<lparr>res_Val = ''x'', res_OK = True\<rparr>)"
  unfolding Let_def
  by (rule retry_gets_first_answer [where s = sm_New and mid = "[wit_other]"]) code_simp+

section \<open>Round trips\<close>



lemma jcoerce_op_json:
  "jcoerce (op_json op) = JObj ([(''type'', JStr (coerce (op_Type op))), (''key'', JStr (coerce (op_Key op)))] @
       (if op_Val op = '''' then [] else [(''val'', JStr (coerce (op_Val op)))]) @
       (if op_ClientID op = '''' then [] else [(''client_id'', JStr (coerce (op_ClientID op)))]) @
       (if op_ReqID op = 0 then [] else [(''req_id'', JNum (format_uint (op_ReqID op)))]))"
  by (simp add: op_json_def coerce_ascii)

lemma jparse_Encode: "jparse (Encode op) = Some (jcoerce (op_json op))"
  unfolding Encode_def op_json_def
  by (rule jparse_jprint_object) (simp_all add: max_depth_def)

lemma decode_encode: "DecodeOp (Encode op) = Inr (op_coerce op)"
proof -
  have "get_struct set_op op_names (jcoerce (op_json op)) zero_Op = Some (op_coerce op)"
    by (simp add: jcoerce_op_json get_struct_def op_names_def set_op_def op_coerce_def zero_Op_def)
  then show ?thesis by (simp add: DecodeOp_def jparse_Encode)
qed

lemma decode_valid_op: "op_valid op \<Longrightarrow> DecodeOp (Encode op) = Inr op"
  by (simp add: decode_encode op_valid_def op_coerce_def coerce_valid)

text \<open>
  C15: a command survives the wire.  Decoding an encoded command gives the command back with each
  invalid UTF-8 byte of its strings replaced by U+FFFD, and the command itself when its strings are
  valid UTF-8.
\<close>

theorem DecodeOp_Encode:
  "DecodeOp (Encode op) = Inr (op_coerce op) \<and> (op_valid op \<longrightarrow> op_coerce op = op)"
  by (simp add: decode_encode op_valid_def op_coerce_def coerce_valid)

theorem DecodeOp_Encode_witness:
  "op_valid wit_append \<and> DecodeOp (Encode wit_append) = Inr wit_append"
proof
  show v: "op_valid wit_append" by code_simp
  show "DecodeOp (Encode wit_append) = Inr wit_append" using DecodeOp_Encode [of wit_append] v by simp
qed

lemma exec_op_valid:
  assumes "fmpred (\<lambda>k v. utf8_valid k \<and> utf8_valid v) m" "op_valid op"
  shows "fmpred (\<lambda>k v. utf8_valid k \<and> utf8_valid v) (fst (exec_op m op)) \<and>
    utf8_valid (res_Val (snd (exec_op m op)))"
proof -
  have "utf8_valid w" if "fmlookup m (op_Key op) = Some w" for w
    using assms(1) that by (blast intro: fmpredD)
  with assms show ?thesis
    by (auto simp: exec_op_def op_valid_def Let_def utf8_valid_append split: option.splits)
qed

lemma sm_valid_New: "sm_valid sm_New"
  by (simp add: sm_valid_def sm_New_def)

lemma sm_valid_Apply:
  assumes "sm_valid s" "op_valid op"
  shows "sm_valid (fst (Apply s op))"
proof (cases "cached s op")
  case None
  from assms exec_op_valid [of "kv s" op] have
    "fmpred (\<lambda>k v. utf8_valid k \<and> utf8_valid v) (fst (exec_op (kv s) op))"
    "utf8_valid (res_Val (snd (exec_op (kv s) op)))" "utf8_valid (op_ClientID op)"
    by (auto simp: sm_valid_def op_valid_def)
  with assms None show ?thesis by (auto simp: Apply_fresh sm_valid_def)
qed (use assms in \<open>simp add: Apply_cached\<close>)

lemma sm_valid_apply_log: "sm_valid s \<Longrightarrow> list_all op_valid ops \<Longrightarrow> sm_valid (fst (apply_log s ops))"
  by (induction ops arbitrary: s) (auto simp: split_beta Let_def sm_valid_Apply)

lemma DecodeOp_valid: "DecodeOp data = Inr op \<Longrightarrow> op_valid op"
proof -
  assume "DecodeOp data = Inr op"
  then obtain j where "jparse data = Some j" "get_struct set_op op_names j zero_Op = Some op"
    by (auto simp: DecodeOp_def split: option.splits)
  then show ?thesis
    by (elim get_struct_invariant [where I = op_valid, rotated 3] jparse_valid)
      (auto simp: set_op_def op_valid_def zero_Op_def get_str_valid split: if_splits)
qed

lemma jwf_session_json: "jwf (session_json x)"
  by (simp add: session_json_def result_json_def)

lemma jdepth_session_json: "jdepth (session_json x) \<le> 2"
  by (simp add: session_json_def result_json_def)

lemma get_session_json: "get_session (session_json x) = Some x"
  by (simp add: get_session_def session_json_def get_struct_def set_session_def result_json_def set_result_def)

lemma jparse_Snapshot:
  assumes "sm_valid s"
  shows "jparse (Snapshot s) = Some (snapshot_json s)"
proof -
  have wf: "jwf (snapshot_json s)"
    by (simp add: snapshot_json_def jwf_jmap jwf_session_json)
  have "jdepth (jmap JStr (kv s)) \<le> Suc 2" "jdepth (jmap session_json (sessions s)) \<le> Suc 2"
    by (rule jdepth_jmap; simp add: jdepth_session_json)+
  then have d: "jdepth (snapshot_json s) \<le> max_depth"
    by (simp add: snapshot_json_def max_depth_def)
  have "jvalid (jmap JStr (kv s))" "jvalid (jmap session_json (sessions s))"
    using assms
    by (auto intro!: jvalid_jmap simp: sm_valid_def session_json_def result_json_def utf8_valid_ascii dest: fmpredD)
  then have "jvalid (snapshot_json s)"
    by (simp add: snapshot_json_def utf8_valid_ascii)
  then show ?thesis
    using wf d unfolding Snapshot_def snapshot_json_def
    by (subst jparse_jprint_object) (simp_all add: jcoerce_valid del: jcoerce.simps)
qed

lemma Restore_Snapshot:
  assumes "sm_valid s"
  shows "Restore t (Snapshot s) = Inr s"
proof -
  have "get_map (\<lambda>v. get_str v '''') (jmap JStr (kv s)) None = Some (Some (kv s))"
    "get_map get_session (jmap session_json (sessions s)) None = Some (Some (sessions s))"
    by (rule get_map_jmap; simp add: get_session_json)+
  then show ?thesis
    by (simp add: Restore_def jparse_Snapshot [OF assms] snapshot_json_def get_struct_def set_snapshotData_def)
qed

text \<open>
  C14: a snapshot captures the whole state machine.  Whatever entries a replica has decoded and
  applied, restoring its snapshot (into any state machine) gives exactly its state, sessions
  included.
\<close>

theorem snapshot_roundtrip:
  assumes "list_all (\<lambda>p. DecodeOp (fst p) = Inr (snd p)) entries"
    and "s = fst (apply_log sm_New (map snd entries))"
  shows "Restore t (Snapshot s) = Inr s"
proof -
  have "list_all op_valid (map snd entries)"
    using assms(1) by (auto simp: list_all_iff intro: DecodeOp_valid)
  then show ?thesis
    using assms(2) by (simp add: Restore_Snapshot sm_valid_apply_log sm_valid_New)
qed

theorem snapshot_roundtrip_witness:
  "Restore sm_New (Snapshot (fst (apply_log sm_New [wit_append, wit_other]))) =
     Inr (fst (apply_log sm_New [wit_append, wit_other]))"
proof (rule snapshot_roundtrip)
  show "list_all (\<lambda>p. DecodeOp (fst p) = Inr (snd p))
      [(Encode wit_append, wit_append), (Encode wit_other, wit_other)]"
    by code_simp
qed simp

text \<open>
  The state digest is not injective.  Keys, values and results are joined with unescaped
  separators, so two different stores (the key \<open>a\<close> holding \<open>b|c\<close> and the key \<open>a|b\<close> holding \<open>c\<close>) have
  the same \<open>Hash\<close>: equal hashes do not show that two replicas hold the same data.
\<close>

theorem Hash_collision:
  "\<exists>p q. kv (fst (Apply sm_New p)) \<noteq> kv (fst (Apply sm_New q)) \<and> op_valid p \<and> op_valid q \<and>
     Hash (fst (Apply sm_New p)) = Hash (fst (Apply sm_New q))"
proof (intro exI conjI)
  let ?p = "\<lparr>op_Type = OpPut, op_Key = ''a'', op_Val = ''b|c'', op_ClientID = '''', op_ReqID = 0\<rparr>"
  let ?q = "\<lparr>op_Type = OpPut, op_Key = ''a|b'', op_Val = ''c'', op_ClientID = '''', op_ReqID = 0\<rparr>"
  show "kv (fst (Apply sm_New ?p)) \<noteq> kv (fst (Apply sm_New ?q))"
  proof
    assume "kv (fst (Apply sm_New ?p)) = kv (fst (Apply sm_New ?q))"
    then have "fmlookup (kv (fst (Apply sm_New ?p))) ''a'' = fmlookup (kv (fst (Apply sm_New ?q))) ''a''"
      by simp
    then show False
      by (simp add: Apply_def cached_def exec_op_def OpPut_def sm_New_def)
  qed
  show "op_valid ?p" "op_valid ?q" by code_simp+
  have "digest (fst (Apply sm_New ?p)) = digest (fst (Apply sm_New ?q))" by code_simp
  then show "Hash (fst (Apply sm_New ?p)) = Hash (fst (Apply sm_New ?q))" by (simp only: Hash_def)
qed

end
