(* ===== verification/Disk.thy ===== *)
theory Disk
  imports Prelude
begin

text \<open>
  The part of package \<open>os\<close> that \<open>internal/storage/storage.go\<close> uses, on one directory.

  A file is its bytes and how many of them have been made durable by \<open>Sync\<close>.  Every call takes the
  next item of a list of faults: with no fault it succeeds, with a fault it fails, and a failing
  write leaves a prefix of its bytes behind.  The program stops at the first error without touching
  the disk again, so the disk after a fault is also the disk at a crash at that call; \<open>power_loss\<close>
  then drops any part of the bytes that were never synced.  A rename replaces its target in one
  step.  That renames and new files survive a power loss, although the program never syncs its
  directory, is an assumption on the file system: \<open>power_loss\<close> is a crash of one that keeps its
  directory, and the recovery theorems name it (\<open>keeps_directory\<close>).  Writes through \<open>bufio.Writer\<close>
  reach the file as one write at \<open>Flush\<close>: the chunks of 4096 bytes it may write earlier leave the
  same bytes, and a failing chunk leaves a prefix of them.
\<close>

record file_data =
  fbytes :: string
  fsynced :: nat

datatype fault = NoFault | Fault nat

record disk =
  files :: "(string, file_data) fmap"
  faults :: "fault list"

text \<open>
  Calls on a state: a result or an error, and the state afterwards.  An error ends the calling
  function, as the early returns of the code do.
\<close>

type_synonym ('s, 'a) call = "'s \<Rightarrow> 'a res \<times> 's"
type_synonym ('s, 'a) io = "('s disk_scheme, 'a) call"

definition io_ret :: "'a \<Rightarrow> ('s, 'a) call" where
  "io_ret x s = (Inr x, s)"

definition io_fail :: "err \<Rightarrow> ('s, 'a) call" where
  "io_fail e s = (Inl e, s)"

definition io_bind :: "('s, 'a) call \<Rightarrow> ('a \<Rightarrow> ('s, 'b) call) \<Rightarrow> ('s, 'b) call" where
  "io_bind m k s = (case m s of (Inl e, s') \<Rightarrow> (Inl e, s') | (Inr x, s') \<Rightarrow> k x s')"

definition io_lift :: "'a res \<Rightarrow> ('s, 'a) call" where
  "io_lift r s = (r, s)"

definition take_fault :: "('s, nat option) io" where
  "take_fault s =
     (case faults s of
        [] \<Rightarrow> (Inr None, s)
      | NoFault # fs \<Rightarrow> (Inr None, s\<lparr>faults := fs\<rparr>)
      | Fault n # fs \<Rightarrow> (Inr (Some n), s\<lparr>faults := fs\<rparr>))"

definition set_file :: "string \<Rightarrow> file_data \<Rightarrow> ('s, unit) io" where
  "set_file name f s = (Inr (), s\<lparr>files := fmupd name f (files s)\<rparr>)"

definition get_file :: "string \<Rightarrow> ('s, file_data option) io" where
  "get_file name s = (Inr (fmlookup (files s) name), s)"

definition os_MkdirAll :: "('s, unit) io" where
  "os_MkdirAll = io_bind take_fault (\<lambda>f. case f of None \<Rightarrow> io_ret () | Some _ \<Rightarrow> io_fail ErrIO)"

definition file_Close :: "('s, unit) io" where
  "file_Close = io_bind take_fault (\<lambda>f. case f of None \<Rightarrow> io_ret () | Some _ \<Rightarrow> io_fail ErrIO)"

definition os_OpenTrunc :: "string \<Rightarrow> ('s, unit) io" where
  "os_OpenTrunc name = io_bind take_fault (\<lambda>f. case f of
       None \<Rightarrow> set_file name \<lparr>fbytes = [], fsynced = 0\<rparr> | Some _ \<Rightarrow> io_fail ErrIO)"

definition os_OpenAppend :: "string \<Rightarrow> ('s, unit) io" where
  "os_OpenAppend name = io_bind take_fault (\<lambda>f. case f of
       None \<Rightarrow> io_bind (get_file name) (\<lambda>g. case g of
         None \<Rightarrow> set_file name \<lparr>fbytes = [], fsynced = 0\<rparr> | Some _ \<Rightarrow> io_ret ())
     | Some _ \<Rightarrow> io_fail ErrIO)"

definition file_Write :: "string \<Rightarrow> string \<Rightarrow> ('s, unit) io" where
  "file_Write name data = io_bind take_fault (\<lambda>f. io_bind (get_file name) (\<lambda>g.
     case g of None \<Rightarrow> io_fail ErrIO
     | Some h \<Rightarrow> (case f of
         None \<Rightarrow> set_file name (h\<lparr>fbytes := fbytes h @ data\<rparr>)
       | Some n \<Rightarrow> io_bind (set_file name (h\<lparr>fbytes := fbytes h @ take n data\<rparr>)) (\<lambda>_. io_fail ErrIO))))"

definition file_Sync :: "string \<Rightarrow> ('s, unit) io" where
  "file_Sync name = io_bind take_fault (\<lambda>f. io_bind (get_file name) (\<lambda>g.
     case (f, g) of (None, Some h) \<Rightarrow> set_file name (h\<lparr>fsynced := length (fbytes h)\<rparr>) | _ \<Rightarrow> io_fail ErrIO))"

definition os_Rename :: "string \<Rightarrow> string \<Rightarrow> ('s, unit) io" where
  "os_Rename src dst = io_bind take_fault (\<lambda>f. io_bind (get_file src) (\<lambda>g.
     case (f, g) of
       (None, Some h) \<Rightarrow> (\<lambda>s. (Inr (), s\<lparr>files := fmupd dst h (fmdrop src (files s))\<rparr>))
     | _ \<Rightarrow> io_fail ErrIO))"

text \<open>\<open>os.ReadFile\<close> and \<open>os.Open\<close>: \<^term>\<open>None\<close> is the error that \<open>os.IsNotExist\<close> recognises.\<close>

definition os_ReadFile :: "string \<Rightarrow> ('s, string option) io" where
  "os_ReadFile name = io_bind take_fault (\<lambda>f. case f of
       None \<Rightarrow> io_bind (get_file name) (\<lambda>g. io_ret (map_option fbytes g))
     | Some _ \<Rightarrow> io_fail ErrIO)"

definition os_StatSize :: "string \<Rightarrow> ('s, nat) io" where
  "os_StatSize name = io_bind take_fault (\<lambda>f. io_bind (get_file name) (\<lambda>g.
     case (f, g) of (None, Some h) \<Rightarrow> io_ret (length (fbytes h)) | _ \<Rightarrow> io_fail ErrIO))"

text \<open>
  Power loss keeps at least the synced bytes of each file; \<open>keep\<close> says how many it keeps.  The directory itself
  survives, which no call of the program asks for.
\<close>

definition lose :: "nat \<Rightarrow> file_data \<Rightarrow> file_data" where
  "lose n f = (let b = take (max (fsynced f) n) (fbytes f) in \<lparr>fbytes = b, fsynced = length b\<rparr>)"

definition power_loss :: "(string \<Rightarrow> nat) \<Rightarrow> (string, file_data) fmap \<Rightarrow> (string, file_data) fmap" where
  "power_loss keep = fmmap_keys (\<lambda>name. lose (keep name))"

definition durable :: "file_data \<Rightarrow> bool" where
  "durable f \<longleftrightarrow> fsynced f = length (fbytes f)"

section \<open>Rules\<close>

lemma call_simps [simp]:
  "io_ret x s = (Inr x, s)"
  "io_fail e s = (Inl e, s)"
  "io_lift r s = (r, s)"
  by (simp_all add: io_ret_def io_fail_def io_lift_def)

lemma io_simps [simp]:
  "set_file name f s = (Inr (), s\<lparr>files := fmupd name f (files s)\<rparr>)"
  "get_file name s = (Inr (fmlookup (files s) name), s)"
  by (simp_all add: set_file_def get_file_def)

lemma io_bind_simps [simp]:
  "m s = (Inl e, s') \<Longrightarrow> io_bind m k s = (Inl e, s')"
  "m s = (Inr x, s') \<Longrightarrow> io_bind m k s = k x s'"
  by (simp_all add: io_bind_def)

text \<open>A call that succeeds is a call that met no fault; what it did.\<close>

lemma take_fault_clean [simp]: "faults s = [] \<Longrightarrow> take_fault s = (Inr None, s)"
  by (simp add: take_fault_def)

lemma take_fault_cases:
  obtains (ok) fs where "take_fault s = (Inr None, s\<lparr>faults := fs\<rparr>)"
  | (faulty) n fs where "take_fault s = (Inr (Some n), s\<lparr>faults := fs\<rparr>)"
proof (cases "faults s")
  case Nil
  with ok [of "[]"] show ?thesis by (simp add: take_fault_def)
next
  case (Cons f fs)
  with ok faulty show ?thesis by (cases f) (auto simp: take_fault_def)
qed

text \<open>
  The outcomes of the calls, for any list of faults: success, or failure with \<open>ErrIO\<close>.  With no
  faults left a call succeeds and leaves none.
\<close>

definition spent :: "'s disk_scheme \<Rightarrow> fault list \<Rightarrow> bool" where
  "spent s fs \<longleftrightarrow> (faults s = [] \<longrightarrow> fs = [])"

lemma spent_faults [simp]: "spent (s\<lparr>faults := fs\<rparr>) fs' \<longleftrightarrow> (fs = [] \<longrightarrow> fs' = [])"
  by (simp add: spent_def)

lemma take_fault_outcome:
  "\<exists>fs. spent s fs \<and>
     (take_fault s = (Inr None, s\<lparr>faults := fs\<rparr>) \<or>
      faults s \<noteq> [] \<and> (\<exists>n. take_fault s = (Inr (Some n), s\<lparr>faults := fs\<rparr>)))"
  by (rule exI [of _ "tl (faults s)"])
    (auto simp: take_fault_def spent_def split: list.splits fault.splits)

lemma os_MkdirAll_outcome:
  "\<exists>fs. spent s fs \<and>
     (os_MkdirAll s = (Inr (), s\<lparr>faults := fs\<rparr>) \<or> faults s \<noteq> [] \<and> os_MkdirAll s = (Inl ErrIO, s\<lparr>faults := fs\<rparr>))"
  using take_fault_outcome [of s] by (auto simp: os_MkdirAll_def)

lemma file_Close_outcome:
  "\<exists>fs. spent s fs \<and>
     (file_Close s = (Inr (), s\<lparr>faults := fs\<rparr>) \<or> faults s \<noteq> [] \<and> file_Close s = (Inl ErrIO, s\<lparr>faults := fs\<rparr>))"
  using take_fault_outcome [of s] by (auto simp: file_Close_def)

lemma os_OpenTrunc_outcome:
  "\<exists>fs. spent s fs \<and>
     (os_OpenTrunc name s = (Inr (), s\<lparr>faults := fs, files := fmupd name \<lparr>fbytes = [], fsynced = 0\<rparr> (files s)\<rparr>) \<or>
      faults s \<noteq> [] \<and> os_OpenTrunc name s = (Inl ErrIO, s\<lparr>faults := fs\<rparr>))"
  using take_fault_outcome [of s] by (auto simp: os_OpenTrunc_def)

lemma os_OpenAppend_outcome:
  "\<exists>fs. spent s fs \<and>
     (os_OpenAppend name s =
        (Inr (), s\<lparr>faults := fs, files := (if fmlookup (files s) name = None
           then fmupd name \<lparr>fbytes = [], fsynced = 0\<rparr> (files s) else files s)\<rparr>) \<or>
      faults s \<noteq> [] \<and> os_OpenAppend name s = (Inl ErrIO, s\<lparr>faults := fs\<rparr>))"
  using take_fault_outcome [of s] by (auto simp: os_OpenAppend_def split: option.splits)

lemma file_Write_outcome:
  assumes "fmlookup (files s) name = Some h"
  shows "\<exists>fs. spent s fs \<and>
     (file_Write name data s =
        (Inr (), s\<lparr>faults := fs, files := fmupd name (h\<lparr>fbytes := fbytes h @ data\<rparr>) (files s)\<rparr>) \<or>
      faults s \<noteq> [] \<and> (\<exists>n. file_Write name data s =
        (Inl ErrIO, s\<lparr>faults := fs, files := fmupd name (h\<lparr>fbytes := fbytes h @ take n data\<rparr>) (files s)\<rparr>)))"
  using take_fault_outcome [of s] assms by (auto simp: file_Write_def) blast

lemma file_Sync_outcome:
  assumes "fmlookup (files s) name = Some h"
  shows "\<exists>fs. spent s fs \<and>
     (file_Sync name s =
        (Inr (), s\<lparr>faults := fs, files := fmupd name (h\<lparr>fsynced := length (fbytes h)\<rparr>) (files s)\<rparr>) \<or>
      faults s \<noteq> [] \<and> file_Sync name s = (Inl ErrIO, s\<lparr>faults := fs\<rparr>))"
  using take_fault_outcome [of s] assms by (auto simp: file_Sync_def)

lemma os_Rename_outcome:
  assumes "fmlookup (files s) src = Some h"
  shows "\<exists>fs. spent s fs \<and>
     (os_Rename src dst s = (Inr (), s\<lparr>faults := fs, files := fmupd dst h (fmdrop src (files s))\<rparr>) \<or>
      faults s \<noteq> [] \<and> os_Rename src dst s = (Inl ErrIO, s\<lparr>faults := fs\<rparr>))"
  using take_fault_outcome [of s] assms by (auto simp: os_Rename_def)

lemma os_ReadFile_outcome:
  "\<exists>fs. spent s fs \<and>
     (os_ReadFile name s = (Inr (map_option fbytes (fmlookup (files s) name)), s\<lparr>faults := fs\<rparr>) \<or>
      faults s \<noteq> [] \<and> os_ReadFile name s = (Inl ErrIO, s\<lparr>faults := fs\<rparr>))"
  using take_fault_outcome [of s] by (auto simp: os_ReadFile_def)

lemma fmlookup_power_loss [simp]:
  "fmlookup (power_loss keep fs) name = map_option (lose (keep name)) (fmlookup fs name)"
  by (simp add: power_loss_def)

lemma lose_durable: "durable f \<Longrightarrow> lose n f = f"
  by (cases f) (simp add: lose_def durable_def Let_def)

lemma lose_bytes: "\<exists>k \<ge> fsynced f. fbytes (lose n f) = take k (fbytes f)"
  by (intro exI [of _ "max (fsynced f) n"]) (simp add: lose_def Let_def)

lemma durable_lose [simp]: "durable (lose n f)"
  by (simp add: lose_def durable_def Let_def)

end
