(* ===== verification/RaftApi.thy ===== *)
theory RaftApi
  imports Prelude
begin

text \<open>
  The interface of the raft library the program is linked with (\<open>go.etcd.io/raft/v3\<close>): the data
  types of \<open>raftpb\<close> the program reads and writes, and \<open>raft.MemoryStorage\<close> as a parameter.  The
  library is not part of the repository, so its operations are a record of functions \<open>mem_ops\<close>
  that the definitions of the program take as an argument; the locale \<open>memory_storage\<close> collects what
  the library documents about them, through a view of the storage as a snapshot, a compaction
  point, the entries after it and a hard state.  \<open>ref_mem\<close> is an instance that has every law.
\<close>

section \<open>Data types of raftpb\<close>

record Entry =
  e_Index :: u64
  e_Term :: u64
  e_Type :: int
  e_Data :: string

record HardState =
  hs_Term :: u64
  hs_Vote :: u64
  hs_Commit :: u64

record ConfState =
  cs_Voters :: "u64 list"
  cs_Learners :: "u64 list"
  cs_VotersOutgoing :: "u64 list"
  cs_LearnersNext :: "u64 list"
  cs_AutoLeave :: bool

record RaftSnapshot =
  sn_Data :: string
  sn_Index :: u64
  sn_Term :: u64
  sn_Conf :: ConfState

definition zero_ConfState :: ConfState where
  "zero_ConfState = \<lparr>cs_Voters = [], cs_Learners = [], cs_VotersOutgoing = [], cs_LearnersNext = [], cs_AutoLeave = False\<rparr>"

definition zero_Snapshot :: RaftSnapshot where
  "zero_Snapshot = \<lparr>sn_Data = '''', sn_Index = 0, sn_Term = 0, sn_Conf = zero_ConfState\<rparr>"

definition zero_HardState :: HardState where
  "zero_HardState = \<lparr>hs_Term = 0, hs_Vote = 0, hs_Commit = 0\<rparr>"

definition EntryNormal :: int where "EntryNormal = 0"
definition EntryConfChange :: int where "EntryConfChange = 1"

section \<open>MemoryStorage\<close>

record 'm mem_ops =
  ms_New :: 'm
  ms_Append :: "'m \<Rightarrow> Entry list \<Rightarrow> 'm res"
  ms_SetHardState :: "'m \<Rightarrow> HardState \<Rightarrow> 'm res"
  ms_ApplySnapshot :: "'m \<Rightarrow> RaftSnapshot \<Rightarrow> 'm res"
  ms_CreateSnapshot :: "'m \<Rightarrow> u64 \<Rightarrow> ConfState \<Rightarrow> string \<Rightarrow> ('m \<times> RaftSnapshot) res"
  ms_Compact :: "'m \<Rightarrow> u64 \<Rightarrow> 'm res"
  ms_Snapshot :: "'m \<Rightarrow> RaftSnapshot"
  ms_FirstIndex :: "'m \<Rightarrow> u64"
  ms_LastIndex :: "'m \<Rightarrow> u64"
  ms_Entries :: "'m \<Rightarrow> u64 \<Rightarrow> u64 \<Rightarrow> nat \<Rightarrow> Entry list res"

text \<open>
  What a storage holds: the latest snapshot, the index and term of the entry before the first one
  kept, the entries kept, and the hard state.
\<close>

record mem_view =
  mv_snap :: RaftSnapshot
  mv_off :: u64
  mv_offterm :: u64
  mv_ents :: "Entry list"
  mv_hs :: HardState

definition empty_view :: mem_view where
  "empty_view = \<lparr>mv_snap = zero_Snapshot, mv_off = 0, mv_offterm = 0, mv_ents = [], mv_hs = zero_HardState\<rparr>"

text \<open>Consecutive entries that follow the index \<open>i\<close>, none of them at an index that wraps.\<close>

fun follows :: "u64 \<Rightarrow> Entry list \<Rightarrow> bool" where
  "follows i [] = True"
| "follows i (e # es) = (i < i + 1 \<and> e_Index e = i + 1 \<and> follows (i + 1) es)"

text \<open>The log after entries are appended: a conflicting suffix is replaced.\<close>

definition splice_log :: "Entry list \<Rightarrow> Entry list \<Rightarrow> Entry list" where
  "splice_log old es = (case es of [] \<Rightarrow> old | e # _ \<Rightarrow> takeWhile (\<lambda>x. e_Index x < e_Index e) old @ es)"

definition last_index :: "u64 \<Rightarrow> Entry list \<Rightarrow> u64" where
  "last_index off es = (if es = [] then off else e_Index (last es))"

text \<open>Entries may be appended when they are consecutive and leave no gap to the log.\<close>

definition appendable :: "u64 \<Rightarrow> Entry list \<Rightarrow> Entry list \<Rightarrow> bool" where
  "appendable off old es \<longleftrightarrow> es \<noteq> [] \<and> off < e_Index (hd es) \<and> e_Index (hd es) - 1 \<le> last_index off old \<and>
     follows (e_Index (hd es) - 1) es"

definition entry_size :: "Entry \<Rightarrow> nat" where
  "entry_size e = length (e_Data e)"

locale memory_storage =
  fixes M :: "'m mem_ops" and view :: "'m \<Rightarrow> mem_view"
  assumes view_New: "view (ms_New M) = empty_view"
    and Append_view: "follows (mv_off (view m)) (mv_ents (view m)) \<Longrightarrow>
        appendable (mv_off (view m)) (mv_ents (view m)) es \<Longrightarrow>
        \<exists>m'. ms_Append M m es = Inr m' \<and> view m' = (view m)\<lparr>mv_ents := splice_log (mv_ents (view m)) es\<rparr>"
    and SetHardState_view: "\<exists>m'. ms_SetHardState M m hs = Inr m' \<and> view m' = (view m)\<lparr>mv_hs := hs\<rparr>"
    and ApplySnapshot_view: "sn_Index (mv_snap (view m)) < sn_Index sn \<Longrightarrow>
        \<exists>m'. ms_ApplySnapshot M m sn = Inr m' \<and>
          view m' = (view m)\<lparr>mv_snap := sn, mv_off := sn_Index sn, mv_offterm := sn_Term sn, mv_ents := []\<rparr>"
    and ApplySnapshot_old: "sn_Index sn \<le> sn_Index (mv_snap (view m)) \<Longrightarrow>
        ms_ApplySnapshot M m sn = Inl ErrSnapOutOfDate"
    and CreateSnapshot_view: "follows (mv_off (view m)) (mv_ents (view m)) \<Longrightarrow>
        sn_Index (mv_snap (view m)) < i \<Longrightarrow> mv_off (view m) \<le> i \<Longrightarrow>
        i \<le> last_index (mv_off (view m)) (mv_ents (view m)) \<Longrightarrow>
        \<exists>m' t. ms_CreateSnapshot M m i cs data =
            Inr (m', \<lparr>sn_Data = data, sn_Index = i, sn_Term = t, sn_Conf = cs\<rparr>) \<and>
          view m' = (view m)\<lparr>mv_snap := \<lparr>sn_Data = data, sn_Index = i, sn_Term = t, sn_Conf = cs\<rparr>\<rparr>"
    and CreateSnapshot_old: "i \<le> sn_Index (mv_snap (view m)) \<Longrightarrow>
        ms_CreateSnapshot M m i cs data = Inl ErrSnapOutOfDate"
    and Compact_view: "follows (mv_off (view m)) (mv_ents (view m)) \<Longrightarrow>
        mv_off (view m) < i \<Longrightarrow> i \<le> last_index (mv_off (view m)) (mv_ents (view m)) \<Longrightarrow>
        \<exists>m' t. ms_Compact M m i = Inr m' \<and>
          view m' = (view m)\<lparr>mv_off := i, mv_offterm := t,
            mv_ents := dropWhile (\<lambda>x. e_Index x \<le> i) (mv_ents (view m))\<rparr>"
    and Snapshot_view: "ms_Snapshot M m = mv_snap (view m)"
    and FirstIndex_view: "ms_FirstIndex M m = mv_off (view m) + 1"
    and LastIndex_view: "follows (mv_off (view m)) (mv_ents (view m)) \<Longrightarrow>
        ms_LastIndex M m = last_index (mv_off (view m)) (mv_ents (view m))"
    and Entries_view: "follows (mv_off (view m)) (mv_ents (view m)) \<Longrightarrow> mv_ents (view m) \<noteq> [] \<Longrightarrow>
        last_index (mv_off (view m)) (mv_ents (view m)) < last_index (mv_off (view m)) (mv_ents (view m)) + 1 \<Longrightarrow>
        \<exists>n. ms_Entries M m (mv_off (view m) + 1) (last_index (mv_off (view m)) (mv_ents (view m)) + 1) limit =
            Inr (take (Suc n) (mv_ents (view m))) \<and>
          (sum_list (map (\<lambda>e. entry_size e + 64) (mv_ents (view m))) \<le> limit \<longrightarrow>
            length (mv_ents (view m)) \<le> Suc n)"

section \<open>Facts about consecutive entries\<close>

lemma follows_index_gt: "follows i es \<Longrightarrow> e \<in> set es \<Longrightarrow> i < e_Index e"
  by (induction es arbitrary: i) fastforce+

lemma follows_append:
  "follows i (xs @ ys) \<longleftrightarrow> follows i xs \<and> follows (last_index i xs) ys"
  by (induction xs arbitrary: i) (auto simp: last_index_def)

lemma follows_sorted: "follows i es \<Longrightarrow> sorted_wrt (\<lambda>a b. e_Index a < e_Index b) es"
proof (induction es arbitrary: i)
  case (Cons e es)
  then show ?case using follows_index_gt [of "i + 1" es] by auto
qed simp

lemma last_index_append:
  "last_index i (xs @ ys) = last_index (last_index i xs) ys"
  by (simp add: last_index_def)

lemma last_index_Cons: "last_index i (e # es) = last_index (e_Index e) es"
  by (simp add: last_index_def)

lemma follows_le_last: "follows i es \<Longrightarrow> i \<le> last_index i es"
  by (cases es rule: rev_cases) (auto simp: last_index_def dest!: follows_index_gt)

lemma word_pred_Suc: "(i :: u64) < j \<Longrightarrow> j - 1 + 1 = j"
  by simp

lemma word_le_pred: "(i :: u64) < j \<Longrightarrow> i \<le> j - 1"
proof -
  assume "i < j"
  then have "unat i < unat j" by (simp add: word_less_nat_alt)
  moreover have "unat (j - 1) = unat j - 1"
    using \<open>i < j\<close> by (subst u64_le_diff) (auto simp: word_le_nat_alt word_less_nat_alt)
  ultimately show ?thesis by (simp add: word_le_nat_alt)
qed

lemma follows_index_le: "follows i es \<Longrightarrow> e \<in> set es \<Longrightarrow> e_Index e \<le> last_index i es"
proof (induction es arbitrary: i)
  case (Cons x es)
  then show ?case
    using follows_le_last [of "e_Index x" es] by (auto simp: last_index_Cons)
qed simp

lemma follows_split:
  assumes "follows i es" "i \<le> k" "k \<le> last_index i es"
  shows "\<exists>xs ys. es = xs @ ys \<and> follows i xs \<and> last_index i xs = k \<and> follows k ys"
  using assms
proof (induction es arbitrary: i)
  case Nil
  then have "k = i" by (simp add: last_index_def)
  then show ?case by (intro exI [of _ "[]"]) (simp add: last_index_def)
next
  case (Cons e es)
  show ?case
  proof (cases "k = i")
    case True
    with Cons.prems show ?thesis by (intro exI [of _ "[]"] exI [of _ "e # es"]) (simp add: last_index_def)
  next
    case False
    with Cons.prems have "i + 1 \<le> k" by (simp add: inc_le)
    with Cons.prems obtain xs ys where "es = xs @ ys" "follows (i + 1) xs" "last_index (i + 1) xs = k" "follows k ys"
      using Cons.IH [of "i + 1"] by (auto simp: last_index_Cons)
    with Cons.prems show ?thesis
      by (intro exI [of _ "e # xs"] exI [of _ ys]) (simp add: last_index_Cons)
  qed
qed

lemma split_while:
  assumes "follows i xs" "last_index i xs = k" "follows k ys"
  shows "takeWhile (\<lambda>x. e_Index x \<le> k) (xs @ ys) = xs" "dropWhile (\<lambda>x. e_Index x \<le> k) (xs @ ys) = ys"
proof -
  have "\<forall>x \<in> set xs. e_Index x \<le> k" using assms(1,2) follows_index_le by blast
  moreover have "ys = [] \<or> \<not> e_Index (hd ys) \<le> k"
    using assms(3) follows_index_gt by (cases ys) fastforce+
  ultimately show "takeWhile (\<lambda>x. e_Index x \<le> k) (xs @ ys) = xs" "dropWhile (\<lambda>x. e_Index x \<le> k) (xs @ ys) = ys"
    by (cases ys; simp)+
qed

lemma follows_drop:
  assumes "follows i es" "i \<le> k" "k \<le> last_index i es"
  shows "follows k (dropWhile (\<lambda>x. e_Index x \<le> k) es)"
    "last_index k (dropWhile (\<lambda>x. e_Index x \<le> k) es) = last_index i es"
  using follows_split [OF assms] split_while(2) by (auto simp: last_index_append)

lemma follows_drop_past: "follows i es \<Longrightarrow> last_index i es \<le> k \<Longrightarrow> dropWhile (\<lambda>x. e_Index x \<le> k) es = []"
  using follows_index_le [of i es] by (auto simp: dropWhile_eq_Nil_conv intro: order_trans)

lemma less_iff_le_pred: "(0 :: u64) < k \<Longrightarrow> x < k \<longleftrightarrow> x \<le> k - 1"
  using word_le_pred [of x k] by (auto intro: order.strict_trans1 simp: word_less_nat_alt word_le_nat_alt unat_sub u64_le_diff)

lemma follows_splice:
  assumes "follows i old" "appendable i old es"
  shows "follows i (splice_log old es)" "last_index i (splice_log old es) = last_index i es"
proof -
  from assms(2) obtain e es' where es: "es = e # es'" by (cases es) (auto simp: appendable_def)
  with assms(2) have lt: "i < e_Index e" and le: "e_Index e - 1 \<le> last_index i old"
    and f: "follows (e_Index e - 1) es"
    by (auto simp: appendable_def)
  obtain xs ys where xy: "old = xs @ ys" "follows i xs" "last_index i xs = e_Index e - 1" "follows (e_Index e - 1) ys"
    using follows_split [OF assms(1) word_le_pred [OF lt] le] by blast
  have "0 < e_Index e" using lt by (metis not_less_zero word_neq_0_conv word_gt_0 word_not_simps(1))
  then have "splice_log old es = xs @ es"
    using split_while(1) [OF xy(2-4)] xy(1) by (simp add: splice_log_def es less_iff_le_pred)
  with xy f show "follows i (splice_log old es)" "last_index i (splice_log old es) = last_index i es"
    by (simp_all add: follows_append last_index_append last_index_def es)
qed

section \<open>An instance\<close>

text \<open>A storage that is its own view, with every case of the documented operations.\<close>

definition ref_term :: "mem_view \<Rightarrow> u64 \<Rightarrow> u64" where
  "ref_term v i =
     (if i = mv_off v then mv_offterm v
      else case find (\<lambda>e. e_Index e = i) (mv_ents v) of None \<Rightarrow> 0 | Some e \<Rightarrow> e_Term e)"

definition ref_last :: "mem_view \<Rightarrow> u64" where
  "ref_last v = last_index (mv_off v) (mv_ents v)"

definition ref_Append :: "mem_view \<Rightarrow> Entry list \<Rightarrow> mem_view res" where
  "ref_Append v es0 =
     (let es = dropWhile (\<lambda>e. e_Index e \<le> mv_off v) es0 in
      if es = [] then Inr v
      else if ref_last v < e_Index (hd es) - 1 then Inl ErrPanic
      else Inr (v\<lparr>mv_ents := splice_log (mv_ents v) es\<rparr>))"

definition ref_ApplySnapshot :: "mem_view \<Rightarrow> RaftSnapshot \<Rightarrow> mem_view res" where
  "ref_ApplySnapshot v sn =
     (if sn_Index sn \<le> sn_Index (mv_snap v) then Inl ErrSnapOutOfDate
      else Inr (v\<lparr>mv_snap := sn, mv_off := sn_Index sn, mv_offterm := sn_Term sn, mv_ents := []\<rparr>))"

definition ref_CreateSnapshot ::
  "mem_view \<Rightarrow> u64 \<Rightarrow> ConfState \<Rightarrow> string \<Rightarrow> (mem_view \<times> RaftSnapshot) res" where
  "ref_CreateSnapshot v i cs data =
     (if i \<le> sn_Index (mv_snap v) then Inl ErrSnapOutOfDate
      else if ref_last v < i then Inl ErrPanic
      else let sn = \<lparr>sn_Data = data, sn_Index = i, sn_Term = ref_term v i, sn_Conf = cs\<rparr>
           in Inr (v\<lparr>mv_snap := sn\<rparr>, sn))"

definition ref_Compact :: "mem_view \<Rightarrow> u64 \<Rightarrow> mem_view res" where
  "ref_Compact v i =
     (if i \<le> mv_off v then Inl ErrCompacted
      else if ref_last v < i then Inl ErrPanic
      else Inr (v\<lparr>mv_off := i, mv_offterm := ref_term v i,
             mv_ents := dropWhile (\<lambda>x. e_Index x \<le> i) (mv_ents v)\<rparr>))"

fun limit_size :: "nat \<Rightarrow> nat \<Rightarrow> Entry list \<Rightarrow> Entry list" where
  "limit_size sz limit [] = []"
| "limit_size sz limit (e # es) =
     (let sz' = sz + entry_size e + 64 in
      if limit < sz' then [] else e # limit_size sz' limit es)"

definition ref_Entries :: "mem_view \<Rightarrow> u64 \<Rightarrow> u64 \<Rightarrow> nat \<Rightarrow> Entry list res" where
  "ref_Entries v lo hi limit =
     (if lo \<le> mv_off v then Inl ErrCompacted
      else if ref_last v + 1 < hi then Inl ErrPanic
      else case takeWhile (\<lambda>x. e_Index x < hi) (dropWhile (\<lambda>x. e_Index x < lo) (mv_ents v)) of
             [] \<Rightarrow> Inl ErrUnavailable
           | e # es \<Rightarrow> Inr (e # limit_size (entry_size e + 64) limit es))"

definition ref_mem :: "mem_view mem_ops" where
  "ref_mem = \<lparr>ms_New = empty_view, ms_Append = ref_Append,
     ms_SetHardState = (\<lambda>v hs. Inr (v\<lparr>mv_hs := hs\<rparr>)), ms_ApplySnapshot = ref_ApplySnapshot,
     ms_CreateSnapshot = ref_CreateSnapshot, ms_Compact = ref_Compact,
     ms_Snapshot = mv_snap, ms_FirstIndex = (\<lambda>v. mv_off v + 1), ms_LastIndex = ref_last, ms_Entries = ref_Entries\<rparr>"

lemma limit_size_take:
  "\<exists>n. limit_size sz limit es = take n es \<and>
     (sz + sum_list (map (\<lambda>e. entry_size e + 64) es) \<le> limit \<longrightarrow> length es \<le> n)"
proof (induction es arbitrary: sz)
  case (Cons e es)
  from Cons [of "sz + entry_size e + 64"] obtain n where
    n: "limit_size (sz + entry_size e + 64) limit es = take n es"
      "sz + entry_size e + 64 + sum_list (map (\<lambda>e. entry_size e + 64) es) \<le> limit \<longrightarrow> length es \<le> n"
    by blast
  show ?case
  proof (cases "limit < sz + entry_size e + 64")
    case True
    then show ?thesis by (intro exI [of _ 0]) (auto simp: Let_def)
  next
    case False
    with n show ?thesis by (intro exI [of _ "Suc n"]) (auto simp: Let_def)
  qed
qed simp

lemma ref_Append_appendable:
  assumes "follows (mv_off v) (mv_ents v)" "appendable (mv_off v) (mv_ents v) es"
  shows "ref_Append v es = Inr (v\<lparr>mv_ents := splice_log (mv_ents v) es\<rparr>)"
proof -
  from assms(2) obtain e es' where "es = e # es'" "mv_off v < e_Index e"
    by (cases es) (auto simp: appendable_def)
  then have "dropWhile (\<lambda>e. e_Index e \<le> mv_off v) es = es" "es \<noteq> []" by auto
  with assms(2) show ?thesis
    by (simp add: ref_Append_def appendable_def ref_last_def Let_def not_less)
qed

lemma follows_nth_less:
  "follows i es \<Longrightarrow> es \<noteq> [] \<Longrightarrow> last_index i es < last_index i es + 1 \<Longrightarrow>
     takeWhile (\<lambda>x. e_Index x < last_index i es + 1) (dropWhile (\<lambda>x. e_Index x < i + 1) es) = es"
proof -
  assume f: "follows i es" "es \<noteq> []" and w: "last_index i es < last_index i es + 1"
  then have "dropWhile (\<lambda>x. e_Index x < i + 1) es = es" by (cases es) auto
  moreover have "\<forall>x \<in> set es. e_Index x < last_index i es + 1"
    using f(1) follows_index_le w by (meson le_less_trans)
  ultimately show ?thesis by simp
qed

lemma ref_Entries_all:
  assumes "follows (mv_off v) (mv_ents v)" "mv_ents v \<noteq> []" "ref_last v < ref_last v + 1"
  shows "\<exists>n. ref_Entries v (mv_off v + 1) (ref_last v + 1) limit = Inr (take (Suc n) (mv_ents v)) \<and>
    (sum_list (map (\<lambda>e. entry_size e + 64) (mv_ents v)) \<le> limit \<longrightarrow> length (mv_ents v) \<le> Suc n)"
proof -
  obtain e es where es: "mv_ents v = e # es" using assms(2) by (cases "mv_ents v") auto
  then have "\<not> mv_off v + 1 \<le> mv_off v" using assms(1) by auto
  moreover have "takeWhile (\<lambda>x. e_Index x < ref_last v + 1) (dropWhile (\<lambda>x. e_Index x < mv_off v + 1) (mv_ents v)) = e # es"
    using follows_nth_less [OF assms(1,2)] assms(3) es by (simp add: ref_last_def)
  ultimately have "ref_Entries v (mv_off v + 1) (ref_last v + 1) limit = Inr (e # limit_size (entry_size e + 64) limit es)"
    by (simp add: ref_Entries_def)
  with limit_size_take [of "entry_size e + 64" limit es] es show ?thesis by auto
qed

interpretation ref: memory_storage ref_mem "\<lambda>v. v"
proof
  fix v :: mem_view and es assume "follows (mv_off v) (mv_ents v)" "appendable (mv_off v) (mv_ents v) es"
  then show "\<exists>m'. ms_Append ref_mem v es = Inr m' \<and> m' = v\<lparr>mv_ents := splice_log (mv_ents v) es\<rparr>"
    by (simp add: ref_mem_def ref_Append_appendable)
next
  fix v :: mem_view and limit assume "follows (mv_off v) (mv_ents v)" "mv_ents v \<noteq> []"
    "last_index (mv_off v) (mv_ents v) < last_index (mv_off v) (mv_ents v) + 1"
  then show "\<exists>n. ms_Entries ref_mem v (mv_off v + 1) (last_index (mv_off v) (mv_ents v) + 1) limit =
      Inr (take (Suc n) (mv_ents v)) \<and>
      (sum_list (map (\<lambda>e. entry_size e + 64) (mv_ents v)) \<le> limit \<longrightarrow> length (mv_ents v) \<le> Suc n)"
    using ref_Entries_all [of v limit] by (simp add: ref_mem_def ref_last_def)
next
  fix v :: mem_view and i assume "mv_off v < i" "i \<le> last_index (mv_off v) (mv_ents v)"
  then show "\<exists>m' t. ms_Compact ref_mem v i = Inr m' \<and>
      m' = v\<lparr>mv_off := i, mv_offterm := t, mv_ents := dropWhile (\<lambda>x. e_Index x \<le> i) (mv_ents v)\<rparr>"
    by (intro exI [of _ "ref_term v i"] exI) (auto simp: ref_mem_def ref_Compact_def ref_last_def)
qed (simp_all add: ref_mem_def ref_ApplySnapshot_def ref_CreateSnapshot_def ref_Compact_def ref_last_def Let_def not_le not_less)

end
