(* ===== verification/Storage.thy ===== *)
theory Storage
  imports Disk GoStruct RaftApi
begin

text \<open>
  \<open>internal/storage/storage.go\<close>: the write-ahead log \<open>wal.log\<close>, the hard state file and the snapshot
  file, on the disk of theory \<open>Disk\<close>.  \<open>Open\<close>, \<open>Append\<close>, \<open>SetHardState\<close>, \<open>SaveSnapshot\<close>, \<open>CreateSnapshot\<close>
  and \<open>SnapshotFileSize\<close> are the methods of \<open>DiskStorage\<close>, with the embedded \<open>raft.MemoryStorage\<close> as the
  parameter \<open>M\<close>.  Files are bytes: records are printed and parsed by the JSON and base64 codecs of
  the Go library theories.
\<close>

section \<open>State\<close>

definition walName :: string where "walName = ''wal.log''"
definition hardStateName :: string where "hardStateName = ''hardstate.json''"
definition snapshotName :: string where "snapshotName = ''snapshot.json''"

text \<open>
  \<open>DiskStorage\<close> with its directory: the in-memory storage and whether \<open>ds.wal\<close> is an open handle
  (on \<open>wal.log\<close>; it is closed, and nil, before \<open>Open\<close> and between the close and the reopening in
  \<open>resetWAL\<close>).
\<close>

record 'm DiskStorage = disk +
  mem :: 'm
  wal :: bool

text \<open>A call of the embedded memory storage that changes it.\<close>

definition mem_call :: "('m \<Rightarrow> 'm res) \<Rightarrow> 'm DiskStorage \<Rightarrow> unit res \<times> 'm DiskStorage" where
  "mem_call f s = (case f (mem s) of Inl e \<Rightarrow> (Inl e, s) | Inr m \<Rightarrow> (Inr (), s\<lparr>mem := m\<rparr>))"

section \<open>Records on disk\<close>

record walRecord =
  wr_Index :: u64
  wr_Term :: u64
  wr_Type :: int
  wr_Data :: string

definition wal_json :: "walRecord \<Rightarrow> json" where
  "wal_json r =
     JObj ([(''i'', JNum (format_uint (wr_Index r))), (''t'', JNum (format_uint (wr_Term r))),
            (''y'', JNum (format_int (wr_Type r)))] @
       (if wr_Data r = '''' then [] else [(''d'', JStr (wr_Data r))]))"

definition set_walRecord :: "string \<Rightarrow> json \<Rightarrow> walRecord \<Rightarrow> walRecord option" where
  "set_walRecord n j r =
     (if n = ''i'' then map_option (\<lambda>w. r\<lparr>wr_Index := w\<rparr>) (get_u64 j (wr_Index r))
      else if n = ''t'' then map_option (\<lambda>w. r\<lparr>wr_Term := w\<rparr>) (get_u64 j (wr_Term r))
      else if n = ''y'' then map_option (\<lambda>v. r\<lparr>wr_Type := v\<rparr>) (get_i32 j (wr_Type r))
      else map_option (\<lambda>s. r\<lparr>wr_Data := s\<rparr>) (get_str j (wr_Data r)))"

definition decode_walRecord :: "string \<Rightarrow> walRecord option" where
  "decode_walRecord line =
     (case jparse line of
        None \<Rightarrow> None
      | Some j \<Rightarrow> get_struct set_walRecord [''i'', ''t'', ''y'', ''d''] j
          \<lparr>wr_Index = 0, wr_Term = 0, wr_Type = 0, wr_Data = ''''\<rparr>)"

definition entry_record :: "Entry \<Rightarrow> walRecord" where
  "entry_record e = \<lparr>wr_Index = e_Index e, wr_Term = e_Term e, wr_Type = e_Type e, wr_Data = b64_encode (e_Data e)\<rparr>"

text \<open>\<open>json.Encoder.Encode\<close> of one record: the object and a newline.\<close>

definition wal_line :: "Entry \<Rightarrow> string" where
  "wal_line e = jprint (wal_json (entry_record e)) @ [CHR 0x0A]"

definition wal_bytes :: "Entry list \<Rightarrow> string" where
  "wal_bytes es = concat (map wal_line es)"

definition hardState_json :: "HardState \<Rightarrow> json" where
  "hardState_json hs = JObj [(''term'', JNum (format_uint (hs_Term hs))),
     (''vote'', JNum (format_uint (hs_Vote hs))), (''commit'', JNum (format_uint (hs_Commit hs)))]"

definition set_hardState :: "string \<Rightarrow> json \<Rightarrow> HardState \<Rightarrow> HardState option" where
  "set_hardState n j h =
     (if n = ''term'' then map_option (\<lambda>w. h\<lparr>hs_Term := w\<rparr>) (get_u64 j (hs_Term h))
      else if n = ''vote'' then map_option (\<lambda>w. h\<lparr>hs_Vote := w\<rparr>) (get_u64 j (hs_Vote h))
      else map_option (\<lambda>w. h\<lparr>hs_Commit := w\<rparr>) (get_u64 j (hs_Commit h)))"

record snapshotFile =
  sf_Index :: u64
  sf_Term :: u64
  sf_Voters :: "u64 list"
  sf_Learners :: "u64 list"
  sf_Data :: string

text \<open>A nil slice of voters is printed as \<open>null\<close> (the empty slice of raft is the nil one).\<close>

definition u64s_json :: "u64 list \<Rightarrow> json" where
  "u64s_json ws = (if ws = [] then JNull else JArr (map (\<lambda>w. JNum (format_uint w)) ws))"

definition snapshotFile_json :: "snapshotFile \<Rightarrow> json" where
  "snapshotFile_json sf =
     JObj ([(''index'', JNum (format_uint (sf_Index sf))), (''term'', JNum (format_uint (sf_Term sf))),
            (''voters'', u64s_json (sf_Voters sf))] @
       (if sf_Learners sf = [] then [] else [(''learners'', u64s_json (sf_Learners sf))]) @
       [(''data'', JStr (sf_Data sf))])"

definition set_snapshotFile :: "string \<Rightarrow> json \<Rightarrow> snapshotFile \<Rightarrow> snapshotFile option" where
  "set_snapshotFile n j f =
     (if n = ''index'' then map_option (\<lambda>w. f\<lparr>sf_Index := w\<rparr>) (get_u64 j (sf_Index f))
      else if n = ''term'' then map_option (\<lambda>w. f\<lparr>sf_Term := w\<rparr>) (get_u64 j (sf_Term f))
      else if n = ''voters'' then map_option (\<lambda>w. f\<lparr>sf_Voters := w\<rparr>) (get_u64_slice j (sf_Voters f))
      else if n = ''learners'' then map_option (\<lambda>w. f\<lparr>sf_Learners := w\<rparr>) (get_u64_slice j (sf_Learners f))
      else map_option (\<lambda>s. f\<lparr>sf_Data := s\<rparr>) (get_str j (sf_Data f)))"

definition snapshot_file :: "RaftSnapshot \<Rightarrow> snapshotFile" where
  "snapshot_file sn = \<lparr>sf_Index = sn_Index sn, sf_Term = sn_Term sn, sf_Voters = cs_Voters (sn_Conf sn),
     sf_Learners = cs_Learners (sn_Conf sn), sf_Data = b64_encode (sn_Data sn)\<rparr>"

section \<open>Reading the files\<close>

text \<open>
  \<open>bufio.Scanner\<close> with \<open>ScanLines\<close> and the limit \<open>1 << 26\<close>: the lines up to the first one that does
  not fit the buffer, and whether there was such a line.  The carriage return before a newline is
  dropped, and a last line without newline is a line.
\<close>

definition max_line :: nat where "max_line = 2 ^ 26"

definition drop_cr :: "string \<Rightarrow> string" where
  "drop_cr l = (if l \<noteq> [] \<and> last l = CHR 0x0D then butlast l else l)"

fun scan_lines :: "string \<Rightarrow> string \<Rightarrow> string list \<times> bool" where
  "scan_lines acc [] =
     (if acc = [] then ([], False)
      else if max_line \<le> length acc then ([], True) else ([drop_cr (rev acc)], False))"
| "scan_lines acc (c # cs) =
     (if c = CHR 0x0A then
        (if max_line \<le> length acc then ([], True)
         else let (ls, long) = scan_lines [] cs in (drop_cr (rev acc) # ls, long))
      else scan_lines (c # acc) cs)"

definition truncate_from :: "u64 \<Rightarrow> Entry list \<Rightarrow> Entry list" where
  "truncate_from i ents = rev (dropWhile (\<lambda>x. i \<le> e_Index x) (rev ents))"

text \<open>The loop of \<open>replayWAL\<close> over the lines; the flag is the scanner's error.\<close>

fun replay_lines :: "string list \<Rightarrow> bool \<Rightarrow> Entry list \<Rightarrow> Entry list res" where
  "replay_lines [] long ents = (if long then Inl ErrTooLong else Inr ents)"
| "replay_lines (line # ls) long ents =
     (if line = [] then replay_lines ls long ents
      else case decode_walRecord line of
        None \<Rightarrow> (if ls = [] then (if long then Inl ErrTooLong else Inr ents) else Inl ErrCorruptWal)
      | Some r \<Rightarrow>
          (case b64_decode (wr_Data r) of
             None \<Rightarrow> Inl ErrBase64
           | Some d \<Rightarrow>
               let e = \<lparr>e_Index = wr_Index r, e_Term = wr_Term r, e_Type = wr_Type r, e_Data = d\<rparr>
               in replay_lines ls long (truncate_from (e_Index e) ents @ [e])))"

definition replay_bytes :: "string \<Rightarrow> u64 \<Rightarrow> Entry list res" where
  "replay_bytes b snapIndex =
     (let (ls, long) = scan_lines [] b in
      case replay_lines ls long [] of
        Inl e \<Rightarrow> Inl e
      | Inr ents \<Rightarrow> Inr (dropWhile (\<lambda>e. e_Index e \<le> snapIndex) ents))"

definition replayWAL :: "u64 \<Rightarrow> ('s, Entry list \<times> bool) io" where
  "replayWAL snapIndex = io_bind (os_ReadFile walName) (\<lambda>b. case b of
       None \<Rightarrow> io_ret ([], False)
     | Some b \<Rightarrow> io_bind (io_lift (replay_bytes b snapIndex)) (\<lambda>ents. io_ret (ents, True)))"

definition decode_snapshot :: "string \<Rightarrow> RaftSnapshot res" where
  "decode_snapshot b =
     (case jparse b of
        None \<Rightarrow> Inl ErrJSON
      | Some j \<Rightarrow>
          (case get_struct set_snapshotFile [''index'', ''term'', ''voters'', ''learners'', ''data''] j
             \<lparr>sf_Index = 0, sf_Term = 0, sf_Voters = [], sf_Learners = [], sf_Data = ''''\<rparr> of
             None \<Rightarrow> Inl ErrJSON
           | Some sf \<Rightarrow>
               (case b64_decode (sf_Data sf) of
                  None \<Rightarrow> Inl ErrBase64
                | Some d \<Rightarrow> Inr \<lparr>sn_Data = d, sn_Index = sf_Index sf, sn_Term = sf_Term sf,
                    sn_Conf = zero_ConfState\<lparr>cs_Voters := sf_Voters sf, cs_Learners := sf_Learners sf\<rparr>\<rparr>)))"

definition loadSnapshotFile :: "('s, RaftSnapshot option) io" where
  "loadSnapshotFile = io_bind (os_ReadFile snapshotName) (\<lambda>b. case b of
       None \<Rightarrow> io_ret None
     | Some b \<Rightarrow> io_bind (io_lift (decode_snapshot b)) (\<lambda>sn. io_ret (Some sn)))"

definition decode_hardState :: "string \<Rightarrow> HardState res" where
  "decode_hardState b =
     (case jparse b of
        None \<Rightarrow> Inl ErrJSON
      | Some j \<Rightarrow>
          (case get_struct set_hardState [''term'', ''vote'', ''commit''] j zero_HardState of
             None \<Rightarrow> Inl ErrJSON | Some h \<Rightarrow> Inr h))"

definition loadHardStateFile :: "('s, HardState option) io" where
  "loadHardStateFile = io_bind (os_ReadFile hardStateName) (\<lambda>b. case b of
       None \<Rightarrow> io_ret None
     | Some b \<Rightarrow> io_bind (io_lift (decode_hardState b)) (\<lambda>h. io_ret (Some h)))"

section \<open>Writing the files\<close>

definition atomicWrite :: "string \<Rightarrow> string \<Rightarrow> ('s, unit) io" where
  "atomicWrite path data =
     (let tmp = path @ ''.tmp'' in
      io_bind (os_OpenTrunc tmp) (\<lambda>_.
      io_bind (file_Write tmp data) (\<lambda>_.
      io_bind (file_Sync tmp) (\<lambda>_.
      io_bind file_Close (\<lambda>_.
      os_Rename tmp path)))))"

definition writeSnapshotFile :: "RaftSnapshot \<Rightarrow> ('s, unit) io" where
  "writeSnapshotFile sn = atomicWrite snapshotName (jprint (snapshotFile_json (snapshot_file sn)))"

definition set_wal :: "bool \<Rightarrow> 'm DiskStorage \<Rightarrow> unit res \<times> 'm DiskStorage" where
  "set_wal b s = (Inr (), s\<lparr>wal := b\<rparr>)"

text \<open>The error of closing the old log handle is ignored by the code.\<close>

definition resetWAL :: "Entry list \<Rightarrow> 'm DiskStorage \<Rightarrow> unit res \<times> 'm DiskStorage" where
  "resetWAL entries =
     (let tmp = walName @ ''.tmp'' in
      io_bind (os_OpenTrunc tmp) (\<lambda>_.
      io_bind (file_Write tmp (wal_bytes entries)) (\<lambda>_.
      io_bind (file_Sync tmp) (\<lambda>_.
      io_bind file_Close (\<lambda>_.
      io_bind (set_wal False) (\<lambda>_.
      io_bind (os_Rename tmp walName) (\<lambda>_.
      io_bind (os_OpenAppend walName) (\<lambda>_.
      set_wal True))))))))"

section \<open>The methods of DiskStorage\<close>

definition wal_Write :: "string \<Rightarrow> 'm DiskStorage \<Rightarrow> unit res \<times> 'm DiskStorage" where
  "wal_Write data s = (if wal s then file_Write walName data s else (Inl ErrIO, s))"

definition Append :: "'m mem_ops \<Rightarrow> Entry list \<Rightarrow> 'm DiskStorage \<Rightarrow> unit res \<times> 'm DiskStorage" where
  "Append M entries =
     (if entries = [] then io_ret ()
      else
        io_bind (wal_Write (wal_bytes entries)) (\<lambda>_.
        io_bind (file_Sync walName) (\<lambda>_.
        mem_call (\<lambda>m. ms_Append M m entries))))"

definition SetHardState :: "'m mem_ops \<Rightarrow> HardState \<Rightarrow> 'm DiskStorage \<Rightarrow> unit res \<times> 'm DiskStorage" where
  "SetHardState M hs =
     io_bind (atomicWrite hardStateName (jprint (hardState_json hs))) (\<lambda>_.
     mem_call (\<lambda>m. ms_SetHardState M m hs))"

definition SaveSnapshot :: "'m mem_ops \<Rightarrow> RaftSnapshot \<Rightarrow> 'm DiskStorage \<Rightarrow> unit res \<times> 'm DiskStorage" where
  "SaveSnapshot M sn =
     io_bind (writeSnapshotFile sn) (\<lambda>_.
     io_bind (resetWAL []) (\<lambda>_.
     mem_call (\<lambda>m. ms_ApplySnapshot M m sn)))"

definition mem_create :: "'m mem_ops \<Rightarrow> u64 \<Rightarrow> ConfState \<Rightarrow> string \<Rightarrow> 'm DiskStorage \<Rightarrow> RaftSnapshot res \<times> 'm DiskStorage" where
  "mem_create M i cs data s =
     (case ms_CreateSnapshot M (mem s) i cs data of
        Inl e \<Rightarrow> (Inl e, s) | Inr (m, sn) \<Rightarrow> (Inr sn, s\<lparr>mem := m\<rparr>))"

definition compact_point :: "u64 \<Rightarrow> u64 \<Rightarrow> u64" where
  "compact_point appliedIndex trailing = (if trailing < appliedIndex then appliedIndex - trailing else 0)"

text \<open>Compaction in \<open>CreateSnapshot\<close>: \<open>raft.ErrCompacted\<close> is ignored.\<close>

definition compact_log :: "'m mem_ops \<Rightarrow> u64 \<Rightarrow> 'm DiskStorage \<Rightarrow> unit res \<times> 'm DiskStorage" where
  "compact_log M compactTo s =
     (if ms_FirstIndex M (mem s) \<le> compactTo then
        (case ms_Compact M (mem s) compactTo of
           Inl e \<Rightarrow> if e = ErrCompacted then (Inr (), s) else (Inl e, s)
         | Inr m \<Rightarrow> (Inr (), s\<lparr>mem := m\<rparr>))
      else (Inr (), s))"

definition kept_entries :: "'m mem_ops \<Rightarrow> 'm \<Rightarrow> Entry list res" where
  "kept_entries M m =
     (let firstKept = ms_FirstIndex M m; last = ms_LastIndex M m in
      if firstKept \<le> last then ms_Entries M m firstKept (last + 1) (2 ^ 30) else Inr [])"

definition CreateSnapshot ::
  "'m mem_ops \<Rightarrow> u64 \<Rightarrow> ConfState \<Rightarrow> string \<Rightarrow> u64 \<Rightarrow> 'm DiskStorage \<Rightarrow> RaftSnapshot res \<times> 'm DiskStorage" where
  "CreateSnapshot M appliedIndex cs data trailing =
     io_bind (mem_create M appliedIndex cs data) (\<lambda>sn.
     io_bind (writeSnapshotFile sn) (\<lambda>_.
     io_bind (compact_log M (compact_point appliedIndex trailing)) (\<lambda>_.
     io_bind (\<lambda>s. (kept_entries M (mem s), s)) (\<lambda>keep.
     io_bind (resetWAL keep) (\<lambda>_.
     io_ret sn)))))"

text \<open>\<open>Close\<close>; the closed handle stays in \<open>ds.wal\<close>, and writing to it fails.\<close>

definition Close :: "'m DiskStorage \<Rightarrow> unit res \<times> 'm DiskStorage" where
  "Close s = (if wal s then io_bind (set_wal False) (\<lambda>_. file_Close) s else (Inl ErrIO, s))"

definition SnapshotFileSize :: "('s, nat) io" where
  "SnapshotFileSize = os_StatSize snapshotName"

text \<open>\<open>Open\<close> on a disk: the storage it returns and whether it found persisted state.\<close>

definition Open :: "'m mem_ops \<Rightarrow> 'm DiskStorage \<Rightarrow> bool res \<times> 'm DiskStorage" where
  "Open M =
     io_bind os_MkdirAll (\<lambda>_.
     io_bind (mem_call (\<lambda>_. Inr (ms_New M))) (\<lambda>_.
     io_bind (set_wal False) (\<lambda>_.
     io_bind loadSnapshotFile (\<lambda>osn.
     io_bind (case osn of None \<Rightarrow> io_ret () | Some sn \<Rightarrow> mem_call (\<lambda>m. ms_ApplySnapshot M m sn)) (\<lambda>_.
     let snapIndex = (case osn of None \<Rightarrow> 0 | Some sn \<Rightarrow> sn_Index sn) in
     io_bind (replayWAL snapIndex) (\<lambda>(ents, found).
     io_bind (if ents = [] then io_ret ()
              else if snapIndex + 1 < e_Index (hd ents) then io_fail (ErrMissingSnapshot (e_Index (hd ents)) snapIndex)
              else mem_call (\<lambda>m. ms_Append M m ents)) (\<lambda>_.
     io_bind loadHardStateFile (\<lambda>ohs.
     io_bind (case ohs of None \<Rightarrow> io_ret () | Some hs \<Rightarrow> mem_call (\<lambda>m. ms_SetHardState M m hs)) (\<lambda>_.
     io_bind (os_OpenAppend walName) (\<lambda>_.
     io_bind (set_wal True) (\<lambda>_.
     io_ret (osn \<noteq> None \<or> found \<or> ohs \<noteq> None))))))))))))"

end
