(* ===== verification/Engine.thy ===== *)
theory Engine
  imports StateMachine Storage
begin

text \<open>
  \<open>internal/engine/engine.go\<close>: the driver of one raft node.  The engine owns the persistent storage of
  theory \<open>Storage\<close>, the state machine of theory \<open>StateMachine\<close> and a \<open>raft.RawNode\<close>, which is the parameter
  \<open>R\<close> (a record of functions on a type \<open>'r\<close>; the node reads the memory storage, so its calls take it).

  Callbacks are numbers.  The engine stores them and calls them at most once; a call is an event
  appended to \<open>events\<close>, with the arguments the callback gets.
\<close>

section \<open>The raw node\<close>

record SoftState =
  ss_Lead :: u64

record ReadState =
  rs_Index :: u64
  rs_RequestCtx :: string

record ConfChange =
  cc_ID :: u64
  cc_Type :: int
  cc_NodeID :: u64
  cc_Context :: string

definition ConfChangeAddNode :: int where "ConfChangeAddNode = 0"
definition ConfChangeRemoveNode :: int where "ConfChangeRemoveNode = 1"

record 'g Ready =
  rd_SoftState :: "SoftState option"
  rd_HardState :: HardState
  rd_ReadStates :: "ReadState list"
  rd_Entries :: "Entry list"
  rd_Snapshot :: RaftSnapshot
  rd_CommittedEntries :: "Entry list"
  rd_Messages :: "'g list"

text \<open>
  The calls of \<open>raft.RawNode\<close> the engine makes, on messages of type \<open>'g\<close>: \<open>rn_New\<close> gets the node id
  and the applied index of \<open>raft.Config\<close>, \<open>rn_IsLeader\<close> is the test of \<open>BasicStatus\<close>, \<open>rn_Unmarshal\<close> is
  the decoder of configuration changes.
\<close>

record ('m, 'r, 'g) raw_ops =
  rn_New :: "u64 \<Rightarrow> u64 \<Rightarrow> 'm \<Rightarrow> 'r res"
  rn_Bootstrap :: "'r \<Rightarrow> u64 list \<Rightarrow> 'm \<Rightarrow> 'r res"
  rn_IsLeader :: "'r \<Rightarrow> bool"
  rn_Voters :: "'r \<Rightarrow> u64 list"
  rn_Tick :: "'r \<Rightarrow> 'm \<Rightarrow> 'r"
  rn_Campaign :: "'r \<Rightarrow> 'm \<Rightarrow> 'r res"
  rn_Step :: "'r \<Rightarrow> 'm \<Rightarrow> 'g \<Rightarrow> 'r res"
  rn_ReportSnapshot :: "'r \<Rightarrow> u64 \<Rightarrow> bool \<Rightarrow> 'r"
  rn_Propose :: "'r \<Rightarrow> 'm \<Rightarrow> string \<Rightarrow> 'r res"
  rn_ProposeConfChange :: "'r \<Rightarrow> 'm \<Rightarrow> ConfChange \<Rightarrow> 'r res"
  rn_ReadIndex :: "'r \<Rightarrow> 'm \<Rightarrow> string \<Rightarrow> 'r"
  rn_HasReady :: "'r \<Rightarrow> 'm \<Rightarrow> bool"
  rn_Ready :: "'r \<Rightarrow> 'm \<Rightarrow> 'g Ready \<times> 'r"
  rn_Advance :: "'r \<Rightarrow> 'm \<Rightarrow> 'g Ready \<Rightarrow> 'r"
  rn_ApplyConfChange :: "'r \<Rightarrow> ConfChange \<Rightarrow> ConfState \<times> 'r"
  rn_Unmarshal :: "string \<Rightarrow> ConfChange res"

definition IsEmptySnap :: "RaftSnapshot \<Rightarrow> bool" where
  "IsEmptySnap sn \<longleftrightarrow> sn_Index sn = 0"

definition IsEmptyHardState :: "HardState \<Rightarrow> bool" where
  "IsEmptyHardState hs \<longleftrightarrow> hs = zero_HardState"

section \<open>State\<close>

datatype event =
    PropDone nat Result
  | ConfDone nat
  | ReadDone nat
  | ConfApplied ConfChange

record Config =
  cfg_ID :: u64
  cfg_SnapshotThreshold :: u64
  cfg_SnapshotTrailing :: u64
  cfg_BootstrapPeers :: "u64 list"
  cfg_OnConfChange :: bool
  cfg_Incarnation :: u64

record ('m, 'r) Engine =
  eng_id :: u64
  rn :: 'r
  st :: "'m DiskStorage"
  eng_sm :: SM
  cfg :: Config
  lead :: u64
  appliedIndex :: u64
  snapIndex :: u64
  confState :: ConfState
  removed :: bool
  propWaiters :: "(string, nat) fmap"
  ccWaiters :: "(u64, nat) fmap"
  readSeq :: u64
  readWaiters :: "(string, nat) fmap"
  pendingRead :: "ReadState list"
  events :: "event list"

type_synonym ('m, 'r, 'a) ecall = "(('m, 'r) Engine, 'a) call"

definition emit :: "event list \<Rightarrow> ('m, 'r) Engine \<Rightarrow> ('m, 'r) Engine" where
  "emit evs e = e\<lparr>events := events e @ evs\<rparr>"

definition modify :: "(('m, 'r) Engine \<Rightarrow> ('m, 'r) Engine) \<Rightarrow> ('m, 'r, unit) ecall" where
  "modify f e = (Inr (), f e)"

definition st_call :: "('m DiskStorage, 'a) call \<Rightarrow> ('m, 'r, 'a) ecall" where
  "st_call f e = (let (r, s) = f (st e) in (r, e\<lparr>st := s\<rparr>))"

abbreviation eng_mem :: "('m, 'r) Engine \<Rightarrow> 'm" where
  "eng_mem e \<equiv> mem (st e)"

section \<open>Starting\<close>

text \<open>\<open>New\<close> on a directory \<open>d\<close>.\<close>

definition New :: "'m mem_ops \<Rightarrow> ('m, 'r, 'g) raw_ops \<Rightarrow> Config \<Rightarrow> 'm DiskStorage \<Rightarrow> ('m, 'r) Engine res" where
  "New M R c d =
     (case Open M d of
        (Inl x, _) \<Rightarrow> Inl x
      | (Inr hasState, s) \<Rightarrow>
          (let snap = ms_Snapshot M (mem s) in
           rbind (if IsEmptySnap snap then Inr (sm_New, 0, 0, zero_ConfState)
                  else rbind (Restore sm_New (sn_Data snap)) (\<lambda>m. Inr (m, sn_Index snap, sn_Index snap, sn_Conf snap)))
             (\<lambda>(m, applied, snapIx, conf).
           rbind (rn_New R (cfg_ID c) applied (mem s)) (\<lambda>r.
           rbind (if \<not> hasState \<and> cfg_BootstrapPeers c \<noteq> []
                  then rn_Bootstrap R r (cfg_BootstrapPeers c) (mem s) else Inr r) (\<lambda>r'.
           Inr \<lparr>eng_id = cfg_ID c, rn = r', st = s, eng_sm = m, cfg = c, lead = 0, appliedIndex = applied,
             snapIndex = snapIx, confState = conf, removed = False, propWaiters = fmempty, ccWaiters = fmempty,
             readSeq = 0, readWaiters = fmempty, pendingRead = [], events = []\<rparr>)))))"

definition eng_Close :: "('m, 'r, unit) ecall" where
  "eng_Close = st_call Close"

definition IsLeader :: "('m, 'r, 'g) raw_ops \<Rightarrow> ('m, 'r) Engine \<Rightarrow> bool" where
  "IsLeader R e = rn_IsLeader R (rn e)"

definition Tick :: "('m, 'r, 'g) raw_ops \<Rightarrow> ('m, 'r) Engine \<Rightarrow> ('m, 'r) Engine" where
  "Tick R e = e\<lparr>rn := rn_Tick R (rn e) (eng_mem e)\<rparr>"

definition rn_call :: "('r \<Rightarrow> 'r res) \<Rightarrow> ('m, 'r, unit) ecall" where
  "rn_call f e = (case f (rn e) of Inl x \<Rightarrow> (Inl x, e) | Inr r \<Rightarrow> (Inr (), e\<lparr>rn := r\<rparr>))"

definition Campaign :: "('m, 'r, 'g) raw_ops \<Rightarrow> ('m, 'r, unit) ecall" where
  "Campaign R e = rn_call (\<lambda>r. rn_Campaign R r (eng_mem e)) e"

definition Step :: "('m, 'r, 'g) raw_ops \<Rightarrow> 'g \<Rightarrow> ('m, 'r, unit) ecall" where
  "Step R g e = rn_call (\<lambda>r. rn_Step R r (eng_mem e) g) e"

definition ReportSnapshot :: "('m, 'r, 'g) raw_ops \<Rightarrow> u64 \<Rightarrow> bool \<Rightarrow> ('m, 'r) Engine \<Rightarrow> ('m, 'r) Engine" where
  "ReportSnapshot R to ok e = e\<lparr>rn := rn_ReportSnapshot R (rn e) to ok\<rparr>"

section \<open>Requests\<close>

definition propKey :: "string \<Rightarrow> u64 \<Rightarrow> string" where
  "propKey clientID reqID = clientID @ ''/'' @ format_uint reqID"

text \<open>\<open>plantedApplyBeforeQuorum\<close> of the shipped build does nothing.\<close>

definition plantedApplyBeforeQuorum :: "Op \<Rightarrow> ('m, 'r) Engine \<Rightarrow> ('m, 'r) Engine" where
  "plantedApplyBeforeQuorum op e = e"

definition Propose :: "('m, 'r, 'g) raw_ops \<Rightarrow> Op \<Rightarrow> nat option \<Rightarrow> ('m, 'r, unit) ecall" where
  "Propose R op cb e =
     (if \<not> IsLeader R e then (Inl (ErrNotLeader (lead e)), e)
      else
        let key = propKey (op_ClientID op) (op_ReqID op);
            e1 = (case cb of None \<Rightarrow> e | Some c \<Rightarrow> e\<lparr>propWaiters := fmupd key c (propWaiters e)\<rparr>)
        in (case rn_Propose R (rn e1) (eng_mem e1) (Encode op) of
              Inl x \<Rightarrow> (Inl x, e1\<lparr>propWaiters := fmdrop key (propWaiters e1)\<rparr>)
            | Inr r \<Rightarrow> (Inr (), plantedApplyBeforeQuorum op (e1\<lparr>rn := r\<rparr>))))"

definition CancelProposal :: "string \<Rightarrow> u64 \<Rightarrow> ('m, 'r) Engine \<Rightarrow> ('m, 'r) Engine" where
  "CancelProposal clientID reqID e = e\<lparr>propWaiters := fmdrop (propKey clientID reqID) (propWaiters e)\<rparr>"

definition ProposeConfChange :: "('m, 'r, 'g) raw_ops \<Rightarrow> ConfChange \<Rightarrow> nat option \<Rightarrow> ('m, 'r, unit) ecall" where
  "ProposeConfChange R cc cb e =
     (if \<not> IsLeader R e then (Inl (ErrNotLeader (lead e)), e)
      else
        let e1 = (case cb of None \<Rightarrow> e | Some c \<Rightarrow> e\<lparr>ccWaiters := fmupd (cc_ID cc) c (ccWaiters e)\<rparr>)
        in (case rn_ProposeConfChange R (rn e1) (eng_mem e1) cc of
              Inl x \<Rightarrow> (Inl x, e1\<lparr>ccWaiters := fmdrop (cc_ID cc) (ccWaiters e1)\<rparr>)
            | Inr r \<Rightarrow> (Inr (), e1\<lparr>rn := r\<rparr>)))"

definition read_ctx :: "u64 \<Rightarrow> u64 \<Rightarrow> u64 \<Rightarrow> string" where
  "read_ctx i inc n = format_uint i @ ''/'' @ format_uint inc @ ''/'' @ format_uint n"

definition ReadIndex :: "('m, 'r, 'g) raw_ops \<Rightarrow> nat \<Rightarrow> ('m, 'r) Engine \<Rightarrow> ('m, 'r) Engine" where
  "ReadIndex R cb e =
     (let n = readSeq e + 1;
          rctx = read_ctx (eng_id e) (cfg_Incarnation (cfg e)) n;
          e1 = e\<lparr>readSeq := n, readWaiters := fmupd rctx cb (readWaiters e)\<rparr>
      in e1\<lparr>rn := rn_ReadIndex R (rn e1) (eng_mem e1) rctx\<rparr>)"

section \<open>Processing a Ready batch\<close>

definition install_snapshot :: "'m mem_ops \<Rightarrow> RaftSnapshot \<Rightarrow> ('m, 'r, unit) ecall" where
  "install_snapshot M sn =
     (if IsEmptySnap sn then io_ret ()
      else
        io_bind (st_call (SaveSnapshot M sn)) (\<lambda>_.
        io_bind (\<lambda>e. case Restore (eng_sm e) (sn_Data sn) of
            Inl x \<Rightarrow> (Inl x, e) | Inr m \<Rightarrow> (Inr (), e\<lparr>eng_sm := m\<rparr>)) (\<lambda>_.
        modify (\<lambda>e. e\<lparr>appliedIndex := sn_Index sn, snapIndex := sn_Index sn, confState := sn_Conf sn\<rparr>))))"

definition fire_prop :: "string \<Rightarrow> Result \<Rightarrow> ('m, 'r) Engine \<Rightarrow> ('m, 'r) Engine" where
  "fire_prop key res e =
     (case fmlookup (propWaiters e) key of
        None \<Rightarrow> e
      | Some cb \<Rightarrow> emit [PropDone cb res] (e\<lparr>propWaiters := fmdrop key (propWaiters e)\<rparr>))"

definition fire_conf :: "u64 \<Rightarrow> ('m, 'r) Engine \<Rightarrow> ('m, 'r) Engine" where
  "fire_conf i e =
     (case fmlookup (ccWaiters e) i of
        None \<Rightarrow> e
      | Some cb \<Rightarrow> emit [ConfDone cb] (e\<lparr>ccWaiters := fmdrop i (ccWaiters e)\<rparr>))"

definition applyEntry :: "('m, 'r, 'g) raw_ops \<Rightarrow> Entry \<Rightarrow> ('m, 'r, unit) ecall" where
  "applyEntry R entry e =
     (if e_Type entry = EntryNormal then
        (if e_Data entry = [] then (Inr (), e\<lparr>appliedIndex := e_Index entry\<rparr>)
         else case DecodeOp (e_Data entry) of
             Inl x \<Rightarrow> (Inl x, e)
           | Inr op \<Rightarrow>
               let (m, res) = Apply (eng_sm e) op
               in (Inr (), fire_prop (propKey (op_ClientID op) (op_ReqID op)) res
                     (e\<lparr>eng_sm := m, appliedIndex := e_Index entry\<rparr>)))
      else if e_Type entry = EntryConfChange then
        (case rn_Unmarshal R (e_Data entry) of
           Inl x \<Rightarrow> (Inl x, e)
         | Inr cc \<Rightarrow>
             let (cs, r) = rn_ApplyConfChange R (rn e) cc;
                 e1 = e\<lparr>rn := r, confState := cs, appliedIndex := e_Index entry\<rparr>;
                 e2 = (if cc_Type cc = ConfChangeRemoveNode \<and> cc_NodeID cc = eng_id e then e1\<lparr>removed := True\<rparr> else e1);
                 e3 = fire_conf (cc_ID cc) e2
             in (Inr (), if cfg_OnConfChange (cfg e) then emit [ConfApplied cc] e3 else e3))
      else (Inr (), e\<lparr>appliedIndex := e_Index entry\<rparr>))"

fun applyEntries :: "('m, 'r, 'g) raw_ops \<Rightarrow> Entry list \<Rightarrow> ('m, 'r, unit) ecall" where
  "applyEntries R [] = io_ret ()"
| "applyEntries R (entry # es) = io_bind (applyEntry R entry) (\<lambda>_. applyEntries R es)"

definition maybeSnapshot :: "'m mem_ops \<Rightarrow> ('m, 'r, unit) ecall" where
  "maybeSnapshot M e =
     (if cfg_SnapshotThreshold (cfg e) = 0 \<or> appliedIndex e - snapIndex e < cfg_SnapshotThreshold (cfg e) then (Inr (), e)
      else
        (case st_call (CreateSnapshot M (appliedIndex e) (confState e) (Snapshot (eng_sm e)) (cfg_SnapshotTrailing (cfg e))) e of
           (Inl x, e1) \<Rightarrow> if x = ErrSnapOutOfDate then (Inr (), e1) else (Inl x, e1)
         | (Inr _, e1) \<Rightarrow> (Inr (), e1\<lparr>snapIndex := appliedIndex e1\<rparr>)))"

fun flush_list :: "u64 \<Rightarrow> ReadState list \<Rightarrow> (string, nat) fmap \<Rightarrow> ReadState list \<times> (string, nat) fmap \<times> event list" where
  "flush_list applied [] ws = ([], ws, [])"
| "flush_list applied (rs # rss) ws =
     (if rs_Index rs \<le> applied then
        (case fmlookup ws (rs_RequestCtx rs) of
           None \<Rightarrow> flush_list applied rss ws
         | Some cb \<Rightarrow>
             let (keep, ws', evs) = flush_list applied rss (fmdrop (rs_RequestCtx rs) ws)
             in (keep, ws', ReadDone cb # evs))
      else let (keep, ws', evs) = flush_list applied rss ws in (rs # keep, ws', evs))"

definition flushReads :: "('m, 'r) Engine \<Rightarrow> ('m, 'r) Engine" where
  "flushReads e =
     (if pendingRead e = [] then e
      else let (keep, ws, evs) = flush_list (appliedIndex e) (pendingRead e) (readWaiters e)
           in emit evs (e\<lparr>pendingRead := keep, readWaiters := ws\<rparr>))"

text \<open>The steps of \<open>HandleReady\<close> on a batch, up to \<open>Advance\<close>.\<close>

definition persist_ready :: "'m mem_ops \<Rightarrow> 'g Ready \<Rightarrow> ('m, 'r, unit) ecall" where
  "persist_ready M rd =
     io_bind (install_snapshot M (rd_Snapshot rd)) (\<lambda>_.
     io_bind (if rd_Entries rd = [] then io_ret () else st_call (Append M (rd_Entries rd))) (\<lambda>_.
     if IsEmptyHardState (rd_HardState rd) then io_ret () else st_call (SetHardState M (rd_HardState rd))))"

definition note_ready :: "'g Ready \<Rightarrow> ('m, 'r) Engine \<Rightarrow> ('m, 'r) Engine" where
  "note_ready rd e =
     e\<lparr>lead := (case rd_SoftState rd of None \<Rightarrow> lead e | Some ss \<Rightarrow> ss_Lead ss),
       pendingRead := pendingRead e @ rd_ReadStates rd\<rparr>"

definition apply_ready :: "'m mem_ops \<Rightarrow> ('m, 'r, 'g) raw_ops \<Rightarrow> 'g Ready \<Rightarrow> ('m, 'r, unit) ecall" where
  "apply_ready M R rd =
     io_bind (persist_ready M rd) (\<lambda>_.
     io_bind (modify (note_ready rd)) (\<lambda>_.
     applyEntries R (rd_CommittedEntries rd)))"

definition HandleReady :: "'m mem_ops \<Rightarrow> ('m, 'r, 'g) raw_ops \<Rightarrow> ('m, 'r, 'g list) ecall" where
  "HandleReady M R e =
     (if \<not> rn_HasReady R (rn e) (eng_mem e) then (Inr [], e)
      else
        let (rd, r) = rn_Ready R (rn e) (eng_mem e) in
        io_bind (apply_ready M R rd) (\<lambda>_.
        io_bind (modify (\<lambda>e. e\<lparr>rn := rn_Advance R (rn e) (eng_mem e) rd\<rparr>)) (\<lambda>_.
        io_bind (maybeSnapshot M) (\<lambda>_.
        io_bind (modify flushReads) (\<lambda>_.
        io_ret (rd_Messages rd))))) (e\<lparr>rn := r\<rparr>))"

end
