(* ===== verification/GoStrings.thy ===== *)
theory GoStrings
  imports GoStruct "HOL-Library.Sublist"
begin

text \<open>
  The functions of \<open>strings\<close>, \<open>fmt\<close> and \<open>encoding/json\<close> that the server and the drivers use beside those of
  \<open>GoText\<close> and \<open>GoStruct\<close>: searching and trimming, padded numbers, the first value of a stream
  (\<open>json.NewDecoder(r).Decode\<close>), indented output (\<open>json.MarshalIndent\<close> with two spaces).
\<close>

section \<open>Searching and trimming\<close>

fun index_of :: "string \<Rightarrow> string \<Rightarrow> nat option" where
  "index_of sub [] = (if sub = [] then Some 0 else None)"
| "index_of sub (c # s) = (if prefix sub (c # s) then Some 0 else map_option Suc (index_of sub s))"

definition contains_str :: "string \<Rightarrow> string \<Rightarrow> bool" where
  "contains_str s sub \<longleftrightarrow> index_of sub s \<noteq> None"

definition trim_prefix :: "string \<Rightarrow> string \<Rightarrow> string" where
  "trim_prefix s p = (if prefix p s then drop (length p) s else s)"

definition trim_suffix :: "string \<Rightarrow> string \<Rightarrow> string" where
  "trim_suffix s p = (if suffix p s then take (length s - length p) s else s)"

definition pad_left :: "nat \<Rightarrow> char \<Rightarrow> string \<Rightarrow> string" where
  "pad_left n c s = replicate (n - length s) c @ s"

lemma index_of_here [simp]: "index_of sub (sub @ post) = Some 0"
proof (cases "sub @ post")
  case (Cons c s)
  then have "prefix sub (c # s)" by (metis prefixI)
  with Cons show ?thesis by simp
qed simp

lemma index_of_append:
  "index_of sub (pre @ sub @ post) = Some n \<Longrightarrow> n \<le> length pre"
  by (induction pre arbitrary: n) (auto split: if_splits)

lemma index_of_found: "\<exists>n. index_of sub (pre @ sub @ post) = Some n"
  by (induction pre) auto

lemma index_of_prefix: "index_of sub s = Some n \<Longrightarrow> prefix sub (drop n s) \<and> n \<le> length s"
proof (induction s arbitrary: n)
  case (Cons c s)
  then show ?case by (auto split: if_splits)
qed (auto split: if_splits)

lemma contains_str_iff: "contains_str s sub \<longleftrightarrow> (\<exists>pre post. s = pre @ sub @ post)"
proof
  assume "contains_str s sub"
  then obtain n where "index_of sub s = Some n" by (auto simp: contains_str_def)
  then have "prefix sub (drop n s)" using index_of_prefix by blast
  then show "\<exists>pre post. s = pre @ sub @ post" by (metis append_take_drop_id prefixE)
qed (use index_of_found in \<open>auto simp: contains_str_def\<close>)

lemma pad_left_digits: "list_all is_digit s \<Longrightarrow> list_all is_digit (pad_left n CHR ''0'' s)"
  by (auto simp: pad_left_def list_all_iff is_digit_def)

lemma nat_of_dec_zeros: "nat_of_dec 0 (replicate n CHR ''0'' @ s) = nat_of_dec 0 s"
  by (induction n) simp_all

lemma pad_left_inj:
  assumes "pad_left n CHR ''0'' (format_uint v) = pad_left n CHR ''0'' (format_uint w)"
  shows "v = w"
proof -
  have "nat_of_dec 0 (format_uint v) = nat_of_dec 0 (format_uint w)"
    using arg_cong [OF assms, of "nat_of_dec 0"] by (simp add: pad_left_def nat_of_dec_zeros)
  then show ?thesis by (simp add: format_uint_def word_unat_eq_iff)
qed

section \<open>The first value of a stream\<close>

fun jfirst :: "jstate \<Rightarrow> string \<Rightarrow> json option" where
  "jfirst s [] = jfinish s"
| "jfirst s (c # cs) =
     (case s of
        (MDone v, _) \<Rightarrow> Some v
      | (MNum q acc, []) \<Rightarrow>
          if num_next q c = None \<and> num_final q then Some (JNum (rev acc)) else jfirst (jstep s c) cs
      | _ \<Rightarrow> jfirst (jstep s c) cs)"

definition jdecode :: "string \<Rightarrow> json option" where
  "jdecode body = jfirst (MValue, []) body"

lemma jrun_done_any: "jfinish (jrun (MDone v, st) cs) = Some j \<Longrightarrow> j = v"
proof (cases cs)
  case (Cons c cs')
  assume a: "jfinish (jrun (MDone v, st) cs) = Some j"
  have "jstep (MDone v, st) c = (if is_ws c then (MDone v, []) else (MFail, []))" by (simp add: jstep_def)
  moreover have "jrun (MFail, []) ds = (MFail, [])" for ds
    by (induction ds) (simp_all add: jstep_def)
  ultimately show "j = v" using a Cons by (auto simp: jrun_done jfinish_def split: if_splits)
qed (simp add: jfinish_def)

lemma jfirst_jrun: "jfinish (jrun s cs) = Some j \<Longrightarrow> jfirst s cs = Some j"
proof (induction cs arbitrary: s)
  case (Cons c cs)
  obtain m st where s: "s = (m, st)" by (cases s)
  show ?case
  proof (cases "\<exists>v. m = MDone v")
    case True
    then obtain v where "s = (MDone v, st)" using s by blast
    with Cons.prems show ?thesis using jrun_done_any [of v st "c # cs" j] by (simp del: jrun_simps)
  next
    case False
    show ?thesis
    proof (cases "\<exists>q acc. m = MNum q acc \<and> st = [] \<and> num_next q c = None \<and> num_final q")
      case True
      then obtain q acc where q: "m = MNum q acc" "st = []" "num_next q c = None" "num_final q" by blast
      have "jrun (resume (MDone (JNum (rev acc)), []) c) cs = jrun (MDone (JNum (rev acc)), []) (c # cs)"
        by (simp add: resume_def jstep_def)
      with Cons.prems s q have "jfinish (jrun (MDone (JNum (rev acc)), []) (c # cs)) = Some j"
        by (simp add: jstep_def del: jrun_simps(2)) (simp add: jstep_def)
      then show ?thesis using jrun_done_any [of "JNum (rev acc)" "[]" "c # cs" j] s q by (simp del: jrun_simps)
    next
      case no: False
      have "jfirst (jstep s c) cs = Some j" using Cons.IH Cons.prems by simp
      then show ?thesis using s False no by (auto split: mode.splits list.splits)
    qed
  qed
qed simp

lemma jdecode_jparse: "jparse s = Some j \<Longrightarrow> jdecode s = Some j"
  by (simp add: jparse_def jdecode_def jfirst_jrun)

lemma jdecode_jprint:
  "jwf (JObj kvs) \<Longrightarrow> jdepth (JObj kvs) \<le> max_depth \<Longrightarrow> jdecode (jprint (JObj kvs)) = Some (jcoerce (JObj kvs))"
  by (intro jdecode_jparse jparse_jprint_object)

end
