(* ===== verification/Peers.thy ===== *)
theory Peers
  imports Engine GoStrings
begin

text \<open>
  The peer table of \<open>internal/server/server.go\<close>: \<open>onConfChange\<close>, \<open>loadPeersFile\<close> and \<open>savePeersFileLocked\<close>, on
  the bytes of \<open>peers.json\<close> in the data directory (theory \<open>Disk\<close>).  \<open>savePeersFileLocked\<close> ignores errors, so
  only the directory it leaves matters.
\<close>

type_synonym peers = "(u64, string) fmap"

section \<open>The file\<close>

definition peersName :: string where "peersName = ''peers.json''"

definition newline_indent :: "nat \<Rightarrow> string" where
  "newline_indent n = CHR 0x0A # replicate n CHR 0x20"

text \<open>\<open>json.MarshalIndent\<close> with two spaces, for an object whose members are strings.\<close>

definition indent_member :: "string \<times> string \<Rightarrow> string" where
  "indent_member p = newline_indent 4 @ quote (fst p) @ '': '' @ quote (snd p)"

definition indent_members :: "(string \<times> string) list \<Rightarrow> string" where
  "indent_members kvs =
     (if kvs = [] then ''{}'' else CHR ''{'' # sep_concat '','' (map indent_member kvs) @ newline_indent 2 @ ''}'')"

definition peers_by_name :: "peers \<Rightarrow> (string, string) fmap" where
  "peers_by_name ps = fmap_of_list (map (\<lambda>p. (format_uint (fst p), snd p)) (sorted_list_of_fmap ps))"

definition peers_text :: "peers \<Rightarrow> string" where
  "peers_text ps =
     CHR ''{'' # newline_indent 2 @ quote ''peers'' @ '': '' @ indent_members (sorted_list_of_fmap (peers_by_name ps)) @
     newline_indent 0 @ ''}''"

definition os_WriteFile :: "string \<Rightarrow> string \<Rightarrow> ('s, unit) io" where
  "os_WriteFile name b = io_bind (os_OpenTrunc name) (\<lambda>_. io_bind (file_Write name b) (\<lambda>_. file_Close))"

definition savePeersFileLocked :: "peers \<Rightarrow> disk \<Rightarrow> disk" where
  "savePeersFileLocked ps d =
     (let tmp = peersName @ ''.tmp'' in
      snd (io_bind (os_WriteFile tmp (peers_text ps)) (\<lambda>_. os_Rename tmp peersName) d))"

definition set_peersFile :: "string \<Rightarrow> json \<Rightarrow> (string, string) fmap option \<Rightarrow> (string, string) fmap option option" where
  "set_peersFile n j cur = get_map (\<lambda>v. get_str v '''') j cur"

definition decode_peersFile :: "string \<Rightarrow> (string, string) fmap option option" where
  "decode_peersFile b = (case jparse b of None \<Rightarrow> None | Some j \<Rightarrow> get_struct set_peersFile [''peers''] j None)"

definition add_peer :: "string \<times> string \<Rightarrow> peers \<Rightarrow> peers" where
  "add_peer p ps = (case parse_uint (fst p) of None \<Rightarrow> ps | Some i \<Rightarrow> fmupd i (snd p) ps)"

text \<open>Go leaves the order of the members open; it matters only for two names of one number.\<close>

definition loadPeersFile :: "peers \<Rightarrow> disk \<Rightarrow> peers \<times> disk" where
  "loadPeersFile ps d =
     (case os_ReadFile peersName d of
        (Inr (Some b), d1) \<Rightarrow>
          (case decode_peersFile b of
             Some (Some m) \<Rightarrow> (fold add_peer (sorted_list_of_fmap m) ps, d1)
           | _ \<Rightarrow> (ps, d1))
      | (_, d1) \<Rightarrow> (ps, d1))"

definition onConfChange :: "ConfChange \<Rightarrow> peers \<times> disk \<Rightarrow> peers \<times> disk" where
  "onConfChange cc s =
     (let ps = fst s;
          ps1 = (if cc_Type cc = ConfChangeAddNode then
                   (if cc_Context cc \<noteq> [] then fmupd (cc_NodeID cc) (cc_Context cc) ps else ps)
                 else if cc_Type cc = ConfChangeRemoveNode then fmdrop (cc_NodeID cc) ps
                 else ps)
      in (ps1, savePeersFileLocked ps1 (snd s)))"

section \<open>Facts\<close>

lemma jrun_ws: "list_all is_ws ws \<Longrightarrow> m \<in> {MValue, MKey, MKeyFirst, MNext} \<Longrightarrow> jrun (m, stk) ws = (m, stk)"
  by (induction ws) (auto simp: jstep_def after_value_def)

lemma is_ws_newline: "list_all is_ws (newline_indent n)" "is_ws CHR 0x20" "is_ws CHR 0x0A"
  by (auto simp: newline_indent_def is_ws_def list_all_iff)

lemma jrun_newline [simp]:
  "jrun (MValue, stk) (newline_indent n) = (MValue, stk)" "jrun (MKey, stk) (newline_indent n) = (MKey, stk)"
  "jrun (MKeyFirst, stk) (newline_indent n) = (MKeyFirst, stk)" "jrun (MNext, stk) (newline_indent n) = (MNext, stk)"
  "jstep (MValue, stk) CHR 0x20 = (MValue, stk)"
  using is_ws_newline by (simp_all add: jrun_ws jstep_def)

lemma jrun_quoted: "jrun (MValue, stk) (quote s) = complete (JStr (coerce s)) stk"
  using jrun_str_close [of False stk s] by (simp add: quote_def jstep_begin del: jrun_simps(3))

lemma jrun_name:
  assumes "m \<in> {MKey, MKeyFirst}"
  shows "jstep (jrun (m, FObj kvs # stk) (quote k)) CHR '':'' = (MValue, FMem kvs (coerce k) # stk)"
  using scan_member_name [OF assms, of kvs stk k] by simp

lemma jstep_next [simp]:
  "jstep (MNext, FObj ms # stk) CHR '','' = (MKey, FObj ms # stk)"
  "jstep (MNext, FObj ms # stk) CHR ''}'' = complete (JObj (rev ms)) stk"
  by (simp_all add: jstep_def after_value_def)

lemma jrun_member:
  assumes "m \<in> {MKey, MKeyFirst}"
  shows "jrun (m, FObj ms # stk) (indent_member (k, v)) = (MNext, FObj ((coerce k, JStr (coerce v)) # ms) # stk)"
proof -
  have "jrun (m, FObj ms # stk) (newline_indent 4) = (m, FObj ms # stk)" using assms by auto
  then show ?thesis by (simp add: indent_member_def jrun_quoted jrun_name [OF assms])
qed

lemma jrun_members:
  assumes "kvs \<noteq> []" "m \<in> {MKey, MKeyFirst}"
  shows "jrun (m, FObj ms # stk) (sep_concat '','' (map indent_member kvs) @ newline_indent n @ ''}'') =
    complete (JObj (rev ms @ map (\<lambda>kv. (coerce (fst kv), JStr (coerce (snd kv)))) kvs)) stk"
  using assms
proof (induction kvs arbitrary: ms m)
  case (Cons p kvs)
  obtain k v where p: "p = (k, v)" by (cases p)
  note step = jrun_member [OF Cons.prems(2), of ms stk k v]
  show ?case
  proof (cases kvs)
    case Nil
    then show ?thesis by (simp add: p step)
  next
    case (Cons p' kvs')
    have "jrun (m, FObj ms # stk) (sep_concat '','' (map indent_member (p # kvs)) @ newline_indent n @ ''}'') =
        jrun (MKey, FObj ((coerce k, JStr (coerce v)) # ms) # stk) (sep_concat '','' (map indent_member kvs) @ newline_indent n @ ''}'')"
      by (simp add: Cons p step)
    also have "\<dots> = complete (JObj (rev ((coerce k, JStr (coerce v)) # ms) @ map (\<lambda>kv. (coerce (fst kv), JStr (coerce (snd kv)))) kvs)) stk"
      using Cons by (intro Cons.IH) auto
    finally show ?thesis by (simp add: p)
  qed
qed simp

lemma jrun_indent_members:
  assumes "length stk < max_depth"
  shows "jrun (MValue, stk) (indent_members kvs) = complete (JObj (map (\<lambda>kv. (coerce (fst kv), JStr (coerce (snd kv)))) kvs)) stk"
proof (cases "kvs = []")
  case True
  then show ?thesis using assms by (simp add: indent_members_def jstep_begin push_def jstep_def [of "(MKeyFirst, _)"])
next
  case False
  then have "indent_members kvs = CHR ''{'' # (sep_concat '','' (map indent_member kvs) @ newline_indent 2 @ ''}'')"
    by (simp add: indent_members_def)
  then show ?thesis
    using jrun_members [OF False, of MKeyFirst "[]" stk 2] assms
    by (simp add: jstep_begin push_def del: jrun_simps(3))
qed

lemma jparse_peers_text:
  "jparse (peers_text ps) =
     Some (JObj [(''peers'', JObj (map (\<lambda>kv. (coerce (fst kv), JStr (coerce (snd kv)))) (sorted_list_of_fmap (peers_by_name ps))))])"
proof -
  let ?kvs = "sorted_list_of_fmap (peers_by_name ps)"
  let ?v = "JObj (map (\<lambda>kv. (coerce (fst kv), JStr (coerce (snd kv)))) ?kvs)"
  have c: "coerce ''peers'' = ''peers''" by code_simp
  have "jrun (MValue, []) (peers_text ps) = jrun (MValue, [FMem [] ''peers'']) (indent_members ?kvs @ newline_indent 0 @ ''}'')"
    using jrun_name [of MKeyFirst "[]" "[]" "''peers''"] c
    by (simp add: peers_text_def jstep_begin push_def max_depth_def)
  also have "\<dots> = (MDone (JObj [(''peers'', ?v)]), [])"
    by (simp add: jrun_indent_members max_depth_def)
  finally show ?thesis by (simp add: jparse_def jfinish_def)
qed

lemma map_of_names: "map_of (map (\<lambda>p. (format_uint (fst p), snd p)) xs) (format_uint i) = map_of xs i"
  by (induction xs) (auto simp: format_uint_inj)

lemma peers_by_name_lookup: "fmlookup (peers_by_name ps) (format_uint i) = fmlookup ps i"
  by (simp add: peers_by_name_def fmlookup_of_list map_of_names)

lemma peers_by_name_keys: "fmlookup (peers_by_name ps) k = Some u \<Longrightarrow> \<exists>i. k = format_uint i"
  by (auto simp: peers_by_name_def fmlookup_of_list dest!: map_of_SomeD)

lemma fold_add_peer:
  assumes "\<forall>p \<in> set kvs. \<exists>i. fst p = format_uint i" "distinct (map fst kvs)"
  shows "fmlookup (fold add_peer kvs ps) i = (case map_of kvs (format_uint i) of None \<Rightarrow> fmlookup ps i | Some u \<Rightarrow> Some u)"
  using assms
proof (induction kvs arbitrary: ps)
  case (Cons p kvs)
  obtain j u where p: "p = (format_uint j, u)" using Cons.prems(1) by (cases p) auto
  then have "format_uint j \<notin> set (map fst kvs)" using Cons.prems(2) by simp
  then have "map_of kvs (format_uint j) = None" by (simp add: map_of_eq_None_iff)
  moreover have "fmlookup (fold add_peer (p # kvs) ps) i =
      (case map_of kvs (format_uint i) of None \<Rightarrow> fmlookup (fmupd j u ps) i | Some u \<Rightarrow> Some u)"
  proof -
    have "fold add_peer (p # kvs) ps = fold add_peer kvs (fmupd j u ps)" by (simp add: p add_peer_def)
    then show ?thesis using Cons by simp
  qed
  ultimately show ?case by (auto simp: p format_uint_inj split: option.split)
qed simp

definition valid_urls :: "peers \<Rightarrow> bool" where
  "valid_urls ps \<longleftrightarrow> (\<forall>i u. fmlookup ps i = Some u \<longrightarrow> utf8_valid u)"

lemma utf8_valid_digits: "list_all is_digit s \<Longrightarrow> utf8_valid s"
  by (rule utf8_valid_ascii) (auto simp: list_all_iff is_digit_def)

lemma decode_peers_text:
  assumes "valid_urls ps"
  shows "decode_peersFile (peers_text ps) = Some (Some (peers_by_name ps))"
proof -
  let ?m = "peers_by_name ps"
  have "coerce k = k \<and> coerce u = u" if kv: "(k, u) \<in> set (sorted_list_of_fmap ?m)" for k u
  proof -
    have l: "fmlookup ?m k = Some u" using kv by (simp add: set_sorted_list_of_fmap)
    then obtain i where i: "k = format_uint i" using peers_by_name_keys by blast
    then have "fmlookup ps i = Some u" using l peers_by_name_lookup by simp
    then have "utf8_valid u" using assms by (auto simp: valid_urls_def)
    moreover have "utf8_valid k" using i format_uint_digits(1) utf8_valid_digits by simp
    ultimately show ?thesis by (simp add: coerce_valid)
  qed
  then have "map (\<lambda>kv. (coerce (fst kv), JStr (coerce (snd kv)))) (sorted_list_of_fmap ?m) = map (\<lambda>kv. (fst kv, JStr (snd kv))) (sorted_list_of_fmap ?m)"
    by (intro map_cong) auto
  then have "jparse (peers_text ps) = Some (JObj [(''peers'', jmap JStr ?m)])"
    by (simp add: jparse_peers_text jmap_def)
  moreover have "get_map (\<lambda>v. get_str v '''') (jmap JStr ?m) None = Some (Some ?m)"
    by (rule get_map_jmap) simp
  ultimately show ?thesis by (simp add: decode_peersFile_def get_struct_def set_peersFile_def)
qed

lemma save_load:
  assumes "faults d = []" "valid_urls qs"
  shows "fst (loadPeersFile ps (savePeersFileLocked qs d)) = ps ++\<^sub>f qs"
proof -
  have r: "os_ReadFile peersName (savePeersFileLocked qs d) = (Inr (Some (peers_text qs)), savePeersFileLocked qs d)"
    using assms(1)
    by (simp add: savePeersFileLocked_def os_ReadFile_def os_WriteFile_def os_OpenTrunc_def file_Write_def file_Close_def os_Rename_def
        io_bind_def take_fault_def set_file_def get_file_def io_ret_def peersName_def Let_def)
  have "fmlookup (fold add_peer (sorted_list_of_fmap (peers_by_name qs)) ps) i = fmlookup (ps ++\<^sub>f qs) i" for i
    by (subst fold_add_peer)
      (auto simp: distinct_sorted_list_of_fmap set_sorted_list_of_fmap peers_by_name_lookup fmlookup_dom_iff
        dest: peers_by_name_keys split: option.split)
  then have "fold add_peer (sorted_list_of_fmap (peers_by_name qs)) ps = ps ++\<^sub>f qs" by (rule fmap_ext)
  then show ?thesis using decode_peers_text [OF assms(2)] by (simp add: loadPeersFile_def r)
qed

section \<open>Properties\<close>

text \<open>
  C27: the peer table that the server saves after a membership change is read back exactly at the next
  start on the same directory: every saved peer has its saved URL, and a peer of the command line that the
  file does not mention keeps the one given there.
\<close>

theorem peers_survive_restart:
  assumes "faults d = []" "onConfChange cc (ps, d) = (qs, d')" "valid_urls qs"
  shows "fst (loadPeersFile flags d') = flags ++\<^sub>f qs"
proof -
  have "d' = savePeersFileLocked qs d" using assms(2) by (auto simp: onConfChange_def Let_def)
  then show ?thesis using save_load [OF assms(1,3)] by simp
qed

definition wit_change :: "int \<Rightarrow> u64 \<Rightarrow> ConfChange" where
  "wit_change t i = \<lparr>cc_ID = 9, cc_Type = t, cc_NodeID = i, cc_Context = (if t = ConfChangeAddNode then ''http://c'' else '''')\<rparr>"

definition wit_flags :: peers where
  "wit_flags = fmap_of_list [(1, ''http://a''), (2, ''http://b'')]"

definition wit_dir :: disk where
  "wit_dir = \<lparr>files = fmempty, faults = []\<rparr>"

text \<open>
  A removed peer is back in the table after a restart with the same command line: the file only
  extends the peers given there, so the removal that was saved is lost.
\<close>

theorem removed_peer_returns:
  "(let (qs, d') = onConfChange (wit_change ConfChangeRemoveNode 2) (wit_flags, wit_dir) in
    fmlookup qs 2 = None \<and> fmlookup (fst (loadPeersFile wit_flags d')) 2 = Some ''http://b'')"
  by code_simp

text \<open>
  The file is renamed into place without having been synced, so a power loss after a membership
  change can leave it empty, and the next start silently falls back to the command line: the peer that was
  added, committed and saved is unknown.
\<close>

theorem peers_file_not_durable:
  "(let (qs, d') = onConfChange (wit_change ConfChangeAddNode 3) (wit_flags, wit_dir);
        d'' = d'\<lparr>files := power_loss (\<lambda>_. 0) (files d')\<rparr> in
    fmlookup qs 3 = Some ''http://c'' \<and> fst (loadPeersFile wit_flags d'') = wit_flags)"
  by code_simp

theorem peers_survive_restart_witness:
  "fmlookup (fst (loadPeersFile fmempty (snd (onConfChange (wit_change ConfChangeAddNode 3) (wit_flags, wit_dir))))) 3 = Some ''http://c''"
proof -
  define r where "r = onConfChange (wit_change ConfChangeAddNode 3) (wit_flags, wit_dir)"
  have "utf8_valid ''http://a''" "utf8_valid ''http://b''" "utf8_valid ''http://c''" by code_simp+
  moreover have "fst r = fmupd 3 ''http://c'' wit_flags"
    by (simp add: r_def onConfChange_def wit_change_def ConfChangeAddNode_def Let_def)
  ultimately have v: "valid_urls (fst r)" by (auto simp: valid_urls_def wit_flags_def fmlookup_of_list split: if_splits)
  have "fst (loadPeersFile fmempty (snd r)) = fmempty ++\<^sub>f fst r"
    by (rule peers_survive_restart [OF _ _ v]) (simp_all add: wit_dir_def r_def)
  moreover have "fmlookup (fst r) 3 = Some ''http://c''" unfolding r_def by code_simp
  ultimately show ?thesis by (simp add: r_def)
qed

end
