(* ===== verification/Server.thy ===== *)
theory Server
  imports Peers
begin

text \<open>
  \<open>internal/server/server.go\<close> and \<open>chaos.go\<close>: the runtime around the engine.  The engine, the peer table,
  the queues of the senders and the fault-injection state are one record; what a goroutine does while it
  holds the mutex is one step on it.  A handler that waits is split at the wait: the first step answers at
  once or returns what it waits for, the second step takes the value from its channel or the timeout.

  A callback of the engine is a number that names a channel with room for one value; a second value is
  dropped.  Calls of \<open>OnConfChange\<close> are events of the engine and are delivered after \<open>HandleReady\<close>, which does
  not read the peer table.  Messages have a type \<open>'g\<close>; the parameter \<open>G\<close> reads their fields and their wire
  form.
\<close>

section \<open>Fault injection\<close>

record chaosState =
  dropIn :: "(u64, bool) fmap"
  dropOut :: "(u64, bool) fmap"

definition newChaosState :: chaosState where
  "newChaosState = \<lparr>dropIn = fmempty, dropOut = fmempty\<rparr>"

definition allowInbound :: "u64 \<Rightarrow> chaosState \<Rightarrow> bool" where
  "allowInbound frm c \<longleftrightarrow> fmlookup (dropIn c) frm \<noteq> Some True"

definition allowOutbound :: "u64 \<Rightarrow> chaosState \<Rightarrow> bool" where
  "allowOutbound to c \<longleftrightarrow> fmlookup (dropOut c) to \<noteq> Some True"

definition isolate_peer :: "bool \<Rightarrow> bool \<Rightarrow> u64 \<Rightarrow> chaosState \<Rightarrow> chaosState" where
  "isolate_peer dropInbound dropOutbound p c =
     (if p = 0 then c
      else
        let c1 = (if dropInbound then c\<lparr>dropIn := fmupd p True (dropIn c)\<rparr> else c)
        in (if dropOutbound then c1\<lparr>dropOut := fmupd p True (dropOut c1)\<rparr> else c1))"

definition isolate :: "u64 list \<Rightarrow> bool \<Rightarrow> bool \<Rightarrow> chaosState \<Rightarrow> chaosState" where
  "isolate ps dropInbound dropOutbound = fold (isolate_peer dropInbound dropOutbound) ps"

definition chaos_clear :: "chaosState \<Rightarrow> chaosState" where
  "chaos_clear c = c\<lparr>dropIn := fmempty, dropOut := fmempty\<rparr>"

definition sortedIDs :: "(u64, bool) fmap \<Rightarrow> u64 list" where
  "sortedIDs m = map fst (filter snd (sorted_list_of_fmap m))"

definition chaos_current :: "chaosState \<Rightarrow> u64 list \<times> u64 list" where
  "chaos_current c = (sortedIDs (dropIn c), sortedIDs (dropOut c))"

section \<open>Requests and responses\<close>

record http_req =
  hr_Method :: string
  hr_Path :: string
  hr_URI :: string
  hr_Query :: "string \<Rightarrow> string"
  hr_Body :: string

record http_resp =
  hp_Code :: int
  hp_Location :: string
  hp_Body :: string

definition http_Error :: "string \<Rightarrow> int \<Rightarrow> http_resp" where
  "http_Error msg status = \<lparr>hp_Code = status, hp_Location = '''', hp_Body = msg @ [CHR 0x0A]\<rparr>"

definition writeJSON :: "int \<Rightarrow> json \<Rightarrow> http_resp" where
  "writeJSON status v = \<lparr>hp_Code = status, hp_Location = '''', hp_Body = jprint v @ [CHR 0x0A]\<rparr>"

record kvWriteReq =
  kw_Op :: string
  kw_Value :: string
  kw_ClientID :: string
  kw_ReqID :: u64

definition zero_kvWriteReq :: kvWriteReq where
  "zero_kvWriteReq = \<lparr>kw_Op = '''', kw_Value = '''', kw_ClientID = '''', kw_ReqID = 0\<rparr>"

definition set_kvWriteReq :: "string \<Rightarrow> json \<Rightarrow> kvWriteReq \<Rightarrow> kvWriteReq option" where
  "set_kvWriteReq n j w =
     (if n = ''op'' then map_option (\<lambda>s. w\<lparr>kw_Op := s\<rparr>) (get_str j (kw_Op w))
      else if n = ''value'' then map_option (\<lambda>s. w\<lparr>kw_Value := s\<rparr>) (get_str j (kw_Value w))
      else if n = ''client_id'' then map_option (\<lambda>s. w\<lparr>kw_ClientID := s\<rparr>) (get_str j (kw_ClientID w))
      else map_option (\<lambda>x. w\<lparr>kw_ReqID := x\<rparr>) (get_u64 j (kw_ReqID w)))"

definition kvResp :: "string \<Rightarrow> bool \<Rightarrow> json" where
  "kvResp v found = JObj [(''value'', JStr v), (''found'', JBool found)]"

definition errResp :: "string \<Rightarrow> u64 \<Rightarrow> string \<Rightarrow> json" where
  "errResp e l url =
     JObj ([(''error'', JStr e)] @ (if l = 0 then [] else [(''leader_id'', JNum (format_uint l))]) @
       (if url = '''' then [] else [(''leader_url'', JStr url)]))"

text \<open>The text of an error; those of the raft library are not distinguished further.\<close>

definition err_text :: "err \<Rightarrow> string" where
  "err_text e =
     (case e of
        ErrNotLeader l \<Rightarrow> ''not leader (known leader: '' @ format_uint l @ '')''
      | ErrStopped \<Rightarrow> ''engine stopped''
      | ErrMsg m \<Rightarrow> m
      | _ \<Rightarrow> ''error'')"

section \<open>State\<close>

record SvConfig =
  sc_ID :: u64
  sc_Peers :: peers
  sc_Join :: bool
  sc_SnapshotThreshold :: u64
  sc_SnapshotTrailing :: u64

record 'g msg_ops =
  mg_To :: "'g \<Rightarrow> u64"
  mg_From :: "'g \<Rightarrow> u64"
  mg_IsSnap :: "'g \<Rightarrow> bool"
  mg_Marshal :: "'g \<Rightarrow> string res"
  mg_Unmarshal :: "string \<Rightarrow> 'g res"

datatype chan_value = PropVal Result | ErrNil

record ('m, 'r, 'g) Server =
  sv_cfg :: SvConfig
  sv_eng :: "('m, 'r) Engine"
  sv_peers :: peers
  sv_dir :: disk
  sv_senders :: "(u64, 'g list) fmap"
  sv_chaos :: chaosState
  sv_chans :: "(nat, chan_value) fmap"
  sv_next :: nat
  sv_fatal :: bool

text \<open>
  \<open>New\<close>: defaults, the peers of the command line extended by the file, the engine.  \<open>d\<close> is the data
  directory, \<open>st0\<close> its subdirectory \<open>raft\<close>, \<open>inc\<close> the clock reading that becomes the incarnation.
\<close>

definition sv_defaults :: "SvConfig \<Rightarrow> SvConfig" where
  "sv_defaults c =
     c\<lparr>sc_SnapshotThreshold := (if sc_SnapshotThreshold c = 0 then 10000 else sc_SnapshotThreshold c),
       sc_SnapshotTrailing := (if sc_SnapshotTrailing c = 0 then 64 else sc_SnapshotTrailing c)\<rparr>"

definition sv_New ::
  "'m mem_ops \<Rightarrow> ('m, 'r, 'g) raw_ops \<Rightarrow> SvConfig \<Rightarrow> u64 \<Rightarrow> disk \<Rightarrow> 'm DiskStorage \<Rightarrow> ('m, 'r, 'g) Server res" where
  "sv_New M R c0 inc d st0 =
     (let c = sv_defaults c0;
          (ps, d1) = loadPeersFile (sc_Peers c) d;
          bootstrap = (if sc_Join c then [] else map fst (sorted_list_of_fmap (sc_Peers c)))
      in rbind (New M R \<lparr>cfg_ID = sc_ID c, cfg_SnapshotThreshold = sc_SnapshotThreshold c, cfg_SnapshotTrailing = sc_SnapshotTrailing c,
             cfg_BootstrapPeers = bootstrap, cfg_OnConfChange = True, cfg_Incarnation = inc\<rparr> st0) (\<lambda>e.
         Inr \<lparr>sv_cfg = c, sv_eng = e, sv_peers = ps, sv_dir = d1, sv_senders = fmempty, sv_chaos = newChaosState,
           sv_chans = fmempty, sv_next = 0, sv_fatal = False\<rparr>))"

section \<open>Driving the engine\<close>

definition chan_put :: "nat \<Rightarrow> chan_value \<Rightarrow> ('m, 'r, 'g) Server \<Rightarrow> ('m, 'r, 'g) Server" where
  "chan_put c v s = (if fmlookup (sv_chans s) c = None then s\<lparr>sv_chans := fmupd c v (sv_chans s)\<rparr> else s)"

fun deliver :: "event \<Rightarrow> ('m, 'r, 'g) Server \<Rightarrow> ('m, 'r, 'g) Server" where
  "deliver (PropDone c res) s = chan_put c (PropVal res) s"
| "deliver (ConfDone c) s = chan_put c ErrNil s"
| "deliver (ReadDone c) s = chan_put c ErrNil s"
| "deliver (ConfApplied cc) s = (let (ps, d) = onConfChange cc (sv_peers s, sv_dir s) in s\<lparr>sv_peers := ps, sv_dir := d\<rparr>)"

text \<open>\<open>enqueueLocked\<close>: a queue of 4096 messages per peer; a message that finds it full is dropped.\<close>

definition queue_cap :: nat where "queue_cap = 4096"

definition enqueueLocked :: "('m, 'r, 'g) raw_ops \<Rightarrow> 'g msg_ops \<Rightarrow> 'g \<Rightarrow> ('m, 'r, 'g) Server \<Rightarrow> ('m, 'r, 'g) Server" where
  "enqueueLocked R G msg s =
     (let to = mg_To G msg;
          q = (case fmlookup (sv_senders s) to of None \<Rightarrow> [] | Some q \<Rightarrow> q)
      in if length q < queue_cap then s\<lparr>sv_senders := fmupd to (q @ [msg]) (sv_senders s)\<rparr>
         else
           let s1 = s\<lparr>sv_senders := fmupd to q (sv_senders s)\<rparr>
           in if mg_IsSnap G msg then s1\<lparr>sv_eng := ReportSnapshot R to False (sv_eng s1)\<rparr> else s1)"

text \<open>One round of \<open>processReadyLocked\<close>; an error ends the process.\<close>

definition ready_once :: "'m mem_ops \<Rightarrow> ('m, 'r, 'g) raw_ops \<Rightarrow> 'g msg_ops \<Rightarrow> ('m, 'r, 'g) Server \<Rightarrow> ('m, 'r, 'g) Server" where
  "ready_once M R G s =
     (let old = length (events (sv_eng s));
          (r, e) = HandleReady M R (sv_eng s);
          s1 = fold deliver (drop old (events e)) (s\<lparr>sv_eng := e\<rparr>)
      in case r of Inl _ \<Rightarrow> s1\<lparr>sv_fatal := True\<rparr> | Inr msgs \<Rightarrow> fold (enqueueLocked R G) msgs s1)"

partial_function (option) processReadyLocked ::
  "'m mem_ops \<Rightarrow> ('m, 'r, 'g) raw_ops \<Rightarrow> 'g msg_ops \<Rightarrow> ('m, 'r, 'g) Server \<Rightarrow> ('m, 'r, 'g) Server option" where
  "processReadyLocked M R G s =
     (if sv_fatal s \<or> \<not> rn_HasReady R (rn (sv_eng s)) (eng_mem (sv_eng s)) then Some s
      else processReadyLocked M R G (ready_once M R G s))"

declare processReadyLocked.simps [code]

definition tick_step :: "'m mem_ops \<Rightarrow> ('m, 'r, 'g) raw_ops \<Rightarrow> 'g msg_ops \<Rightarrow> ('m, 'r, 'g) Server \<Rightarrow> ('m, 'r, 'g) Server option" where
  "tick_step M R G s = processReadyLocked M R G (s\<lparr>sv_eng := Tick R (sv_eng s)\<rparr>)"

text \<open>
  \<open>senderLoop\<close> of one peer.  A round takes a message from the channel, asks the fault injection, reads the URL of
  the peer, sends without the mutex and reports a snapshot; only the first and the last of these change the server,
  and each of them is a step of its own in \<open>server_step\<close>.  \<open>post\<close> is what the peer answers to a body at an URL (the
  status code, or none for a transport error).
\<close>

definition sender_take :: "u64 \<Rightarrow> ('m, 'r, 'g) Server \<Rightarrow> ('g \<times> ('m, 'r, 'g) Server) option" where
  "sender_take to s =
     (case fmlookup (sv_senders s) to of
        Some (msg # q) \<Rightarrow> Some (msg, s\<lparr>sv_senders := fmupd to q (sv_senders s)\<rparr>)
      | _ \<Rightarrow> None)"

definition sender_url :: "u64 \<Rightarrow> ('m, 'r, 'g) Server \<Rightarrow> string" where
  "sender_url to s = (case fmlookup (sv_peers s) to of None \<Rightarrow> '''' | Some u \<Rightarrow> u)"

definition sendMsg :: "'g msg_ops \<Rightarrow> (string \<Rightarrow> string \<Rightarrow> int option) \<Rightarrow> string \<Rightarrow> 'g \<Rightarrow> bool \<times> (string \<times> string) option" where
  "sendMsg G post url msg =
     (if url = '''' then (False, None)
      else case mg_Marshal G msg of
          Inl _ \<Rightarrow> (False, None)
        | Inr data \<Rightarrow> (post (url @ ''/raft'') data = Some 204, Some (url @ ''/raft'', data)))"

definition sender_report ::
  "'m mem_ops \<Rightarrow> ('m, 'r, 'g) raw_ops \<Rightarrow> 'g msg_ops \<Rightarrow> u64 \<Rightarrow> 'g \<Rightarrow> bool \<Rightarrow> ('m, 'r, 'g) Server \<Rightarrow> ('m, 'r, 'g) Server option" where
  "sender_report M R G to msg ok s =
     (if mg_IsSnap G msg then processReadyLocked M R G (s\<lparr>sv_eng := ReportSnapshot R to ok (sv_eng s)\<rparr>) else Some s)"

text \<open>A round that nothing interrupts; the second component is the request that went out.\<close>

definition sender_step ::
  "'m mem_ops \<Rightarrow> ('m, 'r, 'g) raw_ops \<Rightarrow> 'g msg_ops \<Rightarrow> (string \<Rightarrow> string \<Rightarrow> int option) \<Rightarrow> u64 \<Rightarrow> ('m, 'r, 'g) Server \<Rightarrow>
   (('m, 'r, 'g) Server \<times> (string \<times> string) option) option" where
  "sender_step M R G post to s =
     (case sender_take to s of
        None \<Rightarrow> Some (s, None)
      | Some (msg, s1) \<Rightarrow>
          if \<not> allowOutbound to (sv_chaos s1) then Some (s1, None)
          else
            let (ok, out) = sendMsg G post (sender_url to s1) msg
            in map_option (\<lambda>s2. (s2, out)) (sender_report M R G to msg ok s1))"

definition handleRaft ::
  "'m mem_ops \<Rightarrow> ('m, 'r, 'g) raw_ops \<Rightarrow> 'g msg_ops \<Rightarrow> string res \<Rightarrow> ('m, 'r, 'g) Server \<Rightarrow> (http_resp \<times> ('m, 'r, 'g) Server) option" where
  "handleRaft M R G body s =
     (case rbind body (mg_Unmarshal G) of
        Inl e \<Rightarrow> Some (http_Error (err_text e) 400, s)
      | Inr msg \<Rightarrow>
          if \<not> allowInbound (mg_From G msg) (sv_chaos s) then Some (\<lparr>hp_Code = 204, hp_Location = '''', hp_Body = ''''\<rparr>, s)
          else
            let (r, e) = Step R msg (sv_eng s) in
            map_option (\<lambda>s1. (case r of Inl x \<Rightarrow> http_Error (err_text x) 500 | Inr _ \<Rightarrow> \<lparr>hp_Code = 204, hp_Location = '''', hp_Body = ''''\<rparr>, s1))
              (processReadyLocked M R G (s\<lparr>sv_eng := e\<rparr>)))"

section \<open>Client API\<close>

text \<open>The text of a decoding error in an answer with status 400 is not modelled.\<close>

definition writeProposeErr :: "http_req \<Rightarrow> err \<Rightarrow> ('m, 'r, 'g) Server \<Rightarrow> http_resp" where
  "writeProposeErr r e s =
     (case e of
        ErrNotLeader l \<Rightarrow>
          (let url = (case fmlookup (sv_peers s) l of None \<Rightarrow> '''' | Some u \<Rightarrow> u) in
           if l \<noteq> 0 \<and> url \<noteq> '''' then (writeJSON 307 (errResp (err_text e) l url))\<lparr>hp_Location := url @ hr_URI r\<rparr>
           else writeJSON 503 (errResp ''no leader known; retry'' 0 ''''))
      | _ \<Rightarrow> writeJSON 500 (errResp (err_text e) 0 ''''))"

text \<open>What a handler does before and after its wait.\<close>

datatype handler = Answer http_resp | WaitProp nat Op | WaitRead nat string | WaitConf nat

text \<open>
  The command a write request asks for; \<open>key\<close> is the key \<open>handleKV\<close> takes from the path of the request, and
  \<open>strconv.ParseUint\<close> gives the largest number on overflow.
\<close>

definition query_uint :: "string \<Rightarrow> u64" where
  "query_uint v =
     (case parse_uint v of Some n \<Rightarrow> n
      | None \<Rightarrow> if v \<noteq> [] \<and> list_all is_digit v then - 1 else 0)"

definition write_op :: "http_req \<Rightarrow> string \<Rightarrow> Op option" where
  "write_op r key =
     (let req = (if hr_Method r = ''DELETE'' then
            Some \<lparr>kw_Op = OpDelete, kw_Value = '''', kw_ClientID = hr_Query r ''client_id'',
              kw_ReqID = (if hr_Query r ''req_id'' \<noteq> '''' then query_uint (hr_Query r ''req_id'') else 0)\<rparr>
          else
            (case jdecode (hr_Body r) of
               None \<Rightarrow> None
             | Some j \<Rightarrow> get_struct set_kvWriteReq [''op'', ''value'', ''client_id'', ''req_id''] j zero_kvWriteReq))
      in map_option (\<lambda>w. \<lparr>op_Type = (if kw_Op w = '''' then OpPut else kw_Op w), op_Key = key, op_Val = kw_Value w,
           op_ClientID = kw_ClientID w, op_ReqID = kw_ReqID w\<rparr>) req)"

definition fresh_chan :: "('m, 'r, 'g) Server \<Rightarrow> nat \<times> ('m, 'r, 'g) Server" where
  "fresh_chan s = (sv_next s, s\<lparr>sv_next := sv_next s + 1\<rparr>)"

definition propose_write ::
  "'m mem_ops \<Rightarrow> ('m, 'r, 'g) raw_ops \<Rightarrow> 'g msg_ops \<Rightarrow> http_req \<Rightarrow> Op \<Rightarrow> ('m, 'r, 'g) Server \<Rightarrow> (handler \<times> ('m, 'r, 'g) Server) option" where
  "propose_write M R G r op s =
     (let (c, s1) = fresh_chan s;
          (res, e) = Propose R op (Some c) (sv_eng s1);
          s2 = s1\<lparr>sv_eng := e\<rparr>
      in (case res of
            Inl x \<Rightarrow> Some (Answer (writeProposeErr r x s2), s2)
          | Inr _ \<Rightarrow> map_option (\<lambda>s3. (WaitProp c op, s3)) (processReadyLocked M R G s2)))"

definition handleWrite ::
  "'m mem_ops \<Rightarrow> ('m, 'r, 'g) raw_ops \<Rightarrow> 'g msg_ops \<Rightarrow> http_req \<Rightarrow> string \<Rightarrow> ('m, 'r, 'g) Server \<Rightarrow> (handler \<times> ('m, 'r, 'g) Server) option" where
  "handleWrite M R G r key s =
     (case write_op r key of
        None \<Rightarrow> Some (Answer (http_Error ''invalid body'' 400), s)
      | Some op \<Rightarrow> propose_write M R G r op s)"

definition handleRead ::
  "'m mem_ops \<Rightarrow> ('m, 'r, 'g) raw_ops \<Rightarrow> 'g msg_ops \<Rightarrow> http_req \<Rightarrow> string \<Rightarrow> ('m, 'r, 'g) Server \<Rightarrow> (handler \<times> ('m, 'r, 'g) Server) option" where
  "handleRead M R G r key s =
     (let consistency = (if hr_Query r ''consistency'' = '''' then ''linearizable'' else hr_Query r ''consistency'') in
      if consistency = ''local'' then
        (let (v, ok) = Get (eng_sm (sv_eng s)) key in Some (Answer (writeJSON 200 (kvResp v ok)), s))
      else if consistency = ''linearizable'' then
        (let (c, s1) = fresh_chan s in
         map_option (\<lambda>s2. (WaitRead c key, s2)) (processReadyLocked M R G (s1\<lparr>sv_eng := ReadIndex R c (sv_eng s1)\<rparr>)))
      else Some (Answer (http_Error ''consistency must be linearizable or local'' 400), s))"

definition handleKV ::
  "'m mem_ops \<Rightarrow> ('m, 'r, 'g) raw_ops \<Rightarrow> 'g msg_ops \<Rightarrow> http_req \<Rightarrow> ('m, 'r, 'g) Server \<Rightarrow> (handler \<times> ('m, 'r, 'g) Server) option" where
  "handleKV M R G r s =
     (let key = trim_prefix (hr_Path r) ''/kv/'' in
      if key = '''' then Some (Answer (http_Error ''missing key'' 400), s)
      else if hr_Method r = ''GET'' then handleRead M R G r key s
      else if hr_Method r \<in> {''PUT'', ''POST'', ''DELETE''} then handleWrite M R G r key s
      else Some (Answer (http_Error ''method not allowed'' 405), s))"

record memberReq =
  mb_ID :: u64
  mb_URL :: string

definition set_memberReq :: "string \<Rightarrow> json \<Rightarrow> memberReq \<Rightarrow> memberReq option" where
  "set_memberReq n j w =
     (if n = ''id'' then map_option (\<lambda>x. w\<lparr>mb_ID := x\<rparr>) (get_u64 j (mb_ID w))
      else map_option (\<lambda>s. w\<lparr>mb_URL := s\<rparr>) (get_str j (mb_URL w)))"

text \<open>The change a membership request asks for; \<open>now\<close> is the clock reading that becomes its id.\<close>

definition member_change :: "http_req \<Rightarrow> u64 \<Rightarrow> http_resp + ConfChange" where
  "member_change r now =
     (if hr_Method r = ''POST'' then
        (case jdecode (hr_Body r) of
           None \<Rightarrow> Inl (http_Error ''body must be {\"id\":N,\"url\":\"http://...\"}'' 400)
         | Some j \<Rightarrow>
             (case get_struct set_memberReq [''id'', ''url''] j \<lparr>mb_ID = 0, mb_URL = ''''\<rparr> of
                None \<Rightarrow> Inl (http_Error ''body must be {\"id\":N,\"url\":\"http://...\"}'' 400)
              | Some w \<Rightarrow>
                  if mb_ID w = 0 \<or> mb_URL w = '''' then Inl (http_Error ''body must be {\"id\":N,\"url\":\"http://...\"}'' 400)
                  else Inr \<lparr>cc_ID = now, cc_Type = ConfChangeAddNode, cc_NodeID = mb_ID w, cc_Context = mb_URL w\<rparr>))
      else if hr_Method r = ''DELETE'' then
        (case parse_uint (trim_prefix (hr_Path r) ''/members/'') of
           None \<Rightarrow> Inl (http_Error ''DELETE /members/{id}'' 400)
         | Some i \<Rightarrow>
             if i = 0 then Inl (http_Error ''DELETE /members/{id}'' 400)
             else Inr \<lparr>cc_ID = now, cc_Type = ConfChangeRemoveNode, cc_NodeID = i, cc_Context = ''''\<rparr>)
      else Inl (http_Error ''method not allowed'' 405))"

definition handleMembers ::
  "'m mem_ops \<Rightarrow> ('m, 'r, 'g) raw_ops \<Rightarrow> 'g msg_ops \<Rightarrow> http_req \<Rightarrow> u64 \<Rightarrow> ('m, 'r, 'g) Server \<Rightarrow> (handler \<times> ('m, 'r, 'g) Server) option" where
  "handleMembers M R G r now s =
     (case member_change r now of
        Inl resp \<Rightarrow> Some (Answer resp, s)
      | Inr cc \<Rightarrow>
          let (c, s1) = fresh_chan s;
              (res, e) = ProposeConfChange R cc (Some c) (sv_eng s1);
              s2 = s1\<lparr>sv_eng := e\<rparr>
          in (case res of
                Inl x \<Rightarrow> Some (Answer (writeProposeErr r x s2), s2)
              | Inr _ \<Rightarrow> map_option (\<lambda>s3. (WaitConf c, s3)) (processReadyLocked M R G s2)))"

text \<open>
  The end of a handler: the value of its channel, or the timeout of five seconds.  \<^term>\<open>None\<close>: it still waits.
\<close>

definition handler_end :: "handler \<Rightarrow> bool \<Rightarrow> ('m, 'r, 'g) Server \<Rightarrow> (http_resp \<times> ('m, 'r, 'g) Server) option" where
  "handler_end h timedOut s =
     (case h of
        Answer resp \<Rightarrow> Some (resp, s)
      | WaitProp c op \<Rightarrow>
          if timedOut then
            Some (writeJSON 503 (errResp ''proposal timed out; retry with same client_id/req_id'' 0 ''''),
              s\<lparr>sv_eng := CancelProposal (op_ClientID op) (op_ReqID op) (sv_eng s)\<rparr>)
          else (case fmlookup (sv_chans s) c of
                  Some (PropVal res) \<Rightarrow> Some (writeJSON 200 (kvResp (res_Val res) (res_OK res)), s)
                | _ \<Rightarrow> None)
      | WaitRead c key \<Rightarrow>
          if timedOut then Some (writeJSON 503 (errResp ''read index timed out (no leader?); retry'' 0 ''''), s)
          else (case fmlookup (sv_chans s) c of
                  Some _ \<Rightarrow> (let (v, ok) = Get (eng_sm (sv_eng s)) key in Some (writeJSON 200 (kvResp v ok), s))
                | None \<Rightarrow> None)
      | WaitConf c \<Rightarrow>
          if timedOut then Some (writeJSON 503 (errResp ''conf change timed out; retry'' 0 ''''), s)
          else (case fmlookup (sv_chans s) c of
                  Some _ \<Rightarrow> Some (writeJSON 200 (JObj [(''applied'', JBool True)]), s)
                | None \<Rightarrow> None))"

definition handleStatus :: "('m, 'r, 'g) raw_ops \<Rightarrow> ('m, 'r, 'g) Server \<Rightarrow> http_resp" where
  "handleStatus R s =
     (let e = sv_eng s; num = (\<lambda>w. JNum (format_uint w)) in
      writeJSON 200 (JObj [(''id'', num (sc_ID (sv_cfg s))), (''leader'', num (lead e)), (''is_leader'', JBool (IsLeader R e)),
        (''applied'', num (appliedIndex e)), (''snap_index'', num (snapIndex e)), (''voters'', JArr (map num (rn_Voters R (rn e)))),
        (''peers'', jmap JStr (peers_by_name (sv_peers s))), (''keys'', JNum (dec_of_nat (Len (eng_sm e))))]))"

definition sv_SnapshotFileSize :: "('m, 'r, 'g) Server \<Rightarrow> nat res \<times> ('m, 'r, 'g) Server" where
  "sv_SnapshotFileSize s =
     (let (r, d) = SnapshotFileSize (st (sv_eng s)) in (r, s\<lparr>sv_eng := (sv_eng s)\<lparr>st := d\<rparr>\<rparr>))"

definition sv_Stop :: "('m, 'r, 'g) Server \<Rightarrow> ('m, 'r, 'g) Server" where
  "sv_Stop s = s\<lparr>sv_eng := snd (eng_Close (sv_eng s))\<rparr>"

section \<open>Fault-injection API\<close>

record chaosIsolateReq =
  ci_Peers :: "u64 list"
  ci_DropInbound :: "bool option"
  ci_DropOutbound :: "bool option"

definition get_bool_ptr :: "json \<Rightarrow> bool option \<Rightarrow> bool option option" where
  "get_bool_ptr j cur = (case j of JBool b \<Rightarrow> Some (Some b) | JNull \<Rightarrow> Some None | _ \<Rightarrow> None)"

definition set_chaosIsolateReq :: "string \<Rightarrow> json \<Rightarrow> chaosIsolateReq \<Rightarrow> chaosIsolateReq option" where
  "set_chaosIsolateReq n j w =
     (if n = ''peers'' then map_option (\<lambda>ps. w\<lparr>ci_Peers := ps\<rparr>) (get_u64_slice j (ci_Peers w))
      else if n = ''drop_inbound'' then map_option (\<lambda>b. w\<lparr>ci_DropInbound := b\<rparr>) (get_bool_ptr j (ci_DropInbound w))
      else map_option (\<lambda>b. w\<lparr>ci_DropOutbound := b\<rparr>) (get_bool_ptr j (ci_DropOutbound w)))"

definition isolate_directions :: "chaosIsolateReq \<Rightarrow> bool \<times> bool" where
  "isolate_directions w =
     (if ci_DropInbound w \<noteq> None \<or> ci_DropOutbound w \<noteq> None
      then (ci_DropInbound w = Some True, ci_DropOutbound w = Some True) else (True, True))"

definition chaosStateResp :: "('m, 'r, 'g) Server \<Rightarrow> json" where
  "chaosStateResp s =
     (let (i, ou) = chaos_current (sv_chaos s); nums = (\<lambda>ws. JArr (map (\<lambda>w. JNum (format_uint w)) ws)) in
      JObj [(''node_id'', JNum (format_uint (sc_ID (sv_cfg s)))), (''drop_inbound'', nums i), (''drop_outbound'', nums ou)])"

definition handleChaosState :: "http_req \<Rightarrow> ('m, 'r, 'g) Server \<Rightarrow> http_resp" where
  "handleChaosState r s =
     (if hr_Method r \<noteq> ''GET'' then http_Error ''method not allowed'' 405 else writeJSON 200 (chaosStateResp s))"

definition handleChaosIsolate :: "http_req \<Rightarrow> ('m, 'r, 'g) Server \<Rightarrow> http_resp \<times> ('m, 'r, 'g) Server" where
  "handleChaosIsolate r s =
     (if hr_Method r = ''POST'' then
        (case jdecode (hr_Body r) of
           None \<Rightarrow> (http_Error ''invalid body'' 400, s)
         | Some j \<Rightarrow>
             (case get_struct set_chaosIsolateReq [''peers'', ''drop_inbound'', ''drop_outbound''] j
                \<lparr>ci_Peers = [], ci_DropInbound = None, ci_DropOutbound = None\<rparr> of
                None \<Rightarrow> (http_Error ''invalid body'' 400, s)
              | Some w \<Rightarrow>
                  if ci_Peers w = [] then (http_Error ''body must be {\"peers\":[id,...],\"drop_inbound\":true,\"drop_outbound\":true}'' 400, s)
                  else
                    let (i, ou) = isolate_directions w;
                        s1 = s\<lparr>sv_chaos := isolate (ci_Peers w) i ou (sv_chaos s)\<rparr>
                    in (writeJSON 200 (chaosStateResp s1), s1)))
      else if hr_Method r = ''DELETE'' then
        (let s1 = s\<lparr>sv_chaos := chaos_clear (sv_chaos s)\<rparr> in (writeJSON 200 (chaosStateResp s1), s1))
      else (http_Error ''method not allowed'' 405, s))"

end
