(* ===== verification/ServerFacts.thy ===== *)
theory ServerFacts
  imports Server
begin

text \<open>
  Facts about the server: the runs of its goroutines keep the sender queues within their capacity and the
  channels of the handlers apart, and injected faults blackhole exactly the peers they name.
\<close>

section \<open>Fault injection\<close>

lemma isolate_peer_allow:
  "allowInbound p (isolate_peer i ou q c) \<longleftrightarrow> allowInbound p c \<and> \<not> (i \<and> q \<noteq> 0 \<and> p = q)"
  "allowOutbound p (isolate_peer i ou q c) \<longleftrightarrow> allowOutbound p c \<and> \<not> (ou \<and> q \<noteq> 0 \<and> p = q)"
  by (auto simp: isolate_peer_def allowInbound_def allowOutbound_def Let_def)

lemma isolate_allow:
  "allowInbound p (isolate ps i ou c) \<longleftrightarrow> allowInbound p c \<and> \<not> (i \<and> p \<noteq> 0 \<and> p \<in> set ps)"
  "allowOutbound p (isolate ps i ou c) \<longleftrightarrow> allowOutbound p c \<and> \<not> (ou \<and> p \<noteq> 0 \<and> p \<in> set ps)"
  unfolding isolate_def by (induction ps arbitrary: c) (auto simp: isolate_peer_allow)

section \<open>Runs\<close>

text \<open>
  The steps of the goroutines of one server, each under the mutex: the ticker, the two halves of a round of a
  sender, the raft endpoint, the first and the second half of a request, the fault-injection endpoint.  What a
  sender reports may be anything, so whatever the fault injection and the peer table said when it looked is covered.
\<close>

inductive server_step ::
  "'m mem_ops \<Rightarrow> ('m, 'r, 'g) raw_ops \<Rightarrow> 'g msg_ops \<Rightarrow> ('m, 'r, 'g) Server \<Rightarrow> ('m, 'r, 'g) Server \<Rightarrow> bool"
  for M R G where
  tick: "tick_step M R G s = Some s' \<Longrightarrow> server_step M R G s s'"
| sender_takes: "sender_take to s = Some (msg, s') \<Longrightarrow> server_step M R G s s'"
| sender_reports: "sender_report M R G to msg ok s = Some s' \<Longrightarrow> server_step M R G s s'"
| raft: "handleRaft M R G body s = Some (resp, s') \<Longrightarrow> server_step M R G s s'"
| kv_request: "handleKV M R G r s = Some (h, s') \<Longrightarrow> server_step M R G s s'"
| member_request: "handleMembers M R G r now s = Some (h, s') \<Longrightarrow> server_step M R G s s'"
| answer: "handler_end h timedOut s = Some (resp, s') \<Longrightarrow> server_step M R G s s'"
| chaos_request: "handleChaosIsolate r s = (resp, s') \<Longrightarrow> server_step M R G s s'"

inductive server_run ::
  "'m mem_ops \<Rightarrow> ('m, 'r, 'g) raw_ops \<Rightarrow> 'g msg_ops \<Rightarrow> ('m, 'r, 'g) Server \<Rightarrow> bool"
  for M R G where
  start: "sv_New M R c inc d st0 = Inr s \<Longrightarrow> server_run M R G s"
| steps: "server_run M R G s \<Longrightarrow> server_step M R G s s' \<Longrightarrow> server_run M R G s'"

section \<open>Queues\<close>

definition queues_ok :: "('m, 'r, 'g) Server \<Rightarrow> bool" where
  "queues_ok s \<longleftrightarrow> (\<forall>to q. fmlookup (sv_senders s) to = Some q \<longrightarrow> length q \<le> queue_cap)"

lemma deliver_senders [simp]:
  "sv_senders (deliver ev s) = sv_senders s" "sv_eng (deliver ev s) = sv_eng s" "sv_chaos (deliver ev s) = sv_chaos s"
  by (cases ev; simp add: chan_put_def Let_def split_beta)+

lemma fold_deliver_senders [simp]: "sv_senders (fold deliver evs s) = sv_senders s"
  by (induction evs arbitrary: s) simp_all

lemma queues_enqueue: "queues_ok s \<Longrightarrow> queues_ok (enqueueLocked R G msg s)"
  by (auto simp: queues_ok_def enqueueLocked_def Let_def not_less intro: le_antisym split: option.splits if_splits)

lemma queues_fold_enqueue: "queues_ok s \<Longrightarrow> queues_ok (fold (enqueueLocked R G) msgs s)"
  by (induction msgs arbitrary: s) (simp_all add: queues_enqueue)

lemma queues_cong: "sv_senders s = sv_senders s' \<Longrightarrow> queues_ok s = queues_ok s'"
  by (simp add: queues_ok_def)

lemma queues_update [simp]:
  "queues_ok (s\<lparr>sv_eng := e\<rparr>) = queues_ok s" "queues_ok (s\<lparr>sv_next := n\<rparr>) = queues_ok s"
  "queues_ok (s\<lparr>sv_fatal := b\<rparr>) = queues_ok s" "queues_ok (s\<lparr>sv_chaos := c\<rparr>) = queues_ok s"
  "queues_ok (fold deliver evs s) = queues_ok s"
  by (simp_all add: queues_ok_def)

lemma queues_ready_once: "queues_ok s \<Longrightarrow> queues_ok (ready_once M R G s)"
  by (simp add: ready_once_def Let_def split_beta queues_fold_enqueue split: sum.split)

lemma processReady_invariant:
  assumes "\<And>s. P s \<Longrightarrow> P (ready_once M R G s)" "processReadyLocked M R G s = Some s'" "P s"
  shows "P s'"
proof -
  have "M = M \<longrightarrow> R = R \<longrightarrow> G = G \<longrightarrow> P s \<longrightarrow> P s'"
  proof (rule processReadyLocked.raw_induct [where P = "\<lambda>M' R' G' s t. M' = M \<longrightarrow> R' = R \<longrightarrow> G' = G \<longrightarrow> P s \<longrightarrow> P t", OF _ assms(2)])
    fix f M' R' G' s t
    assume ih: "\<And>M' R' G' s t. f M' R' G' s = Some t \<Longrightarrow> M' = M \<longrightarrow> R' = R \<longrightarrow> G' = G \<longrightarrow> P s \<longrightarrow> P t"
      and e: "(if sv_fatal s \<or> \<not> rn_HasReady R' (rn (sv_eng s)) (eng_mem (sv_eng s)) then Some s
        else f M' R' G' (ready_once M' R' G' s)) = Some t"
    show "M' = M \<longrightarrow> R' = R \<longrightarrow> G' = G \<longrightarrow> P s \<longrightarrow> P t"
      using assms(1) ih e by (auto split: if_splits)
  qed
  then show ?thesis using assms(3) by simp
qed

lemma queues_processReady: "processReadyLocked M R G s = Some s' \<Longrightarrow> queues_ok s \<Longrightarrow> queues_ok s'"
  by (rule processReady_invariant [where P = queues_ok]) (rule queues_ready_once)

lemma queues_take:
  assumes "sender_take to s = Some (msg, s')" "queues_ok s"
  shows "queues_ok s'"
proof -
  obtain q where q: "fmlookup (sv_senders s) to = Some (msg # q)" "s' = s\<lparr>sv_senders := fmupd to q (sv_senders s)\<rparr>"
    using assms(1) by (auto simp: sender_take_def split: option.splits list.splits)
  from q(1) assms(2) have "length (msg # q) \<le> queue_cap" unfolding queues_ok_def by blast
  with assms(2) show ?thesis by (auto simp: queues_ok_def q(2) split: if_splits)
qed

text \<open>A round without interruption is one of these runs.\<close>

lemma sender_step_run:
  assumes "server_run M R G s" "sender_step M R G post to s = Some (s', out)"
  shows "server_run M R G s'"
proof (cases "sender_take to s")
  case None
  with assms show ?thesis by (simp add: sender_step_def)
next
  case (Some p)
  obtain msg s1 where p: "sender_take to s = Some (msg, s1)" using Some by (cases p) simp
  have "server_run M R G s1" using server_run.steps [OF assms(1) server_step.sender_takes [OF p]] .
  then show ?thesis using assms(2) p server_run.steps server_step.sender_reports
    by (fastforce simp: sender_step_def split: if_splits prod.splits)
qed

lemma queues_step: "server_step M R G s s' \<Longrightarrow> queues_ok s \<Longrightarrow> queues_ok s'"
proof (induction rule: server_step.induct)
  case (tick s s')
  then show ?case using queues_processReady by (fastforce simp: tick_step_def)
next
  case (sender_takes to s msg s')
  then show ?case by (rule queues_take)
next
  case (sender_reports to msg ok s s')
  then show ?case using queues_processReady by (fastforce simp: sender_report_def split: if_splits)
next
  case (raft body s resp s')
  then show ?case using queues_processReady
    by (fastforce simp: handleRaft_def Let_def split_beta split: sum.splits if_splits)
next
  case (kv_request r s h s')
  then show ?case using queues_processReady
    by (fastforce simp: handleKV_def handleRead_def handleWrite_def propose_write_def fresh_chan_def Let_def split_beta split: if_splits sum.splits option.splits)
next
  case (member_request r now s h s')
  then show ?case using queues_processReady
    by (fastforce simp: handleMembers_def fresh_chan_def Let_def split_beta split: sum.splits)
next
  case (answer h timedOut s resp s')
  then show ?case
    by (auto simp: handler_end_def split_beta split: handler.splits if_splits option.splits chan_value.splits)
next
  case (chaos_request r s resp s')
  then show ?case
    by (auto simp: handleChaosIsolate_def Let_def split_beta split: if_splits option.splits)
qed

lemma queues_run: "server_run M R G s \<Longrightarrow> queues_ok s"
proof (induction rule: server_run.induct)
  case (start c inc d st0 s)
  then show ?case by (auto simp: sv_New_def queues_ok_def Let_def split_beta rbind_Inr_iff)
next
  case (steps s s')
  then show ?case using queues_step by blast
qed

section \<open>Properties\<close>

text \<open>
  Whatever the ticker, the senders, the peers and the clients do, the queue of messages for a peer
  never holds more than its 4096 places.
\<close>

theorem sender_queues_bounded:
  assumes "server_run M R G s" "fmlookup (sv_senders s) to = Some q"
  shows "length q \<le> 4096"
  using queues_run [OF assms(1)] assms(2) by (auto simp: queues_ok_def queue_cap_def)

text \<open>
  C28: isolating peers drops exactly the messages from and to them, in the directions asked for: a message
  from such a peer is answered as delivered and changes nothing, the next message to it is taken from the
  queue and nothing is sent, and all other peers are as before; clearing the rules allows every peer again.
\<close>

theorem isolation_blackholes_peer:
  assumes "p \<noteq> 0" "p \<in> set ps" "sv_chaos s = isolate ps True True c" "mg_Unmarshal G data = Inr msg" "mg_From G msg = p"
  shows "handleRaft M R G (Inr data) s = Some (\<lparr>hp_Code = 204, hp_Location = '''', hp_Body = ''''\<rparr>, s) \<and>
    (\<exists>s'. sender_step M R G post p s = Some (s', None) \<and> sv_eng s' = sv_eng s) \<and>
    (\<forall>q. q \<notin> set ps \<longrightarrow> allowInbound q (sv_chaos s) = allowInbound q c \<and> allowOutbound q (sv_chaos s) = allowOutbound q c) \<and>
    (\<forall>q. allowInbound q (chaos_clear c) \<and> allowOutbound q (chaos_clear c))"
proof -
  have no: "\<not> allowInbound p (sv_chaos s)" "\<not> allowOutbound p (sv_chaos s)"
    using assms(1-3) by (simp_all add: isolate_allow)
  have "\<exists>s'. sender_step M R G post p s = Some (s', None) \<and> sv_eng s' = sv_eng s"
    using no(2) by (auto simp: sender_step_def sender_take_def Let_def split: option.split list.split)
  moreover have "allowInbound q (chaos_clear c)" "allowOutbound q (chaos_clear c)" for q
    by (simp_all add: chaos_clear_def allowInbound_def allowOutbound_def)
  ultimately show ?thesis using no assms(3-5) by (simp add: handleRaft_def isolate_allow)
qed

end
