(* ===== verification/WalFacts.thy ===== *)
theory WalFacts
  imports Storage
begin

text \<open>
  The files of \<open>internal/storage/storage.go\<close> as bytes: the records read back as they were written,
  the write-ahead log replays to the log raft appended, and a log whose last append was cut
  anywhere replays to that log with a prefix of the append.
\<close>

section \<open>Printed text has no control characters\<close>

lemma code_hex_char: "n < 16 \<Longrightarrow> 48 \<le> code (hex_char n)"
  by (simp add: hex_char_def)

lemma esc_byte_printable: "n < 256 \<Longrightarrow> c \<in> set (esc_byte n) \<Longrightarrow> 32 \<le> code c"
proof -
  assume "n < 256" "c \<in> set (esc_byte n)"
  moreover have "48 \<le> code (hex_char (n div 16))" "48 \<le> code (hex_char (n mod 16))"
    using \<open>n < 256\<close> by (simp_all add: code_hex_char)
  ultimately show ?thesis by (auto simp: esc_byte_def split: if_splits)
qed

lemma esc_rune_printable: "c \<in> set (esc_rune (a # s)) \<Longrightarrow> 32 \<le> code c"
proof -
  assume c: "c \<in> set (esc_rune (a # s))"
  have high: "128 \<le> code c" if "128 \<le> code a" "c \<in> set (take (rune_len (a # s)) (a # s))"
    using rune_bytes_high that by fastforce
  show ?thesis
    using c high esc_byte_printable [of "code a" c] code_less [of a]
    by (auto simp: esc_rune_def Let_def html_safe_def split: if_splits)
qed

lemma escape_printable: "c \<in> set (escape s) \<Longrightarrow> 32 \<le> code c"
proof (induction s rule: escape.induct)
  case (2 a t)
  then show ?case using esc_rune_printable [of c a t] by (auto simp: escape.simps)
qed simp

lemma quote_printable: "c \<in> set (quote s) \<Longrightarrow> 32 \<le> code c"
  using escape_printable [of c s] by (auto simp: quote_def)

lemma set_sep_concat: "set (sep_concat sep xs) \<subseteq> set sep \<union> (\<Union>x \<in> set xs. set x)"
  by (induction sep xs rule: sep_concat.induct) auto

lemma digit_printable: "list_all is_digit l \<Longrightarrow> c \<in> set l \<Longrightarrow> 32 \<le> code c"
  by (auto simp: list_all_iff is_digit_def)

section \<open>Records\<close>

text \<open>
  Entries that can be written and read back: an entry type of raftpb and a line that fits the scanner.  The
  program does not check the length: a longer line is written and synced, and then \<open>Open\<close> fails
  (\<open>oversized_append_unreadable\<close>).
\<close>

definition entry_ok :: "Entry \<Rightarrow> bool" where
  "entry_ok e \<longleftrightarrow> 0 \<le> e_Type e \<and> e_Type e < 2 ^ 31 \<and> length (wal_line e) \<le> max_line"

abbreviation wal_text :: "Entry \<Rightarrow> string" where
  "wal_text e \<equiv> jprint (wal_json (entry_record e))"

lemma b64_char_ascii: "n < 64 \<Longrightarrow> code (b64_char n) < 128"
  by (auto simp: code_b64_char)

lemma b64_encode_ascii: "list_all (\<lambda>c. code c < 128) (b64_encode s)"
  by (induction s rule: b64_encode.induct) (simp_all add: b64_char_ascii)

lemma coerce_b64 [simp]: "coerce (b64_encode s) = b64_encode s"
  by (rule coerce_ascii) (rule b64_encode_ascii)

lemma b64_encode_Nil_iff [simp]: "b64_encode s = [] \<longleftrightarrow> s = []"
  by (cases s rule: b64_encode.cases) simp_all



lemma jparse_wal_text:
  assumes "entry_ok e"
  shows "jparse (wal_text e) = Some (wal_json (entry_record e))"
proof -
  have "jparse (wal_text e) = Some (jcoerce (wal_json (entry_record e)))"
    unfolding wal_json_def
    by (rule jparse_jprint_object) (use assms in \<open>simp_all add: entry_ok_def entry_record_def max_depth_def\<close>)
  then show ?thesis by (simp add: wal_json_def entry_record_def coerce_ascii)
qed

lemma decode_wal_text:
  assumes "entry_ok e"
  shows "decode_walRecord (wal_text e) = Some (entry_record e)"
proof -
  have "parse_int32 (format_int (e_Type e)) = Some (e_Type e)"
    using assms by (intro parse_int32_format) (simp_all add: entry_ok_def)
  then show ?thesis
    by (simp add: decode_walRecord_def jparse_wal_text [OF assms])
      (simp add: wal_json_def get_struct_def set_walRecord_def entry_record_def get_i32_def)
qed

lemma wal_text_printable:
  assumes "0 \<le> e_Type e" "c \<in> set (wal_text e)"
  shows "32 \<le> code c"
proof -
  have "32 \<le> code c" if "c \<in> set (format_uint w)" for w
    using that format_uint_digits(1) digit_printable by blast
  moreover have "32 \<le> code c" if "c \<in> set (format_int (e_Type e))"
    using that assms(1) dec_of_nat_digits digit_printable by (fastforce simp: format_int_def)
  ultimately show ?thesis
    using assms(2) set_sep_concat quote_printable
    by (auto simp: wal_json_def entry_record_def split: if_splits)
qed

lemma last_wal_text: "last (wal_text e) = CHR ''}''" "wal_text e \<noteq> []" "hd (wal_text e) = CHR ''{''"
  by (simp_all add: wal_json_def)

section \<open>Scanning and replaying\<close>

lemma scan_lines_line:
  assumes "CHR 0x0A \<notin> set l" "length acc + length l < max_line"
  shows "scan_lines acc (l @ CHR 0x0A # rest) =
     (let (ls, long) = scan_lines [] rest in (drop_cr (rev acc @ l) # ls, long))"
  using assms by (induction l arbitrary: acc) auto

lemma scan_lines_last:
  assumes "CHR 0x0A \<notin> set l" "length acc + length l < max_line"
  shows "scan_lines acc l = (if rev acc @ l = [] then [] else [drop_cr (rev acc @ l)], False)"
  using assms by (induction l arbitrary: acc) auto

lemma no_newline: "\<forall>c \<in> set l. 32 \<le> code c \<Longrightarrow> CHR 0x0A \<notin> set l"
  by force

lemma drop_cr_printable: "\<forall>c \<in> set l. 32 \<le> code c \<Longrightarrow> drop_cr l = l"
  by (cases l rule: rev_cases) (auto simp: drop_cr_def)

lemma entry_ok_text:
  assumes "entry_ok e"
  shows "\<forall>c \<in> set (wal_text e). 32 \<le> code c" "length (wal_text e) < max_line"
  using assms wal_text_printable by (auto simp: entry_ok_def wal_line_def)

lemma wal_bytes_simps [simp]:
  "wal_bytes [] = []" "wal_bytes (e # es) = wal_text e @ CHR 0x0A # wal_bytes es"
  by (simp_all add: wal_bytes_def wal_line_def)

lemma wal_bytes_append [simp]: "wal_bytes (xs @ ys) = wal_bytes xs @ wal_bytes ys"
  by (simp add: wal_bytes_def)

lemma scan_wal_bytes:
  "list_all entry_ok es \<Longrightarrow> scan_lines [] (wal_bytes es @ rest) =
     (let (ls, long) = scan_lines [] rest in (map wal_text es @ ls, long))"
proof (induction es)
  case (Cons e es)
  then have "entry_ok e" by simp
  note t = entry_ok_text [OF this]
  have "scan_lines [] (wal_text e @ CHR 0x0A # (wal_bytes es @ rest)) =
      (let (ls, long) = scan_lines [] (wal_bytes es @ rest) in (drop_cr (wal_text e) # ls, long))"
    using scan_lines_line [of "wal_text e" "[]"] no_newline t by simp
  with Cons show ?case by (simp add: drop_cr_printable [OF t(1)] split_beta Let_def)
qed (simp add: split_beta)

lemma Entry_eta [simp]: "\<lparr>e_Index = e_Index e, e_Term = e_Term e, e_Type = e_Type e, e_Data = e_Data e\<rparr> = e"
  by (cases e) simp

definition replay_step :: "Entry list \<Rightarrow> Entry \<Rightarrow> Entry list" where
  "replay_step ents e = truncate_from (e_Index e) ents @ [e]"

lemma replay_lines_texts:
  "list_all entry_ok es \<Longrightarrow>
     replay_lines (map wal_text es @ ls) long ents = replay_lines ls long (foldl replay_step ents es)"
proof (induction es arbitrary: ents)
  case (Cons e es)
  then have "entry_ok e" by simp
  then have "replay_lines (wal_text e # (map wal_text es @ ls)) long ents =
      replay_lines (map wal_text es @ ls) long (replay_step ents e)"
    using last_wal_text(2) by (simp add: decode_wal_text del: jprint.simps)
      (simp add: entry_record_def replay_step_def Let_def)
  with Cons show ?case by (simp del: replay_lines.simps)
qed simp

lemma replay_wal_bytes:
  assumes "list_all entry_ok es"
  shows "replay_bytes (wal_bytes es) i = Inr (dropWhile (\<lambda>e. e_Index e \<le> i) (foldl replay_step [] es))"
  using scan_wal_bytes [OF assms, of "[]"] replay_lines_texts [OF assms, of "[]"]
  by (simp add: replay_bytes_def)

text \<open>A line that was cut before its newline: the entry, when the whole object is there, or nothing.\<close>

lemma replay_torn_text:
  assumes "entry_ok e" "wal_text e = p @ r"
  shows "replay_lines (fst (scan_lines [] p)) (snd (scan_lines [] p)) ents =
     Inr (if r = [] then replay_step ents e else ents)"
proof -
  note t = entry_ok_text [OF assms(1)]
  from t(1) assms(2) have p: "\<forall>c \<in> set p. 32 \<le> code c" by auto
  moreover have "length p < max_line" using t(2) assms(2) by simp
  ultimately have scan: "scan_lines [] p = (if p = [] then [] else [p], False)"
    using scan_lines_last [of p "[]"] no_newline drop_cr_printable by simp
  show ?thesis
  proof (cases "r = []")
    case True
    with assms(2) have "p = wal_text e" by simp
    with scan replay_lines_texts [of "[e]" "[]" False ents] assms(1) last_wal_text(2) True
    show ?thesis by (simp del: replay_lines.simps(2))
  next
    case False
    have "jparse p = None"
      using torn_object_no_json [OF _ False] assms(2) jparse_wal_text [OF assms(1)] by (metis wal_json_def option.distinct(1))
    then have "decode_walRecord p = None" by (simp add: decode_walRecord_def)
    with scan False show ?thesis by simp
  qed
qed

lemma take_wal_bytes:
  "\<exists>n p. take k (wal_bytes es) = wal_bytes (take n es) @ p \<and>
     (p = [] \<or> (\<exists>e r. n < length es \<and> e = es ! n \<and> wal_text e = p @ r))"
proof (induction es arbitrary: k)
  case (Cons e es)
  show ?case
  proof (cases "k \<le> length (wal_text e)")
    case True
    then have "take k (wal_bytes (e # es)) = take k (wal_text e)" by simp
    then show ?thesis
      by (intro exI [of _ 0] exI [of _ "take k (wal_text e)"]) (auto intro: exI [of _ "drop k (wal_text e)"])
  next
    case False
    define k' where "k' = k - length (wal_text e) - 1"
    have "take k (wal_bytes (e # es)) = wal_text e @ CHR 0x0A # take k' (wal_bytes es)"
      using False by (simp add: k'_def take_Cons')
    moreover obtain n p where "take k' (wal_bytes es) = wal_bytes (take n es) @ p"
      "p = [] \<or> (\<exists>e r. n < length es \<and> e = es ! n \<and> wal_text e = p @ r)"
      using Cons by blast
    ultimately show ?thesis by (intro exI [of _ "Suc n"] exI [of _ p]) auto
  qed
qed simp

text \<open>A log whose last append was cut at any byte replays to the log with a prefix of the append.\<close>

lemma replay_torn_append:
  assumes "list_all entry_ok ws" "list_all entry_ok es"
  shows "\<exists>n \<le> length es. replay_bytes (wal_bytes ws @ take k (wal_bytes es)) i =
     Inr (dropWhile (\<lambda>e. e_Index e \<le> i) (foldl replay_step [] (ws @ take n es)))"
proof -
  obtain n p where np: "take k (wal_bytes es) = wal_bytes (take n es) @ p"
    "p = [] \<or> (\<exists>e r. n < length es \<and> e = es ! n \<and> wal_text e = p @ r)"
    using take_wal_bytes by blast
  have ok: "list_all entry_ok (ws @ take n es)"
    using assms by (auto simp: list_all_iff dest: in_set_takeD)
  have eq: "replay_bytes (wal_bytes ws @ take k (wal_bytes es)) i =
      (case replay_lines (fst (scan_lines [] p)) (snd (scan_lines [] p)) (foldl replay_step [] (ws @ take n es)) of
         Inl e \<Rightarrow> Inl e | Inr ents \<Rightarrow> Inr (dropWhile (\<lambda>e. e_Index e \<le> i) ents))"
    using scan_wal_bytes [OF ok, of p] replay_lines_texts [OF ok] np(1)
    by (simp add: replay_bytes_def split_beta Let_def)
  from np(2) show ?thesis
  proof
    assume "p = []"
    with eq show ?thesis by (intro exI [of _ "min n (length es)"]) (auto simp: min_def)
  next
    assume "\<exists>e r. n < length es \<and> e = es ! n \<and> wal_text e = p @ r"
    then obtain r where r: "n < length es" "wal_text (es ! n) = p @ r" by blast
    with assms(2) have "entry_ok (es ! n)" by (simp add: list_all_length)
    note replay_torn_text [OF this r(2)]
    with eq r(1) show ?thesis
      by (intro exI [of _ "if r = [] then Suc n else n"]) (auto simp: take_Suc_conv_app_nth)
  qed
qed

section \<open>Replay follows the log\<close>

lemma truncate_from_follows:
  assumes "follows i old" "i < k"
  shows "truncate_from k old = takeWhile (\<lambda>x. e_Index x < k) old"
proof -
  have "filter (\<lambda>x. e_Index x < k) old = takeWhile (\<lambda>x. e_Index x < k) old"
    by (rule takeWhile_dropWhile_sorted) (rule follows_sorted [OF assms(1)])
  moreover have "truncate_from k old = filter (\<lambda>x. e_Index x < k) old"
    using follows_sorted [OF assms(1)]
  proof (induction old rule: rev_induct)
    case (snoc x xs)
    then have s: "sorted_wrt (\<lambda>a b. e_Index a < e_Index b) xs" "\<forall>y \<in> set xs. e_Index y < e_Index x"
      by (auto simp: sorted_wrt_append)
    show ?case
    proof (cases "k \<le> e_Index x")
      case True
      with snoc s show ?thesis by (simp add: truncate_from_def)
    next
      case False
      with s(2) have "filter (\<lambda>x. e_Index x < k) xs = xs" by (auto intro!: filter_True)
      with False show ?thesis by (simp add: truncate_from_def)
    qed
  qed (simp add: truncate_from_def)
  ultimately show ?thesis by simp
qed

lemma replay_step_next:
  assumes "\<forall>x \<in> set old. e_Index x < e_Index e"
  shows "replay_step (old @ xs) e = old @ replay_step xs e"
proof -
  have "dropWhile (\<lambda>x. e_Index e \<le> e_Index x) (rev old) = rev old"
    using assms by (cases "rev old") (auto simp: rev_swap)
  then show ?thesis
    by (auto simp: replay_step_def truncate_from_def dropWhile_append)
qed

lemma foldl_replay_follows:
  "follows (last_index i old) es \<Longrightarrow> follows i old \<Longrightarrow> foldl replay_step old es = old @ es"
proof (induction es arbitrary: old)
  case (Cons e es)
  then have e: "e_Index e = last_index i old + 1" "last_index i old < last_index i old + 1" by auto
  then have "\<forall>x \<in> set old. e_Index x < e_Index e"
    using follows_index_le [OF Cons.prems(2)] by (metis le_less_trans)
  then have step: "replay_step old e = old @ [e]"
    using replay_step_next [of old e "[]"] by (simp add: replay_step_def truncate_from_def)
  have "follows i (old @ [e])" "last_index i (old @ [e]) = e_Index e"
    using Cons.prems e by (simp_all add: follows_append last_index_append last_index_def)
  with Cons step show ?case by simp
qed simp

lemma foldl_replay_splice:
  assumes "follows i old" "appendable i old es"
  shows "foldl replay_step old es = splice_log old es"
proof -
  from assms(2) obtain e es' where es: "es = e # es'" by (cases es) (auto simp: appendable_def)
  from assms(2) es have lt: "i < e_Index e" and f: "follows (e_Index e) es'"
    by (auto simp: appendable_def)
  have "replay_step old e = splice_log old [e]"
    using truncate_from_follows [OF assms(1) lt] by (simp add: replay_step_def splice_log_def)
  moreover have "appendable i old [e]" using assms(2) es by (auto simp: appendable_def)
  note follows_splice [OF assms(1) this]
  ultimately have "foldl replay_step old es = splice_log old [e] @ es'"
    using foldl_replay_follows [of i "splice_log old [e]" es'] f es by (simp add: last_index_def)
  then show ?thesis by (simp add: splice_log_def es)
qed

section \<open>The hard state and snapshot files\<close>

lemma decode_hardState_json: "decode_hardState (jprint (hardState_json hs)) = Inr hs"
proof -
  have "jparse (jprint (hardState_json hs)) = Some (jcoerce (hardState_json hs))"
    unfolding hardState_json_def by (rule jparse_jprint_object) (simp_all add: max_depth_def)
  then show ?thesis
    by (simp add: decode_hardState_def)
      (simp add: hardState_json_def coerce_ascii get_struct_def set_hardState_def)
qed

text \<open>What the snapshot file keeps of a snapshot: the membership outside of a joint configuration.\<close>

definition snapshot_ok :: "RaftSnapshot \<Rightarrow> bool" where
  "snapshot_ok sn \<longleftrightarrow> cs_VotersOutgoing (sn_Conf sn) = [] \<and> cs_LearnersNext (sn_Conf sn) = [] \<and>
     \<not> cs_AutoLeave (sn_Conf sn)"

lemma jcoerce_u64s [simp]: "jcoerce (u64s_json ws) = u64s_json ws"
  by (simp add: u64s_json_def comp_def)

lemma get_u64_slice_json [simp]: "get_u64_slice (u64s_json ws) cur = Some ws"
  by (simp add: u64s_json_def get_u64_slice_def)

lemma jwf_u64s [simp]: "jwf (u64s_json ws)"
  by (simp add: u64s_json_def)

lemma jdepth_u64s: "jdepth (u64s_json ws) \<le> 1"
proof -
  have "foldr max (map (\<lambda>_. 0) ws) (0 :: nat) = 0" by (induction ws) simp_all
  then show ?thesis by (simp add: u64s_json_def comp_def)
qed

lemma decode_snapshot_json:
  assumes "snapshot_ok sn"
  shows "decode_snapshot (jprint (snapshotFile_json (snapshot_file sn))) = Inr sn"
proof -
  let ?sf = "snapshot_file sn"
  have depth: "jdepth (u64s_json ws) \<le> 9999" for ws using jdepth_u64s [of ws] by linarith
  have "jparse (jprint (snapshotFile_json ?sf)) = Some (jcoerce (snapshotFile_json ?sf))"
    unfolding snapshotFile_json_def by (rule jparse_jprint_object) (simp_all add: max_depth_def depth)
  moreover have "jcoerce (snapshotFile_json ?sf) = snapshotFile_json ?sf"
    by (simp add: snapshotFile_json_def snapshot_file_def coerce_ascii)
  ultimately show ?thesis
    using assms
    by (simp add: decode_snapshot_def)
      (cases sn; cases "sn_Conf sn"; simp add: snapshotFile_json_def snapshot_file_def get_struct_def
        set_snapshotFile_def snapshot_ok_def zero_ConfState_def)
qed

end
