(* ===== verification/Durability.thy ===== *)
theory Durability
  imports WalFacts
begin

text \<open>
  What \<open>DiskStorage\<close> guarantees across crashes.  \<open>atomicWrite\<close> and \<open>resetWAL\<close> leave the old or the new
  file.  \<open>storage_inv\<close> relates the files to the in-memory storage; the methods that succeed keep it,
  and \<open>Open\<close> on the files after a power loss gives the same snapshot, hard state and log.  An append
  that was interrupted at any call and any byte is recovered as a prefix of it.
\<close>

section \<open>Replacing a file\<close>

abbreviation tmp_name :: "string \<Rightarrow> string" where
  "tmp_name path \<equiv> path @ ''.tmp''"

definition synced_file :: "string \<Rightarrow> file_data" where
  "synced_file data = \<lparr>fbytes = data, fsynced = length data\<rparr>"

lemma synced_file_simps [simp]:
  "fbytes (synced_file data) = data" "durable (synced_file data)" "lose n (synced_file data) = synced_file data"
  by (simp_all add: synced_file_def durable_def lose_def Let_def)

text \<open>Apart from the file \<open>name\<close> two directories agree.\<close>

definition same_except :: "string \<Rightarrow> (string, file_data) fmap \<Rightarrow> (string, file_data) fmap \<Rightarrow> bool" where
  "same_except name fs fs' \<longleftrightarrow> fmdrop name fs' = fmdrop name fs"

lemma same_except_refl [simp]: "same_except name fs fs"
  by (simp add: same_except_def)

lemma same_except_upd [simp]: "same_except name fs (fmupd name f fs') \<longleftrightarrow> same_except name fs fs'"
  by (simp add: same_except_def fmdrop_fmupd_same)

lemma same_except_lookup: "same_except name fs fs' \<Longrightarrow> n \<noteq> name \<Longrightarrow> fmlookup fs' n = fmlookup fs n"
  by (metis fmlookup_drop same_except_def)

text \<open>Writing the temporary file: it is complete and synced, or it is the only file touched.\<close>

definition write_tmp :: "string \<Rightarrow> string \<Rightarrow> ('s, unit) io" where
  "write_tmp tmp data =
      io_bind (os_OpenTrunc tmp) (\<lambda>_. io_bind (file_Write tmp data) (\<lambda>_. io_bind (file_Sync tmp) (\<lambda>_. file_Close)))"

lemma io_bind_assoc: "io_bind (io_bind m k) k' = io_bind m (\<lambda>x. io_bind (k x) k')"
  by (rule ext) (auto simp: io_bind_def split: prod.splits sum.splits)

text \<open>A call failed, and of the directory only the file \<open>tmp\<close> may have changed.\<close>

definition failed_at :: "string \<Rightarrow> 's disk_scheme \<Rightarrow> 'a res \<times> 's disk_scheme \<Rightarrow> bool" where
  "failed_at tmp s r \<longleftrightarrow> faults s \<noteq> [] \<and> fst r = Inl ErrIO \<and> same_except tmp (files s) (files (snd r)) \<and>
     disk.more (snd r) = disk.more s"

lemma write_tmp_outcome:
  "(\<exists>fs. spent s fs \<and> write_tmp tmp data s = (Inr (), s\<lparr>faults := fs, files := fmupd tmp (synced_file data) (files s)\<rparr>)) \<or>
   failed_at tmp s (write_tmp tmp data s)"
proof -
  let ?e = "\<lparr>fbytes = [], fsynced = 0\<rparr>"
  from os_OpenTrunc_outcome [of s tmp] obtain f1 where f1: "spent s f1" and
    o1: "os_OpenTrunc tmp s = (Inr (), s\<lparr>faults := f1, files := fmupd tmp ?e (files s)\<rparr>) \<or>
      faults s \<noteq> [] \<and> os_OpenTrunc tmp s = (Inl ErrIO, s\<lparr>faults := f1\<rparr>)" by blast
  let ?s1 = "s\<lparr>faults := f1, files := fmupd tmp ?e (files s)\<rparr>"
  let ?d = "?e\<lparr>fbytes := [] @ data\<rparr>"
  from file_Write_outcome [of ?s1 tmp ?e data] obtain f2 where f2: "spent ?s1 f2" and
    o2: "file_Write tmp data ?s1 = (Inr (), s\<lparr>faults := f2, files := fmupd tmp ?d (files s)\<rparr>) \<or>
      f1 \<noteq> [] \<and> (\<exists>n. file_Write tmp data ?s1 =
        (Inl ErrIO, s\<lparr>faults := f2, files := fmupd tmp (?e\<lparr>fbytes := [] @ take n data\<rparr>) (files s)\<rparr>))"
    by auto
  let ?s2 = "s\<lparr>faults := f2, files := fmupd tmp ?d (files s)\<rparr>"
  from file_Sync_outcome [of ?s2 tmp ?d] obtain f3 where f3: "spent ?s2 f3" and
    o3: "file_Sync tmp ?s2 = (Inr (), s\<lparr>faults := f3, files := fmupd tmp (synced_file data) (files s)\<rparr>) \<or>
      f2 \<noteq> [] \<and> file_Sync tmp ?s2 = (Inl ErrIO, s\<lparr>faults := f3, files := fmupd tmp ?d (files s)\<rparr>)"
    by (auto simp: synced_file_def)
  let ?s3 = "s\<lparr>faults := f3, files := fmupd tmp (synced_file data) (files s)\<rparr>"
  from file_Close_outcome [of ?s3] obtain f4 where f4: "spent ?s3 f4" and
    o4: "file_Close ?s3 = (Inr (), s\<lparr>faults := f4, files := fmupd tmp (synced_file data) (files s)\<rparr>) \<or>
      f3 \<noteq> [] \<and> file_Close ?s3 = (Inl ErrIO, s\<lparr>faults := f4, files := fmupd tmp (synced_file data) (files s)\<rparr>)"
    by auto
  have sp: "faults s \<noteq> []" if "f1 \<noteq> [] \<or> f2 \<noteq> [] \<or> f3 \<noteq> []"
    using that f1 f2 f3 by (auto simp: spent_def)
  consider "faults s \<noteq> []" "write_tmp tmp data s = (Inl ErrIO, s\<lparr>faults := f1\<rparr>)"
    | n where "f1 \<noteq> []" "write_tmp tmp data s = (Inl ErrIO, s\<lparr>faults := f2, files := fmupd tmp (?e\<lparr>fbytes := [] @ take n data\<rparr>) (files s)\<rparr>)"
    | "f2 \<noteq> []" "write_tmp tmp data s = (Inl ErrIO, s\<lparr>faults := f3, files := fmupd tmp ?d (files s)\<rparr>)"
    | "f3 \<noteq> []" "write_tmp tmp data s = (Inl ErrIO, s\<lparr>faults := f4, files := fmupd tmp (synced_file data) (files s)\<rparr>)"
    | "write_tmp tmp data s = (Inr (), s\<lparr>faults := f4, files := fmupd tmp (synced_file data) (files s)\<rparr>)"
    unfolding write_tmp_def using o1 o2 o3 o4 by (elim disjE conjE exE) simp_all
  then show ?thesis
  proof cases
    case 5
    moreover have "spent s f4" using f1 f2 f3 f4 by (auto simp: spent_def)
    ultimately show ?thesis by blast
  qed (use sp in \<open>simp_all add: failed_at_def\<close>)
qed

lemma atomicWrite_outcome:
  "(\<exists>fs. spent s fs \<and> atomicWrite path data s =
      (Inr (), s\<lparr>faults := fs, files := fmupd path (synced_file data) (fmdrop (tmp_name path) (files s))\<rparr>)) \<or>
   failed_at (tmp_name path) s (atomicWrite path data s)"
proof -
  let ?tmp = "tmp_name path"
  have aw: "atomicWrite path data = io_bind (write_tmp ?tmp data) (\<lambda>_. os_Rename ?tmp path)"
    by (simp add: atomicWrite_def write_tmp_def Let_def io_bind_assoc)
  from write_tmp_outcome [of s ?tmp data] show ?thesis
  proof (elim disjE exE conjE)
    assume "failed_at ?tmp s (write_tmp ?tmp data s)"
    then show ?thesis unfolding aw
      by (cases "write_tmp ?tmp data s") (auto simp: failed_at_def)
  next
    fix f1 assume f1: "spent s f1"
      and w: "write_tmp ?tmp data s = (Inr (), s\<lparr>faults := f1, files := fmupd ?tmp (synced_file data) (files s)\<rparr>)"
    let ?s1 = "s\<lparr>faults := f1, files := fmupd ?tmp (synced_file data) (files s)\<rparr>"
    from os_Rename_outcome [of ?s1 ?tmp "synced_file data" path] obtain f2 where "spent ?s1 f2" and
      "os_Rename ?tmp path ?s1 =
         (Inr (), s\<lparr>faults := f2, files := fmupd path (synced_file data) (fmdrop ?tmp (files s))\<rparr>) \<or>
       f1 \<noteq> [] \<and> os_Rename ?tmp path ?s1 =
         (Inl ErrIO, s\<lparr>faults := f2, files := fmupd ?tmp (synced_file data) (files s)\<rparr>)"
      by (auto simp: fmdrop_fmupd_same)
    then show ?thesis using w f1 unfolding aw by (auto simp: spent_def failed_at_def)
  qed
qed

section \<open>Outcomes of the methods\<close>

abbreviation wal_tmp :: string where
  "wal_tmp \<equiv> tmp_name walName"

definition reset_failed :: "Entry list \<Rightarrow> 'm DiskStorage \<Rightarrow> 'a res \<times> 'm DiskStorage \<Rightarrow> bool" where
  "reset_failed es s r \<longleftrightarrow> faults s \<noteq> [] \<and> fst r = Inl ErrIO \<and> mem (snd r) = mem s \<and>
     (same_except wal_tmp (files s) (files (snd r)) \<or>
      files (snd r) = fmupd walName (synced_file (wal_bytes es)) (fmdrop wal_tmp (files s)))"

lemma set_wal_simp [simp]: "set_wal b s = (Inr (), s\<lparr>wal := b\<rparr>)"
  by (simp add: set_wal_def)

lemma more_mem: "disk.more s' = disk.more s \<Longrightarrow> mem s' = mem s \<and> wal s' = wal (s :: 'm DiskStorage)"
  by (cases s; cases s') simp

lemma resetWAL_outcome:
  "(\<exists>fs. spent s fs \<and> resetWAL es s =
      (Inr (), s\<lparr>faults := fs, files := fmupd walName (synced_file (wal_bytes es)) (fmdrop wal_tmp (files s)), wal := True\<rparr>)) \<or>
   reset_failed es s (resetWAL es s)"
proof -
  let ?new = "fmupd walName (synced_file (wal_bytes es)) (fmdrop wal_tmp (files s))"
  let ?full = "fmupd wal_tmp (synced_file (wal_bytes es)) (files s)"
  have rw: "resetWAL es = io_bind (write_tmp wal_tmp (wal_bytes es)) (\<lambda>_. io_bind (set_wal False) (\<lambda>_.
      io_bind (os_Rename wal_tmp walName) (\<lambda>_. io_bind (os_OpenAppend walName) (\<lambda>_. set_wal True))))"
    by (simp add: resetWAL_def write_tmp_def Let_def io_bind_assoc)
  from write_tmp_outcome [of s wal_tmp "wal_bytes es"] show ?thesis
  proof (elim disjE exE conjE)
    assume "failed_at wal_tmp s (write_tmp wal_tmp (wal_bytes es) s)"
    then show ?thesis unfolding rw
      by (cases "write_tmp wal_tmp (wal_bytes es) s") (auto simp: failed_at_def reset_failed_def dest: more_mem)
  next
    fix f1 assume f1: "spent s f1" and w: "write_tmp wal_tmp (wal_bytes es) s = (Inr (), s\<lparr>faults := f1, files := ?full\<rparr>)"
    let ?s1 = "s\<lparr>faults := f1, files := ?full, wal := False\<rparr>"
    from os_Rename_outcome [of ?s1 wal_tmp "synced_file (wal_bytes es)" walName] obtain f2 where
      f2: "spent ?s1 f2" and
      o2: "os_Rename wal_tmp walName ?s1 = (Inr (), s\<lparr>faults := f2, files := ?new, wal := False\<rparr>) \<or>
        f1 \<noteq> [] \<and> os_Rename wal_tmp walName ?s1 = (Inl ErrIO, s\<lparr>faults := f2, files := ?full, wal := False\<rparr>)"
      by (auto simp: fmdrop_fmupd_same)
    let ?s2 = "s\<lparr>faults := f2, files := ?new, wal := False\<rparr>"
    from os_OpenAppend_outcome [of ?s2 walName] obtain f3 where f3: "spent ?s2 f3" and
      o3: "os_OpenAppend walName ?s2 = (Inr (), s\<lparr>faults := f3, files := ?new, wal := False\<rparr>) \<or>
        f2 \<noteq> [] \<and> os_OpenAppend walName ?s2 = (Inl ErrIO, s\<lparr>faults := f3, files := ?new, wal := False\<rparr>)"
      by auto
    have sp: "spent s f3" "faults s \<noteq> []" if "f1 \<noteq> [] \<or> f2 \<noteq> []"
      using that f1 f2 by (auto simp: spent_def)
    have s3: "spent s f3" using f1 f2 f3 by (auto simp: spent_def)
    consider "f1 \<noteq> []" "resetWAL es s = (Inl ErrIO, s\<lparr>faults := f2, files := ?full, wal := False\<rparr>)"
      | "f2 \<noteq> []" "resetWAL es s = (Inl ErrIO, s\<lparr>faults := f3, files := ?new, wal := False\<rparr>)"
      | "resetWAL es s = (Inr (), s\<lparr>faults := f3, files := ?new, wal := True\<rparr>)"
      unfolding rw using w o2 o3 by (elim disjE conjE) simp_all
    then show ?thesis
    proof cases
      case 3
      with s3 show ?thesis by blast
    qed (use sp in \<open>simp_all add: reset_failed_def\<close>)
  qed
qed

text \<open>The disk part of \<open>Append\<close>.\<close>

lemma Append_outcome:
  assumes "wal s" "fmlookup (files s) walName = Some h" "es \<noteq> []"
  shows "(\<exists>fs. spent s fs \<and> Append M es s =
      mem_call (\<lambda>m. ms_Append M m es)
        (s\<lparr>faults := fs, files := fmupd walName (synced_file (fbytes h @ wal_bytes es)) (files s)\<rparr>)) \<or>
    (faults s \<noteq> [] \<and> (\<exists>fs n. Append M es s =
      (Inl ErrIO, s\<lparr>faults := fs, files := fmupd walName (h\<lparr>fbytes := fbytes h @ take n (wal_bytes es)\<rparr>) (files s)\<rparr>)))"
proof -
  let ?d = "h\<lparr>fbytes := fbytes h @ wal_bytes es\<rparr>"
  from file_Write_outcome [OF assms(2), of "wal_bytes es"] obtain f1 where f1: "spent s f1" and
    o1: "file_Write walName (wal_bytes es) s = (Inr (), s\<lparr>faults := f1, files := fmupd walName ?d (files s)\<rparr>) \<or>
      faults s \<noteq> [] \<and> (\<exists>n. file_Write walName (wal_bytes es) s =
        (Inl ErrIO, s\<lparr>faults := f1, files := fmupd walName (h\<lparr>fbytes := fbytes h @ take n (wal_bytes es)\<rparr>) (files s)\<rparr>))"
    by blast
  let ?s1 = "s\<lparr>faults := f1, files := fmupd walName ?d (files s)\<rparr>"
  have sf: "h\<lparr>fbytes := fbytes h @ wal_bytes es, fsynced := length (fbytes h) + length (wal_bytes es)\<rparr> =
      synced_file (fbytes h @ wal_bytes es)"
    by (cases h) (simp add: synced_file_def)
  from file_Sync_outcome [of ?s1 walName ?d] obtain f2 where f2: "spent ?s1 f2" and
    o2: "file_Sync walName ?s1 = (Inr (), s\<lparr>faults := f2, files := fmupd walName (synced_file (fbytes h @ wal_bytes es)) (files s)\<rparr>) \<or>
      f1 \<noteq> [] \<and> file_Sync walName ?s1 = (Inl ErrIO, s\<lparr>faults := f2, files := fmupd walName ?d (files s)\<rparr>)"
    by (auto simp: sf)
  have sp: "spent s f2" "f1 \<noteq> [] \<Longrightarrow> faults s \<noteq> []" using f1 f2 by (auto simp: spent_def)
  from o1 show ?thesis
  proof (elim disjE conjE exE)
    assume w: "file_Write walName (wal_bytes es) s = (Inr (), ?s1)"
    from o2 show ?thesis
    proof (elim disjE conjE)
      assume "file_Sync walName ?s1 = (Inr (), s\<lparr>faults := f2, files := fmupd walName (synced_file (fbytes h @ wal_bytes es)) (files s)\<rparr>)"
      with w sp assms show ?thesis by (auto simp: Append_def wal_Write_def)
    next
      assume "f1 \<noteq> []" "file_Sync walName ?s1 = (Inl ErrIO, s\<lparr>faults := f2, files := fmupd walName ?d (files s)\<rparr>)"
      with w sp assms have "faults s \<noteq> []" "Append M es s =
          (Inl ErrIO, s\<lparr>faults := f2, files := fmupd walName (h\<lparr>fbytes := fbytes h @ take (length (wal_bytes es)) (wal_bytes es)\<rparr>) (files s)\<rparr>)"
        by (simp_all add: Append_def wal_Write_def)
      then show ?thesis by blast
    qed
  next
    fix n assume "faults s \<noteq> []" "file_Write walName (wal_bytes es) s =
        (Inl ErrIO, s\<lparr>faults := f1, files := fmupd walName (h\<lparr>fbytes := fbytes h @ take n (wal_bytes es)\<rparr>) (files s)\<rparr>)"
    with assms have "faults s \<noteq> []" "Append M es s =
        (Inl ErrIO, s\<lparr>faults := f1, files := fmupd walName (h\<lparr>fbytes := fbytes h @ take n (wal_bytes es)\<rparr>) (files s)\<rparr>)"
      by (simp_all add: Append_def wal_Write_def)
    then show ?thesis by blast
  qed
qed

section \<open>Opening a directory\<close>

definition hs_holds :: "(string, file_data) fmap \<Rightarrow> HardState \<Rightarrow> bool" where
  "hs_holds fs hs \<longleftrightarrow>
     (case fmlookup fs hardStateName of
        None \<Rightarrow> hs = zero_HardState
      | Some f \<Rightarrow> f = synced_file (jprint (hardState_json hs)))"

definition snap_holds :: "(string, file_data) fmap \<Rightarrow> RaftSnapshot \<Rightarrow> bool" where
  "snap_holds fs sn \<longleftrightarrow>
     (case fmlookup fs snapshotName of
        None \<Rightarrow> sn = zero_Snapshot
      | Some f \<Rightarrow> f = synced_file (jprint (snapshotFile_json (snapshot_file sn))) \<and> snapshot_ok sn \<and> 0 < sn_Index sn)"

definition wal_reads :: "(string, file_data) fmap \<Rightarrow> u64 \<Rightarrow> Entry list \<Rightarrow> bool" where
  "wal_reads fs i ents \<longleftrightarrow>
     (case fmlookup fs walName of None \<Rightarrow> ents = [] | Some f \<Rightarrow> replay_bytes (fbytes f) i = Inr ents)"

definition recovered_view :: "RaftSnapshot \<Rightarrow> HardState \<Rightarrow> Entry list \<Rightarrow> mem_view" where
  "recovered_view sn hs ents =
     \<lparr>mv_snap = sn, mv_off = sn_Index sn, mv_offterm = sn_Term sn, mv_ents = ents, mv_hs = hs\<rparr>"

definition with_wal :: "(string, file_data) fmap \<Rightarrow> (string, file_data) fmap" where
  "with_wal fs = (if fmlookup fs walName = None then fmupd walName (synced_file []) fs else fs)"

definition has_state :: "(string, file_data) fmap \<Rightarrow> bool" where
  "has_state fs \<longleftrightarrow> fmlookup fs snapshotName \<noteq> None \<or> fmlookup fs walName \<noteq> None \<or> fmlookup fs hardStateName \<noteq> None"

text \<open>
  The outcome of a call that only reads: a result that satisfies \<open>P\<close>, or a failure that leaves the
  files.  \<open>at s s' v\<close>: the call has come to the state \<open>s'\<close>, with the files of \<open>s\<close> and the memory storage
  at the view \<open>v\<close>.
\<close>

definition outcome :: "'s disk_scheme \<Rightarrow> ('a \<Rightarrow> 's disk_scheme \<Rightarrow> bool) \<Rightarrow> 'a res \<times> 's disk_scheme \<Rightarrow> bool" where
  "outcome s P r \<longleftrightarrow> (\<exists>x s'. r = (Inr x, s') \<and> P x s') \<or>
     (faults s \<noteq> [] \<and> fst r = Inl ErrIO \<and> files (snd r) = files s)"

definition at :: "('m \<Rightarrow> mem_view) \<Rightarrow> 'm DiskStorage \<Rightarrow> 'm DiskStorage \<Rightarrow> mem_view \<Rightarrow> bool" where
  "at view s s' v \<longleftrightarrow> spent s (faults s') \<and> files s' = files s \<and> view (mem s') = v"

lemma outcome_bind:
  assumes "outcome s P (m s')" "\<And>x s''. P x s'' \<Longrightarrow> outcome s Q (k x s'')"
  shows "outcome s Q (io_bind m k s')"
  using assms(1) unfolding outcome_def [of s P]
proof (elim disjE conjE exE)
  fix x s'' assume "m s' = (Inr x, s'')" "P x s''"
  with assms(2) show ?thesis by simp
next
  assume "faults s \<noteq> []" "fst (m s') = Inl ErrIO" "files (snd (m s')) = files s"
  then show ?thesis by (cases "m s'") (auto simp: outcome_def)
qed

lemma outcome_ok: "r = (Inr x, s') \<Longrightarrow> P x s' \<Longrightarrow> outcome s P r"
  by (simp add: outcome_def)

lemma at_spent: "at view s s' v \<Longrightarrow> faults s' \<noteq> [] \<Longrightarrow> faults s \<noteq> []"
  by (auto simp: at_def spent_def)

lemma at_faults: "at view s s' v \<Longrightarrow> spent s' fs \<Longrightarrow> at view s (s'\<lparr>faults := fs\<rparr>) v"
  by (auto simp: at_def spent_def)

lemma os_ReadFile_reads:
  assumes "at view s s' v"
  shows "outcome s (\<lambda>x s''. x = map_option fbytes (fmlookup (files s) name) \<and> at view s s'' v) (os_ReadFile name s')"
  using os_ReadFile_outcome [of s' name]
proof (elim exE conjE disjE)
  fix fs assume "spent s' fs" "os_ReadFile name s' = (Inr (map_option fbytes (fmlookup (files s') name)), s'\<lparr>faults := fs\<rparr>)"
  moreover from assms have "files s' = files s" by (simp add: at_def)
  ultimately show ?thesis using at_faults [OF assms] by (simp add: outcome_def)
next
  fix fs assume "faults s' \<noteq> []" "os_ReadFile name s' = (Inl ErrIO, s'\<lparr>faults := fs\<rparr>)"
  with assms at_spent [OF assms] show ?thesis by (auto simp: outcome_def at_def)
qed

lemma loadSnapshotFile_reads:
  assumes "snap_holds (files s) sn" "at view s s' v"
  shows "outcome s (\<lambda>x s''. x = (if fmlookup (files s) snapshotName = None then None else Some sn) \<and> at view s s'' v)
    (loadSnapshotFile s')"
  unfolding loadSnapshotFile_def
  by (rule outcome_bind, rule os_ReadFile_reads [OF assms(2)])
    (use assms(1) in \<open>auto simp: snap_holds_def decode_snapshot_json outcome_def split: option.splits\<close>)

lemma loadHardStateFile_reads:
  assumes "hs_holds (files s) hs" "at view s s' v"
  shows "outcome s (\<lambda>x s''. x = (if fmlookup (files s) hardStateName = None then None else Some hs) \<and> at view s s'' v)
    (loadHardStateFile s')"
  unfolding loadHardStateFile_def
  by (rule outcome_bind, rule os_ReadFile_reads [OF assms(2)])
    (use assms(1) in \<open>auto simp: hs_holds_def decode_hardState_json outcome_def split: option.splits\<close>)

lemma replayWAL_reads:
  assumes "wal_reads (files s) i ents" "at view s s' v"
  shows "outcome s (\<lambda>x s''. x = (ents, fmlookup (files s) walName \<noteq> None) \<and> at view s s'' v) (replayWAL i s')"
  unfolding replayWAL_def
  by (rule outcome_bind, rule os_ReadFile_reads [OF assms(2)])
    (use assms(1) in \<open>auto simp: wal_reads_def outcome_def split: option.splits\<close>)

lemma os_MkdirAll_reads: "outcome s (\<lambda>_ s'. at view s s' (view (mem s))) (os_MkdirAll s)"
  using os_MkdirAll_outcome [of s] by (auto simp: outcome_def at_def)

lemma os_OpenAppend_reads:
  assumes "at view s s' v"
  shows "outcome s (\<lambda>_ s''. spent s (faults s'') \<and> files s'' = with_wal (files s) \<and> view (mem s'') = v) (os_OpenAppend walName s')"
  using os_OpenAppend_outcome [of s' walName]
proof (elim exE conjE disjE)
  fix fs assume "spent s' fs" "os_OpenAppend walName s' =
      (Inr (), s'\<lparr>faults := fs, files := (if fmlookup (files s') walName = None
           then fmupd walName \<lparr>fbytes = [], fsynced = 0\<rparr> (files s') else files s')\<rparr>)"
  with assms show ?thesis
    by (intro outcome_ok) (auto simp: at_def with_wal_def synced_file_def spent_def)
next
  fix fs assume "faults s' \<noteq> []" "os_OpenAppend walName s' = (Inl ErrIO, s'\<lparr>faults := fs\<rparr>)"
  with assms at_spent [OF assms] show ?thesis by (auto simp: outcome_def at_def)
qed

lemma mem_call_simps:
  "f (mem s) = Inr m \<Longrightarrow> mem_call f s = (Inr (), s\<lparr>mem := m\<rparr>)"
  "f (mem s) = Inl e \<Longrightarrow> mem_call f s = (Inl e, s)"
  by (simp_all add: mem_call_def)

lemma mem_call_at:
  assumes "f (mem s') = Inr m" "view m = v'" "at view s s' v"
  shows "outcome s (\<lambda>_ s''. at view s s'' v') (mem_call f s')"
  using assms by (auto simp: mem_call_def outcome_def at_def)

context memory_storage
begin

lemma load_snapshot:
  assumes "snap_holds (files s) sn" "at view s s' empty_view"
  shows "outcome s (\<lambda>_ s''. at view s s'' (recovered_view sn zero_HardState []))
    ((case (if fmlookup (files s) snapshotName = None then None else Some sn) of
       None \<Rightarrow> io_ret () | Some sn \<Rightarrow> mem_call (\<lambda>m. ms_ApplySnapshot M m sn)) s')"
proof (cases "fmlookup (files s) snapshotName")
  case None
  with assms show ?thesis
    by (simp add: snap_holds_def recovered_view_def empty_view_def zero_Snapshot_def outcome_def)
next
  case (Some f)
  with assms(1) have "0 < sn_Index sn" by (simp add: snap_holds_def)
  with assms(2) ApplySnapshot_view [of "mem s'" sn] obtain m where
    "ms_ApplySnapshot M (mem s') sn = Inr m" "view m = recovered_view sn zero_HardState []"
    by (auto simp: empty_view_def zero_Snapshot_def recovered_view_def at_def)
  with Some assms(2) show ?thesis by (simp add: mem_call_at)
qed

lemma load_entries:
  assumes "at view s s' (recovered_view sn zero_HardState [])" "follows (sn_Index sn) ents"
  shows "outcome s (\<lambda>_ s''. at view s s'' (recovered_view sn zero_HardState ents))
    ((if ents = [] then io_ret ()
     else if sn_Index sn + 1 < e_Index (hd ents) then io_fail (ErrMissingSnapshot (e_Index (hd ents)) (sn_Index sn))
     else mem_call (\<lambda>m. ms_Append M m ents)) s')"
proof (cases ents)
  case Nil
  with assms(1) show ?thesis by (simp add: outcome_def)
next
  case (Cons e es)
  from assms(1) have v: "view (mem s') = recovered_view sn zero_HardState []" by (simp add: at_def)
  with Cons assms have "appendable (mv_off (view (mem s'))) (mv_ents (view (mem s'))) ents"
    by (simp add: appendable_def recovered_view_def last_index_def)
  from Append_view [OF _ this] v obtain m where "ms_Append M (mem s') ents = Inr m"
    "view m = recovered_view sn zero_HardState ents"
    using Cons by (auto simp: recovered_view_def splice_log_def)
  with Cons assms show ?thesis by (simp add: mem_call_at)
qed

lemma load_hs:
  assumes "at view s s' (recovered_view sn zero_HardState ents)" "hs_holds (files s) hs"
  shows "outcome s (\<lambda>_ s''. at view s s'' (recovered_view sn hs ents))
    ((case (if fmlookup (files s) hardStateName = None then None else Some hs) of
       None \<Rightarrow> io_ret () | Some hs \<Rightarrow> mem_call (\<lambda>m. ms_SetHardState M m hs)) s')"
proof (cases "fmlookup (files s) hardStateName")
  case None
  with assms show ?thesis by (simp add: hs_holds_def outcome_def)
next
  case (Some f)
  from SetHardState_view [of "mem s'" hs] assms(1) obtain m where
    "ms_SetHardState M (mem s') hs = Inr m" "view m = recovered_view sn hs ents"
    by (auto simp: recovered_view_def at_def)
  with Some assms show ?thesis by (simp add: mem_call_at)
qed

lemma Open_reads:
  assumes "hs_holds (files s) hs" "snap_holds (files s) sn" "wal_reads (files s) (sn_Index sn) ents"
    and "follows (sn_Index sn) ents"
  shows "outcome s (\<lambda>b s'. b = has_state (files s) \<and> spent s (faults s') \<and> files s' = with_wal (files s) \<and>
      view (mem s') = recovered_view sn hs ents \<and> wal s') (Open M s)"
proof -
  let ?osn = "if fmlookup (files s) snapshotName = None then None else Some sn"
  have snapIndex: "(case ?osn of None \<Rightarrow> 0 | Some sn \<Rightarrow> sn_Index sn) = sn_Index sn"
    using assms(2) by (auto simp: snap_holds_def zero_Snapshot_def)
  have new: "outcome s (\<lambda>_ s''. at view s s'' empty_view) (mem_call (\<lambda>_. Inr (ms_New M)) s')"
    if "at view s s' v" for s' v
    using that by (intro mem_call_at) (auto simp: view_New)
  have closed: "outcome s (\<lambda>_ s''. at view s s'' v) (set_wal b s')" if "at view s s' v" for s' v b
    using that by (auto simp: outcome_def at_def)
  show ?thesis
    unfolding Open_def
    apply (rule outcome_bind, rule os_MkdirAll_reads)
    apply (rule outcome_bind, erule new)
    apply (rule outcome_bind, erule closed)
    apply (rule outcome_bind, erule loadSnapshotFile_reads [OF assms(2)])
    apply (erule conjE, hypsubst)
    apply (rule outcome_bind, erule load_snapshot [OF assms(2)])
    apply (simp only: snapIndex Let_def)
    apply (rule outcome_bind, erule replayWAL_reads [OF assms(3)])
    apply (erule conjE, hypsubst, simp only: prod.case)
    apply (rule outcome_bind, erule load_entries [OF _ assms(4)])
    apply (rule outcome_bind, erule loadHardStateFile_reads [OF assms(1)])
    apply (erule conjE, hypsubst)
    apply (rule outcome_bind, erule load_hs [OF _ assms(1)])
    apply (rule outcome_bind, erule os_OpenAppend_reads)
    apply (auto simp: outcome_def has_state_def)
    done
qed

end

section \<open>The invariant\<close>

text \<open>The log of a view beyond its snapshot: what the write-ahead log has to bring back.\<close>

definition beyond :: "u64 \<Rightarrow> Entry list \<Rightarrow> Entry list" where
  "beyond i es = filter (\<lambda>e. i < e_Index e) es"

definition wal_holds :: "(string, file_data) fmap \<Rightarrow> Entry list \<Rightarrow> mem_view \<Rightarrow> bool" where
  "wal_holds fs ws v \<longleftrightarrow> fmlookup fs walName = Some (synced_file (wal_bytes ws)) \<and> list_all entry_ok ws \<and>
     (\<exists>b pre. foldl replay_step [] ws = pre @ mv_ents v \<and> follows b (pre @ mv_ents v) \<and> last_index b pre = mv_off v)"

definition storage_inv :: "(string, file_data) fmap \<Rightarrow> mem_view \<Rightarrow> bool" where
  "storage_inv fs v \<longleftrightarrow> hs_holds fs (mv_hs v) \<and> snap_holds fs (mv_snap v) \<and>
     mv_off v \<le> sn_Index (mv_snap v) \<and> sn_Index (mv_snap v) \<le> last_index (mv_off v) (mv_ents v) \<and>
     (\<exists>ws. wal_holds fs ws v)"

text \<open>The entries raft hands to \<open>Append\<close>: consecutive, without a gap, and beyond the snapshot.\<close>

definition may_append :: "mem_view \<Rightarrow> Entry list \<Rightarrow> bool" where
  "may_append v es \<longleftrightarrow> es = [] \<or>
     (appendable (mv_off v) (mv_ents v) es \<and> sn_Index (mv_snap v) < e_Index (hd es))"

lemma beyond_dropWhile: "follows i es \<Longrightarrow> beyond k es = dropWhile (\<lambda>e. e_Index e \<le> k) es"
proof (induction es arbitrary: i)
  case (Cons e es)
  show ?case
  proof (cases "e_Index e \<le> k")
    case True
    with Cons show ?thesis by (auto simp: beyond_def)
  next
    case False
    moreover have "\<forall>x \<in> set es. k < e_Index x"
      using False Cons.prems follows_index_gt [of "e_Index e" es] by fastforce
    ultimately show ?thesis by (simp add: beyond_def)
  qed
qed (simp add: beyond_def)

lemma beyond_append [simp]: "beyond i (xs @ ys) = beyond i xs @ beyond i ys"
  by (simp add: beyond_def)

lemma beyond_before: "follows b pre \<Longrightarrow> last_index b pre \<le> i \<Longrightarrow> beyond i pre = []"
  using follows_drop_past beyond_dropWhile by metis

lemma follows_beyond:
  assumes "follows b es" "b \<le> i" "i \<le> last_index b es"
  shows "follows i (beyond i es)" "last_index i (beyond i es) = last_index b es"
  using follows_drop [OF assms] beyond_dropWhile [OF assms(1)] by simp_all

lemma replay_step_subset: "set (foldl replay_step ents ws) \<subseteq> set ents \<union> set ws"
proof (induction ws arbitrary: ents)
  case (Cons w ws)
  have "set (replay_step ents w) \<subseteq> insert w (set ents)"
    by (auto simp: replay_step_def truncate_from_def dest: set_dropWhileD)
  with Cons [of "replay_step ents w"] show ?case by auto
qed simp

lemma wal_holds_follows: "wal_holds fs ws v \<Longrightarrow> follows (mv_off v) (mv_ents v)"
  by (auto simp: wal_holds_def follows_append)

lemma wal_holds_ok: "wal_holds fs ws v \<Longrightarrow> list_all entry_ok (mv_ents v)"
  using replay_step_subset [of "[]" ws] by (force simp: wal_holds_def list_all_iff)

text \<open>Replaying a log with further entries behind it.\<close>

lemma replay_appended:
  assumes "wal_holds fs ws v" "may_append v es"
  shows "\<exists>b pre. foldl replay_step [] (ws @ es) = pre @ splice_log (mv_ents v) es \<and>
    follows b (pre @ splice_log (mv_ents v) es) \<and> last_index b pre = mv_off v"
proof -
  from assms(1) obtain b pre where bp: "foldl replay_step [] ws = pre @ mv_ents v"
    "follows b (pre @ mv_ents v)" "last_index b pre = mv_off v"
    by (auto simp: wal_holds_def)
  then have f: "follows b pre" "follows (mv_off v) (mv_ents v)" by (simp_all add: follows_append)
  show ?thesis
  proof (cases es)
    case Nil
    with bp show ?thesis by (auto simp: splice_log_def)
  next
    case (Cons e es')
    with assms(2) have ap: "appendable (mv_off v) (mv_ents v) es" by (simp add: may_append_def)
    then have lt: "mv_off v < e_Index e" using Cons by (simp add: appendable_def)
    have le: "b \<le> mv_off v" using follows_le_last [OF f(1)] bp(3) by simp
    have "appendable b (pre @ mv_ents v) es"
      using ap le lt bp(3) Cons by (auto simp: appendable_def last_index_append)
    with foldl_replay_splice bp(2) have "foldl replay_step (pre @ mv_ents v) es = splice_log (pre @ mv_ents v) es"
      by blast
    moreover have "\<forall>x \<in> set pre. e_Index x < e_Index e"
      using follows_index_le [OF f(1)] bp(3) lt by (metis le_less_trans)
    then have "splice_log (pre @ mv_ents v) es = pre @ splice_log (mv_ents v) es"
      using Cons by (simp add: splice_log_def takeWhile_append2)
    moreover note follows_splice(1) [OF f(2) ap]
    ultimately show ?thesis using bp f by (auto simp: follows_append)
  qed
qed

lemma wal_reads_appended:
  assumes "wal_holds fs ws v" "may_append v es" "list_all entry_ok es"
    and "mv_off v \<le> i"
    and "fmlookup fs' walName = Some (synced_file (wal_bytes (ws @ es)))"
  shows "wal_reads fs' i (beyond i (splice_log (mv_ents v) es))"
proof -
  from replay_appended [OF assms(1,2)] obtain b pre where bp:
    "foldl replay_step [] (ws @ es) = pre @ splice_log (mv_ents v) es"
    "follows b (pre @ splice_log (mv_ents v) es)" "last_index b pre = mv_off v" by blast
  then have "beyond i pre = []" using assms(4) by (intro beyond_before) (auto simp: follows_append)
  moreover have "list_all entry_ok (ws @ es)" using assms(1,3) by (auto simp: wal_holds_def)
  ultimately show ?thesis
    using assms(5) bp(1) beyond_dropWhile [OF bp(2), of i]
    by (simp add: wal_reads_def replay_wal_bytes del: wal_bytes_append)
qed

end
