(* ===== verification/Recovery.thy ===== *)
theory Recovery
  imports Durability
begin

text \<open>
  Runs of \<open>DiskStorage\<close>: a directory is opened, the methods are called, and the process restarts after
  a power loss.  Every run keeps \<open>storage_inv\<close>, so a restart recovers the snapshot, the hard state and
  the log beyond the snapshot (\<open>restart_recovers\<close>); calls that a crash interrupts are recovered as
  the state before, the state after, or, for an append, a prefix of it.

  Two limits of the code bound these runs: \<open>replayWAL\<close> reads lines of less than \<open>1 << 26\<close> bytes, and
  \<open>CreateSnapshot\<close> reads back at most \<open>1 << 30\<close> bytes of log.  Nothing in the program enforces them.
  \<open>storage_calls\<close> are the runs without them, with the entries and logs they are about as arguments, so
  that \<open>restart_recovers\<close> has the limits as hypotheses; what happens beyond the first is
  \<open>oversized_append_unreadable\<close>.  The program never syncs its directory: that directory changes survive a
  crash is a hypothesis on the file system (\<open>keeps_directory\<close>), and \<open>lost_rename_forgets_hard_state\<close> shows
  what happens without it.
\<close>

section \<open>Runs\<close>

text \<open>
  A snapshot as the engine asks for it: the index is in the log and the configuration is not a joint one
  (\<open>snap_point\<close>); and, which no caller guarantees, the log fits the \<open>1 << 30\<close> bytes that \<open>CreateSnapshot\<close>
  reads back.
\<close>

definition log_size :: "Entry list \<Rightarrow> nat" where
  "log_size es = sum_list (map (\<lambda>e. entry_size e + 64) es)"

definition snap_point :: "mem_view \<Rightarrow> u64 \<Rightarrow> ConfState \<Rightarrow> bool" where
  "snap_point v i cs \<longleftrightarrow> i \<le> last_index (mv_off v) (mv_ents v) \<and>
     cs_VotersOutgoing cs = [] \<and> cs_LearnersNext cs = [] \<and> \<not> cs_AutoLeave cs \<and>
     last_index (mv_off v) (mv_ents v) < last_index (mv_off v) (mv_ents v) + 1"

definition may_create :: "mem_view \<Rightarrow> u64 \<Rightarrow> ConfState \<Rightarrow> bool" where
  "may_create v i cs \<longleftrightarrow> i \<le> last_index (mv_off v) (mv_ents v) \<and>
     cs_VotersOutgoing cs = [] \<and> cs_LearnersNext cs = [] \<and> \<not> cs_AutoLeave cs \<and>
     last_index (mv_off v) (mv_ents v) < last_index (mv_off v) (mv_ents v) + 1 \<and>
     sum_list (map (\<lambda>e. entry_size e + 64) (mv_ents v)) \<le> 2 ^ 30"

inductive storage_run :: "'m mem_ops \<Rightarrow> ('m \<Rightarrow> mem_view) \<Rightarrow> 'm DiskStorage \<Rightarrow> bool"
  for M :: "'m mem_ops" and view :: "'m \<Rightarrow> mem_view" where
  start: "files s = fmempty \<Longrightarrow> Open M s = (Inr b, s') \<Longrightarrow> storage_run M view s'"
| append: "storage_run M view s \<Longrightarrow> list_all entry_ok es \<Longrightarrow> may_append (view (mem s)) es \<Longrightarrow>
    Append M es s = (Inr (), s') \<Longrightarrow> storage_run M view s'"
| hard_state: "storage_run M view s \<Longrightarrow> SetHardState M hs s = (Inr (), s') \<Longrightarrow> storage_run M view s'"
| save_snapshot: "storage_run M view s \<Longrightarrow> snapshot_ok sn \<Longrightarrow>
    SaveSnapshot M sn s = (Inr (), s') \<Longrightarrow> storage_run M view s'"
| create_snapshot: "storage_run M view s \<Longrightarrow> may_create (view (mem s)) i cs \<Longrightarrow>
    CreateSnapshot M i cs data trailing s = (Inr sn, s') \<Longrightarrow> storage_run M view s'"
| restart: "storage_run M view s \<Longrightarrow> files s1 = power_loss keep (files s) \<Longrightarrow>
    Open M s1 = (Inr b, s') \<Longrightarrow> storage_run M view s'"

text \<open>
  The file system is the argument \<open>crash\<close>: which directories a crash may leave of a directory.  One that
  keeps its directory loses at most bytes that were never synced.
\<close>

definition keeps_directory :: "((string, file_data) fmap \<Rightarrow> (string, file_data) fmap \<Rightarrow> bool) \<Rightarrow> bool" where
  "keeps_directory crash \<longleftrightarrow> (\<forall>fs fs'. crash fs fs' \<longrightarrow> (\<exists>keep. fs' = power_loss keep fs))"

lemma keeps_directoryE:
  assumes "keeps_directory crash" "crash fs fs'"
  obtains keep where "fs' = power_loss keep fs"
  using assms unfolding keeps_directory_def by blast

text \<open>
  Every sequence of successful calls, whatever the sizes; \<open>es\<close> are the entries that were appended, \<open>logs\<close> the
  logs of which a snapshot was made.  Raft's contract remains: appended entries continue the log and have
  an entry type of raftpb, configurations of snapshots are not joint ones.
\<close>

definition entry_typed :: "Entry \<Rightarrow> bool" where
  "entry_typed e \<longleftrightarrow> 0 \<le> e_Type e \<and> e_Type e < 2 ^ 31"

inductive storage_calls ::
  "'m mem_ops \<Rightarrow> ('m \<Rightarrow> mem_view) \<Rightarrow> ((string, file_data) fmap \<Rightarrow> (string, file_data) fmap \<Rightarrow> bool) \<Rightarrow>
   Entry list \<Rightarrow> Entry list list \<Rightarrow> 'm DiskStorage \<Rightarrow> bool"
  for M :: "'m mem_ops" and view :: "'m \<Rightarrow> mem_view" and crash where
  start: "files s = fmempty \<Longrightarrow> Open M s = (Inr b, s') \<Longrightarrow> storage_calls M view crash [] [] s'"
| append: "storage_calls M view crash es logs s \<Longrightarrow> list_all entry_typed new \<Longrightarrow> may_append (view (mem s)) new \<Longrightarrow>
    Append M new s = (Inr (), s') \<Longrightarrow> storage_calls M view crash (es @ new) logs s'"
| hard_state: "storage_calls M view crash es logs s \<Longrightarrow> SetHardState M hs s = (Inr (), s') \<Longrightarrow>
    storage_calls M view crash es logs s'"
| save_snapshot: "storage_calls M view crash es logs s \<Longrightarrow> snapshot_ok sn \<Longrightarrow>
    SaveSnapshot M sn s = (Inr (), s') \<Longrightarrow> storage_calls M view crash es logs s'"
| create_snapshot: "storage_calls M view crash es logs s \<Longrightarrow> snap_point (view (mem s)) i cs \<Longrightarrow>
    CreateSnapshot M i cs data trailing s = (Inr sn, s') \<Longrightarrow>
    storage_calls M view crash es (logs @ [mv_ents (view (mem s))]) s'"
| restart: "storage_calls M view crash es logs s \<Longrightarrow> crash (files s) (files s1) \<Longrightarrow>
    Open M s1 = (Inr b, s') \<Longrightarrow> storage_calls M view crash es logs s'"

lemma may_create_iff: "may_create v i cs \<longleftrightarrow> snap_point v i cs \<and> log_size (mv_ents v) \<le> 2 ^ 30"
  by (auto simp: may_create_def snap_point_def log_size_def)

lemma entry_ok_iff: "entry_ok e \<longleftrightarrow> entry_typed e \<and> length (wal_line e) \<le> max_line"
  by (auto simp: entry_ok_def entry_typed_def)

text \<open>Within the limits these are the runs above.\<close>

lemma storage_calls_run:
  assumes "storage_calls M view crash es logs s" "keeps_directory crash"
    and "\<forall>e \<in> set es. length (wal_line e) \<le> max_line" "\<forall>l \<in> set logs. log_size l \<le> 2 ^ 30"
  shows "storage_run M view s"
  using assms
proof (induction rule: storage_calls.induct)
  case (append es logs s new s')
  then have "list_all entry_ok new" by (simp add: list_all_iff entry_ok_iff)
  moreover have "storage_run M view s" using append.IH append.prems by simp
  ultimately show ?case using append.hyps(3,4) by (blast intro: storage_run.append)
next
  case (create_snapshot es logs s i cs data trailing sn s')
  then have "may_create (view (mem s)) i cs" by (simp add: may_create_iff)
  moreover have "storage_run M view s" using create_snapshot.IH create_snapshot.prems by simp
  ultimately show ?case using create_snapshot.hyps(3) by (blast intro: storage_run.create_snapshot)
next
  case (restart es logs s s1 b s')
  obtain keep where "files s1 = power_loss keep (files s)"
    by (rule keeps_directoryE [OF restart.prems(1) restart.hyps(2)])
  moreover have "storage_run M view s" using restart.IH restart.prems by simp
  ultimately show ?case using restart.hyps(3) by (blast intro: storage_run.restart)
qed (blast intro: storage_run.start storage_run.hard_state storage_run.save_snapshot)+


lemma names_distinct [simp]:
  "walName \<noteq> hardStateName" "walName \<noteq> snapshotName" "hardStateName \<noteq> snapshotName"
  "hardStateName \<noteq> walName" "snapshotName \<noteq> walName" "snapshotName \<noteq> hardStateName"
  "walName \<noteq> tmp_name n" "hardStateName \<noteq> tmp_name n" "snapshotName \<noteq> tmp_name n"
  "tmp_name n \<noteq> walName" "tmp_name n \<noteq> hardStateName" "tmp_name n \<noteq> snapshotName"
proof -
  have tmp: "last (tmp_name n) = CHR ''p''" "drop (length (tmp_name n) - 4) (tmp_name n) = ''.tmp''" by simp_all
  show "walName \<noteq> tmp_name n" "tmp_name n \<noteq> walName" "hardStateName \<noteq> tmp_name n" "tmp_name n \<noteq> hardStateName"
    "snapshotName \<noteq> tmp_name n" "tmp_name n \<noteq> snapshotName"
    using tmp(1) by (auto simp: walName_def hardStateName_def snapshotName_def)
qed (simp_all add: walName_def hardStateName_def snapshotName_def)

lemma holds_upd [simp]:
  "hs_holds (fmupd walName f fs) hs \<longleftrightarrow> hs_holds fs hs" "snap_holds (fmupd walName f fs) sn \<longleftrightarrow> snap_holds fs sn"
  "hs_holds (fmupd snapshotName f fs) hs \<longleftrightarrow> hs_holds fs hs" "snap_holds (fmupd hardStateName f fs) sn \<longleftrightarrow> snap_holds fs sn"
  "hs_holds (fmdrop (tmp_name n) fs) hs \<longleftrightarrow> hs_holds fs hs" "snap_holds (fmdrop (tmp_name n) fs) sn \<longleftrightarrow> snap_holds fs sn"
  by (simp_all add: hs_holds_def snap_holds_def)

lemma wal_holds_upd [simp]:
  "wal_holds (fmupd snapshotName f fs) ws v \<longleftrightarrow> wal_holds fs ws v" "wal_holds (fmupd hardStateName f fs) ws v \<longleftrightarrow> wal_holds fs ws v"
  "wal_holds (fmdrop (tmp_name n) fs) ws v \<longleftrightarrow> wal_holds fs ws v"
  by (simp_all add: wal_holds_def)

lemma holds_power_loss [simp]:
  "hs_holds fs hs \<Longrightarrow> hs_holds (power_loss keep fs) hs" "snap_holds fs sn \<Longrightarrow> snap_holds (power_loss keep fs) sn"
  "wal_holds fs ws v \<Longrightarrow> wal_holds (power_loss keep fs) ws v"
  by (auto simp: hs_holds_def snap_holds_def wal_holds_def split: option.splits)

lemma holds_same_except:
  assumes "same_except (tmp_name n) fs fs'"
  shows "hs_holds fs' hs \<longleftrightarrow> hs_holds fs hs" "snap_holds fs' sn \<longleftrightarrow> snap_holds fs sn" "wal_holds fs' ws v \<longleftrightarrow> wal_holds fs ws v"
  using same_except_lookup [OF assms] by (simp_all add: hs_holds_def snap_holds_def wal_holds_def)

lemma wal_holds_mem [simp]:
  "wal_holds fs ws (v\<lparr>mv_hs := hs\<rparr>) \<longleftrightarrow> wal_holds fs ws v" "wal_holds fs ws (v\<lparr>mv_snap := sn\<rparr>) \<longleftrightarrow> wal_holds fs ws v"
  by (simp_all add: wal_holds_def)

definition run_inv :: "('m \<Rightarrow> mem_view) \<Rightarrow> 'm DiskStorage \<Rightarrow> bool" where
  "run_inv view s \<longleftrightarrow> storage_inv (files s) (view (mem s)) \<and> wal s"

lemma inv_append_view:
  assumes "storage_inv fs v" "may_append v es" "list_all entry_ok es" "wal_holds fs ws v"
    and "fs' = fmupd walName (synced_file (wal_bytes (ws @ es))) fs"
  shows "storage_inv fs' (v\<lparr>mv_ents := splice_log (mv_ents v) es\<rparr>)"
proof -
  from assms(1) have v: "mv_off v \<le> sn_Index (mv_snap v)" "sn_Index (mv_snap v) \<le> last_index (mv_off v) (mv_ents v)"
    by (simp_all add: storage_inv_def)
  have "sn_Index (mv_snap v) \<le> last_index (mv_off v) (splice_log (mv_ents v) es)"
  proof (cases es)
    case Nil
    then show ?thesis using v by (simp add: splice_log_def)
  next
    case (Cons e es')
    with assms(2) have ap: "appendable (mv_off v) (mv_ents v) es" "sn_Index (mv_snap v) < e_Index e"
      by (auto simp: may_append_def)
    then have "follows (e_Index e) es'" using Cons by (auto simp: appendable_def)
    from follows_le_last [OF this] have "e_Index e \<le> last_index (mv_off v) es" by (simp add: Cons last_index_Cons)
    with ap follows_splice(2) [OF wal_holds_follows [OF assms(4)] ap(1)] show ?thesis by simp
  qed
  moreover have "wal_holds fs' (ws @ es) (v\<lparr>mv_ents := splice_log (mv_ents v) es\<rparr>)"
    using replay_appended [OF assms(4,2)] assms(3-5) by (simp add: wal_holds_def del: wal_bytes_append foldl_append)
  ultimately show ?thesis using assms(1,5) v by (auto simp: storage_inv_def)
qed

lemma failed_inv:
  assumes "failed_at (tmp_name n) s (r, s1)" "storage_inv (files s) v"
  shows "storage_inv (files s1) v"
  using assms holds_same_except by (auto simp: failed_at_def storage_inv_def)

text \<open>\<open>CreateSnapshot\<close> up to the rewriting of the log: the ways it can go.\<close>

definition created :: "mem_view \<Rightarrow> u64 \<Rightarrow> ConfState \<Rightarrow> string \<Rightarrow> RaftSnapshot \<Rightarrow> mem_view \<Rightarrow> bool" where
  "created v i cs data sn v' \<longleftrightarrow> sn_Index sn = i \<and> sn_Conf sn = cs \<and> sn_Data sn = data \<and>
     mv_snap v' = sn \<and> mv_hs v' = mv_hs v \<and> beyond i (mv_ents v') = beyond i (mv_ents v)"

definition wal_reset :: "Entry list \<Rightarrow> (string, file_data) fmap \<Rightarrow> (string, file_data) fmap" where
  "wal_reset es fs = fmupd walName (synced_file (wal_bytes es)) (fmdrop wal_tmp fs)"

context memory_storage
begin

lemma inv_restart:
  assumes "storage_inv fs v" "files s = power_loss keep fs"
  shows "outcome s (\<lambda>b s'. b \<and> spent s (faults s') \<and>
      view (mem s') = recovered_view (mv_snap v) (mv_hs v) (beyond (sn_Index (mv_snap v)) (mv_ents v)) \<and>
      run_inv view s') (Open M s)"
proof -
  let ?S = "sn_Index (mv_snap v)"
  from assms(1) obtain ws where ws: "wal_holds fs ws v" and le: "mv_off v \<le> ?S" "?S \<le> last_index (mv_off v) (mv_ents v)"
    by (auto simp: storage_inv_def)
  note pl = holds_power_loss(3) [OF ws, of keep]
  then have w: "fmlookup (files s) walName = Some (synced_file (wal_bytes (ws @ [])))"
    using assms(2) by (simp add: wal_holds_def)
  have r: "wal_reads (files s) ?S (beyond ?S (mv_ents v))"
    using wal_reads_appended [OF ws _ _ le(1) w] by (simp add: may_append_def splice_log_def)
  note f = follows_beyond [OF wal_holds_follows [OF ws] le]
  from ws obtain b pre where bp: "foldl replay_step [] ws = pre @ mv_ents v" "follows b (pre @ mv_ents v)" "last_index b pre = mv_off v"
    by (auto simp: wal_holds_def)
  obtain xs where xs: "mv_ents v = xs @ beyond ?S (mv_ents v)" "follows (mv_off v) xs" "last_index (mv_off v) xs = ?S"
    using follows_split [OF wal_holds_follows [OF ws] le] split_while(2) beyond_dropWhile [OF wal_holds_follows [OF ws]]
    by metis
  have "wal_holds (files s) ws (recovered_view (mv_snap v) (mv_hs v) (beyond ?S (mv_ents v)))"
    using pl assms(2) bp xs unfolding wal_holds_def recovered_view_def
    by (auto intro!: exI [of _ b] exI [of _ "pre @ xs"] simp: last_index_append follows_append) (metis append_assoc follows_append last_index_append)+
  then have inv: "storage_inv (files s) (recovered_view (mv_snap v) (mv_hs v) (beyond ?S (mv_ents v)))"
    using assms le f by (auto simp: storage_inv_def recovered_view_def)
  show ?thesis
    using Open_reads [of s "mv_hs v" "mv_snap v", OF _ _ r f(1)] assms w inv
    by (auto simp: outcome_def storage_inv_def run_inv_def has_state_def with_wal_def)
qed

lemma inv_start:
  assumes "files s = fmempty" "Open M s = (Inr b, s')"
  shows "run_inv view s'"
proof -
  have "wal_holds (with_wal fmempty) [] (recovered_view zero_Snapshot zero_HardState [])"
    by (auto simp: wal_holds_def with_wal_def recovered_view_def last_index_def)
  moreover have "hs_holds (files s) zero_HardState" "snap_holds (files s) zero_Snapshot" "wal_reads (files s) (sn_Index zero_Snapshot) []"
    using assms(1) by (simp_all add: hs_holds_def snap_holds_def wal_reads_def)
  note Open_reads [OF this]
  ultimately show ?thesis
    using assms by (auto simp: outcome_def run_inv_def storage_inv_def recovered_view_def with_wal_def hs_holds_def snap_holds_def zero_Snapshot_def last_index_def)
qed

lemma inv_append:
  assumes "run_inv view s" "list_all entry_ok es" "may_append (view (mem s)) es" "Append M es s = (Inr (), s')"
  shows "run_inv view s' \<and> view (mem s') = (view (mem s))\<lparr>mv_ents := splice_log (mv_ents (view (mem s))) es\<rparr>"
proof (cases "es = []")
  case True
  with assms show ?thesis by (auto simp: Append_def splice_log_def)
next
  case False
  from assms(1) obtain ws where ws: "wal_holds (files s) ws (view (mem s))" and w: "wal s"
    by (auto simp: run_inv_def storage_inv_def)
  have lk: "fmlookup (files s) walName = Some (synced_file (wal_bytes ws))" using ws by (simp add: wal_holds_def)
  from Append_view [OF wal_holds_follows [OF ws]] False assms(3) obtain m where
    m: "ms_Append M (mem s) es = Inr m" "view m = (view (mem s))\<lparr>mv_ents := splice_log (mv_ents (view (mem s))) es\<rparr>"
    by (auto simp: may_append_def)
  from Append_outcome [OF w lk False, of M] assms(4) obtain fs where
    "mem_call (\<lambda>m. ms_Append M m es)
       (s\<lparr>faults := fs, files := fmupd walName (synced_file (wal_bytes (ws @ es))) (files s)\<rparr>) = (Inr (), s')"
    by auto
  with m(1) have s': "s' = s\<lparr>faults := fs, files := fmupd walName (synced_file (wal_bytes (ws @ es))) (files s), mem := m\<rparr>"
    by (simp add: mem_call_def)
  with inv_append_view [OF _ assms(3,2) ws refl] assms(1) m(2) w show ?thesis
    by (simp add: run_inv_def)
qed

lemma inv_hard_state:
  assumes "run_inv view s" "SetHardState M hs s = (Inr (), s')"
  shows "run_inv view s' \<and> view (mem s') = (view (mem s))\<lparr>mv_hs := hs\<rparr>"
proof -
  obtain m where m: "ms_SetHardState M (mem s) hs = Inr m" "view m = (view (mem s))\<lparr>mv_hs := hs\<rparr>"
    using SetHardState_view by blast
  from atomicWrite_outcome [of s hardStateName "jprint (hardState_json hs)"] assms(2) obtain fs where
    "atomicWrite hardStateName (jprint (hardState_json hs)) s = (Inr (), s\<lparr>faults := fs,
       files := fmupd hardStateName (synced_file (jprint (hardState_json hs))) (fmdrop (tmp_name hardStateName) (files s))\<rparr>)"
    by (cases "atomicWrite hardStateName (jprint (hardState_json hs)) s") (auto simp: SetHardState_def failed_at_def)
  with assms(2) m(1) have "s' = s\<lparr>faults := fs,
      files := fmupd hardStateName (synced_file (jprint (hardState_json hs))) (fmdrop (tmp_name hardStateName) (files s)), mem := m\<rparr>"
    by (simp add: SetHardState_def mem_call_def)
  with assms(1) m(2) show ?thesis
    by (simp add: run_inv_def storage_inv_def) (simp add: hs_holds_def)
qed


lemma write_snapshot:
  "(\<exists>fs. spent s fs \<and> writeSnapshotFile sn s = (Inr (), s\<lparr>faults := fs,
      files := fmupd snapshotName (synced_file (jprint (snapshotFile_json (snapshot_file sn)))) (fmdrop (tmp_name snapshotName) (files s))\<rparr>)) \<or>
   failed_at (tmp_name snapshotName) s (writeSnapshotFile sn s)"
  unfolding writeSnapshotFile_def by (rule atomicWrite_outcome)

lemma inv_save_snapshot:
  assumes "run_inv view s" "snapshot_ok sn" "SaveSnapshot M sn s = (Inr (), s')"
  shows "run_inv view s' \<and> view (mem s') =
     (view (mem s))\<lparr>mv_snap := sn, mv_off := sn_Index sn, mv_offterm := sn_Term sn, mv_ents := []\<rparr>"
proof -
  let ?F = "fmupd snapshotName (synced_file (jprint (snapshotFile_json (snapshot_file sn)))) (fmdrop (tmp_name snapshotName) (files s))"
  let ?G = "fmupd walName (synced_file (wal_bytes [])) (fmdrop wal_tmp ?F)"
  from write_snapshot [of s sn] assms(3) obtain f1 where w: "writeSnapshotFile sn s = (Inr (), s\<lparr>faults := f1, files := ?F\<rparr>)"
    by (cases "writeSnapshotFile sn s") (auto simp: SaveSnapshot_def failed_at_def)
  from resetWAL_outcome [of "s\<lparr>faults := f1, files := ?F\<rparr>" "[]"] assms(3) w obtain f2 where
    r: "resetWAL [] (s\<lparr>faults := f1, files := ?F\<rparr>) = (Inr (), s\<lparr>faults := f2, files := ?G, wal := True\<rparr>)"
    by (cases "resetWAL [] (s\<lparr>faults := f1, files := ?F\<rparr>)") (auto simp: SaveSnapshot_def reset_failed_def)
  from assms(3) w r obtain m where m: "ms_ApplySnapshot M (mem s) sn = Inr m"
      and s': "s' = s\<lparr>faults := f2, files := ?G, wal := True, mem := m\<rparr>"
    by (auto simp: SaveSnapshot_def mem_call_def split: sum.splits)
  from m ApplySnapshot_old [of sn "mem s"] have new: "sn_Index (mv_snap (view (mem s))) < sn_Index sn"
    by (cases "sn_Index sn \<le> sn_Index (mv_snap (view (mem s)))") auto
  with ApplySnapshot_view [of "mem s" sn] m have v: "view m =
      (view (mem s))\<lparr>mv_snap := sn, mv_off := sn_Index sn, mv_offterm := sn_Term sn, mv_ents := []\<rparr>" by auto
  have "wal_holds ?G [] (view m)"
    using v by (auto simp: wal_holds_def last_index_def)
  moreover have "snap_holds ?G sn" using assms(2) new
    by (simp add: snap_holds_def word_greater_zero_iff) (metis new word_not_simps(1))
  moreover have "hs_holds ?G (mv_hs (view m))" using assms(1) v by (simp add: run_inv_def storage_inv_def)
  ultimately have "storage_inv ?G (view m)"
    using v by (auto simp: storage_inv_def last_index_def)
  with s' v show ?thesis by (simp add: run_inv_def)
qed

text \<open>The in-memory part of \<open>CreateSnapshot\<close>: the snapshot is recorded and the log compacted.\<close>

lemma kept_entries_view:
  assumes "follows (mv_off (view m)) (mv_ents (view m))" "last_index (mv_off (view m)) (mv_ents (view m)) = l" "l < l + 1"
    and "sum_list (map (\<lambda>e. entry_size e + 64) (mv_ents (view m))) \<le> 2 ^ 30"
  shows "kept_entries M m = Inr (mv_ents (view m))"
proof (cases "mv_ents (view m)")
  case Nil
  then have "\<not> mv_off (view m) + 1 \<le> last_index (mv_off (view m)) (mv_ents (view m))"
    using assms(2,3) by (simp add: last_index_def)
  with Nil assms show ?thesis by (simp add: kept_entries_def Let_def FirstIndex_view LastIndex_view)
next
  case (Cons e es)
  then have "mv_off (view m) + 1 \<le> last_index (mv_off (view m)) (mv_ents (view m))"
    using assms(1) follows_le_last [of "mv_off (view m) + 1" es] by (simp add: last_index_Cons)
  with Entries_view [OF assms(1), of "2 ^ 30"] Cons assms show ?thesis
    by (auto simp: kept_entries_def Let_def FirstIndex_view LastIndex_view)
qed

text \<open>Dropping the entries up to a point \<open>c\<close> that is not beyond \<open>i\<close> keeps what the storage promises of the rest.\<close>

lemma compacted_entries:
  fixes c :: u64
  assumes "list_all entry_ok es" "sum_list (map (\<lambda>e. entry_size e + 64) es) \<le> 2 ^ 30" "c \<le> i"
  defines "ds \<equiv> dropWhile (\<lambda>x. e_Index x \<le> c) es"
  shows "list_all entry_ok ds" "sum_list (map (\<lambda>e. entry_size e + 64) ds) \<le> 2 ^ 30" "beyond i ds = beyond i es"
proof -
  have split: "es = takeWhile (\<lambda>x. e_Index x \<le> c) es @ ds" by (simp add: ds_def)
  show "list_all entry_ok ds" using assms(1) by (auto simp: ds_def list_all_iff dest: set_dropWhileD)
  show "sum_list (map (\<lambda>e. entry_size e + 64) ds) \<le> 2 ^ 30"
    using assms(2) split by (metis (no_types, lifting) add_leE map_append sum_list_append)
  have "beyond i (takeWhile (\<lambda>x. e_Index x \<le> c) es) = []"
    using assms(3) by (auto simp: beyond_def filter_empty_conv dest!: set_takeWhileD)
  then show "beyond i ds = beyond i es" by (metis split beyond_append append_Nil)
qed

lemma inv_create_mem:
  assumes "storage_inv fs v" "view m = v\<lparr>mv_snap := sn\<rparr>" "sn_Index sn = i" "may_create v i (sn_Conf sn)"
    and "sn_Index (mv_snap v) < i" and "mem s = m"
  shows "\<exists>m' ents. compact_log M (compact_point i trailing) s = (Inr (), s\<lparr>mem := m'\<rparr>) \<and>
    kept_entries M m' = Inr ents \<and> ents = mv_ents (view m') \<and>
    mv_snap (view m') = sn \<and> mv_hs (view m') = mv_hs v \<and> mv_off (view m') \<le> i \<and>
    follows (mv_off (view m')) (mv_ents (view m')) \<and> list_all entry_ok (mv_ents (view m')) \<and>
    last_index (mv_off (view m')) (mv_ents (view m')) = last_index (mv_off v) (mv_ents v) \<and>
    beyond i (mv_ents (view m')) = beyond i (mv_ents v)"
proof -
  let ?c = "compact_point i trailing"
  from assms(1) obtain ws where ws: "wal_holds fs ws v" by (auto simp: storage_inv_def)
  note f = wal_holds_follows [OF ws] and ok = wal_holds_ok [OF ws]
  have ci: "?c \<le> i"
    using u64_le_diff [of trailing i] by (auto simp: compact_point_def word_le_nat_alt word_less_nat_alt)
  have il: "i \<le> last_index (mv_off v) (mv_ents v)" and wrap: "last_index (mv_off v) (mv_ents v) < last_index (mv_off v) (mv_ents v) + 1"
    and sz: "sum_list (map (\<lambda>e. entry_size e + 64) (mv_ents v)) \<le> 2 ^ 30"
    using assms(4) by (simp_all add: may_create_def)
  have kept: "kept_entries M m' = Inr (mv_ents (view m'))"
    if "follows (mv_off (view m')) (mv_ents (view m'))"
      "last_index (mv_off (view m')) (mv_ents (view m')) = last_index (mv_off v) (mv_ents v)"
      "sum_list (map (\<lambda>e. entry_size e + 64) (mv_ents (view m'))) \<le> 2 ^ 30" for m'
    using that wrap by (intro kept_entries_view)
  show ?thesis
  proof (cases "mv_off v + 1 \<le> ?c")
    case False
    then have "compact_log M ?c s = (Inr (), s\<lparr>mem := m\<rparr>)"
      using assms by (simp add: compact_log_def FirstIndex_view)
    moreover have "mv_off v \<le> i" using assms(1,5) by (auto simp: storage_inv_def)
    ultimately show ?thesis using kept [of m] assms(2) f ok sz by (auto intro!: exI [of _ m])
  next
    case True
    moreover have "mv_off v < mv_off v + 1"
      using u64_Suc_unat [OF le_less_trans [OF follows_le_last [OF f] wrap]] by (simp add: word_less_nat_alt)
    ultimately have lt: "mv_off v < ?c" by simp
    from Compact_view [of m ?c] lt assms(2) f ci il obtain m' t where
      m': "ms_Compact M m ?c = Inr m'"
        "view m' = (view m)\<lparr>mv_off := ?c, mv_offterm := t, mv_ents := dropWhile (\<lambda>x. e_Index x \<le> ?c) (mv_ents (view m))\<rparr>"
      by (auto intro: order_trans)
    then have cl: "compact_log M ?c s = (Inr (), s\<lparr>mem := m'\<rparr>)"
      using True assms by (simp add: compact_log_def FirstIndex_view)
    have d: "follows ?c (dropWhile (\<lambda>x. e_Index x \<le> ?c) (mv_ents v))"
      "last_index ?c (dropWhile (\<lambda>x. e_Index x \<le> ?c) (mv_ents v)) = last_index (mv_off v) (mv_ents v)"
      using follows_drop [OF f less_imp_le [OF lt]] ci il by (auto intro: order_trans)
    note ds = compacted_entries [OF ok sz ci]
    show ?thesis
      using cl kept [of m'] m'(2) assms(2) d ds ci by (auto intro!: exI [of _ m'])
  qed
qed


lemma mem_create_view:
  assumes "storage_inv fs (view (mem s))" "may_create (view (mem s)) i cs" "mem_create M i cs data s = (Inr sn, s1)"
  shows "\<exists>m. s1 = s\<lparr>mem := m\<rparr> \<and> view m = (view (mem s))\<lparr>mv_snap := sn\<rparr> \<and> sn_Index sn = i \<and> sn_Conf sn = cs \<and>
    sn_Data sn = data \<and> sn_Index (mv_snap (view (mem s))) < i"
proof -
  from assms(3) CreateSnapshot_old [of i "mem s" cs data] have new: "sn_Index (mv_snap (view (mem s))) < i"
    by (cases "i \<le> sn_Index (mv_snap (view (mem s)))") (auto simp: mem_create_def)
  moreover obtain ws where "wal_holds fs ws (view (mem s))" using assms(1) by (auto simp: storage_inv_def)
  moreover have "mv_off (view (mem s)) \<le> i" using assms(1) new by (auto simp: storage_inv_def)
  moreover have "i \<le> last_index (mv_off (view (mem s))) (mv_ents (view (mem s)))"
    using assms(2) by (simp add: may_create_def)
  ultimately show ?thesis
    using CreateSnapshot_view [of "mem s" i cs data] wal_holds_follows assms(3) by (fastforce simp: mem_create_def)
qed

lemma mem_create_fails:
  assumes "storage_inv fs (view (mem s))" "may_create (view (mem s)) i cs" "mem_create M i cs data s = (Inl e, s1)"
  shows "i \<le> sn_Index (mv_snap (view (mem s)))"
proof (rule ccontr)
  assume "\<not> ?thesis"
  then have new: "sn_Index (mv_snap (view (mem s))) < i" by simp
  moreover obtain ws where "wal_holds fs ws (view (mem s))" using assms(1) by (auto simp: storage_inv_def)
  moreover have "mv_off (view (mem s)) \<le> i" using assms(1) new by (auto simp: storage_inv_def)
  moreover have "i \<le> last_index (mv_off (view (mem s))) (mv_ents (view (mem s)))"
    using assms(2) by (simp add: may_create_def)
  ultimately show False
    using CreateSnapshot_view [of "mem s" i cs data] wal_holds_follows assms(3) by (fastforce simp: mem_create_def)
qed

lemma inv_create_files:
  assumes "storage_inv fs v" "may_create v i (sn_Conf sn)" "sn_Index sn = i" "sn_Index (mv_snap v) < i"
    and "mv_snap v' = sn" "mv_hs v' = mv_hs v" "mv_off v' \<le> i" "follows (mv_off v') (mv_ents v')"
    and "list_all entry_ok (mv_ents v')" "last_index (mv_off v') (mv_ents v') = last_index (mv_off v) (mv_ents v)"
    and "F = fmupd snapshotName (synced_file (jprint (snapshotFile_json (snapshot_file sn)))) (fmdrop (tmp_name snapshotName) fs)"
  shows "storage_inv (fmupd walName (synced_file (wal_bytes (mv_ents v'))) (fmdrop wal_tmp F)) v'"
proof -
  let ?G = "fmupd walName (synced_file (wal_bytes (mv_ents v'))) (fmdrop wal_tmp F)"
  have "foldl replay_step [] (mv_ents v') = mv_ents v'"
    using foldl_replay_follows [of "mv_off v'" "[]"] assms(8) by (simp add: last_index_def)
  then have "wal_holds ?G (mv_ents v') v'"
    using assms(8,9) by (auto simp: wal_holds_def last_index_def intro!: exI [of _ "mv_off v'"])
  moreover have "0 < i" using assms(4) by (metis word_gt_0 word_not_simps(1))
  then have "snap_holds ?G sn"
    using assms(2,3,11) by (simp add: snap_holds_def snapshot_ok_def may_create_def)
  moreover have "hs_holds ?G (mv_hs v')" using assms(1,6,11) by (simp add: storage_inv_def)
  moreover have "i \<le> last_index (mv_off v') (mv_ents v')" using assms(2,10) by (simp add: may_create_def)
  ultimately show ?thesis using assms(3,5,7) by (auto simp: storage_inv_def)
qed

lemma CreateSnapshot_cases:
  assumes "run_inv view s" "may_create (view (mem s)) i cs"
  obtains (unchanged) e s1 where "CreateSnapshot M i cs data trailing s = (Inl e, s1)" "storage_inv (files s1) (view (mem s))"
      "e = ErrIO \<or> (s1 = s \<and> i \<le> sn_Index (mv_snap (view (mem s))))"
  | (saved) sn s1 where "CreateSnapshot M i cs data trailing s =
        io_bind (resetWAL (mv_ents (view (mem s1)))) (\<lambda>_. io_ret sn) s1"
      "created (view (mem s)) i cs data sn (view (mem s1))"
      "storage_inv (files s1) ((view (mem s))\<lparr>mv_snap := sn\<rparr>)"
      "storage_inv (wal_reset (mv_ents (view (mem s1))) (files s1)) (view (mem s1))"
proof (cases "mem_create M i cs data s")
  case (Pair r s2)
  let ?v = "view (mem s)"
  from assms(1) have inv: "storage_inv (files s) ?v" by (simp add: run_inv_def)
  show ?thesis
  proof (cases r)
    case (Inl e')
    with Pair have "mem_create M i cs data s = (Inl e', s)" by (auto simp: mem_create_def split: sum.splits)
    with inv mem_create_fails [OF inv assms(2)] show ?thesis
      by (intro unchanged [of e' s]) (auto simp: CreateSnapshot_def)
  next
    case (Inr sn)
    with Pair have cr: "mem_create M i cs data s = (Inr sn, s2)" by simp
    from mem_create_view [OF inv assms(2) cr] obtain m where
      m: "s2 = s\<lparr>mem := m\<rparr>" "view m = ?v\<lparr>mv_snap := sn\<rparr>" "sn_Index sn = i" "sn_Conf sn = cs"
        "sn_Data sn = data" "sn_Index (mv_snap ?v) < i" by blast
    let ?F = "fmupd snapshotName (synced_file (jprint (snapshotFile_json (snapshot_file sn)))) (fmdrop (tmp_name snapshotName) (files s))"
    from write_snapshot [of s2 sn] show ?thesis
    proof (elim disjE exE conjE)
      assume fa: "failed_at (tmp_name snapshotName) s2 (writeSnapshotFile sn s2)"
      then obtain s3 where w: "writeSnapshotFile sn s2 = (Inl ErrIO, s3)" by (metis failed_at_def prod.collapse)
      with fa failed_inv [of snapshotName s2] inv m(1) have "storage_inv (files s3) ?v" by fastforce
      with cr w show ?thesis by (intro unchanged [of ErrIO s3]) (auto simp: CreateSnapshot_def)
    next
      fix f1 assume "writeSnapshotFile sn s2 = (Inr (), s2\<lparr>faults := f1, files := fmupd snapshotName
        (synced_file (jprint (snapshotFile_json (snapshot_file sn)))) (fmdrop (tmp_name snapshotName) (files s2))\<rparr>)"
      then have w: "writeSnapshotFile sn s2 = (Inr (), s\<lparr>mem := m, faults := f1, files := ?F\<rparr>)" using m(1) by simp
      let ?s3 = "s\<lparr>mem := m, faults := f1, files := ?F\<rparr>"
      from inv_create_mem [OF inv m(2,3) _ m(6), of ?s3 trailing] assms(2) m(4) obtain m' where
        m': "compact_log M (compact_point i trailing) ?s3 = (Inr (), ?s3\<lparr>mem := m'\<rparr>)"
          "kept_entries M m' = Inr (mv_ents (view m'))"
          "mv_snap (view m') = sn" "mv_hs (view m') = mv_hs ?v" "mv_off (view m') \<le> i"
          "follows (mv_off (view m')) (mv_ents (view m'))" "list_all entry_ok (mv_ents (view m'))"
          "last_index (mv_off (view m')) (mv_ents (view m')) = last_index (mv_off ?v) (mv_ents ?v)"
          "beyond i (mv_ents (view m')) = beyond i (mv_ents ?v)"
        by auto
      have G: "storage_inv (wal_reset (mv_ents (view m')) ?F) (view m')"
        using inv_create_files [OF inv _ m(3) m(6) m'(3-8) refl] assms(2) m(4) by (simp add: wal_reset_def)
      then have "storage_inv ?F (?v\<lparr>mv_snap := sn\<rparr>)"
        using inv assms(2) m(3,4,6) m'(3) by (auto simp: storage_inv_def may_create_def wal_reset_def)
      with cr w m' G m(3-5) show ?thesis
        by (intro saved [of "?s3\<lparr>mem := m'\<rparr>" sn]) (simp_all add: CreateSnapshot_def created_def)
    qed
  qed
qed

lemma inv_create_snapshot:
  assumes "run_inv view s" "may_create (view (mem s)) i cs"
    and "CreateSnapshot M i cs data trailing s = (Inr sn, s')"
  shows "run_inv view s' \<and> created (view (mem s)) i cs data sn (view (mem s'))"
proof (rule CreateSnapshot_cases [OF assms(1,2), of data trailing])
  fix sn' s1 assume c: "CreateSnapshot M i cs data trailing s =
        io_bind (resetWAL (mv_ents (view (mem s1)))) (\<lambda>_. io_ret sn') s1"
      "created (view (mem s)) i cs data sn' (view (mem s1))"
      "storage_inv (wal_reset (mv_ents (view (mem s1))) (files s1)) (view (mem s1))"
  from resetWAL_outcome [of s1 "mv_ents (view (mem s1))"] c(1) assms(3) obtain f2 where
    "resetWAL (mv_ents (view (mem s1))) s1 =
      (Inr (), s1\<lparr>faults := f2, files := wal_reset (mv_ents (view (mem s1))) (files s1), wal := True\<rparr>)"
    by (cases "resetWAL (mv_ents (view (mem s1))) s1") (auto simp: reset_failed_def wal_reset_def)
  with c assms(3) show ?thesis by (auto simp: run_inv_def)
qed (use assms(3) in auto)

lemma create_out_of_date:
  assumes "run_inv view s" "may_create (view (mem s)) i cs"
    and "CreateSnapshot M i cs data trailing s = (Inl e, s')" "e \<noteq> ErrIO"
  shows "s' = s \<and> i \<le> sn_Index (mv_snap (view (mem s)))"
proof (rule CreateSnapshot_cases [OF assms(1,2), of data trailing])
  fix sn s1 assume c: "CreateSnapshot M i cs data trailing s =
        io_bind (resetWAL (mv_ents (view (mem s1)))) (\<lambda>_. io_ret sn) s1"
  from resetWAL_outcome [of s1 "mv_ents (view (mem s1))"] c assms(3,4) show ?thesis
    by (cases "resetWAL (mv_ents (view (mem s1))) s1") (auto simp: reset_failed_def)
qed (use assms(3,4) in auto)

text \<open>The files when \<open>CreateSnapshot\<close> fails: old, or with the new snapshot and either log.\<close>

lemma create_failed:
  assumes "run_inv view s" "may_create (view (mem s)) i cs"
    and "CreateSnapshot M i cs data trailing s = (Inl e, s')"
  shows "storage_inv (files s') (view (mem s)) \<or>
    (\<exists>sn v'. storage_inv (files s') v' \<and> created (view (mem s)) i cs data sn v')"
proof (rule CreateSnapshot_cases [OF assms(1,2), of data trailing])
  fix sn s1 assume c: "CreateSnapshot M i cs data trailing s =
        io_bind (resetWAL (mv_ents (view (mem s1)))) (\<lambda>_. io_ret sn) s1"
      "created (view (mem s)) i cs data sn (view (mem s1))"
      "storage_inv (files s1) ((view (mem s))\<lparr>mv_snap := sn\<rparr>)"
      "storage_inv (wal_reset (mv_ents (view (mem s1))) (files s1)) (view (mem s1))"
  from resetWAL_outcome [of s1 "mv_ents (view (mem s1))"] c(1) assms(3) have
    rf: "reset_failed (mv_ents (view (mem s1))) s1 (resetWAL (mv_ents (view (mem s1))) s1)" by auto
  with c(1) assms(3) have s': "s' = snd (resetWAL (mv_ents (view (mem s1))) s1)"
    by (cases "resetWAL (mv_ents (view (mem s1))) s1") (auto simp: reset_failed_def)
  from rf s' consider "same_except wal_tmp (files s1) (files s')"
    | "files s' = wal_reset (mv_ents (view (mem s1))) (files s1)"
    by (auto simp: reset_failed_def wal_reset_def)
  then show ?thesis
  proof cases
    case 1
    with c(3) holds_same_except have "storage_inv (files s') ((view (mem s))\<lparr>mv_snap := sn\<rparr>)"
      by (auto simp: storage_inv_def)
    moreover have "created (view (mem s)) i cs data sn ((view (mem s))\<lparr>mv_snap := sn\<rparr>)"
      using c(2) by (simp add: created_def)
    ultimately show ?thesis by blast
  next
    case 2
    with c show ?thesis by auto
  qed
qed (use assms(3) in auto)

end

lemma storage_run_inv:
  assumes "memory_storage M view" "storage_run M view s"
  shows "run_inv view s"
  using assms(2)
proof (induction rule: storage_run.induct)
  case (restart s s1 keep b s')
  then show ?case
    using memory_storage.inv_restart [OF assms(1), of "files s" "view (mem s)" s1 keep]
    by (auto simp: run_inv_def outcome_def)
qed (use memory_storage.inv_start [OF assms(1)] memory_storage.inv_append [OF assms(1)]
    memory_storage.inv_hard_state [OF assms(1)] memory_storage.inv_save_snapshot [OF assms(1)]
    memory_storage.inv_create_snapshot [OF assms(1)] in blast)+

lemma may_append_take: "may_append v es \<Longrightarrow> may_append v (take n es)"
proof (cases "es = [] \<or> n = 0")
  case False
  assume "may_append v es"
  moreover obtain e es' n' where "es = e # es'" "n = Suc n'" using False by (cases es; cases n) auto
  moreover have "follows i xs \<Longrightarrow> follows i (take k xs)" for i k xs
    by (metis append_take_drop_id follows_append)
  ultimately show ?thesis by (auto simp: may_append_def appendable_def)
qed (auto simp: may_append_def)

text \<open>A write-ahead log that was cut inside its last append, as \<open>Open\<close> reads it.\<close>

lemma wal_reads_torn:
  assumes "wal_holds fs ws v" "may_append v es" "list_all entry_ok es" "mv_off v \<le> i"
    and "fmlookup fs' walName = Some f" "fbytes f = wal_bytes ws @ take k (wal_bytes es)"
  shows "\<exists>n \<le> length es. wal_reads fs' i (beyond i (splice_log (mv_ents v) (take n es)))"
proof -
  have "list_all entry_ok ws" using assms(1) by (simp add: wal_holds_def)
  from replay_torn_append [OF this assms(3), of k i] obtain n where n: "n \<le> length es"
    "replay_bytes (fbytes f) i = Inr (dropWhile (\<lambda>e. e_Index e \<le> i) (foldl replay_step [] (ws @ take n es)))"
    using assms(6) by auto
  from replay_appended [OF assms(1) may_append_take [OF assms(2), of n]] obtain b pre where bp:
    "foldl replay_step [] (ws @ take n es) = pre @ splice_log (mv_ents v) (take n es)"
    "follows b (pre @ splice_log (mv_ents v) (take n es))" "last_index b pre = mv_off v" by blast
  then have "beyond i pre = []" using assms(4) by (intro beyond_before) (auto simp: follows_append)
  then have "dropWhile (\<lambda>e. e_Index e \<le> i) (foldl replay_step [] (ws @ take n es)) = beyond i (splice_log (mv_ents v) (take n es))"
    using bp(1) beyond_dropWhile [OF bp(2), of i] by simp
  with n assms(5) show ?thesis by (auto simp: wal_reads_def)
qed

lemma follows_beyond_appended:
  assumes "storage_inv fs v" "may_append v es" "list_all entry_ok es"
  shows "follows (sn_Index (mv_snap v)) (beyond (sn_Index (mv_snap v)) (splice_log (mv_ents v) es))"
proof -
  obtain ws where ws: "wal_holds fs ws v" using assms(1) by (auto simp: storage_inv_def)
  from inv_append_view [OF assms ws refl] have
    "storage_inv (fmupd walName (synced_file (wal_bytes (ws @ es))) fs) (v\<lparr>mv_ents := splice_log (mv_ents v) es\<rparr>)" .
  then obtain ws' where "wal_holds (fmupd walName (synced_file (wal_bytes (ws @ es))) fs) ws' (v\<lparr>mv_ents := splice_log (mv_ents v) es\<rparr>)"
    "mv_off v \<le> sn_Index (mv_snap v)" "sn_Index (mv_snap v) \<le> last_index (mv_off v) (splice_log (mv_ents v) es)"
    by (auto simp: storage_inv_def)
  then show ?thesis using wal_holds_follows follows_beyond(1) by fastforce
qed

lemma power_loss_torn:
  assumes "fbytes f = a @ take n b" "length a \<le> fsynced f"
  shows "\<exists>k. fbytes (lose j f) = a @ take k b"
proof -
  have "fbytes (lose j f) = a @ take (max (fsynced f) j - length a) (take n b)"
    using assms by (simp add: lose_def Let_def)
  then show ?thesis by (metis take_take)
qed

context memory_storage
begin

lemma Append_files:
  assumes "run_inv view s" "es \<noteq> []" "wal_holds (files s) ws (view (mem s))" "Append M es s = (r, s1)"
    and "list_all entry_ok es" "may_append (view (mem s)) es"
  shows "\<exists>f n. fmlookup (files s1) walName = Some f \<and> fbytes f = wal_bytes ws @ take n (wal_bytes es) \<and>
    fsynced f \<ge> length (wal_bytes ws) \<and> fsynced f \<le> length (fbytes f) \<and> (r = Inr () \<longrightarrow> durable f \<and> n = length (wal_bytes es)) \<and>
    same_except walName (files s) (files s1)"
proof -
  have w: "wal s" and lk: "fmlookup (files s) walName = Some (synced_file (wal_bytes ws))"
    using assms(1,3) by (simp_all add: run_inv_def wal_holds_def)
  from Append_outcome [OF w lk assms(2), of M] show ?thesis
  proof (elim disjE exE conjE)
    fix fs assume "Append M es s = mem_call (\<lambda>m. ms_Append M m es)
      (s\<lparr>faults := fs, files := fmupd walName (synced_file (fbytes (synced_file (wal_bytes ws)) @ wal_bytes es)) (files s)\<rparr>)"
    with assms(4) have "files s1 = fmupd walName (synced_file (wal_bytes ws @ wal_bytes es)) (files s)"
      by (auto simp: mem_call_def split: sum.splits)
    then show ?thesis
      by (intro exI [of _ "synced_file (wal_bytes ws @ wal_bytes es)"] exI [of _ "length (wal_bytes es)"])
        (simp add: synced_file_def durable_def)
  next
    fix fs n assume "Append M es s = (Inl ErrIO, s\<lparr>faults := fs, files :=
      fmupd walName (synced_file (wal_bytes ws)\<lparr>fbytes := fbytes (synced_file (wal_bytes ws)) @ take n (wal_bytes es)\<rparr>) (files s)\<rparr>)"
    with assms(4) show ?thesis by (auto simp: synced_file_def intro!: exI [of _ n])
  qed
qed

end

section \<open>Recovery\<close>

lemma run_recovers:
  assumes "memory_storage M view"
    and "storage_run M view s"
    and "v = view (mem s)"
    and "files s1 = power_loss keep (files s)" and "faults s1 = []"
  shows "\<exists>s'. Open M s1 = (Inr True, s') \<and>
    view (mem s') = recovered_view (mv_snap v) (mv_hs v) (beyond (sn_Index (mv_snap v)) (mv_ents v))"
  using memory_storage.inv_restart [OF assms(1) _ assms(4), of v] storage_run_inv [OF assms(1,2)] assms(3,5)
  by (auto simp: outcome_def run_inv_def)

text \<open>
  C6: a restart recovers everything that was written within the limits of the format.  Take any sequence of
  successful opens, appends, hard state updates, snapshot installations, snapshot creations and earlier
  restarts, on a file system whose crashes keep the directory (renames and new files survive, bytes that
  were not synced may be lost), in which every appended entry made a line of at most \<open>1 << 26\<close> bytes and every
  log of which a snapshot was made fits \<open>1 << 30\<close> bytes.  Then after one more crash \<open>Open\<close> succeeds, reports that
  state was found, and gives an in-memory storage with the same snapshot, the same hard state and the same
  log entries beyond the snapshot.
\<close>

theorem restart_recovers:
  assumes "memory_storage M view" and "keeps_directory crash"
    and "storage_calls M view crash es logs s"
    and "\<forall>e \<in> set es. length (wal_line e) \<le> max_line"
    and "\<forall>l \<in> set logs. log_size l \<le> 2 ^ 30"
    and "v = view (mem s)"
    and "crash (files s) (files s1)" and "faults s1 = []"
  shows "\<exists>s'. Open M s1 = (Inr True, s') \<and>
    view (mem s') = recovered_view (mv_snap v) (mv_hs v) (beyond (sn_Index (mv_snap v)) (mv_ents v))"
proof -
  obtain keep where "files s1 = power_loss keep (files s)" by (rule keeps_directoryE [OF assms(2,7)])
  from run_recovers [OF assms(1) storage_calls_run [OF assms(3,2,4,5)] assms(6) this assms(8)] show ?thesis .
qed

text \<open>
  Without that hypothesis a hard state can be forgotten although \<open>SetHardState\<close> had returned: when a crash
  undoes the rename, so that the directory is the one before the call but for the temporary file, \<open>Open\<close> gives
  the old term and vote.
\<close>

theorem lost_rename_forgets_hard_state:
  assumes "memory_storage M view" and "storage_run M view s" and "v = view (mem s)"
    and "SetHardState M hs s = (Inr (), s1)"
    and "files s2 = power_loss keep (fmupd (tmp_name hardStateName) (synced_file (jprint (hardState_json hs))) (files s))"
    and "faults s2 = []"
  shows "\<exists>s'. Open M s2 = (Inr True, s') \<and>
    view (mem s') = recovered_view (mv_snap v) (mv_hs v) (beyond (sn_Index (mv_snap v)) (mv_ents v))"
proof -
  let ?fs = "fmupd (tmp_name hardStateName) (synced_file (jprint (hardState_json hs))) (files s)"
  have "same_except (tmp_name hardStateName) (files s) ?fs" by simp
  note h = holds_same_except [OF this]
  have "storage_inv ?fs v"
    using storage_run_inv [OF assms(1,2)] assms(3) by (simp add: run_inv_def storage_inv_def h)
  from memory_storage.inv_restart [OF assms(1) this assms(5)] assms(6) show ?thesis by (auto simp: outcome_def)
qed

text \<open>
  C7: a crash during an append loses nothing older and invents nothing.  Whatever call of \<open>Append\<close>
  fails and wherever its write is cut, after a power loss \<open>Open\<close> succeeds and recovers the snapshot,
  the hard state and the old log with the first \<open>n\<close> of the new entries appended to it; when \<open>Append\<close>
  had returned without error, with all of them.  (Crashes keep the directory, and the lines fit the
  scanner: \<open>entry_ok\<close>.)
\<close>

theorem interrupted_append_recovers_prefix:
  assumes "memory_storage M view"
    and "storage_run M view s"
    and "v = view (mem s)"
    and "list_all entry_ok es" and "may_append v es"
    and "Append M es s = (r, s1)"
    and "files s2 = power_loss keep (files s1)" and "faults s2 = []"
  shows "\<exists>n s'. n \<le> length es \<and> (r = Inr () \<longrightarrow> n = length es) \<and> Open M s2 = (Inr True, s') \<and>
    view (mem s') = recovered_view (mv_snap v) (mv_hs v)
      (beyond (sn_Index (mv_snap v)) (splice_log (mv_ents v) (take n es)))"
proof (cases "r = Inr ()")
  case True
  have "list_all entry_ok es" "may_append (view (mem s)) es" "Append M es s = (Inr (), s1)"
    using assms(3-6) True by simp_all
  note a = memory_storage.inv_append [OF assms(1) storage_run_inv [OF assms(1,2)] this]
  with memory_storage.inv_restart [OF assms(1) _ assms(7), of "view (mem s1)"] assms(3,8) show ?thesis
    by (intro exI [of _ "length es"]) (auto simp: outcome_def run_inv_def)
next
  case False
  with assms(6) have ne: "es \<noteq> []" by (auto simp: Append_def)
  note inv = storage_run_inv [OF assms(1,2)]
  then have si: "storage_inv (files s) v" using assms(3) by (simp add: run_inv_def)
  then obtain ws where ws: "wal_holds (files s) ws v" by (auto simp: storage_inv_def)
  obtain f n where f: "fmlookup (files s1) walName = Some f" "fbytes f = wal_bytes ws @ take n (wal_bytes es)"
    "length (wal_bytes ws) \<le> fsynced f" "same_except walName (files s) (files s1)"
    using memory_storage.Append_files [OF assms(1) inv ne _ assms(6,4)] ws assms(3,5) by blast
  obtain k where k: "fbytes (lose (keep walName) f) = wal_bytes ws @ take k (wal_bytes es)"
    using power_loss_torn [OF f(2,3)] by blast
  have lk: "fmlookup (files s2) walName = Some (lose (keep walName) f)" using f(1) assms(7) by simp
  obtain n' where n': "n' \<le> length es"
    "wal_reads (files s2) (sn_Index (mv_snap v)) (beyond (sn_Index (mv_snap v)) (splice_log (mv_ents v) (take n' es)))"
    using wal_reads_torn [OF ws assms(5,4) _ lk k] si by (auto simp: storage_inv_def)
  have "hs_holds (files s1) (mv_hs v)" "snap_holds (files s1) (mv_snap v)"
    using si same_except_lookup [OF f(4)] by (auto simp: storage_inv_def hs_holds_def snap_holds_def)
  then have "hs_holds (files s2) (mv_hs v)" "snap_holds (files s2) (mv_snap v)" using assms(7) by simp_all
  moreover have "follows (sn_Index (mv_snap v)) (beyond (sn_Index (mv_snap v)) (splice_log (mv_ents v) (take n' es)))"
    using follows_beyond_appended [OF si may_append_take [OF assms(5)]] assms(4) by (auto simp: list_all_iff dest: in_set_takeD)
  ultimately show ?thesis
    using memory_storage.Open_reads [OF assms(1) _ _ n'(2), of "mv_hs v"] n'(1) assms(8) lk False
    by (auto simp: outcome_def has_state_def)
qed

text \<open>
  C17: replacing a file is atomic.  Whatever call of \<open>atomicWrite\<close> fails, after a power loss the target
  holds its old bytes or exactly the new bytes, the new ones when the call returned without error,
  and no other file but the temporary one has changed.  (Crashes keep the directory.)
\<close>

theorem atomicWrite_old_or_new:
  assumes "atomicWrite path data s = (r, s1)"
  shows "(r = Inr () \<longrightarrow> fmlookup (power_loss keep (files s1)) path = Some (synced_file data)) \<and>
    (r \<noteq> Inr () \<longrightarrow> fmlookup (files s1) path = fmlookup (files s) path) \<and>
    (\<forall>n. n \<noteq> path \<longrightarrow> n \<noteq> tmp_name path \<longrightarrow> fmlookup (files s1) n = fmlookup (files s) n)"
  using atomicWrite_outcome [of s path data] assms
  by (auto simp: failed_at_def dest: same_except_lookup)

text \<open>
  C9: a crash while the hard state is saved leaves the old or the new hard state (term, vote and
  commit index together), the new one when \<open>SetHardState\<close> had returned; log and snapshot are
  recovered unchanged.  (Crashes keep the directory; without that see \<open>lost_rename_forgets_hard_state\<close>.)
\<close>

theorem interrupted_hard_state_recovers:
  assumes "memory_storage M view"
    and "storage_run M view s"
    and "v = view (mem s)"
    and "SetHardState M hs s = (r, s1)"
    and "files s2 = power_loss keep (files s1)" and "faults s2 = []"
  shows "\<exists>hs' s'. (hs' = hs \<or> hs' = mv_hs v) \<and> (r = Inr () \<longrightarrow> hs' = hs) \<and> Open M s2 = (Inr True, s') \<and>
    view (mem s') = recovered_view (mv_snap v) hs' (beyond (sn_Index (mv_snap v)) (mv_ents v))"
proof (cases "r = Inr ()")
  case True
  with assms memory_storage.inv_hard_state [OF assms(1) storage_run_inv [OF assms(1,2)], of hs s1]
    memory_storage.inv_restart [OF assms(1) _ assms(5), of "view (mem s1)"]
  show ?thesis by (auto simp: outcome_def run_inv_def)
next
  case False
  obtain m where m: "ms_SetHardState M (mem s) hs = Inr m"
    using memory_storage.SetHardState_view [OF assms(1)] by blast
  obtain r' s' where a: "atomicWrite hardStateName (jprint (hardState_json hs)) s = (r', s')" by fastforce
  with atomicWrite_outcome [of s hardStateName "jprint (hardState_json hs)"] False assms(4) m
  have "failed_at (tmp_name hardStateName) s (r', s')" "s1 = s'"
    by (auto simp: SetHardState_def mem_call_def failed_at_def)
  with failed_inv storage_run_inv [OF assms(1,2)] have "storage_inv (files s1) v"
    using assms(3) by (auto simp: run_inv_def)
  from memory_storage.inv_restart [OF assms(1) this assms(5)] assms(6) False show ?thesis
    by (auto simp: outcome_def)
qed

text \<open>
  C8: a crash while a snapshot is created is harmless.  Whatever call of \<open>CreateSnapshot\<close> fails, after
  a power loss \<open>Open\<close> recovers the old snapshot or the new one (with the index, the membership and
  the data given), the same hard state, and the same log beyond that snapshot.  (Crashes keep the directory,
  and the log fits the \<open>1 << 30\<close> bytes that are read back: \<open>may_create\<close>.)
\<close>

theorem interrupted_create_snapshot_recovers:
  assumes "memory_storage M view"
    and "storage_run M view s"
    and "v = view (mem s)"
    and "may_create v i cs"
    and "CreateSnapshot M i cs data trailing s = (r, s1)"
    and "files s2 = power_loss keep (files s1)" and "faults s2 = []"
  shows "\<exists>sn s'. (sn = mv_snap v \<or> (sn_Index sn = i \<and> sn_Conf sn = cs \<and> sn_Data sn = data)) \<and>
    (\<forall>sn'. r = Inr sn' \<longrightarrow> sn = sn') \<and> Open M s2 = (Inr True, s') \<and>
    view (mem s') = recovered_view sn (mv_hs v) (beyond (sn_Index sn) (mv_ents v))"
proof -
  note inv = storage_run_inv [OF assms(1,2)]
  have "\<exists>v'. storage_inv (files s1) v' \<and> mv_hs v' = mv_hs v \<and>
      (mv_snap v' = mv_snap v \<or> (sn_Index (mv_snap v') = i \<and> sn_Conf (mv_snap v') = cs \<and> sn_Data (mv_snap v') = data)) \<and>
      (\<forall>sn'. r = Inr sn' \<longrightarrow> mv_snap v' = sn') \<and>
      beyond (sn_Index (mv_snap v')) (mv_ents v') = beyond (sn_Index (mv_snap v')) (mv_ents v)"
  proof (cases r)
    case (Inr sn)
    with memory_storage.inv_create_snapshot [OF assms(1) inv, of i cs data trailing sn s1] assms(3-5) show ?thesis
      by (intro exI [of _ "view (mem s1)"]) (auto simp: run_inv_def created_def)
  next
    case (Inl e)
    with memory_storage.create_failed [OF assms(1) inv, of i cs data trailing e s1] assms(3-5)
    show ?thesis by (auto simp: created_def)
  qed
  then obtain v' where v': "storage_inv (files s1) v'" "mv_hs v' = mv_hs v"
    "mv_snap v' = mv_snap v \<or> (sn_Index (mv_snap v') = i \<and> sn_Conf (mv_snap v') = cs \<and> sn_Data (mv_snap v') = data)"
    "\<forall>sn'. r = Inr sn' \<longrightarrow> mv_snap v' = sn'"
    "beyond (sn_Index (mv_snap v')) (mv_ents v') = beyond (sn_Index (mv_snap v')) (mv_ents v)" by blast
  from memory_storage.inv_restart [OF assms(1) v'(1) assms(6)] assms(7) v' show ?thesis
    by (auto simp: outcome_def)
qed

end
