(* ===== verification/EngineSafety.thy ===== *)
theory EngineSafety
  imports Engine Recovery
begin

text \<open>
  What one engine does with the committed log.  \<open>sm_at L n\<close> is the state machine after the first \<open>n\<close>
  entries of a committed log \<open>L\<close>; \<open>engine_run\<close> are the states an engine of the cluster reaches by
  starting, restarting after a power loss, taking requests and processing Ready batches that raft may
  deliver.  Every such engine is at \<open>sm_at L (appliedIndex)\<close>, so replicas agree, and it answers
  requests and reads from there.
\<close>

section \<open>The committed log\<close>

definition entry_op :: "Entry \<Rightarrow> Op option" where
  "entry_op en =
     (if e_Type en = EntryNormal \<and> e_Data en \<noteq> [] then
        (case DecodeOp (e_Data en) of Inl _ \<Rightarrow> None | Inr op \<Rightarrow> Some op)
      else None)"

fun log_ops :: "Entry list \<Rightarrow> Op list" where
  "log_ops [] = []"
| "log_ops (en # es) = (case entry_op en of None \<Rightarrow> log_ops es | Some op \<Rightarrow> op # log_ops es)"

definition sm_at :: "Entry list \<Rightarrow> nat \<Rightarrow> SM" where
  "sm_at L n = run_log (log_ops (take n L))"

lemma log_ops_append [simp]: "log_ops (xs @ ys) = log_ops xs @ log_ops ys"
  by (induction xs) (simp_all split: option.splits)

lemma sm_at_0 [simp]: "sm_at L 0 = sm_New"
  by (simp add: sm_at_def)

lemma sm_at_Suc:
  "n < length L \<Longrightarrow> sm_at L (Suc n) =
     (case entry_op (L ! n) of None \<Rightarrow> sm_at L n | Some op \<Rightarrow> fst (Apply (sm_at L n) op))"
  by (simp add: sm_at_def take_Suc_conv_app_nth run_log_snoc split: option.splits)

lemma sm_valid_sm_at: "sm_valid (sm_at L n)"
proof -
  have "list_all op_valid (log_ops es)" for es
    by (induction es) (auto simp: entry_op_def DecodeOp_valid split: option.splits sum.splits if_splits)
  then show ?thesis by (simp add: sm_at_def sm_valid_apply_log sm_valid_New)
qed

lemma follows_nth:
  "follows i L \<Longrightarrow> k < length L \<Longrightarrow> unat (e_Index (L ! k)) = unat i + k + 1"
proof (induction L arbitrary: i k)
  case (Cons en L)
  from Cons.prems have lt: "i < i + 1" by simp
  note u = u64_Suc_unat [OF lt]
  show ?case
  proof (cases k)
    case 0
    with Cons.prems u show ?thesis by simp
  next
    case (Suc k')
    with Cons.IH [of "i + 1" k'] Cons.prems u show ?thesis by simp
  qed
qed simp

section \<open>Applying entries\<close>

text \<open>The part of an engine that requests do not touch.\<close>

definition same_core :: "('m, 'r) Engine \<Rightarrow> ('m, 'r) Engine \<Rightarrow> bool" where
  "same_core e e' \<longleftrightarrow> eng_sm e' = eng_sm e \<and> appliedIndex e' = appliedIndex e \<and> snapIndex e' = snapIndex e \<and> st e' = st e"

lemma same_core_simps [simp]:
  "same_core e e" "same_core e (e\<lparr>rn := r\<rparr>)" "same_core e (emit evs e') \<longleftrightarrow> same_core e e'"
  "same_core e (e'\<lparr>propWaiters := w\<rparr>) \<longleftrightarrow> same_core e e'"
  by (simp_all add: same_core_def emit_def)

lemma fire_prop_simps [simp]:
  "eng_sm (fire_prop key res e) = eng_sm e" "appliedIndex (fire_prop key res e) = appliedIndex e"
  "snapIndex (fire_prop key res e) = snapIndex e" "st (fire_prop key res e) = st e"
  "readWaiters (fire_prop key res e) = readWaiters e" "pendingRead (fire_prop key res e) = pendingRead e"
  by (simp_all add: fire_prop_def emit_def split: option.splits)

lemma fire_conf_simps [simp]:
  "eng_sm (fire_conf i e) = eng_sm e" "appliedIndex (fire_conf i e) = appliedIndex e"
  "snapIndex (fire_conf i e) = snapIndex e" "st (fire_conf i e) = st e"
  "readWaiters (fire_conf i e) = readWaiters e" "pendingRead (fire_conf i e) = pendingRead e"
  by (simp_all add: fire_conf_def emit_def split: option.splits)

lemma emit_simps [simp]:
  "eng_sm (emit evs e) = eng_sm e" "appliedIndex (emit evs e) = appliedIndex e" "snapIndex (emit evs e) = snapIndex e"
  "st (emit evs e) = st e" "readWaiters (emit evs e) = readWaiters e" "pendingRead (emit evs e) = pendingRead e"
  "events (emit evs e) = events e @ evs" "propWaiters (emit evs e) = propWaiters e"
  by (simp_all add: emit_def)

lemma applyEntry_core:
  assumes "applyEntry R en e = (Inr (), e')"
  shows "eng_sm e' = (case entry_op en of None \<Rightarrow> eng_sm e | Some op \<Rightarrow> fst (Apply (eng_sm e) op))"
    "appliedIndex e' = e_Index en" "st e' = st e" "snapIndex e' = snapIndex e"
    "readWaiters e' = readWaiters e" "pendingRead e' = pendingRead e"
  using assms
  by (auto simp: applyEntry_def entry_op_def Let_def EntryNormal_def EntryConfChange_def
      split: if_splits sum.splits prod.splits option.splits)

text \<open>The events of one entry: a proposal waiter fires with the result of the entry's command.\<close>

lemma applyEntry_events:
  assumes "applyEntry R en e = (Inr (), e')"
  shows "\<exists>evs. events e' = events e @ evs \<and>
    (\<forall>cb res. PropDone cb res \<in> set evs \<longrightarrow>
       (\<exists>op. entry_op en = Some op \<and> res = snd (Apply (eng_sm e) op) \<and>
         fmlookup (propWaiters e) (propKey (op_ClientID op) (op_ReqID op)) = Some cb)) \<and>
    (\<forall>key cb. fmlookup (propWaiters e') key = Some cb \<longrightarrow> fmlookup (propWaiters e) key = Some cb) \<and>
    (\<forall>cb. ReadDone cb \<notin> set evs)"
  using assms
  by (auto simp: applyEntry_def entry_op_def Let_def EntryNormal_def EntryConfChange_def fire_prop_def fire_conf_def emit_def
      split: if_splits sum.splits prod.splits option.splits)

text \<open>The callbacks that fire while the entries \<open>lo\<close> to \<open>hi\<close> of a log are applied answer proposals of these entries.\<close>

definition fired :: "Entry list \<Rightarrow> nat \<Rightarrow> nat \<Rightarrow> (string, nat) fmap \<Rightarrow> event list \<Rightarrow> bool" where
  "fired L lo hi ws evs \<longleftrightarrow> (\<forall>cb. ReadDone cb \<notin> set evs) \<and>
    (\<forall>cb res. PropDone cb res \<in> set evs \<longrightarrow>
      (\<exists>i op. lo \<le> i \<and> i < hi \<and> entry_op (L ! i) = Some op \<and> res = snd (Apply (sm_at L i) op) \<and>
         fmlookup ws (propKey (op_ClientID op) (op_ReqID op)) = Some cb))"

lemma fired_Nil [simp]: "fired L lo hi ws []"
  by (simp add: fired_def)

lemma fired_append:
  assumes "fired L lo mid ws evs" "fired L mid hi ws' evs'" "lo \<le> mid" "mid \<le> hi"
    and "\<And>key cb. fmlookup ws' key = Some cb \<Longrightarrow> fmlookup ws key = Some cb"
  shows "fired L lo hi ws (evs @ evs')"
proof -
  have "\<exists>i op. lo \<le> i \<and> i < hi \<and> entry_op (L ! i) = Some op \<and> res = snd (Apply (sm_at L i) op) \<and>
      fmlookup ws (propKey (op_ClientID op) (op_ReqID op)) = Some cb"
    if "PropDone cb res \<in> set evs \<or> PropDone cb res \<in> set evs'" for cb res
    using that assms unfolding fired_def by (meson order_less_le_trans order_trans)
  then show ?thesis using assms(1,2) by (auto simp: fired_def)
qed

lemma applyEntry_fired:
  assumes "applyEntry R (L ! n) e = (Inr (), e')" "eng_sm e = sm_at L n"
  obtains evs where "events e' = events e @ evs" "fired L n (Suc n) (propWaiters e) evs"
    "\<And>key cb. fmlookup (propWaiters e') key = Some cb \<Longrightarrow> fmlookup (propWaiters e) key = Some cb"
proof -
  from applyEntry_events [OF assms(1)] obtain evs where
    ev: "events e' = events e @ evs" "\<forall>cb. ReadDone cb \<notin> set evs"
      "\<forall>key cb. fmlookup (propWaiters e') key = Some cb \<longrightarrow> fmlookup (propWaiters e) key = Some cb"
      "\<forall>cb res. PropDone cb res \<in> set evs \<longrightarrow>
        (\<exists>op. entry_op (L ! n) = Some op \<and> res = snd (Apply (eng_sm e) op) \<and>
          fmlookup (propWaiters e) (propKey (op_ClientID op) (op_ReqID op)) = Some cb)"
    by blast
  moreover have "fired L n (Suc n) (propWaiters e) evs"
    unfolding fired_def using ev(2,4) assms(2) by (metis lessI order_refl)
  ultimately show thesis using that by blast
qed

lemma applyEntries_fired:
  assumes "applyEntries R (take k (drop n L)) e = (Inr (), e')"
    and "follows 0 L" "eng_sm e = sm_at L n" "unat (appliedIndex e) = n" "n \<le> length L"
  shows "eng_sm e' = sm_at L (unat (appliedIndex e')) \<and> n \<le> unat (appliedIndex e') \<and> unat (appliedIndex e') \<le> length L \<and>
    st e' = st e \<and> snapIndex e' = snapIndex e \<and> readWaiters e' = readWaiters e \<and> pendingRead e' = pendingRead e \<and>
    (\<exists>evs. events e' = events e @ evs \<and> fired L n (unat (appliedIndex e')) (propWaiters e) evs)"
  using assms
proof (induction k arbitrary: n e)
  case (Suc k)
  show ?case
  proof (cases "n < length L")
    case False
    with Suc.prems show ?thesis by simp
  next
    case True
    then have "take (Suc k) (drop n L) = L ! n # take k (drop (Suc n) L)"
      by (simp add: Cons_nth_drop_Suc [symmetric])
    with Suc.prems(1) have "io_bind (applyEntry R (L ! n)) (\<lambda>_. applyEntries R (take k (drop (Suc n) L))) e = (Inr (), e')"
      by simp
    then obtain e1 where e1: "applyEntry R (L ! n) e = (Inr (), e1)" "applyEntries R (take k (drop (Suc n) L)) e1 = (Inr (), e')"
      by (auto simp: io_bind_def split: prod.splits sum.splits)
    note c = applyEntry_core [OF e1(1)]
    have sm1: "eng_sm e1 = sm_at L (Suc n)" using c(1) Suc.prems(3) True by (simp add: sm_at_Suc split: option.splits)
    have ap1: "unat (appliedIndex e1) = Suc n" using c(2) follows_nth [OF Suc.prems(2) True] by simp
    note ih = Suc.IH [OF e1(2) Suc.prems(2) sm1 ap1 Suc_leI [OF True]]
    from ih obtain evs2 where ev2: "events e' = events e1 @ evs2" "fired L (Suc n) (unat (appliedIndex e')) (propWaiters e1) evs2"
      by blast
    obtain evs1 where ev1: "events e1 = events e @ evs1" "fired L n (Suc n) (propWaiters e) evs1"
      "\<And>key cb. fmlookup (propWaiters e1) key = Some cb \<Longrightarrow> fmlookup (propWaiters e) key = Some cb"
      using applyEntry_fired [OF e1(1) Suc.prems(3)] by metis
    have "fired L n (unat (appliedIndex e')) (propWaiters e) (evs1 @ evs2)"
      using ih by (intro fired_append [OF ev1(2) ev2(2) _ _ ev1(3)]) auto
    moreover have "events e' = events e @ (evs1 @ evs2)" using ev1(1) ev2(1) by simp
    ultimately show ?thesis using ih c by (intro conjI) (auto dest: Suc_leD)
  qed
qed auto

lemmas applyEntries_log = applyEntries_fired [unfolded fired_def]

section \<open>Flushing reads\<close>

lemma flush_list_keep: "fst (flush_list applied rss ws) = filter (\<lambda>rs. applied < rs_Index rs) rss"
  by (induction applied rss ws rule: flush_list.induct) (auto simp: Let_def split_beta not_le split: option.splits)

definition flush_fires :: "u64 \<Rightarrow> ReadState list \<Rightarrow> (string, nat) fmap \<Rightarrow> event \<Rightarrow> bool" where
  "flush_fires applied rss ws x \<longleftrightarrow>
     (\<exists>rs cb. rs \<in> set rss \<and> rs_Index rs \<le> applied \<and> fmlookup ws (rs_RequestCtx rs) = Some cb \<and> x = ReadDone cb)"

lemma flush_fires_Nil [simp]: "\<not> flush_fires applied [] ws x"
  by (simp add: flush_fires_def)

lemma flush_fires_skip:
  "\<not> rs_Index rs \<le> applied \<or> fmlookup ws (rs_RequestCtx rs) = None \<Longrightarrow>
     flush_fires applied (rs # rss) ws x \<longleftrightarrow> flush_fires applied rss ws x"
  by (auto simp: flush_fires_def)

lemma flush_fires_fire:
  assumes "rs_Index rs \<le> applied" "fmlookup ws (rs_RequestCtx rs) = Some cb"
  shows "flush_fires applied (rs # rss) ws x \<longleftrightarrow> x = ReadDone cb \<or> flush_fires applied rss (fmdrop (rs_RequestCtx rs) ws) x"
    (is "?l \<longleftrightarrow> ?r")
proof
  assume ?l
  then obtain rs' cb' where r: "rs' \<in> set (rs # rss)" "rs_Index rs' \<le> applied"
    "fmlookup ws (rs_RequestCtx rs') = Some cb'" "x = ReadDone cb'" unfolding flush_fires_def by blast
  show ?r
  proof (cases "rs_RequestCtx rs' = rs_RequestCtx rs")
    case True
    with r assms show ?thesis by simp
  next
    case False
    with r have "rs' \<in> set rss" "fmlookup (fmdrop (rs_RequestCtx rs) ws) (rs_RequestCtx rs') = Some cb'" by auto
    with r show ?thesis unfolding flush_fires_def by blast
  qed
next
  assume ?r
  then show ?l
  proof
    assume "x = ReadDone cb"
    with assms show ?thesis unfolding flush_fires_def by (intro exI [of _ rs] exI [of _ cb]) simp
  next
    assume "flush_fires applied rss (fmdrop (rs_RequestCtx rs) ws) x"
    then obtain rs' cb' where "rs' \<in> set rss" "rs_Index rs' \<le> applied"
      "fmlookup (fmdrop (rs_RequestCtx rs) ws) (rs_RequestCtx rs') = Some cb'" "x = ReadDone cb'"
      unfolding flush_fires_def by blast
    then show ?thesis unfolding flush_fires_def
      by (intro exI [of _ rs'] exI [of _ cb']) (simp split: if_splits)
  qed
qed

lemma flush_list_events: "x \<in> set (snd (snd (flush_list applied rss ws))) \<longleftrightarrow> flush_fires applied rss ws x"
  by (induction applied rss ws rule: flush_list.induct)
    (simp_all add: flush_fires_skip flush_fires_fire Let_def split_beta split: option.split)

lemma flush_list_waiters:
  "fmlookup (fst (snd (flush_list applied rss ws))) ctx =
     (if \<exists>rs \<in> set rss. rs_Index rs \<le> applied \<and> rs_RequestCtx rs = ctx then None else fmlookup ws ctx)"
  by (induction applied rss ws rule: flush_list.induct) (auto simp: Let_def split_beta split: option.splits)

lemma flushReads_core [simp]: "same_core e (flushReads e)"
  by (simp add: flushReads_def same_core_def emit_def split_beta Let_def)

section \<open>Runs\<close>

text \<open>The view of the storage after the snapshot of a batch, and the applied index then.\<close>

definition after_snap :: "mem_view \<Rightarrow> RaftSnapshot \<Rightarrow> mem_view" where
  "after_snap v sn =
     (if IsEmptySnap sn then v
      else v\<lparr>mv_snap := sn, mv_off := sn_Index sn, mv_offterm := sn_Term sn, mv_ents := []\<rparr>)"

lemma after_snap_hs [simp]: "mv_hs (after_snap v sn) = mv_hs v"
  by (simp add: after_snap_def)

definition applied_after :: "u64 \<Rightarrow> RaftSnapshot \<Rightarrow> u64" where
  "applied_after i sn = (if IsEmptySnap sn then i else sn_Index sn)"

text \<open>
  The batches raft may deliver to an engine when \<open>L\<close> is the committed log: new entries extend the
  stored log without a gap, the committed entries continue \<open>L\<close> after the applied index, and once they
  are applied they are all in the stored log (\<open>may_create\<close>).  The sizes in \<open>entry_ok\<close> and \<open>may_create\<close> are
  not promises of raft: they limit what clients may write between two snapshots, and the program does
  not enforce them.
\<close>

definition batch_ok ::
  "Entry list \<Rightarrow> 'm mem_ops \<Rightarrow> ('m, 'r, 'g) raw_ops \<Rightarrow> ('m \<Rightarrow> mem_view) \<Rightarrow> ('m, 'r) Engine \<Rightarrow> 'g Ready \<Rightarrow> bool" where
  "batch_ok L M R view e rd \<longleftrightarrow>
     list_all entry_ok (rd_Entries rd) \<and>
     may_append (after_snap (view (eng_mem e)) (rd_Snapshot rd)) (rd_Entries rd) \<and>
     (\<exists>k. rd_CommittedEntries rd = take k (drop (unat (applied_after (appliedIndex e) (rd_Snapshot rd))) L)) \<and>
     (\<forall>e2. apply_ready M R rd e = (Inr (), e2) \<longrightarrow> may_create (view (eng_mem e2)) (appliedIndex e2) (confState e2))"

inductive engine_run ::
  "Entry list \<Rightarrow> 'm mem_ops \<Rightarrow> ('m, 'r, 'g) raw_ops \<Rightarrow> ('m \<Rightarrow> mem_view) \<Rightarrow> ('m, 'r) Engine \<Rightarrow> bool"
  for L :: "Entry list" and M :: "'m mem_ops" and R :: "('m, 'r, 'g) raw_ops" and view :: "'m \<Rightarrow> mem_view" where
  start: "files d = fmempty \<Longrightarrow> New M R c d = Inr e \<Longrightarrow> engine_run L M R view e"
| restart: "engine_run L M R view e0 \<Longrightarrow> files d = power_loss keep (files (st e0)) \<Longrightarrow>
    New M R c d = Inr e \<Longrightarrow> engine_run L M R view e"
| ready: "engine_run L M R view e \<Longrightarrow> rn_HasReady R (rn e) (eng_mem e) \<Longrightarrow>
    rn_Ready R (rn e) (eng_mem e) = (rd, r) \<Longrightarrow> batch_ok L M R view (e\<lparr>rn := r\<rparr>) rd \<Longrightarrow>
    (IsEmptySnap (rd_Snapshot rd) \<or>
      (\<exists>e1. engine_run L M R view e1 \<and> rd_Snapshot rd = mv_snap (view (eng_mem e1)))) \<Longrightarrow>
    HandleReady M R e = (Inr msgs, e') \<Longrightarrow> engine_run L M R view e'"
| idle: "engine_run L M R view e \<Longrightarrow> \<not> rn_HasReady R (rn e) (eng_mem e) \<Longrightarrow>
    HandleReady M R e = (Inr msgs, e') \<Longrightarrow> engine_run L M R view e'"
| propose: "engine_run L M R view e \<Longrightarrow> Propose R op cb e = (x, e') \<Longrightarrow> engine_run L M R view e'"
| cancel: "engine_run L M R view e \<Longrightarrow> engine_run L M R view (CancelProposal c i e)"
| conf_change: "engine_run L M R view e \<Longrightarrow> ProposeConfChange R cc cb e = (x, e') \<Longrightarrow> engine_run L M R view e'"
| read_index: "engine_run L M R view e \<Longrightarrow> engine_run L M R view (ReadIndex R cb0 e)"
| tick: "engine_run L M R view e \<Longrightarrow> engine_run L M R view (Tick R e)"
| campaign: "engine_run L M R view e \<Longrightarrow> Campaign R e = (x, e') \<Longrightarrow> engine_run L M R view e'"
| step: "engine_run L M R view e \<Longrightarrow> Step R g e = (x, e') \<Longrightarrow> engine_run L M R view e'"
| report: "engine_run L M R view e \<Longrightarrow> engine_run L M R view (ReportSnapshot R to ok e)"

text \<open>A snapshot of the committed log.\<close>

definition snap_of :: "Entry list \<Rightarrow> RaftSnapshot \<Rightarrow> bool" where
  "snap_of L sn \<longleftrightarrow> sn_Index sn = 0 \<or>
     (unat (sn_Index sn) \<le> length L \<and> sn_Data sn = Snapshot (sm_at L (unat (sn_Index sn))))"

definition engine_inv :: "Entry list \<Rightarrow> 'm mem_ops \<Rightarrow> ('m \<Rightarrow> mem_view) \<Rightarrow> ('m, 'r) Engine \<Rightarrow> bool" where
  "engine_inv L M view e \<longleftrightarrow>
     unat (appliedIndex e) \<le> length L \<and> eng_sm e = sm_at L (unat (appliedIndex e)) \<and>
     storage_run M view (st e) \<and> snap_of L (mv_snap (view (eng_mem e))) \<and>
     snapIndex e = sn_Index (mv_snap (view (eng_mem e))) \<and> snapIndex e \<le> appliedIndex e"

lemma engine_inv_same_core: "engine_inv L M view e \<Longrightarrow> same_core e e' \<Longrightarrow> engine_inv L M view e'"
  unfolding engine_inv_def same_core_def by auto

lemma requests_same_core:
  "Propose R op cb e = (x, e') \<Longrightarrow> same_core e e'"
  "ProposeConfChange R cc cb e = (x, e') \<Longrightarrow> same_core e e'"
  "Campaign R e = (x, e') \<Longrightarrow> same_core e e'" "Step R g e = (x, e') \<Longrightarrow> same_core e e'"
  "same_core e (CancelProposal c i e)" "same_core e (ReadIndex R n e)" "same_core e (Tick R e)"
  "same_core e (ReportSnapshot R to ok e)"
  by (auto simp: Propose_def ProposeConfChange_def Campaign_def Step_def rn_call_def CancelProposal_def ReadIndex_def
      Tick_def ReportSnapshot_def plantedApplyBeforeQuorum_def same_core_def Let_def split: if_splits sum.splits option.splits)

lemma restore_snap_of:
  assumes "snap_of L sn" "\<not> IsEmptySnap sn"
  shows "Restore s (sn_Data sn) = Inr (sm_at L (unat (sn_Index sn)))"
  using assms by (simp add: snap_of_def IsEmptySnap_def Restore_Snapshot sm_valid_sm_at)

lemma io_bind_InrE:
  assumes "io_bind m k s = (Inr y, s')"
  obtains x s1 where "m s = (Inr x, s1)" "k x s1 = (Inr y, s')"
  using assms by (auto simp: io_bind_def split: prod.splits sum.splits)

lemma st_call_InrE:
  assumes "st_call f e = (Inr x, e')"
  obtains s where "f (st e) = (Inr x, s)" "e' = e\<lparr>st := s\<rparr>"
  using assms by (auto simp: st_call_def Let_def split: prod.splits)

lemma modify_simp [simp]: "modify f e = (Inr (), f e)"
  by (simp add: modify_def)

text \<open>What the persistence steps leave alone.\<close>

definition same_waiters :: "('m, 'r) Engine \<Rightarrow> ('m, 'r) Engine \<Rightarrow> bool" where
  "same_waiters e e' \<longleftrightarrow> propWaiters e' = propWaiters e \<and> readWaiters e' = readWaiters e \<and>
     pendingRead e' = pendingRead e \<and> events e' = events e"

lemma snapshot_ok_of_run:
  assumes "memory_storage M view" "storage_run M view s" "\<not> IsEmptySnap (mv_snap (view (mem s)))"
  shows "snapshot_ok (mv_snap (view (mem s)))"
  using storage_run_inv [OF assms(1,2)] assms(3)
  by (auto simp: run_inv_def storage_inv_def snap_holds_def IsEmptySnap_def zero_Snapshot_def split: option.splits)

lemma install_snapshot_inv:
  assumes "memory_storage M view" "engine_inv L M view e" "install_snapshot M sn e = (Inr (), e')"
    and "IsEmptySnap sn \<or> (snap_of L sn \<and> snapshot_ok sn)"
  shows "engine_inv L M view e' \<and> view (eng_mem e') = after_snap (view (eng_mem e)) sn \<and>
    appliedIndex e' = applied_after (appliedIndex e) sn \<and> same_waiters e e'"
proof (cases "IsEmptySnap sn")
  case True
  with assms(2,3) show ?thesis by (simp add: install_snapshot_def after_snap_def applied_after_def same_waiters_def)
next
  case False
  with assms(4) have sn: "snap_of L sn" "snapshot_ok sn" by auto
  from assms(3) False obtain s where s: "SaveSnapshot M sn (st e) = (Inr (), s)"
    and e': "e' = e\<lparr>st := s, eng_sm := sm_at L (unat (sn_Index sn)), appliedIndex := sn_Index sn,
      snapIndex := sn_Index sn, confState := sn_Conf sn\<rparr>"
    by (auto simp: install_snapshot_def restore_snap_of [OF sn(1)] elim!: io_bind_InrE st_call_InrE)
  have run: "storage_run M view (st e)" using assms(2) by (simp add: engine_inv_def)
  note v = memory_storage.inv_save_snapshot [OF assms(1) storage_run_inv [OF assms(1) run] sn(2) s]
  moreover have "storage_run M view s" by (rule storage_run.save_snapshot [OF run sn(2) s])
  moreover have "unat (sn_Index sn) \<le> length L" using sn(1) False by (simp add: snap_of_def IsEmptySnap_def)
  ultimately show ?thesis using e' sn(1) False
    by (simp add: engine_inv_def after_snap_def applied_after_def same_waiters_def)
qed

lemma persist_ready_inv:
  assumes "memory_storage M view" "engine_inv L M view e" "persist_ready M rd e = (Inr (), e')"
    and "IsEmptySnap (rd_Snapshot rd) \<or> (snap_of L (rd_Snapshot rd) \<and> snapshot_ok (rd_Snapshot rd))"
    and "list_all entry_ok (rd_Entries rd)" "may_append (after_snap (view (eng_mem e)) (rd_Snapshot rd)) (rd_Entries rd)"
  shows "engine_inv L M view e' \<and> appliedIndex e' = applied_after (appliedIndex e) (rd_Snapshot rd) \<and> same_waiters e e' \<and>
    view (eng_mem e') = (after_snap (view (eng_mem e)) (rd_Snapshot rd))
      \<lparr>mv_ents := splice_log (mv_ents (after_snap (view (eng_mem e)) (rd_Snapshot rd))) (rd_Entries rd),
       mv_hs := (if IsEmptyHardState (rd_HardState rd) then mv_hs (view (eng_mem e)) else rd_HardState rd)\<rparr>"
proof -
  from assms(3) obtain e1 e2 where
    e1: "install_snapshot M (rd_Snapshot rd) e = (Inr (), e1)" and
    e2: "(if rd_Entries rd = [] then io_ret () else st_call (Append M (rd_Entries rd))) e1 = (Inr (), e2)" and
    e3: "(if IsEmptyHardState (rd_HardState rd) then io_ret () else st_call (SetHardState M (rd_HardState rd))) e2 = (Inr (), e')"
    unfolding persist_ready_def by (auto elim!: io_bind_InrE)
  note i1 = install_snapshot_inv [OF assms(1,2) e1 assms(4)]
  have "\<exists>s. Append M (rd_Entries rd) (st e1) = (Inr (), s) \<and> e2 = e1\<lparr>st := s\<rparr>"
  proof (cases "rd_Entries rd = []")
    case True
    with e2 show ?thesis by (intro exI [of _ "st e1"]) (simp add: Append_def)
  next
    case False
    with e2 show ?thesis by (auto elim!: st_call_InrE)
  qed
  then obtain s2 where a: "Append M (rd_Entries rd) (st e1) = (Inr (), s2)" "e2 = e1\<lparr>st := s2\<rparr>" by blast
  have run1: "storage_run M view (st e1)" using i1 by (simp add: engine_inv_def)
  have ma: "may_append (view (mem (st e1))) (rd_Entries rd)" using i1 assms(6) by simp
  note v2 = memory_storage.inv_append [OF assms(1) storage_run_inv [OF assms(1) run1] assms(5) ma a(1)]
  have run2: "storage_run M view s2" by (rule storage_run.append [OF run1 assms(5) ma a(1)])
  have "\<exists>s'. storage_run M view s' \<and> e' = e1\<lparr>st := s'\<rparr> \<and>
      view (mem s') = (view (mem s2))\<lparr>mv_hs := (if IsEmptyHardState (rd_HardState rd) then mv_hs (view (mem s2)) else rd_HardState rd)\<rparr>"
  proof (cases "IsEmptyHardState (rd_HardState rd)")
    case True
    with e3 run2 a(2) show ?thesis by (intro exI [of _ s2]) simp
  next
    case False
    with e3 a(2) obtain s where s: "SetHardState M (rd_HardState rd) s2 = (Inr (), s)" "e' = e1\<lparr>st := s\<rparr>"
      by (auto elim!: st_call_InrE)
    with False storage_run.hard_state [OF run2 s(1)] memory_storage.inv_hard_state [OF assms(1) storage_run_inv [OF assms(1) run2] s(1)]
    show ?thesis by (intro exI [of _ s]) simp
  qed
  then obtain s' where s': "storage_run M view s'" "e' = e1\<lparr>st := s'\<rparr>"
    "view (mem s') = (view (mem s2))\<lparr>mv_hs := (if IsEmptyHardState (rd_HardState rd) then mv_hs (view (mem s2)) else rd_HardState rd)\<rparr>"
    by blast
  with v2 i1 show ?thesis
    by (auto simp: engine_inv_def same_waiters_def)
qed

lemma maybeSnapshot_cases:
  assumes "maybeSnapshot M e = (Inr (), e')"
    and "CreateSnapshot M (appliedIndex e) (confState e) (Snapshot (eng_sm e)) (cfg_SnapshotTrailing (cfg e)) (st e) = c"
  shows "e' = e \<or> (\<exists>sn s. c = (Inr sn, s) \<and> e' = e\<lparr>st := s, snapIndex := appliedIndex e\<rparr>) \<or>
    (\<exists>s. c = (Inl ErrSnapOutOfDate, s) \<and> e' = e\<lparr>st := s\<rparr>)"
proof (cases c)
  case (Pair r s)
  with assms show ?thesis
    by (cases r) (simp_all add: maybeSnapshot_def st_call_def Let_def split: if_splits)
qed

lemma maybeSnapshot_inv:
  assumes "memory_storage M view" "engine_inv L M view e" "maybeSnapshot M e = (Inr (), e')"
    and "may_create (view (eng_mem e)) (appliedIndex e) (confState e)"
  shows "engine_inv L M view e' \<and> eng_sm e' = eng_sm e \<and> appliedIndex e' = appliedIndex e \<and> same_waiters e e' \<and>
    mv_hs (view (eng_mem e')) = mv_hs (view (eng_mem e)) \<and>
    beyond (sn_Index (mv_snap (view (eng_mem e')))) (mv_ents (view (eng_mem e'))) =
      beyond (sn_Index (mv_snap (view (eng_mem e')))) (mv_ents (view (eng_mem e)))"
proof -
  have run: "storage_run M view (st e)" using assms(2) by (simp add: engine_inv_def)
  let ?c = "CreateSnapshot M (appliedIndex e) (confState e) (Snapshot (eng_sm e)) (cfg_SnapshotTrailing (cfg e)) (st e)"
  consider "e' = e" | sn s where "?c = (Inr sn, s)" "e' = e\<lparr>st := s, snapIndex := appliedIndex e\<rparr>"
    | s where "?c = (Inl ErrSnapOutOfDate, s)" "e' = e\<lparr>st := s\<rparr>"
    using maybeSnapshot_cases [OF assms(3) refl] by blast
  then show ?thesis
  proof cases
    case 1
    with assms(2) show ?thesis by (simp add: same_waiters_def)
  next
    case (2 sn s)
    note c = memory_storage.inv_create_snapshot [OF assms(1) storage_run_inv [OF assms(1) run] assms(4) 2(1)]
    moreover have "storage_run M view s" by (rule storage_run.create_snapshot [OF run assms(4) 2(1)])
    ultimately show ?thesis using 2(2) assms(2)
      by (auto simp: engine_inv_def created_def snap_of_def same_waiters_def)
  next
    case (3 s)
    from memory_storage.create_out_of_date [OF assms(1) storage_run_inv [OF assms(1) run] assms(4) 3(1)] have "s = st e" by simp
    with 3(2) assms(2) show ?thesis by (simp add: same_waiters_def)
  qed
qed

lemma apply_ready_inv:
  assumes "memory_storage M view" "follows 0 L" "engine_inv L M view e" "apply_ready M R rd e = (Inr (), e')"
    and "IsEmptySnap (rd_Snapshot rd) \<or> (snap_of L (rd_Snapshot rd) \<and> snapshot_ok (rd_Snapshot rd))"
    and "batch_ok L M R view e rd"
  shows "engine_inv L M view e' \<and> readWaiters e' = readWaiters e \<and> pendingRead e' = pendingRead e @ rd_ReadStates rd \<and>
    view (eng_mem e') = (after_snap (view (eng_mem e)) (rd_Snapshot rd))
      \<lparr>mv_ents := splice_log (mv_ents (after_snap (view (eng_mem e)) (rd_Snapshot rd))) (rd_Entries rd),
       mv_hs := (if IsEmptyHardState (rd_HardState rd) then mv_hs (view (eng_mem e)) else rd_HardState rd)\<rparr> \<and>
    (\<exists>evs. events e' = events e @ evs \<and> (\<forall>cb. ReadDone cb \<notin> set evs) \<and>
      (\<forall>cb res. PropDone cb res \<in> set evs \<longrightarrow>
        (\<exists>i op. i < unat (appliedIndex e') \<and> entry_op (L ! i) = Some op \<and> res = snd (Apply (sm_at L i) op) \<and>
           fmlookup (propWaiters e) (propKey (op_ClientID op) (op_ReqID op)) = Some cb)))"
proof -
  from assms(4) obtain e1 where e1: "persist_ready M rd e = (Inr (), e1)"
    and ap: "applyEntries R (rd_CommittedEntries rd) (note_ready rd e1) = (Inr (), e')"
    unfolding apply_ready_def by (auto elim!: io_bind_InrE)
  from assms(6) obtain k where k: "rd_CommittedEntries rd = take k (drop (unat (applied_after (appliedIndex e) (rd_Snapshot rd))) L)"
    by (auto simp: batch_ok_def)
  note p = persist_ready_inv [OF assms(1,3) e1 assms(5)]
  have b: "list_all entry_ok (rd_Entries rd)" "may_append (after_snap (view (eng_mem e)) (rd_Snapshot rd)) (rd_Entries rd)"
    using assms(6) by (simp_all add: batch_ok_def)
  note p = p [OF b]
  let ?e2 = "note_ready rd e1"
  have core: "eng_sm ?e2 = sm_at L (unat (appliedIndex e1))" "unat (appliedIndex ?e2) = unat (appliedIndex e1)"
    "unat (appliedIndex e1) \<le> length L"
    using p by (auto simp: note_ready_def engine_inv_def)
  from ap k p have "applyEntries R (take k (drop (unat (appliedIndex e1)) L)) ?e2 = (Inr (), e')" by simp
  note a = applyEntries_log [OF this assms(2) core]
  then obtain evs where ev: "events e' = events ?e2 @ evs" "\<forall>cb. ReadDone cb \<notin> set evs"
    "\<forall>cb res. PropDone cb res \<in> set evs \<longrightarrow>
        (\<exists>i op. unat (appliedIndex e1) \<le> i \<and> i < unat (appliedIndex e') \<and> entry_op (L ! i) = Some op \<and> res = snd (Apply (sm_at L i) op) \<and>
           fmlookup (propWaiters ?e2) (propKey (op_ClientID op) (op_ReqID op)) = Some cb)"
    by blast
  have n: "st ?e2 = st e1" "snapIndex ?e2 = snapIndex e1" "readWaiters ?e2 = readWaiters e" "propWaiters ?e2 = propWaiters e"
    "events ?e2 = events e" "pendingRead ?e2 = pendingRead e @ rd_ReadStates rd"
    using p by (simp_all add: note_ready_def same_waiters_def)
  have "engine_inv L M view e'"
    using a p n by (auto simp: engine_inv_def word_le_nat_alt)
  moreover have "\<forall>cb res. PropDone cb res \<in> set evs \<longrightarrow>
        (\<exists>i op. i < unat (appliedIndex e') \<and> entry_op (L ! i) = Some op \<and> res = snd (Apply (sm_at L i) op) \<and>
           fmlookup (propWaiters e) (propKey (op_ClientID op) (op_ReqID op)) = Some cb)"
    using ev(3) n(4) by (metis (no_types, lifting))
  ultimately show ?thesis using a p n ev(1,2) by auto
qed

text \<open>A batch that \<open>HandleReady\<close> has processed without error.\<close>

lemma HandleReady_steps:
  assumes "HandleReady M R e = (Inr msgs, e')" "rn_HasReady R (rn e) (eng_mem e)" "rn_Ready R (rn e) (eng_mem e) = (rd, r)"
  obtains e2 e3 where "apply_ready M R rd (e\<lparr>rn := r\<rparr>) = (Inr (), e2)"
    "maybeSnapshot M (e2\<lparr>rn := rn_Advance R (rn e2) (eng_mem e2) rd\<rparr>) = (Inr (), e3)" "e' = flushReads e3" "msgs = rd_Messages rd"
  using assms unfolding HandleReady_def by (auto elim!: io_bind_InrE)

lemma New_InrE:
  assumes "New M R c d = Inr e"
  obtains b s where "Open M d = (Inr b, s)" "st e = s" "snapIndex e = appliedIndex e"
    "if IsEmptySnap (ms_Snapshot M (mem s)) then eng_sm e = sm_New \<and> appliedIndex e = 0
     else Restore sm_New (sn_Data (ms_Snapshot M (mem s))) = Inr (eng_sm e) \<and> appliedIndex e = sn_Index (ms_Snapshot M (mem s))"
proof (cases "Open M d")
  case (Pair r s)
  show ?thesis
  proof (cases r)
    case (Inl x)
    with Pair assms show ?thesis by (simp add: New_def)
  next
    case (Inr b)
    with Pair assms that [of b s] show ?thesis
      by (cases "IsEmptySnap (ms_Snapshot M (mem s))") (auto simp: New_def Let_def rbind_Inr_iff)
  qed
qed

lemma New_inv:
  assumes "memory_storage M view" "New M R c d = Inr e" "Open M d = (Inr b, s)"
    and "storage_run M view s" "snap_of L (mv_snap (view (mem s)))"
  shows "engine_inv L M view e"
  using assms(2)
proof (rule New_InrE)
  fix b' s' assume n: "Open M d = (Inr b', s')" "st e = s'" "snapIndex e = appliedIndex e"
    "if IsEmptySnap (ms_Snapshot M (mem s')) then eng_sm e = sm_New \<and> appliedIndex e = 0
     else Restore sm_New (sn_Data (ms_Snapshot M (mem s'))) = Inr (eng_sm e) \<and> appliedIndex e = sn_Index (ms_Snapshot M (mem s'))"
  with assms(3) have s: "s' = s" by simp
  have sn: "ms_Snapshot M (mem s) = mv_snap (view (mem s))" by (rule memory_storage.Snapshot_view [OF assms(1)])
  show ?thesis
  proof (cases "IsEmptySnap (mv_snap (view (mem s)))")
    case True
    with n s sn assms(4,5) show ?thesis by (simp add: engine_inv_def IsEmptySnap_def)
  next
    case False
    with n s sn assms(4,5) restore_snap_of [OF assms(5) False, of sm_New] show ?thesis
      by (auto simp: engine_inv_def snap_of_def IsEmptySnap_def)
  qed
qed

lemma open_empty_snap:
  assumes "memory_storage M view" "files d = fmempty" "Open M d = (Inr b, s)"
  shows "mv_snap (view (mem s)) = zero_Snapshot"
proof -
  have "hs_holds (files d) zero_HardState" "snap_holds (files d) zero_Snapshot" "wal_reads (files d) (sn_Index zero_Snapshot) []"
    using assms(2) by (simp_all add: hs_holds_def snap_holds_def wal_reads_def)
  from memory_storage.Open_reads [OF assms(1) this] assms(3) show ?thesis
    by (auto simp: outcome_def recovered_view_def)
qed

lemma ready_snapshot_ok:
  assumes "memory_storage M view"
    and "IsEmptySnap sn \<or> (\<exists>e1. engine_inv L M view e1 \<and> sn = mv_snap (view (eng_mem e1)))"
  shows "IsEmptySnap sn \<or> (snap_of L sn \<and> snapshot_ok sn)"
  using assms snapshot_ok_of_run [OF assms(1)] by (auto simp: engine_inv_def)

lemma engine_run_inv:
  assumes "memory_storage M view" "follows 0 L" "engine_run L M R view e"
  shows "engine_inv L M view e"
  using assms(3)
proof (induction rule: engine_run.induct)
  case (start d c e)
  from start(2) obtain b s where o: "Open M d = (Inr b, s)" by (rule New_InrE)
  with New_inv [OF assms(1) start(2) o storage_run.start [OF start(1) o]] open_empty_snap [OF assms(1) start(1) o]
  show ?case by (simp add: snap_of_def zero_Snapshot_def)
next
  case (restart e0 d keep c e)
  from restart(3) obtain b s where o: "Open M d = (Inr b, s)" by (rule New_InrE)
  from restart have run: "storage_run M view (st e0)" and sn: "snap_of L (mv_snap (view (eng_mem e0)))"
    by (simp_all add: engine_inv_def)
  have "storage_inv (files (st e0)) (view (eng_mem e0))" using storage_run_inv [OF assms(1) run] by (simp add: run_inv_def)
  from memory_storage.inv_restart [OF assms(1) this restart(2)] o have "mv_snap (view (mem s)) = mv_snap (view (eng_mem e0))"
    by (auto simp: outcome_def recovered_view_def)
  with New_inv [OF assms(1) restart(3) o storage_run.restart [OF run restart(2) o]] sn show ?case by simp
next
  case (ready e rd r msgs e')
  from ready obtain e2 e3 where h: "apply_ready M R rd (e\<lparr>rn := r\<rparr>) = (Inr (), e2)"
    "maybeSnapshot M (e2\<lparr>rn := rn_Advance R (rn e2) (eng_mem e2) rd\<rparr>) = (Inr (), e3)" "e' = flushReads e3"
    by (auto elim: HandleReady_steps)
  have "engine_inv L M view (e\<lparr>rn := r\<rparr>)" using ready by (blast intro: engine_inv_same_core same_core_simps)
  moreover have "IsEmptySnap (rd_Snapshot rd) \<or> (snap_of L (rd_Snapshot rd) \<and> snapshot_ok (rd_Snapshot rd))"
    using ready.IH by (intro ready_snapshot_ok [OF assms(1)]) blast
  ultimately have "engine_inv L M view e2"
    using apply_ready_inv [OF assms(1,2) _ h(1)] ready(4) by blast
  then have "engine_inv L M view (e2\<lparr>rn := rn_Advance R (rn e2) (eng_mem e2) rd\<rparr>)"
    by (blast intro: engine_inv_same_core same_core_simps)
  from maybeSnapshot_inv [OF assms(1) this h(2)] ready(4) h(1) have "engine_inv L M view e3"
    by (auto simp: batch_ok_def)
  with h(3) show ?case by (auto intro: engine_inv_same_core)
qed (auto intro: engine_inv_same_core requests_same_core simp: HandleReady_def)

section \<open>Properties\<close>

text \<open>
  C1: every replica is a replay of the committed log.  In every state an engine reaches, through
  starts, crashes and restarts, installed and created snapshots, and any interleaving of requests,
  its state machine is exactly the result of applying the commands among the first \<open>appliedIndex\<close>
  entries of the committed log, and its store that of the exactly-once specification.
\<close>

theorem engine_replays_committed_log:
  assumes "memory_storage M view" and "follows 0 L" and "engine_run L M R view e"
  shows "unat (appliedIndex e) \<le> length L \<and> eng_sm e = sm_at L (unat (appliedIndex e)) \<and>
    kv (eng_sm e) = spec_store (log_ops (take (unat (appliedIndex e)) L))"
  using engine_run_inv [OF assms] by (simp add: engine_inv_def sm_at_def kv_run_log)

text \<open>
  C2: replicas never diverge.  Of two engines of the cluster (with storages and raft nodes of any
  kind), the one that has applied more is in the state that the other reaches by applying the
  entries in between; at the same applied index they hold the same state and report the same hash.
\<close>

theorem replicas_agree:
  assumes "memory_storage M1 view1" and "memory_storage M2 view2" and "follows 0 L"
    and "engine_run L M1 R1 view1 e1" and "engine_run L M2 R2 view2 e2"
    and "appliedIndex e1 \<le> appliedIndex e2"
  shows "eng_sm e2 = fst (apply_log (eng_sm e1)
      (log_ops (drop (unat (appliedIndex e1)) (take (unat (appliedIndex e2)) L)))) \<and>
    (appliedIndex e1 = appliedIndex e2 \<longrightarrow> eng_sm e1 = eng_sm e2 \<and> Hash (eng_sm e1) = Hash (eng_sm e2))"
proof -
  have e: "eng_sm e1 = sm_at L (unat (appliedIndex e1))" "eng_sm e2 = sm_at L (unat (appliedIndex e2))"
    using engine_run_inv [OF assms(1,3,4)] engine_run_inv [OF assms(2,3,5)] by (simp_all add: engine_inv_def)
  have "take (unat (appliedIndex e2)) L =
      take (unat (appliedIndex e1)) L @ drop (unat (appliedIndex e1)) (take (unat (appliedIndex e2)) L)"
    using assms(6) by (metis append_take_drop_id min.absorb1 take_take word_le_nat_alt)
  then have "eng_sm e2 = fst (apply_log (eng_sm e1) (log_ops (drop (unat (appliedIndex e1)) (take (unat (appliedIndex e2)) L))))"
    using e by (metis apply_log_state_append log_ops_append sm_at_def)
  with e show ?thesis by auto
qed

lemma handled_batch:
  assumes "memory_storage M view" "follows 0 L" "engine_run L M R view e"
    and "rn_HasReady R (rn e) (eng_mem e)" "rn_Ready R (rn e) (eng_mem e) = (rd, r)"
    and "batch_ok L M R view (e\<lparr>rn := r\<rparr>) rd"
    and "IsEmptySnap (rd_Snapshot rd) \<or> (\<exists>e1. engine_run L M R view e1 \<and> rd_Snapshot rd = mv_snap (view (eng_mem e1)))"
    and "HandleReady M R e = (Inr msgs, e')"
  obtains e2 e3 where "apply_ready M R rd (e\<lparr>rn := r\<rparr>) = (Inr (), e2)" "engine_inv L M view e2"
    "maybeSnapshot M (e2\<lparr>rn := rn_Advance R (rn e2) (eng_mem e2) rd\<rparr>) = (Inr (), e3)"
    "engine_inv L M view (e2\<lparr>rn := rn_Advance R (rn e2) (eng_mem e2) rd\<rparr>)"
    "may_create (view (eng_mem e2)) (appliedIndex e2) (confState e2)"
    "e' = flushReads e3" "msgs = rd_Messages rd" "engine_inv L M view (e\<lparr>rn := r\<rparr>)"
    "IsEmptySnap (rd_Snapshot rd) \<or> (snap_of L (rd_Snapshot rd) \<and> snapshot_ok (rd_Snapshot rd))"
proof -
  from HandleReady_steps [OF assms(8,4,5)] obtain e2 e3 where h: "apply_ready M R rd (e\<lparr>rn := r\<rparr>) = (Inr (), e2)"
    "maybeSnapshot M (e2\<lparr>rn := rn_Advance R (rn e2) (eng_mem e2) rd\<rparr>) = (Inr (), e3)" "e' = flushReads e3" "msgs = rd_Messages rd"
    by blast
  have inv: "engine_inv L M view (e\<lparr>rn := r\<rparr>)"
    using engine_run_inv [OF assms(1-3)] by (blast intro: engine_inv_same_core same_core_simps)
  have sn: "IsEmptySnap (rd_Snapshot rd) \<or> (snap_of L (rd_Snapshot rd) \<and> snapshot_ok (rd_Snapshot rd))"
    using assms(7) engine_run_inv [OF assms(1,2)] by (intro ready_snapshot_ok [OF assms(1)]) blast
  have i2: "engine_inv L M view e2" using apply_ready_inv [OF assms(1,2) inv h(1) sn assms(6)] by blast
  then have "engine_inv L M view (e2\<lparr>rn := rn_Advance R (rn e2) (eng_mem e2) rd\<rparr>)"
    by (blast intro: engine_inv_same_core same_core_simps)
  moreover have "may_create (view (eng_mem e2)) (appliedIndex e2) (confState e2)"
    using assms(6) h(1) by (simp add: batch_ok_def)
  ultimately show ?thesis using that [OF h(1) i2 h(2)] h inv sn by blast
qed

lemma flushReads_events:
  "\<exists>evs. events (flushReads e) = events e @ evs \<and>
     (\<forall>x. x \<in> set evs \<longrightarrow> flush_fires (appliedIndex e) (pendingRead e) (readWaiters e) x)"
  using flush_list_events [of _ "appliedIndex e" "pendingRead e" "readWaiters e"]
  by (auto simp: flushReads_def Let_def split_beta emit_def)

text \<open>The callbacks that a batch calls, by the keys they are registered under.\<close>

lemma batch_callbacks:
  assumes "memory_storage M view" and "follows 0 L" and "engine_run L M R view e"
    and "rn_HasReady R (rn e) (eng_mem e)" and "rn_Ready R (rn e) (eng_mem e) = (rd, r)"
    and "batch_ok L M R view (e\<lparr>rn := r\<rparr>) rd"
    and "IsEmptySnap (rd_Snapshot rd) \<or> (\<exists>e1. engine_run L M R view e1 \<and> rd_Snapshot rd = mv_snap (view (eng_mem e1)))"
    and "HandleReady M R e = (Inr msgs, e')"
  shows "\<exists>evs. events e' = events e @ evs \<and>
    (\<forall>cb res. PropDone cb res \<in> set evs \<longrightarrow>
      (\<exists>i op. i < unat (appliedIndex e') \<and> entry_op (L ! i) = Some op \<and> res = spec_answer (log_ops (take i L)) op \<and>
         fmlookup (propWaiters e) (propKey (op_ClientID op) (op_ReqID op)) = Some cb)) \<and>
    (\<forall>cb. ReadDone cb \<in> set evs \<longrightarrow>
      (\<exists>rs \<in> set (pendingRead e @ rd_ReadStates rd). rs_Index rs \<le> appliedIndex e' \<and>
         fmlookup (readWaiters e) (rs_RequestCtx rs) = Some cb \<and> eng_sm e' = sm_at L (unat (appliedIndex e'))))"
proof -
  obtain e2 e3 where h: "apply_ready M R rd (e\<lparr>rn := r\<rparr>) = (Inr (), e2)"
    "maybeSnapshot M (e2\<lparr>rn := rn_Advance R (rn e2) (eng_mem e2) rd\<rparr>) = (Inr (), e3)"
    "engine_inv L M view (e2\<lparr>rn := rn_Advance R (rn e2) (eng_mem e2) rd\<rparr>)"
    "may_create (view (eng_mem e2)) (appliedIndex e2) (confState e2)" "e' = flushReads e3"
    "engine_inv L M view (e\<lparr>rn := r\<rparr>)"
    "IsEmptySnap (rd_Snapshot rd) \<or> (snap_of L (rd_Snapshot rd) \<and> snapshot_ok (rd_Snapshot rd))"
    using handled_batch [OF assms] by blast
  note a = apply_ready_inv [OF assms(1,2) h(6,1,7) assms(6)]
  then obtain evs where ev: "events e2 = events e @ evs" "\<forall>cb. ReadDone cb \<notin> set evs"
    "\<forall>cb res. PropDone cb res \<in> set evs \<longrightarrow>
        (\<exists>i op. i < unat (appliedIndex e2) \<and> entry_op (L ! i) = Some op \<and> res = snd (Apply (sm_at L i) op) \<and>
           fmlookup (propWaiters e) (propKey (op_ClientID op) (op_ReqID op)) = Some cb)"
    by auto
  have m: "engine_inv L M view e3" "appliedIndex e3 = appliedIndex e2" "events e3 = events e2"
    "pendingRead e3 = pendingRead e @ rd_ReadStates rd" "readWaiters e3 = readWaiters e"
    using maybeSnapshot_inv [OF assms(1) h(3,2)] h(4) a by (simp_all add: same_waiters_def)
  obtain evs' where ev': "events e' = events e3 @ evs'"
    "\<And>x. x \<in> set evs' \<Longrightarrow> flush_fires (appliedIndex e3) (pendingRead e3) (readWaiters e3) x"
    using flushReads_events [of e3] h(5) by blast
  have core: "appliedIndex e' = appliedIndex e3" "eng_sm e' = eng_sm e3"
    using flushReads_core [of e3] h(5) by (simp_all add: same_core_def)
  have "\<exists>i op. i < unat (appliedIndex e') \<and> entry_op (L ! i) = Some op \<and> res = spec_answer (log_ops (take i L)) op \<and>
         fmlookup (propWaiters e) (propKey (op_ClientID op) (op_ReqID op)) = Some cb"
    if "PropDone cb res \<in> set (evs @ evs')" for cb res
  proof -
    have "PropDone cb res \<in> set evs" using that ev'(2) by (auto simp: flush_fires_def)
    from ev(3) [rule_format, OF this] core m(2) Apply_run_log show ?thesis by (metis sm_at_def)
  qed
  moreover have "\<exists>rs \<in> set (pendingRead e @ rd_ReadStates rd). rs_Index rs \<le> appliedIndex e' \<and>
         fmlookup (readWaiters e) (rs_RequestCtx rs) = Some cb \<and> eng_sm e' = sm_at L (unat (appliedIndex e'))"
    if "ReadDone cb \<in> set (evs @ evs')" for cb
  proof -
    have "ReadDone cb \<in> set evs'" using that ev(2) by simp
    from ev'(2) [OF this] m core show ?thesis by (auto simp: flush_fires_def engine_inv_def)
  qed
  ultimately show ?thesis using ev(1) ev'(1) m(3) by (intro exI [of _ "evs @ evs'"]) simp
qed

end
