(* ===== verification/EngineProps.thy ===== *)
theory EngineProps
  imports EngineSafety
begin

text \<open>
  Further properties of the engine: durability before messages leave, waiter keys, rejected and
  anonymous proposals, the snapshot threshold.
\<close>

section \<open>Persist before send\<close>

lemma set_splice_log: "set es \<subseteq> set (splice_log old es)"
  by (cases es) (auto simp: splice_log_def)

text \<open>
  C4: messages leave only after their state is durable.  When \<open>HandleReady\<close> returns the messages of a
  batch, a crash at that moment followed by a restart recovers the hard state of the batch, if it
  has one, and every new entry of the batch that is not covered by the recovered snapshot (on a file system
  that keeps its directory, for records within the size limits of \<open>batch_ok\<close>).
\<close>

theorem ready_persisted_before_send:
  assumes "memory_storage M view" and "follows 0 L" and "engine_run L M R view e"
    and "rn_HasReady R (rn e) (eng_mem e)" and "rn_Ready R (rn e) (eng_mem e) = (rd, r)"
    and "batch_ok L M R view (e\<lparr>rn := r\<rparr>) rd"
    and "IsEmptySnap (rd_Snapshot rd) \<or> (\<exists>e1. engine_run L M R view e1 \<and> rd_Snapshot rd = mv_snap (view (eng_mem e1)))"
    and "HandleReady M R e = (Inr msgs, e')"
    and "files s1 = power_loss keep (files (st e'))" and "faults s1 = []"
  shows "msgs = rd_Messages rd \<and> (\<exists>s'. Open M s1 = (Inr True, s') \<and>
    (\<not> IsEmptyHardState (rd_HardState rd) \<longrightarrow> mv_hs (view (mem s')) = rd_HardState rd) \<and>
    (\<forall>en \<in> set (rd_Entries rd). sn_Index (mv_snap (view (mem s'))) < e_Index en \<longrightarrow> en \<in> set (mv_ents (view (mem s')))))"
proof -
  obtain e2 e3 where h: "apply_ready M R rd (e\<lparr>rn := r\<rparr>) = (Inr (), e2)"
    "maybeSnapshot M (e2\<lparr>rn := rn_Advance R (rn e2) (eng_mem e2) rd\<rparr>) = (Inr (), e3)"
    "engine_inv L M view (e2\<lparr>rn := rn_Advance R (rn e2) (eng_mem e2) rd\<rparr>)"
    "may_create (view (eng_mem e2)) (appliedIndex e2) (confState e2)" "e' = flushReads e3" "msgs = rd_Messages rd"
    "engine_inv L M view (e\<lparr>rn := r\<rparr>)"
    "IsEmptySnap (rd_Snapshot rd) \<or> (snap_of L (rd_Snapshot rd) \<and> snapshot_ok (rd_Snapshot rd))"
    using handled_batch [OF assms(1-8)] by blast
  note a = apply_ready_inv [OF assms(1,2) h(7,1,8) assms(6)]
  let ?v2 = "view (eng_mem e2)" and ?v3 = "view (eng_mem e3)"
  have m: "storage_run M view (st e3)" "mv_hs ?v3 = mv_hs ?v2"
    "beyond (sn_Index (mv_snap ?v3)) (mv_ents ?v3) = beyond (sn_Index (mv_snap ?v3)) (mv_ents ?v2)"
    using maybeSnapshot_inv [OF assms(1) h(3,2)] h(4) by (simp_all add: engine_inv_def)
  have "st e' = st e3" using flushReads_core [of e3] h(5) by (simp add: same_core_def)
  with run_recovers [OF assms(1) m(1) refl _ assms(10)] assms(9) obtain s' where
    s': "Open M s1 = (Inr True, s')" "view (mem s') = recovered_view (mv_snap ?v3) (mv_hs ?v3) (beyond (sn_Index (mv_snap ?v3)) (mv_ents ?v3))"
    by auto
  have "mv_hs ?v2 = rd_HardState rd" if "\<not> IsEmptyHardState (rd_HardState rd)" using a that by simp
  moreover have "set (rd_Entries rd) \<subseteq> set (mv_ents ?v2)" using a set_splice_log by simp
  ultimately show ?thesis using s' m h(6) by (auto simp: recovered_view_def beyond_def)
qed

section \<open>Keys\<close>

text \<open>
  Waiter keys identify requests.  Two requests have the same waiter key exactly when they have the
  same client id and request number, whatever bytes the client id contains; and two read contexts are
  the same exactly when they come from the same node, incarnation and sequence number.
\<close>

theorem keys_identify_requests:
  "(propKey c1 r1 = propKey c2 r2 \<longleftrightarrow> c1 = c2 \<and> r1 = r2) \<and>
   (read_ctx i1 n1 s1 = read_ctx i2 n2 s2 \<longleftrightarrow> i1 = i2 \<and> n1 = n2 \<and> s1 = s2)"
proof -
  have k: "propKey c1 r1 = propKey c2 r2 \<longleftrightarrow> c1 = c2 \<and> r1 = r2" for c1 c2 :: string and r1 r2
  proof
    assume "propKey c1 r1 = propKey c2 r2"
    then have "c1 = c2 \<and> format_uint r1 = format_uint r2"
      by (intro split_at_last_separator [of _ "CHR ''/''"]) (simp_all add: propKey_def format_uint_digits is_digit_def)
    then show "c1 = c2 \<and> r1 = r2" by (simp add: format_uint_inj)
  qed simp
  have "read_ctx i n s = propKey (propKey (format_uint i) n) s" for i n s
    by (simp add: read_ctx_def propKey_def)
  then show ?thesis by (auto simp: k format_uint_inj)
qed

section \<open>Proposals\<close>

text \<open>
  A proposal on a node that does not lead, or that raft refuses, leaves no trace.  On a follower
  \<open>Propose\<close> returns \<open>ErrNotLeader\<close> with the known leader and changes nothing; when raft refuses the
  proposal its error is returned and no waiter for the request remains; when raft accepts it, exactly
  the callback given is registered, and the state machine, the applied index and the storage are
  untouched (the shipped build has no planted early application).
\<close>

theorem Propose_outcomes:
  assumes "Propose R op (Some cb) e = (x, e')" and "key = propKey (op_ClientID op) (op_ReqID op)"
  shows "(\<not> IsLeader R e \<longrightarrow> x = Inl (ErrNotLeader (lead e)) \<and> e' = e) \<and>
    (\<forall>err. IsLeader R e \<longrightarrow> rn_Propose R (rn e) (eng_mem e) (Encode op) = Inl err \<longrightarrow>
       x = Inl err \<and> e' = e\<lparr>propWaiters := fmdrop key (propWaiters e)\<rparr>) \<and>
    (\<forall>r. IsLeader R e \<longrightarrow> rn_Propose R (rn e) (eng_mem e) (Encode op) = Inr r \<longrightarrow>
       x = Inr () \<and> e' = e\<lparr>rn := r, propWaiters := fmupd key cb (propWaiters e)\<rparr>)"
  using assms by (auto simp: Propose_def Let_def plantedApplyBeforeQuorum_def fmdrop_fmupd_same split: if_splits sum.splits)

text \<open>
  Anonymous requests share one waiter.  Requests without client id and request number all have
  the key \<open>/0\<close>: when two of them are in flight, the callback of the second replaces that of the first,
  and it is called with the result of the first command as soon as that one is applied; the first
  client is never answered.
\<close>

theorem anonymous_requests_mix_answers:
  assumes "op_ClientID op1 = ''''" and "op_ReqID op1 = 0" and "op_ClientID op2 = ''''" and "op_ReqID op2 = 0"
    and "op_valid op1"
    and "Propose R op1 (Some cb1) e = (Inr (), e1)" and "Propose R op2 (Some cb2) e1 = (Inr (), e2)"
    and "e_Type en = EntryNormal" and "e_Data en = Encode op1"
    and "applyEntry R en e2 = (x, e3)"
  shows "x = Inr () \<and> events e3 = events e @ [PropDone cb2 (snd (Apply (eng_sm e) op1))]"
proof -
  have d: "DecodeOp (Encode op1) = Inr op1" using decode_valid_op [OF assms(5)] .
  have e1: "eng_sm e1 = eng_sm e" "events e1 = events e"
    using assms(6) by (auto simp: Propose_def Let_def plantedApplyBeforeQuorum_def split: if_splits sum.splits)
  have e2: "eng_sm e2 = eng_sm e" "events e2 = events e" "fmlookup (propWaiters e2) (propKey '''' 0) = Some cb2"
    using assms(3,4,7) e1 by (auto simp: Propose_def Let_def plantedApplyBeforeQuorum_def split: if_splits sum.splits)
  have "Encode op1 \<noteq> []" by (simp add: Encode_def op_json_def)
  with assms(1,2,8-10) d e2 show ?thesis
    by (auto simp: applyEntry_def fire_prop_def emit_def split_beta Let_def)
qed

section \<open>Snapshots\<close>

lemma maybeSnapshot_threshold:
  assumes "memory_storage M view" "engine_inv L M view e" "maybeSnapshot M e = (Inr (), e')"
    and "may_create (view (eng_mem e)) (appliedIndex e) (confState e)" "cfg_SnapshotThreshold (cfg e) \<noteq> 0"
  shows "appliedIndex e' - snapIndex e' < cfg_SnapshotThreshold (cfg e')"
proof (cases "appliedIndex e - snapIndex e < cfg_SnapshotThreshold (cfg e)")
  case True
  with assms(3) show ?thesis by (simp add: maybeSnapshot_def)
next
  case False
  have inv: "run_inv view (st e)"
    using assms(2) storage_run_inv [OF assms(1)] by (simp add: engine_inv_def)
  obtain x s where c: "CreateSnapshot M (appliedIndex e) (confState e) (Snapshot (eng_sm e))
      (cfg_SnapshotTrailing (cfg e)) (st e) = (x, s)" by fastforce
  show ?thesis
  proof (cases x)
    case (Inl y)
    with assms(3,5) c False have "y = ErrSnapOutOfDate"
      by (auto simp: maybeSnapshot_def st_call_def Let_def split: if_splits)
    with Inl c memory_storage.create_out_of_date [OF assms(1) inv assms(4)] have "appliedIndex e \<le> snapIndex e"
      using assms(2) by (auto simp: engine_inv_def)
    moreover have "snapIndex e \<le> appliedIndex e" using assms(2) unfolding engine_inv_def by blast
    ultimately have "appliedIndex e - snapIndex e = 0" by simp
    with False assms(5) show ?thesis by (simp add: word_gt_0)
  next
    case (Inr sn)
    with assms(3,5) c False have "e' = e\<lparr>st := s, snapIndex := appliedIndex e\<rparr>"
      by (auto simp: maybeSnapshot_def st_call_def Let_def)
    with assms(5) show ?thesis by (simp add: word_gt_0)
  qed
qed

lemma applyEntry_cfg: "applyEntry R en e = (Inr (), e') \<Longrightarrow> cfg e' = cfg e"
  by (auto simp: applyEntry_def fire_prop_def fire_conf_def emit_def Let_def
      split: if_splits sum.splits prod.splits option.splits)

lemma applyEntries_cfg: "applyEntries R es e = (Inr (), e') \<Longrightarrow> cfg e' = cfg e"
  by (induction es arbitrary: e) (auto elim!: io_bind_InrE dest: applyEntry_cfg)

lemma apply_ready_cfg: "apply_ready M R rd e = (Inr (), e') \<Longrightarrow> cfg e' = cfg e"
  by (auto simp: apply_ready_def persist_ready_def install_snapshot_def note_ready_def
      elim!: io_bind_InrE st_call_InrE dest!: applyEntries_cfg split: if_splits sum.splits)

text \<open>
  C16: the log does not grow without a snapshot.  When snapshots are enabled, after every batch
  \<open>HandleReady\<close> has processed, fewer entries than the threshold have been applied since the last
  snapshot.
\<close>

theorem snapshot_threshold_kept:
  assumes "memory_storage M view" and "follows 0 L" and "engine_run L M R view e"
    and "rn_HasReady R (rn e) (eng_mem e)" and "rn_Ready R (rn e) (eng_mem e) = (rd, r)"
    and "batch_ok L M R view (e\<lparr>rn := r\<rparr>) rd"
    and "IsEmptySnap (rd_Snapshot rd) \<or> (\<exists>e1. engine_run L M R view e1 \<and> rd_Snapshot rd = mv_snap (view (eng_mem e1)))"
    and "HandleReady M R e = (Inr msgs, e')" and "cfg_SnapshotThreshold (cfg e) \<noteq> 0"
  shows "appliedIndex e' - snapIndex e' < cfg_SnapshotThreshold (cfg e')"
proof -
  obtain e2 e3 where h: "apply_ready M R rd (e\<lparr>rn := r\<rparr>) = (Inr (), e2)"
    "maybeSnapshot M (e2\<lparr>rn := rn_Advance R (rn e2) (eng_mem e2) rd\<rparr>) = (Inr (), e3)"
    "engine_inv L M view (e2\<lparr>rn := rn_Advance R (rn e2) (eng_mem e2) rd\<rparr>)"
    "may_create (view (eng_mem e2)) (appliedIndex e2) (confState e2)" "e' = flushReads e3"
    using handled_batch [OF assms(1-8)] by blast
  from apply_ready_cfg [OF h(1)] assms(9) maybeSnapshot_threshold [OF assms(1) h(3,2)] h(4)
  have "appliedIndex e3 - snapIndex e3 < cfg_SnapshotThreshold (cfg e3)" by simp
  with h(5) show ?thesis by (simp add: flushReads_def emit_def Let_def split_beta)
qed

end
