(* ===== verification/EngineAnswers.thy ===== *)
theory EngineAnswers
  imports EngineProps
begin

text \<open>
  Who is answered what.  A callback is a number; \<open>ops\<close> gives the command each callback was proposed with and \<open>seqs\<close>
  the sequence number of its read, so \<open>client_run\<close> are the runs of an engine in which a callback is used for one
  request only, as the closures of \<open>internal/server\<close> and \<open>internal/sim\<close> are.  The waiter tables then hold every
  callback under the key of its own request, and a batch answers it from an entry of that request.
\<close>

section \<open>Runs with known callbacks\<close>

inductive client_run ::
  "(nat \<Rightarrow> Op) \<Rightarrow> (nat \<Rightarrow> u64) \<Rightarrow> Entry list \<Rightarrow> 'm mem_ops \<Rightarrow> ('m, 'r, 'g) raw_ops \<Rightarrow> ('m \<Rightarrow> mem_view) \<Rightarrow> ('m, 'r) Engine \<Rightarrow> bool"
  for ops :: "nat \<Rightarrow> Op" and seqs :: "nat \<Rightarrow> u64" and L :: "Entry list" and M :: "'m mem_ops" and R :: "('m, 'r, 'g) raw_ops"
    and view :: "'m \<Rightarrow> mem_view" where
  start: "engine_run L M R view e \<Longrightarrow> New M R c d = Inr e \<Longrightarrow> client_run ops seqs L M R view e"
| propose: "client_run ops seqs L M R view e \<Longrightarrow> Propose R (ops cb) (Some cb) e = (x, e') \<Longrightarrow> client_run ops seqs L M R view e'"
| propose_only: "client_run ops seqs L M R view e \<Longrightarrow> Propose R op None e = (x, e') \<Longrightarrow> client_run ops seqs L M R view e'"
| read_index: "client_run ops seqs L M R view e \<Longrightarrow> seqs cb = readSeq e + 1 \<Longrightarrow> client_run ops seqs L M R view (ReadIndex R cb e)"
| ready: "client_run ops seqs L M R view e \<Longrightarrow> rn_HasReady R (rn e) (eng_mem e) \<Longrightarrow>
    rn_Ready R (rn e) (eng_mem e) = (rd, r) \<Longrightarrow> batch_ok L M R view (e\<lparr>rn := r\<rparr>) rd \<Longrightarrow>
    (IsEmptySnap (rd_Snapshot rd) \<or>
      (\<exists>e1. engine_run L M R view e1 \<and> rd_Snapshot rd = mv_snap (view (eng_mem e1)))) \<Longrightarrow>
    HandleReady M R e = (Inr msgs, e') \<Longrightarrow> client_run ops seqs L M R view e'"
| idle: "client_run ops seqs L M R view e \<Longrightarrow> \<not> rn_HasReady R (rn e) (eng_mem e) \<Longrightarrow>
    HandleReady M R e = (Inr msgs, e') \<Longrightarrow> client_run ops seqs L M R view e'"
| cancel: "client_run ops seqs L M R view e \<Longrightarrow> client_run ops seqs L M R view (CancelProposal c i e)"
| conf_change: "client_run ops seqs L M R view e \<Longrightarrow> ProposeConfChange R cc ccb e = (x, e') \<Longrightarrow> client_run ops seqs L M R view e'"
| tick: "client_run ops seqs L M R view e \<Longrightarrow> client_run ops seqs L M R view (Tick R e)"
| campaign: "client_run ops seqs L M R view e \<Longrightarrow> Campaign R e = (x, e') \<Longrightarrow> client_run ops seqs L M R view e'"
| step: "client_run ops seqs L M R view e \<Longrightarrow> Step R g e = (x, e') \<Longrightarrow> client_run ops seqs L M R view e'"
| report: "client_run ops seqs L M R view e \<Longrightarrow> client_run ops seqs L M R view (ReportSnapshot R to ok e)"

lemma client_run_engine: "client_run ops seqs L M R view e \<Longrightarrow> engine_run L M R view e"
  by (induction rule: client_run.induct) (blast intro: engine_run.intros)+

section \<open>The waiter tables\<close>

definition waiting :: "(nat \<Rightarrow> Op) \<Rightarrow> (nat \<Rightarrow> u64) \<Rightarrow> ('m, 'r) Engine \<Rightarrow> bool" where
  "waiting ops seqs e \<longleftrightarrow>
     (\<forall>key cb. fmlookup (propWaiters e) key = Some cb \<longrightarrow> key = propKey (op_ClientID (ops cb)) (op_ReqID (ops cb))) \<and>
     (\<forall>ctx cb. fmlookup (readWaiters e) ctx = Some cb \<longrightarrow> ctx = read_ctx (eng_id e) (cfg_Incarnation (cfg e)) (seqs cb))"

text \<open>No new waiter, the same node.\<close>

definition shrinks :: "('m, 'r) Engine \<Rightarrow> ('m, 'r) Engine \<Rightarrow> bool" where
  "shrinks e e' \<longleftrightarrow> eng_id e' = eng_id e \<and> cfg e' = cfg e \<and>
     (\<forall>key cb. fmlookup (propWaiters e') key = Some cb \<longrightarrow> fmlookup (propWaiters e) key = Some cb) \<and>
     (\<forall>ctx cb. fmlookup (readWaiters e') ctx = Some cb \<longrightarrow> fmlookup (readWaiters e) ctx = Some cb)"

lemma waiting_shrinks: "waiting ops seqs e \<Longrightarrow> shrinks e e' \<Longrightarrow> waiting ops seqs e'"
  unfolding waiting_def shrinks_def by metis

lemma shrinks_refl: "shrinks e e"
  by (simp add: shrinks_def)

lemma shrinks_trans: "shrinks e e' \<Longrightarrow> shrinks e' e'' \<Longrightarrow> shrinks e e''"
  by (auto simp: shrinks_def)

lemma shrinks_fields [simp]:
  "shrinks e (e'\<lparr>st := s\<rparr>) = shrinks e e'" "shrinks e (e'\<lparr>rn := r\<rparr>) = shrinks e e'" "shrinks (e\<lparr>rn := r\<rparr>) e' = shrinks e e'"
  "shrinks e (e'\<lparr>eng_sm := m\<rparr>) = shrinks e e'" "shrinks e (e'\<lparr>appliedIndex := i\<rparr>) = shrinks e e'"
  "shrinks e (e'\<lparr>snapIndex := i\<rparr>) = shrinks e e'" "shrinks e (e'\<lparr>confState := cs\<rparr>) = shrinks e e'"
  "shrinks e (e'\<lparr>removed := b\<rparr>) = shrinks e e'" "shrinks e (e'\<lparr>ccWaiters := w\<rparr>) = shrinks e e'"
  "shrinks e (emit evs e') = shrinks e e'" "shrinks (note_ready rd e) e' = shrinks e e'" "shrinks e (note_ready rd e') = shrinks e e'"
  by (simp_all add: shrinks_def emit_def note_ready_def)

lemma applyEntry_shrinks: "applyEntry R en e = (Inr (), e') \<Longrightarrow> shrinks e e'"
  by (auto simp: applyEntry_def fire_prop_def fire_conf_def shrinks_def emit_def Let_def
      split: if_splits sum.splits prod.splits option.splits)

lemma applyEntries_shrinks: "applyEntries R es e = (Inr (), e') \<Longrightarrow> shrinks e e'"
proof (induction es arbitrary: e)
  case (Cons en es)
  from Cons.prems obtain e1 where "applyEntry R en e = (Inr (), e1)" "applyEntries R es e1 = (Inr (), e')"
    by (auto elim!: io_bind_InrE)
  then show ?case using Cons.IH applyEntry_shrinks shrinks_trans by blast
qed (simp add: shrinks_refl)

lemma persist_ready_shrinks: "persist_ready M rd e = (Inr (), e') \<Longrightarrow> shrinks e e'"
  unfolding persist_ready_def install_snapshot_def
  by (auto simp: shrinks_refl modify_def elim!: io_bind_InrE st_call_InrE split: if_splits sum.splits)

lemma flush_list_shrinks: "fmlookup (fst (snd (flush_list applied rss ws))) ctx = Some cb \<Longrightarrow> fmlookup ws ctx = Some cb"
proof (induction applied rss ws rule: flush_list.induct)
  case (2 applied rs rss ws)
  then show ?case by (auto simp: Let_def split_beta split: option.splits if_splits)
qed simp

lemma flushReads_shrinks: "shrinks e (flushReads e)"
proof (cases "pendingRead e = []")
  case False
  obtain keep ws evs where f: "flush_list (appliedIndex e) (pendingRead e) (readWaiters e) = (keep, ws, evs)" by (metis prod_cases3)
  then have "fmlookup ws ctx = Some cb \<Longrightarrow> fmlookup (readWaiters e) ctx = Some cb" for ctx cb
    using flush_list_shrinks [of "appliedIndex e" "pendingRead e" "readWaiters e" ctx cb] by simp
  with f False show ?thesis by (simp add: flushReads_def shrinks_def emit_def)
qed (simp add: flushReads_def shrinks_refl)

lemma maybeSnapshot_shrinks: "maybeSnapshot M e = (Inr (), e') \<Longrightarrow> shrinks e e'"
  by (auto simp: maybeSnapshot_def st_call_def shrinks_refl Let_def split: if_splits sum.splits prod.splits)

lemma HandleReady_shrinks:
  assumes "HandleReady M R e = (Inr msgs, e')"
  shows "shrinks e e'"
proof (cases "rn_HasReady R (rn e) (eng_mem e)")
  case True
  obtain rd r where rd: "rn_Ready R (rn e) (eng_mem e) = (rd, r)" by fastforce
  obtain e2 e3 where h: "apply_ready M R rd (e\<lparr>rn := r\<rparr>) = (Inr (), e2)"
    "maybeSnapshot M (e2\<lparr>rn := rn_Advance R (rn e2) (eng_mem e2) rd\<rparr>) = (Inr (), e3)" "e' = flushReads e3"
    by (rule HandleReady_steps [OF assms True rd])
  from h(1) obtain e1 where "persist_ready M rd (e\<lparr>rn := r\<rparr>) = (Inr (), e1)"
      "applyEntries R (rd_CommittedEntries rd) (note_ready rd e1) = (Inr (), e2)"
    unfolding apply_ready_def by (auto elim!: io_bind_InrE)
  then have "shrinks e e2" using persist_ready_shrinks applyEntries_shrinks shrinks_trans by fastforce
  moreover have "shrinks e2 e3" using maybeSnapshot_shrinks [OF h(2)] by simp
  ultimately show ?thesis using h(3) flushReads_shrinks shrinks_trans by metis
next
  case False
  with assms show ?thesis by (simp add: HandleReady_def shrinks_refl)
qed

lemma client_run_waiting: "client_run ops seqs L M R view e \<Longrightarrow> waiting ops seqs e"
proof (induction rule: client_run.induct)
  case (start e c d)
  then show ?case by (auto simp: New_def waiting_def Let_def rbind_Inr_iff split: prod.splits sum.splits if_splits)
next
  case (propose e cb x e')
  then show ?case
    by (auto simp: Propose_def plantedApplyBeforeQuorum_def waiting_def Let_def split: if_splits sum.splits)
next
  case (propose_only e op x e')
  then show ?case
    by (auto simp: Propose_def plantedApplyBeforeQuorum_def waiting_def Let_def split: if_splits sum.splits)
next
  case (read_index e cb)
  then show ?case by (auto simp: ReadIndex_def waiting_def Let_def)
next
  case (ready e rd r msgs e')
  then show ?case using HandleReady_shrinks waiting_shrinks by blast
next
  case (idle e msgs e')
  then show ?case using HandleReady_shrinks waiting_shrinks by blast
next
  case (conf_change e cc ccb x e')
  then show ?case by (auto simp: ProposeConfChange_def waiting_def Let_def split: if_splits sum.splits option.splits)
qed (auto simp: CancelProposal_def Tick_def Campaign_def Step_def rn_call_def ReportSnapshot_def waiting_def split: sum.splits if_splits)

section \<open>Answers\<close>

text \<open>A request is named by its client and its number; it is one command when the log has no other one of that name.\<close>

definition same_request :: "Op \<Rightarrow> Op \<Rightarrow> bool" where
  "same_request op op' \<longleftrightarrow> op_ClientID op = op_ClientID op' \<and> op_ReqID op = op_ReqID op'"

definition one_command :: "Entry list \<Rightarrow> Op \<Rightarrow> bool" where
  "one_command L op \<longleftrightarrow> (\<forall>op' \<in> set (log_ops L). same_request op' op \<longrightarrow> op' = op)"

lemma log_ops_nth: "i < length L \<Longrightarrow> entry_op (L ! i) = Some op \<Longrightarrow> op \<in> set (log_ops L)"
proof (induction L arbitrary: i)
  case (Cons en L)
  then show ?case by (cases i) (auto split: option.splits)
qed simp

text \<open>
  C3: callbacks are answered with the results of their own requests.  When \<open>HandleReady\<close> processes a batch, every
  proposal callback it calls was waiting, and gets the answer the exactly-once specification gives to a
  committed entry with the client and request number the callback was proposed with, at the position of that
  entry in the log; when the log holds one command only under that client and number, as clients that number
  their requests ensure, this is the very command it was proposed with (requests without client and number
  share one name, and can get each other's answers: \<open>anonymous_requests_mix_answers\<close>).  Every read callback it
  calls had its own read context, which no other read of the process has, confirmed by raft at an index that
  the state machine of the engine has reached.
\<close>

theorem callbacks_answer_own_request:
  assumes "memory_storage M view" and "follows 0 L" and "client_run ops seqs L M R view e"
    and "rn_HasReady R (rn e) (eng_mem e)" and "rn_Ready R (rn e) (eng_mem e) = (rd, r)"
    and "batch_ok L M R view (e\<lparr>rn := r\<rparr>) rd"
    and "IsEmptySnap (rd_Snapshot rd) \<or> (\<exists>e1. engine_run L M R view e1 \<and> rd_Snapshot rd = mv_snap (view (eng_mem e1)))"
    and "HandleReady M R e = (Inr msgs, e')"
  shows "\<exists>evs. events e' = events e @ evs \<and>
    (\<forall>cb res. PropDone cb res \<in> set evs \<longrightarrow>
      (\<exists>i op. i < unat (appliedIndex e') \<and> entry_op (L ! i) = Some op \<and> same_request op (ops cb) \<and>
         (one_command L (ops cb) \<longrightarrow> op = ops cb) \<and> res = spec_answer (log_ops (take i L)) op \<and>
         fmlookup (propWaiters e) (propKey (op_ClientID op) (op_ReqID op)) = Some cb)) \<and>
    (\<forall>cb. ReadDone cb \<in> set evs \<longrightarrow>
      (\<exists>rs \<in> set (pendingRead e @ rd_ReadStates rd). rs_Index rs \<le> appliedIndex e' \<and>
         (\<forall>n. rs_RequestCtx rs = read_ctx (eng_id e) (cfg_Incarnation (cfg e)) n \<longleftrightarrow> n = seqs cb) \<and>
         fmlookup (readWaiters e) (rs_RequestCtx rs) = Some cb \<and> eng_sm e' = sm_at L (unat (appliedIndex e'))))"
proof -
  note run = client_run_engine [OF assms(3)]
  note w = client_run_waiting [OF assms(3), unfolded waiting_def]
  have len: "unat (appliedIndex e') \<le> length L"
    using engine_run_inv [OF assms(1,2) engine_run.ready [OF run assms(4-8)]] by (simp add: engine_inv_def)
  from batch_callbacks [OF assms(1,2) run assms(4-8)] obtain evs where ev: "events e' = events e @ evs"
    "\<And>cb res. PropDone cb res \<in> set evs \<Longrightarrow>
      \<exists>i op. i < unat (appliedIndex e') \<and> entry_op (L ! i) = Some op \<and> res = spec_answer (log_ops (take i L)) op \<and>
         fmlookup (propWaiters e) (propKey (op_ClientID op) (op_ReqID op)) = Some cb"
    "\<And>cb. ReadDone cb \<in> set evs \<Longrightarrow>
      \<exists>rs \<in> set (pendingRead e @ rd_ReadStates rd). rs_Index rs \<le> appliedIndex e' \<and>
         fmlookup (readWaiters e) (rs_RequestCtx rs) = Some cb \<and> eng_sm e' = sm_at L (unat (appliedIndex e'))"
    by blast
  have own: "same_request op (ops cb)" if "fmlookup (propWaiters e) (propKey (op_ClientID op) (op_ReqID op)) = Some cb" for op cb
    using w that keys_identify_requests unfolding same_request_def by metis
  have ctx: "rs_RequestCtx rs = read_ctx (eng_id e) (cfg_Incarnation (cfg e)) n \<longleftrightarrow> n = seqs cb"
    if "fmlookup (readWaiters e) (rs_RequestCtx rs) = Some cb" for rs cb n
    using w that keys_identify_requests by metis
  have one: "op = o'" if "i < unat (appliedIndex e')" "entry_op (L ! i) = Some op" "same_request op o'" "one_command L o'" for i op o'
    using that len log_ops_nth [of i L op] by (simp add: one_command_def)
  show ?thesis
  proof (intro exI [of _ evs] conjI allI impI)
    fix cb res assume "PropDone cb res \<in> set evs"
    from ev(2) [OF this] show "\<exists>i op. i < unat (appliedIndex e') \<and> entry_op (L ! i) = Some op \<and> same_request op (ops cb) \<and>
         (one_command L (ops cb) \<longrightarrow> op = ops cb) \<and> res = spec_answer (log_ops (take i L)) op \<and>
         fmlookup (propWaiters e) (propKey (op_ClientID op) (op_ReqID op)) = Some cb"
      using own one by blast
  next
    fix cb assume "ReadDone cb \<in> set evs"
    from ev(3) [OF this] show "\<exists>rs \<in> set (pendingRead e @ rd_ReadStates rd). rs_Index rs \<le> appliedIndex e' \<and>
         (\<forall>n. rs_RequestCtx rs = read_ctx (eng_id e) (cfg_Incarnation (cfg e)) n \<longleftrightarrow> n = seqs cb) \<and>
         fmlookup (readWaiters e) (rs_RequestCtx rs) = Some cb \<and> eng_sm e' = sm_at L (unat (appliedIndex e'))"
      using ctx by blast
  qed (rule ev(1))
qed

end
