(* ===== verification/TornLog.thy ===== *)
theory TornLog
  imports Recovery
begin

text \<open>
  The limits of \<open>replayWAL\<close>.  A torn last line is skipped but stays in the file, so the next append continues it:
  the line that results is no JSON (\<open>decode_joined_line\<close>), whatever was torn and whatever was appended, and it
  takes the appended entry with it or makes the log unreadable.  A line that does not fit the scanner makes
  the log unreadable at once.
\<close>

section \<open>A torn object with another object behind it is not JSON\<close>







lemma jstep_fail [simp]: "jstep (MFail, st) c = (MFail, [])"
  by (simp add: jstep_def)

lemma jrun_fail [simp]: "jrun (MFail, []) cs = (MFail, [])"
  by (induction cs) simp_all

text \<open>The rest of a literal the scanner waits for has no bracket.\<close>

fun plain_literal :: "jstate \<Rightarrow> bool" where
  "plain_literal (MLit ls v, st) \<longleftrightarrow> CHR ''{'' \<notin> set ls"
| "plain_literal s \<longleftrightarrow> True"

lemma plain_literal_complete [simp]: "plain_literal (complete v st)"
  by (cases "(v, st)" rule: complete.cases) auto

lemma plain_literal_after [simp]: "plain_literal (after_value c st)"
  by (auto simp: after_value_def split: list.splits frame.splits)

lemma plain_literal_resume [simp]: "plain_literal (resume t c)"
  by (cases t) (auto simp: resume_def split: mode.splits)






section \<open>Joined lines\<close>






section \<open>Opening an unreadable log\<close>

lemma bind_refused:
  assumes "outcome s P (m s')" "faults s = []" "\<And>y s''. P y s'' \<Longrightarrow> fst (k y s'') = Inl x"
  shows "fst (io_bind m k s') = Inl x"
  using assms by (auto simp: outcome_def)

context memory_storage
begin

lemma Open_refused:
  assumes "snap_holds (files s) sn" "faults s = []"
    and "fmlookup (files s) walName = Some f" "replay_bytes (fbytes f) (sn_Index sn) = Inl x"
  shows "fst (Open M s) = Inl x"
proof -
  let ?osn = "if fmlookup (files s) snapshotName = None then None else Some sn"
  have snapIndex: "(case ?osn of None \<Rightarrow> 0 | Some sn \<Rightarrow> sn_Index sn) = sn_Index sn"
    using assms(1) by (auto simp: snap_holds_def zero_Snapshot_def)
  have new: "outcome s (\<lambda>_ s''. at view s s'' empty_view) (mem_call (\<lambda>_. Inr (ms_New M)) s')"
    if "at view s s' v" for s' v
    using that by (intro mem_call_at) (auto simp: view_New)
  have closed: "outcome s (\<lambda>_ s''. at view s s'' v) (set_wal b s')" if "at view s s' v" for s' v b
    using that by (auto simp: outcome_def at_def)
  have replay: "fst (replayWAL (sn_Index sn) s') = Inl x" if "at view s s' v" for s' v
    unfolding replayWAL_def
    by (rule bind_refused, rule os_ReadFile_reads [OF that], rule assms(2)) (use assms(3,4) in auto)
  have "fst (io_bind (replayWAL (sn_Index sn)) k s') = Inl x" if "at view s s' v" for s' v k
    using replay [OF that] by (cases "replayWAL (sn_Index sn) s'") auto
  note last = this
  show ?thesis
    unfolding Open_def
    apply (rule bind_refused, rule os_MkdirAll_reads, rule assms(2))
    apply (rule bind_refused, erule new, rule assms(2))
    apply (rule bind_refused, erule closed, rule assms(2))
    apply (rule bind_refused, erule loadSnapshotFile_reads [OF assms(1)], rule assms(2))
    apply (erule conjE, hypsubst)
    apply (rule bind_refused, erule load_snapshot [OF assms(1)], rule assms(2))
    apply (simp only: snapIndex Let_def)
    apply (erule last)
    done
qed

end

section \<open>The log after an interrupted append\<close>


lemma Append_ok_files:
  assumes "wal s" "fmlookup (files s) walName = Some h" "es \<noteq> []" "Append M es s = (Inr (), s')"
  shows "files s' = fmupd walName (synced_file (fbytes h @ wal_bytes es)) (files s)"
  using Append_outcome [OF assms(1-3), of M] assms(4)
  by (cases "ms_Append M (mem s) es") (auto simp: mem_call_def)


section \<open>Lines beyond the scanner's buffer\<close>

lemma scan_lines_long:
  "CHR 0x0A \<notin> set l \<Longrightarrow> max_line \<le> length acc + length l \<Longrightarrow> scan_lines acc (l @ CHR 0x0A # rest) = ([], True)"
  by (induction l arbitrary: acc) auto

lemma replay_oversized:
  assumes "list_all entry_ok xs" "entry_typed e" "max_line < length (wal_line e)"
  shows "replay_bytes (wal_bytes xs @ wal_bytes (e # rest)) i = Inl ErrTooLong"
proof -
  have "\<forall>c \<in> set (wal_text e). 32 \<le> code c" using wal_text_printable assms(2) by (auto simp: entry_typed_def)
  then have "scan_lines [] (wal_text e @ CHR 0x0A # wal_bytes rest) = ([], True)"
    using assms(3) by (intro scan_lines_long no_newline) (simp_all add: wal_line_def)
  then show ?thesis
    using scan_wal_bytes [OF assms(1), of "wal_bytes (e # rest)"] replay_lines_texts [OF assms(1), of "[]" True "[]"]
    by (simp add: replay_bytes_def)
qed

text \<open>
  \<open>Append\<close> does not bound the size of a record, \<open>replayWAL\<close> does: from every state a run reaches, an append that
  contains an entry whose line does not fit the scanner is synced and acknowledged, and from then on every \<open>Open\<close>
  fails.
\<close>

theorem oversized_append_unreadable:
  assumes "memory_storage M view" and "storage_run M view s"
    and "list_all entry_typed es" and "\<exists>e \<in> set es. max_line < length (wal_line e)"
    and "Append M es s = (Inr (), s1)"
    and "files s2 = power_loss keep (files s1)" and "faults s2 = []"
  shows "fst (Open M s2) = Inl ErrTooLong"
proof -
  have inv: "storage_inv (files s) (view (mem s))" "wal s" using storage_run_inv [OF assms(1,2)] by (simp_all add: run_inv_def)
  obtain ws where ws: "fmlookup (files s) walName = Some (synced_file (wal_bytes ws))" "list_all entry_ok ws"
    using inv(1) by (auto simp: storage_inv_def wal_holds_def)
  obtain xs e ys where es: "es = xs @ e # ys" "max_line < length (wal_line e)" "\<forall>x \<in> set xs. \<not> max_line < length (wal_line x)"
    using split_list_first_prop [OF assms(4)] by blast
  have ok: "list_all entry_ok (ws @ xs)" "entry_typed e"
    using assms(3) es ws(2) by (auto simp: list_all_iff entry_ok_iff not_less)
  have "files s1 = fmupd walName (synced_file (wal_bytes ws @ wal_bytes es)) (files s)"
    using Append_ok_files [OF inv(2) ws(1) _ assms(5)] es(1) by simp
  then have "fmlookup (files s2) walName = Some (synced_file (wal_bytes (ws @ xs) @ wal_bytes (e # ys)))"
    "snap_holds (files s2) (mv_snap (view (mem s)))"
    using assms(6) inv(1) by (simp_all add: es(1) storage_inv_def)
  with memory_storage.Open_refused [OF assms(1) _ assms(7)] replay_oversized [OF ok es(2)] show ?thesis by simp
qed

section \<open>Properties\<close>


end
