(* ===== verification/RecoveryExamples.thy ===== *)
theory RecoveryExamples
  imports TornLog
begin

text \<open>
  Concrete runs of \<open>DiskStorage\<close>, on the instance \<open>ref_mem\<close> of the memory storage: the theorems of theory
  \<open>Recovery\<close> and \<open>TornLog\<close> at a real directory with injected faults, and a crash between the two steps of
  \<open>SaveSnapshot\<close>.
\<close>

section \<open>Concrete runs\<close>

definition wit_entry :: "u64 \<Rightarrow> u64 \<Rightarrow> Entry" where
  "wit_entry i t = \<lparr>e_Index = i, e_Term = t, e_Type = EntryNormal, e_Data = ''x''\<rparr>"

definition wit_fresh :: "fault list \<Rightarrow> mem_view DiskStorage" where
  "wit_fresh fs = \<lparr>files = fmempty, faults = fs, mem = empty_view, wal = False\<rparr>"

definition wit_opened :: "fault list \<Rightarrow> mem_view DiskStorage" where
  "wit_opened fs = snd (Open ref_mem (wit_fresh fs))"

definition wit_run :: "fault list \<Rightarrow> mem_view DiskStorage" where
  "wit_run fs = snd (Append ref_mem [wit_entry 1 1] (wit_opened fs))"

definition after_power_loss :: "nat \<Rightarrow> 'm DiskStorage \<Rightarrow> 'm DiskStorage" where
  "after_power_loss n s = s\<lparr>files := power_loss (\<lambda>_. n) (files s), faults := []\<rparr>"

text \<open>The faults that let an open and an append pass and cut the next write after 10 bytes.\<close>

definition wit_torn :: "fault list" where
  "wit_torn = replicate 7 NoFault @ [Fault 10]"

lemma eq_pairI: "fst r = x \<Longrightarrow> r = (x, snd r)"
  by (cases r) simp

lemma wit_entry_ok: "list_all entry_ok [wit_entry 1 1]"
  by code_simp

lemma storage_run_wit:
  assumes "fst (Open ref_mem (wit_fresh fs)) = Inr False"
    and "fst (Append ref_mem [wit_entry 1 1] (wit_opened fs)) = Inr ()"
    and "may_append (mem (wit_opened fs)) [wit_entry 1 1]"
  shows "storage_run ref_mem (\<lambda>v. v) (wit_run fs)"
proof -
  have "storage_run ref_mem (\<lambda>v. v) (wit_opened fs)"
    unfolding wit_opened_def by (rule storage_run.start [OF _ eq_pairI [OF assms(1)]]) (simp add: wit_fresh_def)
  then show ?thesis
    unfolding wit_run_def
    by (rule storage_run.append [where view = "\<lambda>v. v", OF _ wit_entry_ok assms(3) eq_pairI [OF assms(2)]])
qed

lemma storage_run_clean: "storage_run ref_mem (\<lambda>v. v) (wit_run [])"
  by (rule storage_run_wit) code_simp+

lemma storage_run_torn: "storage_run ref_mem (\<lambda>v. v) (wit_run wit_torn)"
  by (rule storage_run_wit) code_simp+

lemma after_power_loss_files:
  "files (after_power_loss n s) = power_loss (\<lambda>_. n) (files s)" "faults (after_power_loss n s) = []"
  by (simp_all add: after_power_loss_def)

text \<open>A file system that keeps its directory and may lose all but \<open>n\<close> bytes of what was not synced.\<close>

definition wit_crash :: "(string, file_data) fmap \<Rightarrow> (string, file_data) fmap \<Rightarrow> bool" where
  "wit_crash fs fs' \<longleftrightarrow> (\<exists>n. fs' = power_loss (\<lambda>_. n) fs)"

lemma wit_crash_keeps: "keeps_directory wit_crash"
  by (auto simp: keeps_directory_def wit_crash_def)

lemma storage_calls_clean: "storage_calls ref_mem (\<lambda>v. v) wit_crash [wit_entry 1 1] [] (wit_run [])"
proof -
  have "fst (Open ref_mem (wit_fresh [])) = Inr False" by code_simp
  from storage_calls.start [OF _ eq_pairI [OF this]] have c: "storage_calls ref_mem (\<lambda>v. v) wit_crash [] [] (wit_opened [])"
    by (simp add: wit_opened_def wit_fresh_def)
  have "list_all entry_typed [wit_entry 1 1]" "may_append (mem (wit_opened [])) [wit_entry 1 1]"
    "fst (Append ref_mem [wit_entry 1 1] (wit_opened [])) = Inr ()" by code_simp+
  from storage_calls.append [OF c this(1,2) eq_pairI [OF this(3)]] show ?thesis by (simp add: wit_run_def)
qed

theorem restart_recovers_witness:
  "\<exists>s'. Open ref_mem (after_power_loss 0 (wit_run [])) = (Inr True, s') \<and>
     mem s' = recovered_view zero_Snapshot zero_HardState [wit_entry 1 1]"
proof -
  have "mv_snap (mem (wit_run [])) = zero_Snapshot" "mv_hs (mem (wit_run [])) = zero_HardState"
    "beyond (sn_Index zero_Snapshot) (mv_ents (mem (wit_run []))) = [wit_entry 1 1]"
    by code_simp+
  moreover have "\<forall>e \<in> set [wit_entry 1 1]. length (wal_line e) \<le> max_line" by code_simp
  moreover have "wit_crash (files (wit_run [])) (files (after_power_loss 0 (wit_run [])))"
    by (auto simp: wit_crash_def after_power_loss_def)
  ultimately show ?thesis
    using restart_recovers [OF ref.memory_storage_axioms wit_crash_keeps storage_calls_clean _ _ refl, of "after_power_loss 0 (wit_run [])"]
    by (simp add: after_power_loss_files)
qed

theorem interrupted_append_recovers_prefix_witness:
  "\<exists>n s'. n \<le> 1 \<and> Open ref_mem (after_power_loss 3 (snd (Append ref_mem [wit_entry 2 1] (wit_run wit_torn)))) = (Inr True, s') \<and>
     mem s' = recovered_view zero_Snapshot zero_HardState (beyond 0 (splice_log [wit_entry 1 1] (take n [wit_entry 2 1])))"
proof -
  let ?s = "wit_run wit_torn"
  have a: "Append ref_mem [wit_entry 2 1] ?s = (Inl ErrIO, snd (Append ref_mem [wit_entry 2 1] ?s))"
    by (rule eq_pairI) code_simp
  have "list_all entry_ok [wit_entry 2 1]" "may_append (mem ?s) [wit_entry 2 1]" by code_simp+
  note interrupted_append_recovers_prefix [OF ref.memory_storage_axioms storage_run_torn refl this a after_power_loss_files]
  moreover have "mv_snap (mem ?s) = zero_Snapshot" "mv_hs (mem ?s) = zero_HardState"
    "mv_ents (mem ?s) = [wit_entry 1 1]" "sn_Index zero_Snapshot = 0"
    by code_simp+
  ultimately show ?thesis by auto
qed

theorem atomicWrite_old_or_new_witness:
  "fmlookup (power_loss (\<lambda>_. 0) (files (snd (atomicWrite ''f'' ''new'' (wit_fresh []))))) ''f'' = Some (synced_file ''new'')"
proof -
  have "atomicWrite ''f'' ''new'' (wit_fresh []) = (Inr (), snd (atomicWrite ''f'' ''new'' (wit_fresh [])))"
    by (rule eq_pairI) code_simp
  from atomicWrite_old_or_new [OF this] show ?thesis by blast
qed

theorem interrupted_hard_state_recovers_witness:
  "\<exists>hs' s'. Open ref_mem (after_power_loss 0 (snd (SetHardState ref_mem zero_HardState (wit_run wit_torn)))) = (Inr True, s') \<and>
     mv_hs (mem s') = hs'"
proof -
  have "SetHardState ref_mem zero_HardState (wit_run wit_torn) =
      (Inl ErrIO, snd (SetHardState ref_mem zero_HardState (wit_run wit_torn)))"
    by (rule eq_pairI) code_simp
  from interrupted_hard_state_recovers [OF ref.memory_storage_axioms storage_run_torn refl this after_power_loss_files, of 0]
  show ?thesis by blast
qed

definition wit_conf :: ConfState where
  "wit_conf = zero_ConfState\<lparr>cs_Voters := [1, 2, 3]\<rparr>"

theorem interrupted_create_snapshot_recovers_witness:
  "\<exists>sn s'. Open ref_mem (after_power_loss 0 (snd (CreateSnapshot ref_mem 1 wit_conf ''data'' 0 (wit_run wit_torn)))) = (Inr True, s') \<and>
     mv_snap (mem s') = sn \<and> (sn = zero_Snapshot \<or> sn_Index sn = 1 \<and> sn_Data sn = ''data'')"
proof -
  let ?s = "wit_run wit_torn"
  have c: "CreateSnapshot ref_mem 1 wit_conf ''data'' 0 ?s = (Inl ErrIO, snd (CreateSnapshot ref_mem 1 wit_conf ''data'' 0 ?s))"
    by (rule eq_pairI) code_simp
  have "may_create (mem ?s) 1 wit_conf" by code_simp
  note interrupted_create_snapshot_recovers [OF ref.memory_storage_axioms storage_run_torn refl this c after_power_loss_files, of 0]
  moreover have "mv_snap (mem ?s) = zero_Snapshot" by code_simp
  ultimately show ?thesis by (auto simp: recovered_view_def)
qed

section \<open>Where recovery fails\<close>




definition wit_snapshot :: RaftSnapshot where
  "wit_snapshot = \<lparr>sn_Data = ''data'', sn_Index = 2, sn_Term = 2, sn_Conf = wit_conf\<rparr>"

text \<open>
  Installing a snapshot is not atomic.  \<open>SaveSnapshot\<close> writes the snapshot file and then resets the
  log in a second step.  A crash between the two leaves the old log behind the new snapshot: here a
  snapshot of index 2 and term 2 replaces a log of three entries of term 1, and the restarted node
  has the new snapshot followed by the stale entry 3 of term 1, which is neither the state before
  the call nor the state after it.
\<close>

theorem interrupted_save_snapshot_keeps_stale_log:
  fixes long crashed
  defines "long \<equiv> snd (Append ref_mem [wit_entry 2 1, wit_entry 3 1] (wit_run (replicate 14 NoFault @ [Fault 0])))"
  defines "crashed \<equiv> snd (SaveSnapshot ref_mem wit_snapshot long)"
  shows "mv_ents (mem long) = [wit_entry 1 1, wit_entry 2 1, wit_entry 3 1] \<and>
    fst (SaveSnapshot ref_mem wit_snapshot long) = Inl ErrIO \<and>
    fst (Open ref_mem (after_power_loss 1000 crashed)) = Inr True \<and>
    mem (snd (Open ref_mem (after_power_loss 1000 crashed))) =
      recovered_view wit_snapshot zero_HardState [wit_entry 3 1]"
  unfolding long_def crashed_def by (intro conjI; code_simp)

end
