(* ===== verification/EngineExamples.thy ===== *)
theory EngineExamples
  imports EngineAnswers RecoveryExamples
begin

text \<open>
  Concrete runs of the engine on a scripted raft node: a node that leads, accepts every proposal and
  delivers a given list of Ready batches.  They show that the hypotheses of the engine theorems can
  be met by a real start, batch and restart.
\<close>

type_synonym script = "string Ready list"

definition script_node :: "(mem_view, script, string) raw_ops" where
  "script_node = \<lparr>rn_New = (\<lambda>i a m. Inr []), rn_Bootstrap = (\<lambda>r ps m. Inr r), rn_IsLeader = (\<lambda>r. True),
     rn_Voters = (\<lambda>r. []), rn_Tick = (\<lambda>r m. r), rn_Campaign = (\<lambda>r m. Inr r), rn_Step = (\<lambda>r m g. Inr r),
     rn_ReportSnapshot = (\<lambda>r to ok. r), rn_Propose = (\<lambda>r m d. Inr (r @
       [\<lparr>rd_SoftState = None, rd_HardState = \<lparr>hs_Term = 1, hs_Vote = 1, hs_Commit = 1\<rparr>, rd_ReadStates = [],
         rd_Entries = [\<lparr>e_Index = 1, e_Term = 1, e_Type = EntryNormal, e_Data = d\<rparr>], rd_Snapshot = zero_Snapshot,
         rd_CommittedEntries = [\<lparr>e_Index = 1, e_Term = 1, e_Type = EntryNormal, e_Data = d\<rparr>], rd_Messages = [''append'']\<rparr>])),
     rn_ProposeConfChange = (\<lambda>r m cc. Inr r), rn_ReadIndex = (\<lambda>r m c. r), rn_HasReady = (\<lambda>r m. r \<noteq> []),
     rn_Ready = (\<lambda>r m. (hd r, tl r)), rn_Advance = (\<lambda>r m rd. r),
     rn_ApplyConfChange = (\<lambda>r cc. (zero_ConfState, r)), rn_Unmarshal = (\<lambda>d. Inl ErrJSON)\<rparr>"

definition wit_cfg :: Config where
  "wit_cfg = \<lparr>cfg_ID = 1, cfg_SnapshotThreshold = 10, cfg_SnapshotTrailing = 0, cfg_BootstrapPeers = [1],
     cfg_OnConfChange = False, cfg_Incarnation = 1\<rparr>"

definition the_res :: "'a res \<Rightarrow> 'a \<Rightarrow> 'a" where
  "the_res r d = (case r of Inl _ \<Rightarrow> d | Inr x \<Rightarrow> x)"

definition wit_engine0 :: "(mem_view, script) Engine" where
  "wit_engine0 = \<lparr>eng_id = 1, rn = [], st = snd (Open ref_mem (wit_fresh [])), eng_sm = sm_New, cfg = wit_cfg, lead = 0,
     appliedIndex = 0, snapIndex = 0, confState = zero_ConfState, removed = False, propWaiters = fmempty,
     ccWaiters = fmempty, readSeq = 0, readWaiters = fmempty, pendingRead = [], events = []\<rparr>"

definition wit_engine1 :: "(mem_view, script) Engine" where
  "wit_engine1 = snd (Propose script_node wit_append (Some 7) wit_engine0)"

definition wit_engine2 :: "(mem_view, script) Engine" where
  "wit_engine2 = snd (HandleReady ref_mem script_node wit_engine1)"

definition wit_log :: "Entry list" where
  "wit_log = [\<lparr>e_Index = 1, e_Term = 1, e_Type = EntryNormal, e_Data = Encode wit_append\<rparr>]"

definition wit_batch :: "string Ready" where
  "wit_batch = fst (rn_Ready script_node (rn wit_engine1) (eng_mem wit_engine1))"

lemma wit_open: "Open ref_mem (wit_fresh []) = (Inr False, snd (Open ref_mem (wit_fresh [])))"
  by (rule eq_pairI) code_simp

lemma wit_start: "New ref_mem script_node wit_cfg (wit_fresh []) = Inr wit_engine0"
proof -
  have "IsEmptySnap (ms_Snapshot ref_mem (mem (snd (Open ref_mem (wit_fresh [])))))" by code_simp
  then show ?thesis
    unfolding New_def by (subst wit_open) (simp add: Let_def wit_engine0_def wit_cfg_def script_node_def)
qed

abbreviation wit_reachable :: "(mem_view, script) Engine \<Rightarrow> bool" where
  "wit_reachable \<equiv> engine_run wit_log ref_mem script_node (\<lambda>v. v)"

lemma wit_reach1: "wit_reachable wit_engine1"
proof -
  have "wit_reachable wit_engine0"
    by (rule engine_run.start [OF _ wit_start]) (simp add: wit_fresh_def)
  then show ?thesis
    by (rule engine_run.propose [where x = "fst (Propose script_node wit_append (Some 7) wit_engine0)"])
      (simp add: wit_engine1_def)
qed

lemma wit_follows: "follows 0 wit_log"
  by code_simp

lemma wit_ready:
  "rn_HasReady script_node (rn wit_engine1) (eng_mem wit_engine1)"
  "rn_Ready script_node (rn wit_engine1) (eng_mem wit_engine1) = (wit_batch, [])"
  "IsEmptySnap (rd_Snapshot wit_batch) \<or> X"
proof -
  show "rn_HasReady script_node (rn wit_engine1) (eng_mem wit_engine1)" by code_simp
  have "snd (rn_Ready script_node (rn wit_engine1) (eng_mem wit_engine1)) = []" by code_simp
  then show "rn_Ready script_node (rn wit_engine1) (eng_mem wit_engine1) = (wit_batch, [])"
    unfolding wit_batch_def by (metis prod.collapse)
  have "IsEmptySnap (rd_Snapshot wit_batch)" by code_simp
  then show "IsEmptySnap (rd_Snapshot wit_batch) \<or> X" ..
qed

lemma wit_batch_ok: "batch_ok wit_log ref_mem script_node (\<lambda>v. v) (wit_engine1\<lparr>rn := []\<rparr>) wit_batch"
  unfolding batch_ok_def
proof (intro conjI allI impI)
  let ?e = "wit_engine1\<lparr>rn := []\<rparr>"
  show "list_all entry_ok (rd_Entries wit_batch)" by code_simp
  show "may_append (after_snap (eng_mem ?e) (rd_Snapshot wit_batch)) (rd_Entries wit_batch)" by code_simp
  have "rd_CommittedEntries wit_batch = take 1 (drop (unat (applied_after (appliedIndex ?e) (rd_Snapshot wit_batch))) wit_log)"
    by code_simp
  then show "\<exists>k. rd_CommittedEntries wit_batch = take k (drop (unat (applied_after (appliedIndex ?e) (rd_Snapshot wit_batch))) wit_log)" ..
  fix e2 assume "apply_ready ref_mem script_node wit_batch ?e = (Inr (), e2)"
  then have e2: "e2 = snd (apply_ready ref_mem script_node wit_batch ?e)" by simp
  show "may_create (eng_mem e2) (appliedIndex e2) (confState e2)" unfolding e2 by code_simp
qed

lemma wit_handled: "HandleReady ref_mem script_node wit_engine1 = (Inr [''append''], wit_engine2)"
  unfolding wit_engine2_def by (rule eq_pairI) code_simp

lemma wit_reach2: "wit_reachable wit_engine2"
  by (rule engine_run.ready [OF wit_reach1 wit_ready(1,2) wit_batch_ok _ wit_handled]) (rule wit_ready(3))

theorem engine_replays_committed_log_witness:
  "unat (appliedIndex wit_engine2) = 1 \<and> eng_sm wit_engine2 = sm_at wit_log 1"
proof -
  have a: "appliedIndex wit_engine2 = 1" by code_simp
  with engine_replays_committed_log [OF ref.memory_storage_axioms wit_follows wit_reach2] show ?thesis by simp
qed

theorem replicas_agree_witness:
  "eng_sm wit_engine2 = fst (apply_log (eng_sm wit_engine1) (log_ops (drop 0 (take 1 wit_log))))"
proof -
  have a: "appliedIndex wit_engine2 = 1" "appliedIndex wit_engine1 = 0" by code_simp+
  with replicas_agree [OF ref.memory_storage_axioms ref.memory_storage_axioms wit_follows wit_reach1 wit_reach2]
  show ?thesis by simp
qed

lemma wit_client1: "client_run (\<lambda>_. wit_append) (\<lambda>_. 1) wit_log ref_mem script_node (\<lambda>v. v) wit_engine1"
proof -
  have "wit_reachable wit_engine0"
    by (rule engine_run.start [OF _ wit_start]) (simp add: wit_fresh_def)
  then have "client_run (\<lambda>_. wit_append) (\<lambda>_. 1) wit_log ref_mem script_node (\<lambda>v. v) wit_engine0"
    by (rule client_run.start [OF _ wit_start])
  then show ?thesis
    by (rule client_run.propose [where cb = 7 and x = "fst (Propose script_node wit_append (Some 7) wit_engine0)"])
      (simp add: wit_engine1_def)
qed

theorem callbacks_answer_own_request_witness:
  "one_command wit_log wit_append \<and> events wit_engine2 = [PropDone 7 \<lparr>res_Val = ''x'', res_OK = True\<rparr>] \<and>
    (\<exists>i < 1. entry_op (wit_log ! i) = Some wit_append \<and>
       \<lparr>res_Val = ''x'', res_OK = True\<rparr> = spec_answer (log_ops (take i wit_log)) wit_append)"
proof -
  have f: "appliedIndex wit_engine2 = 1" "events wit_engine1 = []" "one_command wit_log wit_append"
      "events wit_engine2 = [PropDone 7 \<lparr>res_Val = ''x'', res_OK = True\<rparr>]" by code_simp+
  from callbacks_answer_own_request [OF ref.memory_storage_axioms wit_follows wit_client1 wit_ready(1,2) wit_batch_ok _ wit_handled]
    wit_ready(3) obtain evs where ev: "events wit_engine2 = events wit_engine1 @ evs"
    "\<forall>cb res. PropDone cb res \<in> set evs \<longrightarrow>
      (\<exists>i op. i < unat (appliedIndex wit_engine2) \<and> entry_op (wit_log ! i) = Some op \<and> same_request op wit_append \<and>
         (one_command wit_log wit_append \<longrightarrow> op = wit_append) \<and> res = spec_answer (log_ops (take i wit_log)) op \<and>
         fmlookup (propWaiters wit_engine1) (propKey (op_ClientID op) (op_ReqID op)) = Some cb)" by blast
  from ev(2) have "PropDone cb res \<in> set evs \<Longrightarrow>
      \<exists>i < 1. entry_op (wit_log ! i) = Some wit_append \<and> res = spec_answer (log_ops (take i wit_log)) wit_append" for cb res
    using f(1,3) by fastforce
  moreover have "PropDone 7 \<lparr>res_Val = ''x'', res_OK = True\<rparr> \<in> set evs"
    using ev(1) f(2,4) by (metis append_Nil list.set_intros(1))
  ultimately show ?thesis using f(3,4) by blast
qed

theorem ready_persisted_before_send_witness:
  "\<exists>s'. Open ref_mem (after_power_loss 0 (st wit_engine2)) = (Inr True, s') \<and>
     mv_hs (mem s') = \<lparr>hs_Term = 1, hs_Vote = 1, hs_Commit = 1\<rparr>"
proof -
  have h: "rd_HardState wit_batch = \<lparr>hs_Term = 1, hs_Vote = 1, hs_Commit = 1\<rparr>" by code_simp
  from ready_persisted_before_send [OF ref.memory_storage_axioms wit_follows wit_reach1 wit_ready(1,2) wit_batch_ok _ wit_handled
      after_power_loss_files, of 0] wit_ready(3) h
  show ?thesis by (auto simp: IsEmptyHardState_def zero_HardState_def)
qed

theorem snapshot_threshold_kept_witness:
  "appliedIndex wit_engine2 - snapIndex wit_engine2 < 10"
proof -
  have c: "cfg_SnapshotThreshold (cfg wit_engine1) = 10" "cfg_SnapshotThreshold (cfg wit_engine2) = 10" by code_simp+
  from snapshot_threshold_kept [OF ref.memory_storage_axioms wit_follows wit_reach1 wit_ready(1,2) wit_batch_ok _ wit_handled]
    wit_ready(3) c
  show ?thesis by simp
qed

theorem Propose_outcomes_witness:
  "\<exists>r. snd (Propose script_node wit_append (Some 7) wit_engine0) =
     wit_engine0\<lparr>rn := r, propWaiters := fmupd (propKey ''c1'' 1) 7 (propWaiters wit_engine0)\<rparr>"
proof -
  obtain r where r: "rn_Propose script_node (rn wit_engine0) (eng_mem wit_engine0) (Encode wit_append) = Inr r"
    by (simp add: script_node_def)
  have "IsLeader script_node wit_engine0" by (simp add: IsLeader_def script_node_def)
  with Propose_outcomes [of script_node wit_append 7 wit_engine0, OF prod.collapse [symmetric] refl] r
  show ?thesis by (auto simp: wit_append_def)
qed

definition wit_anon :: "string \<Rightarrow> Op" where
  "wit_anon v = \<lparr>op_Type = OpPut, op_Key = ''k'', op_Val = v, op_ClientID = '''', op_ReqID = 0\<rparr>"

theorem anonymous_requests_mix_answers_witness:
  "events (snd (applyEntry script_node \<lparr>e_Index = 1, e_Term = 1, e_Type = EntryNormal, e_Data = Encode (wit_anon ''a'')\<rparr>
      (snd (Propose script_node (wit_anon ''b'') (Some 2) (snd (Propose script_node (wit_anon ''a'') (Some 1) wit_engine0)))))) =
    [PropDone 2 \<lparr>res_Val = ''a'', res_OK = True\<rparr>]"
proof -
  let ?e1 = "snd (Propose script_node (wit_anon ''a'') (Some 1) wit_engine0)"
  have p: "Propose script_node (wit_anon ''a'') (Some 1) wit_engine0 = (Inr (), ?e1)"
    "Propose script_node (wit_anon ''b'') (Some 2) ?e1 = (Inr (), snd (Propose script_node (wit_anon ''b'') (Some 2) ?e1))"
    by (rule eq_pairI, simp add: Propose_def IsLeader_def script_node_def Let_def)+
  have "op_valid (wit_anon ''a'')" by code_simp
  note anonymous_requests_mix_answers [OF _ _ _ _ this p, of "\<lparr>e_Index = 1, e_Term = 1, e_Type = EntryNormal, e_Data = Encode (wit_anon ''a'')\<rparr>",
      OF _ _ _ _ _ _ prod.collapse [symmetric]]
  moreover have "snd (Apply (eng_sm wit_engine0) (wit_anon ''a'')) = \<lparr>res_Val = ''a'', res_OK = True\<rparr>" "events wit_engine0 = []"
    by code_simp+
  ultimately show ?thesis by (simp add: wit_anon_def)
qed

end
