(* ===== verification/ServerExamples.thy ===== *)
theory ServerExamples
  imports ServerFacts EngineExamples
begin

text \<open>
  A concrete server on the scripted raft node of theory \<open>EngineExamples\<close>: started on an empty directory,
  asked to write a key, with a peer isolated.
\<close>

text \<open>Text messages that name their sender and their receiver by their first two bytes.\<close>

definition wit_msgs :: "string msg_ops" where
  "wit_msgs = \<lparr>mg_To = (\<lambda>m. of_nat (code (hd (tl m)) - 48)), mg_From = (\<lambda>m. of_nat (code (hd m) - 48)), mg_IsSnap = (\<lambda>m. False),
     mg_Marshal = Inr, mg_Unmarshal = Inr\<rparr>"

definition wit_sv_config :: SvConfig where
  "wit_sv_config = \<lparr>sc_ID = 1, sc_Peers = wit_flags, sc_Join = True, sc_SnapshotThreshold = 0, sc_SnapshotTrailing = 0\<rparr>"

definition wit_server :: "(mem_view, script, string) Server" where
  "wit_server = \<lparr>sv_cfg = sv_defaults wit_sv_config,
     sv_eng = wit_engine0\<lparr>cfg := \<lparr>cfg_ID = 1, cfg_SnapshotThreshold = 10000, cfg_SnapshotTrailing = 64, cfg_BootstrapPeers = [],
       cfg_OnConfChange = True, cfg_Incarnation = 5\<rparr>\<rparr>,
     sv_peers = wit_flags, sv_dir = wit_dir, sv_senders = fmempty, sv_chaos = newChaosState,
     sv_chans = fmempty, sv_next = 0, sv_fatal = False\<rparr>"

lemma wit_load: "loadPeersFile wit_flags wit_dir = (wit_flags, wit_dir)"
  by (simp add: loadPeersFile_def os_ReadFile_def io_bind_def take_fault_def get_file_def io_ret_def wit_dir_def)

lemma wit_sv_start: "sv_New ref_mem script_node wit_sv_config 5 wit_dir (wit_fresh []) = Inr wit_server"
proof -
  have "IsEmptySnap (ms_Snapshot ref_mem (mem (snd (Open ref_mem (wit_fresh [])))))" by code_simp
  then have "New ref_mem script_node \<lparr>cfg_ID = 1, cfg_SnapshotThreshold = 10000, cfg_SnapshotTrailing = 64, cfg_BootstrapPeers = [],
       cfg_OnConfChange = True, cfg_Incarnation = 5\<rparr> (wit_fresh []) = Inr (sv_eng wit_server)"
    unfolding New_def by (subst wit_open) (simp add: Let_def wit_server_def wit_engine0_def script_node_def)
  moreover have "sc_Peers wit_sv_config = wit_flags" by (simp add: wit_sv_config_def)
  ultimately show ?thesis
    by (simp add: sv_New_def sv_defaults_def wit_load Let_def wit_sv_config_def) (simp add: wit_server_def sv_defaults_def wit_sv_config_def)
qed

lemma wit_server_run: "server_run ref_mem script_node wit_msgs wit_server"
  by (rule server_run.start [OF wit_sv_start])

definition wit_write :: http_req where
  "wit_write = \<lparr>hr_Method = ''PUT'', hr_Path = ''/kv/k'', hr_URI = ''/kv/k'', hr_Query = (\<lambda>_. ''''),
     hr_Body = ''{\"value\":\"v\",\"client_id\":\"c\",\"req_id\":1}''\<rparr>"

definition wit_written :: "(mem_view, script, string) Server" where
  "wit_written = (case handleKV ref_mem script_node wit_msgs wit_write wit_server of Some (h, s) \<Rightarrow> s | None \<Rightarrow> wit_server)"

definition wit_isolated :: "(mem_view, script, string) Server" where
  "wit_isolated = wit_server\<lparr>sv_chaos := isolate [2, 3] True True newChaosState\<rparr>"

theorem isolation_blackholes_peer_witness:
  "handleRaft ref_mem script_node wit_msgs (Inr ''31'') wit_isolated =
     Some (\<lparr>hp_Code = 204, hp_Location = '''', hp_Body = ''''\<rparr>, wit_isolated)"
  using isolation_blackholes_peer [of 3 "[2, 3]" wit_isolated newChaosState wit_msgs "''31''" "''31''" ref_mem script_node]
  by (simp add: wit_msgs_def wit_isolated_def)

lemma wit_written_queue: "fmlookup (sv_senders wit_written) 64 = Some [''append'']"
  by code_simp

lemma wit_written_run: "server_run ref_mem script_node wit_msgs wit_written"
proof -
  have "handleKV ref_mem script_node wit_msgs wit_write wit_server \<noteq> None" by code_simp
  then obtain h where "handleKV ref_mem script_node wit_msgs wit_write wit_server = Some (h, wit_written)"
    by (auto simp: wit_written_def)
  then show ?thesis using server_run.steps [OF wit_server_run] server_step.kv_request by blast
qed

theorem sender_queues_bounded_witness: "length [''append''] \<le> 4096"
  by (rule sender_queues_bounded [OF wit_written_run wit_written_queue])

end
