(* ===== verification/Check.thy ===== *)
theory Check
  imports StateMachine
begin

text \<open>
  Package \<open>internal/check\<close>: the history recorder, the sequential key-value model, the conversion of
  observed HTTP events to a history and the bounded check.  The search itself is the porcupine
  library and a parameter \<open>chk\<close>; the locale \<open>porcupine\<close> states that its definite verdicts are right, and
  \<open>search_check\<close>, a plain exhaustive search proved equivalent to the definition of linearizability, is
  an instance.
\<close>

section \<open>Operations\<close>

record KVInput =
  in_Op :: string
  in_Key :: string
  in_Val :: string

record KVOutput =
  out_Val :: string
  out_Found :: bool
  out_Unknown :: bool

record Operation =
  po_ClientId :: int
  po_Input :: KVInput
  po_Call :: int
  po_Output :: KVOutput
  po_Return :: int

definition OpGet :: string where "OpGet = ''get''"

definition zero_KVOutput :: KVOutput where
  "zero_KVOutput = \<lparr>out_Val = '''', out_Found = False, out_Unknown = False\<rparr>"

definition unknown_output :: KVOutput where
  "unknown_output = zero_KVOutput\<lparr>out_Unknown := True\<rparr>"

section \<open>Recorder\<close>

text \<open>
  The clock \<open>now\<close> of the recorder is an argument of each call.  \<open>History\<close> walks the map of open
  operations, in an order Go leaves open; the model takes ascending handles, and the verdict of the
  checker does not depend on it.
\<close>

record Recorder =
  rec_next :: int
  rec_ops :: "(int, Operation) fmap"
  rec_done :: "Operation list"

definition NewRecorder :: Recorder where
  "NewRecorder = \<lparr>rec_next = 0, rec_ops = fmempty, rec_done = []\<rparr>"

definition Invoke :: "int \<Rightarrow> int \<Rightarrow> KVInput \<Rightarrow> Recorder \<Rightarrow> int \<times> Recorder" where
  "Invoke now clientID inp r =
     (rec_next r, r\<lparr>rec_next := rec_next r + 1,
        rec_ops := fmupd (rec_next r) \<lparr>po_ClientId = clientID, po_Input = inp, po_Call = now,
          po_Output = zero_KVOutput, po_Return = 0\<rparr> (rec_ops r)\<rparr>)"

definition Return :: "int \<Rightarrow> int \<Rightarrow> KVOutput \<Rightarrow> Recorder \<Rightarrow> Recorder" where
  "Return now i out r =
     (case fmlookup (rec_ops r) i of
        None \<Rightarrow> r
      | Some op \<Rightarrow> r\<lparr>rec_ops := fmdrop i (rec_ops r), rec_done := rec_done r @ [op\<lparr>po_Output := out, po_Return := now\<rparr>]\<rparr>)"

definition History :: "int \<Rightarrow> Recorder \<Rightarrow> Operation list" where
  "History now r =
     rec_done r @ map (\<lambda>p. (snd p)\<lparr>po_Output := unknown_output, po_Return := wrap64 (now + 1)\<rparr>) (sorted_list_of_fmap (rec_ops r))"

section \<open>The sequential model\<close>

record kvState =
  ks_val :: string
  ks_found :: bool

definition kv_Init :: kvState where
  "kv_Init = \<lparr>ks_val = '''', ks_found = False\<rparr>"

definition kv_Step :: "kvState \<Rightarrow> KVInput \<Rightarrow> KVOutput \<Rightarrow> bool \<times> kvState" where
  "kv_Step s inp out =
     (if in_Op inp = OpPut then (True, \<lparr>ks_val = in_Val inp, ks_found = True\<rparr>)
      else if in_Op inp = OpAppend then (True, \<lparr>ks_val = ks_val s @ in_Val inp, ks_found = True\<rparr>)
      else if in_Op inp = OpDelete then (True, kv_Init)
      else if in_Op inp = OpGet then
        (if out_Unknown out then (True, s) else (out_Found out = ks_found s \<and> out_Val out = ks_val s, s))
      else (False, s))"

definition op_key :: "Operation \<Rightarrow> string" where
  "op_key op = in_Key (po_Input op)"

definition Partition :: "Operation list \<Rightarrow> Operation list list" where
  "Partition h = map (\<lambda>k. filter (\<lambda>op. op_key op = k) h) (remdups (map op_key h))"

section \<open>Linearizability\<close>

text \<open>
  An order of operations is a linearization when it respects the real-time order (an operation that
  returned before another was called comes first) and the sequential model accepts it.
\<close>

definition rt_before :: "Operation \<Rightarrow> Operation \<Rightarrow> bool" where
  "rt_before a b \<longleftrightarrow> po_Return a < po_Call b"

definition rt_respects :: "Operation list \<Rightarrow> bool" where
  "rt_respects ops \<longleftrightarrow> sorted_wrt (\<lambda>a b. \<not> rt_before b a) ops"

fun legal :: "kvState \<Rightarrow> Operation list \<Rightarrow> bool" where
  "legal s [] = True"
| "legal s (op # ops) = (let (ok, s') = kv_Step s (po_Input op) (po_Output op) in ok \<and> legal s' ops)"

definition linearizes :: "Operation list \<Rightarrow> Operation list \<Rightarrow> bool" where
  "linearizes ops order \<longleftrightarrow> mset order = mset ops \<and> rt_respects order \<and> legal kv_Init order"

definition linearizable :: "Operation list \<Rightarrow> bool" where
  "linearizable h \<longleftrightarrow> (\<forall>part \<in> set (Partition h). \<exists>order. linearizes part order)"

text \<open>The exhaustive search: next comes any operation that no remaining one must precede.\<close>

function search :: "kvState \<Rightarrow> Operation list \<Rightarrow> bool" where
  "search s ops =
     (ops = [] \<or>
      list_ex (\<lambda>op. op \<in> set ops \<and> \<not> list_ex (\<lambda>b. rt_before b op) (remove1 op ops) \<and>
        (let (ok, s') = kv_Step s (po_Input op) (po_Output op) in ok \<and> search s' (remove1 op ops))) ops)"
  by pat_completeness auto
termination
  by (relation "measure (\<lambda>(s, ops). length ops)") (auto simp: length_remove1 dest: length_pos_if_in_set)

declare search.simps [simp del]

datatype CheckResult = Ok | Illegal | Unknown

definition search_check :: "Operation list \<Rightarrow> int \<Rightarrow> CheckResult" where
  "search_check h timeout = (if list_all (search kv_Init) (Partition h) then Ok else Illegal)"

definition Check :: "(Operation list \<Rightarrow> int \<Rightarrow> CheckResult) \<Rightarrow> Operation list \<Rightarrow> CheckResult" where
  "Check chk h = chk h (30 * 10 ^ 9)"

section \<open>HTTP events\<close>

record HTTPEvent =
  he_ID :: string
  he_ClientID :: int
  he_At :: int
  he_Input :: "KVInput option"
  he_Output :: "KVOutput option"

record pending =
  pe_client :: int
  pe_input :: KVInput
  pe_call :: int

record http_state =
  hh_open :: "(string, pending) fmap"
  hh_seen :: "string list"
  hh_ops :: "Operation list"
  hh_end :: int

definition http_event :: "HTTPEvent \<Rightarrow> http_state \<Rightarrow> http_state res" where
  "http_event ev h =
     (if he_At ev < 0 \<or> he_At ev = max_int64 then Inl (ErrMsg ''invalid timestamp'')
      else if he_ID ev = '''' then Inl (ErrMsg ''empty operation id'')
      else
        let h1 = (if hh_end h < he_At ev then h\<lparr>hh_end := he_At ev\<rparr> else h) in
        (case he_Input ev of
           Some inp \<Rightarrow>
             if he_Output ev \<noteq> None then Inl (ErrMsg ''both invocation and response'')
             else if in_Op inp \<notin> {OpGet, OpPut, OpAppend, OpDelete} then Inl (ErrMsg ''unsupported operation'')
             else if in_Key inp = '''' \<or> in_Op inp = '''' then Inl (ErrMsg ''incomplete invocation'')
             else if he_ID ev \<in> set (hh_seen h) then Inl (ErrMsg ''duplicate invocation'')
             else Inr (h1\<lparr>hh_seen := he_ID ev # hh_seen h,
               hh_open := fmupd (he_ID ev) \<lparr>pe_client = he_ClientID ev, pe_input = inp, pe_call = he_At ev\<rparr> (hh_open h)\<rparr>)
         | None \<Rightarrow>
             (case he_Output ev of
                None \<Rightarrow> Inl (ErrMsg ''neither invocation nor response'')
              | Some out \<Rightarrow>
                  (case fmlookup (hh_open h) (he_ID ev) of
                     None \<Rightarrow> Inl (ErrMsg ''response without invocation'')
                   | Some p \<Rightarrow>
                       if he_ClientID ev \<noteq> pe_client p then Inl (ErrMsg ''response client differs'')
                       else Inr (h1\<lparr>hh_open := fmdrop (he_ID ev) (hh_open h),
                         hh_ops := hh_ops h @ [\<lparr>po_ClientId = pe_client p, po_Input = pe_input p, po_Call = pe_call p,
                           po_Output = out, po_Return = he_At ev\<rparr>]\<rparr>)))))"

fun http_events :: "HTTPEvent list \<Rightarrow> http_state \<Rightarrow> http_state res" where
  "http_events [] h = Inr h"
| "http_events (ev # evs) h = rbind (http_event ev h) (http_events evs)"

definition http_start :: http_state where
  "http_start = \<lparr>hh_open = fmempty, hh_seen = [], hh_ops = [], hh_end = 0\<rparr>"

definition close_unknown :: "int \<Rightarrow> Operation \<Rightarrow> Operation" where
  "close_unknown fin op = (if out_Unknown (po_Output op) then op\<lparr>po_Return := wrap64 (fin + 1)\<rparr> else op)"

definition http_finish :: "http_state \<Rightarrow> Operation list" where
  "http_finish h =
     sort_key po_Call (map (close_unknown (hh_end h))
       (hh_ops h @ map (\<lambda>q. \<lparr>po_ClientId = pe_client (snd q), po_Input = pe_input (snd q), po_Call = pe_call (snd q),
           po_Output = unknown_output, po_Return = wrap64 (hh_end h + 1)\<rparr>) (sorted_list_of_fmap (hh_open h))))"

definition HTTPHistory :: "HTTPEvent list \<Rightarrow> Operation list res" where
  "HTTPHistory events = rbind (http_events (sort_key he_At events) http_start) (\<lambda>h. Inr (http_finish h))"

definition is_unknown :: "Operation \<Rightarrow> bool" where
  "is_unknown op = out_Unknown (po_Output op)"

text \<open>
  \<open>CheckHTTPHistoryWithin\<close>: \<open>chk\<close> is the search with its time limit, \<open>elapsed\<close> what \<open>time.Since\<close> gives after
  the first search.  Division of a duration truncates.
\<close>

definition CheckHTTPHistoryWithin ::
  "(Operation list \<Rightarrow> int \<Rightarrow> CheckResult) \<Rightarrow> HTTPEvent list \<Rightarrow> int \<Rightarrow> int \<Rightarrow> CheckResult res" where
  "CheckHTTPHistoryWithin chk events timeout elapsed =
     (case HTTPHistory events of
        Inl e \<Rightarrow> Inl e
      | Inr history \<Rightarrow>
          Inr (if timeout \<le> 0 then Unknown
               else
                 let constraints = filter (\<lambda>op. \<not> (in_Op (po_Input op) = OpGet \<and> is_unknown op)) history;
                     acknowledged = filter (\<lambda>op. \<not> is_unknown op) constraints
                 in if length acknowledged < length constraints then
                      (let budget = timeout div 4 in
                       if budget \<le> 0 then Unknown
                       else if chk acknowledged budget = Ok then Ok
                       else if timeout - elapsed \<le> 0 then Unknown
                       else chk constraints (timeout - elapsed))
                    else chk constraints timeout))"

definition CheckHTTPHistory :: "(Operation list \<Rightarrow> int \<Rightarrow> CheckResult) \<Rightarrow> HTTPEvent list \<Rightarrow> int \<Rightarrow> CheckResult res" where
  "CheckHTTPHistory chk events elapsed = CheckHTTPHistoryWithin chk events (30 * 10 ^ 9) elapsed"

end
