(* ===== verification/CheckFacts.thy ===== *)
theory CheckFacts
  imports Check
begin

text \<open>
  Facts about the checker: the exhaustive search decides linearizability, unknown reads and unknown
  writes can be dropped the way \<open>CheckHTTPHistoryWithin\<close> does, the histories built from HTTP events
  are well formed and complete, and the definite verdicts are right for the whole observed history.
\<close>

section \<open>The search decides linearizability\<close>

lemma rt_respects_simps [simp]:
  "rt_respects []"
  "rt_respects (a # xs) \<longleftrightarrow> (\<forall>b \<in> set xs. \<not> rt_before b a) \<and> rt_respects xs"
  by (auto simp: rt_respects_def)

lemma rt_respects_append:
  "rt_respects (xs @ ys) \<longleftrightarrow> rt_respects xs \<and> rt_respects ys \<and> (\<forall>a \<in> set xs. \<forall>b \<in> set ys. \<not> rt_before b a)"
  by (auto simp: rt_respects_def sorted_wrt_append)

lemma search_Cons_intro:
  assumes "op \<in> set ops" "\<forall>b \<in> set (remove1 op ops). \<not> rt_before b op"
    "fst (kv_Step s (po_Input op) (po_Output op))"
    "search (snd (kv_Step s (po_Input op) (po_Output op))) (remove1 op ops)"
  shows "search s ops"
  using assms by (subst search.simps) (auto simp: list_ex_iff split_beta Let_def)

lemma search_cases:
  assumes "search s ops" "ops \<noteq> []"
  obtains op where "op \<in> set ops" "\<forall>b \<in> set (remove1 op ops). \<not> rt_before b op"
    "fst (kv_Step s (po_Input op) (po_Output op))"
    "search (snd (kv_Step s (po_Input op) (po_Output op))) (remove1 op ops)"
  using assms by (subst (asm) search.simps) (auto simp: list_ex_iff split_beta Let_def)

lemma search_complete:
  "mset order = mset ops \<Longrightarrow> rt_respects order \<Longrightarrow> legal s order \<Longrightarrow> search s ops"
proof (induction order arbitrary: s ops)
  case Nil
  then show ?case by (subst search.simps) simp
next
  case (Cons op order)
  have mem: "op \<in> set ops" using Cons.prems(1) by (metis list.set_intros(1) set_mset_mset)
  have rest: "mset order = mset (remove1 op ops)" using Cons.prems(1) by (metis add_mset_remove_trivial mset.simps(2) mset_remove1)
  then have sets: "set order = set (remove1 op ops)" by (metis set_mset_mset)
  show ?case
    by (rule search_Cons_intro [OF mem]) (use Cons.prems Cons.IH [OF rest] sets in \<open>auto simp: split_beta Let_def\<close>)
qed

lemma search_sound:
  "search s ops \<Longrightarrow> \<exists>order. mset order = mset ops \<and> rt_respects order \<and> legal s order"
proof (induction "length ops" arbitrary: s ops rule: less_induct)
  case less
  show ?case
  proof (cases "ops = []")
    case False
    with less.prems obtain op where op: "op \<in> set ops" "\<forall>b \<in> set (remove1 op ops). \<not> rt_before b op"
      "fst (kv_Step s (po_Input op) (po_Output op))"
      "search (snd (kv_Step s (po_Input op) (po_Output op))) (remove1 op ops)"
      by (rule search_cases)
    have "length (remove1 op ops) < length ops" using op(1) False by (simp add: length_remove1)
    from less.hyps [OF this op(4)] obtain order where
      order: "mset order = mset (remove1 op ops)" "rt_respects order"
        "legal (snd (kv_Step s (po_Input op) (po_Output op))) order" by blast
    have "set order = set (remove1 op ops)" using order(1) by (metis set_mset_mset)
    then have "rt_respects (op # order)" "legal s (op # order)"
      using op order by (auto simp: split_beta Let_def)
    moreover have "mset (op # order) = mset ops" using order(1) op(1) by simp
    ultimately show ?thesis by blast
  qed auto
qed

lemma search_iff: "search s ops \<longleftrightarrow> (\<exists>order. mset order = mset ops \<and> rt_respects order \<and> legal s order)"
  using search_complete search_sound by blast

lemma search_linearizes: "search kv_Init ops \<longleftrightarrow> (\<exists>order. linearizes ops order)"
  by (simp add: search_iff linearizes_def)

definition key_part :: "string \<Rightarrow> Operation list \<Rightarrow> Operation list" where
  "key_part k h = filter (\<lambda>op. op_key op = k) h"

lemma key_part_simps [simp]:
  "key_part k [] = []"
  "key_part k (op # h) = (if op_key op = k then op # key_part k h else key_part k h)"
  "key_part k (h @ h') = key_part k h @ key_part k h'"
  "set (key_part k h) = {op \<in> set h. op_key op = k}"
  by (auto simp: key_part_def)

lemma linearizable_keys: "linearizable h \<longleftrightarrow> (\<forall>k. \<exists>order. linearizes (key_part k h) order)"
proof -
  have "\<exists>order. linearizes (key_part k h) order" if "k \<notin> set (map op_key h)" for k
  proof -
    have "key_part k h = []" using that by (auto simp: key_part_def filter_empty_conv)
    then show ?thesis by (auto simp: linearizes_def)
  qed
  moreover have "linearizable h \<longleftrightarrow> (\<forall>k \<in> set (map op_key h). \<exists>order. linearizes (key_part k h) order)"
    by (auto simp: linearizable_def Partition_def key_part_def)
  ultimately show ?thesis by blast
qed

text \<open>The verdict does not depend on the order in which a history lists its operations.\<close>

lemma linearizes_mset: "mset h = mset h' \<Longrightarrow> linearizes h order \<longleftrightarrow> linearizes h' order"
  by (simp add: linearizes_def)

lemma linearizable_mset: "mset h = mset h' \<Longrightarrow> linearizable h \<longleftrightarrow> linearizable h'"
  by (auto simp: linearizable_keys key_part_def linearizes_def)

section \<open>Operations without an observed outcome\<close>

definition unknown_read :: "Operation \<Rightarrow> bool" where
  "unknown_read op \<longleftrightarrow> in_Op (po_Input op) = OpGet \<and> is_unknown op"

lemma op_names_distinct [simp]:
  "OpGet \<noteq> OpPut" "OpGet \<noteq> OpAppend" "OpGet \<noteq> OpDelete"
  "OpPut \<noteq> OpAppend" "OpPut \<noteq> OpDelete" "OpAppend \<noteq> OpDelete"
  by (simp_all add: OpGet_def OpPut_def OpAppend_def OpDelete_def)

lemma kv_Step_unknown_read [simp]:
  "unknown_read op \<Longrightarrow> kv_Step s (po_Input op) (po_Output op) = (True, s)"
  by (simp add: kv_Step_def unknown_read_def is_unknown_def)

lemma legal_append: "legal s (xs @ ys) \<Longrightarrow> \<exists>s'. legal s xs \<and> legal s' ys"
  by (induction xs arbitrary: s) (auto simp: split_beta Let_def)

lemma legal_insert_unknown_read: "unknown_read g \<Longrightarrow> legal s (xs @ g # ys) \<longleftrightarrow> legal s (xs @ ys)"
  by (induction xs arbitrary: s) (auto simp: split_beta Let_def)

lemma legal_drop_unknown_reads: "legal s (filter (\<lambda>op. \<not> unknown_read op) xs) \<longleftrightarrow> legal s xs"
  by (induction xs arbitrary: s) (auto simp: split_beta Let_def)

lemma rt_respects_filter: "rt_respects xs \<Longrightarrow> rt_respects (filter P xs)"
  by (induction xs) auto

definition timed :: "Operation \<Rightarrow> bool" where
  "timed op \<longleftrightarrow> po_Call op \<le> po_Return op"

lemma rt_insert:
  assumes "rt_respects xs" "\<forall>op \<in> set xs. timed op" "timed g"
  shows "\<exists>pre post. xs = pre @ post \<and> rt_respects (pre @ g # post)"
proof (cases "\<exists>x \<in> set xs. rt_before x g")
  case False
  then have "rt_respects (xs @ [g]) \<or> rt_respects (g # xs)" using assms by (auto simp: rt_respects_append)
  then show ?thesis using False assms(1) by (metis append_Nil rt_respects_simps(2))
next
  case True
  then obtain pre x post where split: "xs = pre @ x # post" "rt_before x g" "\<forall>y \<in> set post. \<not> rt_before y g"
    using split_list_last_prop_iff [of xs "\<lambda>x. rt_before x g"] by blast
  have "\<not> rt_before g y" if "y \<in> set (pre @ [x])" for y
  proof -
    have "\<not> rt_before x y" using that split assms(1,2) by (auto simp: rt_respects_append rt_before_def timed_def)
    then show ?thesis using split(2) assms(3) by (auto simp: rt_before_def timed_def)
  qed
  then have "rt_respects ((pre @ [x]) @ g # post)" using split assms(1) by (auto simp: rt_respects_append)
  moreover have "xs = (pre @ [x]) @ post" using split by simp
  ultimately show ?thesis by blast
qed

lemma linearizes_add_unknown_read:
  assumes "linearizes xs order" "\<forall>op \<in> set xs. timed op" "timed g" "unknown_read g"
  shows "\<exists>order'. linearizes (g # xs) order'"
proof -
  have "set order = set xs" using assms(1) by (metis linearizes_def set_mset_mset)
  with assms obtain pre post where "order = pre @ post" "rt_respects (pre @ g # post)"
    using rt_insert [of order g] by (auto simp: linearizes_def)
  with assms have "linearizes (g # xs) (pre @ g # post)"
    by (simp add: linearizes_def legal_insert_unknown_read)
  then show ?thesis by blast
qed

lemma linearizes_add_unknown_reads:
  assumes "linearizes xs order" "\<forall>op \<in> set xs. timed op" "\<forall>g \<in> set gs. timed g \<and> unknown_read g"
  shows "\<exists>order'. linearizes (gs @ xs) order'"
  using assms(3)
proof (induction gs)
  case Nil
  with assms(1) show ?case by auto
next
  case (Cons g gs)
  then obtain order' where "linearizes (gs @ xs) order'" by auto
  with Cons.prems assms(2) show ?case
    using linearizes_add_unknown_read [of "gs @ xs" order' g] by auto
qed

lemma mset_filter_split: "mset (filter P xs @ filter (\<lambda>x. \<not> P x) xs) = mset xs"
  by simp

lemma linearizes_unknown_reads:
  assumes "\<forall>op \<in> set xs. timed op"
  shows "(\<exists>order. linearizes (filter (\<lambda>op. \<not> unknown_read op) xs) order) \<longleftrightarrow> (\<exists>order. linearizes xs order)"
proof
  assume "\<exists>order. linearizes xs order"
  then obtain order where "linearizes xs order" by blast
  then have "linearizes (filter (\<lambda>op. \<not> unknown_read op) xs) (filter (\<lambda>op. \<not> unknown_read op) order)"
    by (simp add: linearizes_def rt_respects_filter legal_drop_unknown_reads)
  then show "\<exists>order. linearizes (filter (\<lambda>op. \<not> unknown_read op) xs) order" by blast
next
  assume "\<exists>order. linearizes (filter (\<lambda>op. \<not> unknown_read op) xs) order"
  then obtain order where "linearizes (filter (\<lambda>op. \<not> unknown_read op) xs) order" by blast
  then have "\<exists>order'. linearizes (filter unknown_read xs @ filter (\<lambda>op. \<not> unknown_read op) xs) order'"
    using assms by (intro linearizes_add_unknown_reads) auto
  then show "\<exists>order. linearizes xs order"
    using linearizes_mset [OF mset_filter_split] by blast
qed

lemma key_part_filter: "key_part k (filter P h) = filter P (key_part k h)"
  by (simp add: key_part_def conj_commute)

lemma linearizable_unknown_reads:
  assumes "\<forall>op \<in> set h. timed op"
  shows "linearizable (filter (\<lambda>op. \<not> unknown_read op) h) \<longleftrightarrow> linearizable h"
proof -
  have "(\<exists>order. linearizes (filter (\<lambda>op. \<not> unknown_read op) (key_part k h)) order)
      \<longleftrightarrow> (\<exists>order. linearizes (key_part k h) order)" for k
    using assms by (intro linearizes_unknown_reads) simp
  then show ?thesis by (simp add: linearizable_keys key_part_filter)
qed

text \<open>
  An operation is \<open>unbounded\<close> in a history when the model accepts it in every state and it returns
  after every call: it can come last.
\<close>

definition unbounded_in :: "Operation list \<Rightarrow> Operation \<Rightarrow> bool" where
  "unbounded_in h op \<longleftrightarrow> (\<forall>s. fst (kv_Step s (po_Input op) (po_Output op))) \<and> (\<forall>b \<in> set h. po_Call b \<le> po_Return op)"

lemma legal_append_unbounded:
  "legal s xs \<Longrightarrow> \<forall>op \<in> set us. \<forall>s. fst (kv_Step s (po_Input op) (po_Output op)) \<Longrightarrow> legal s (xs @ us)"
proof (induction xs arbitrary: s)
  case Nil
  then show ?case by (induction us arbitrary: s) (auto simp: split_beta Let_def)
qed (auto simp: split_beta Let_def)

lemma rt_respects_unbounded:
  "\<forall>u \<in> set us. \<forall>b \<in> set us. po_Call b \<le> po_Return u \<Longrightarrow> rt_respects us"
  by (induction us) (auto simp: rt_before_def not_less)

lemma linearizes_add_unbounded:
  assumes "linearizes xs order" "\<forall>u \<in> set us. unbounded_in (xs @ us) u"
  shows "linearizes (us @ xs) (order @ us)"
proof -
  have "set order = set xs" using assms(1) by (metis linearizes_def set_mset_mset)
  then have "rt_respects (order @ us)"
    using assms by (auto simp: linearizes_def rt_respects_append unbounded_in_def rt_before_def not_less intro: rt_respects_unbounded)
  moreover have "legal kv_Init (order @ us)"
    using assms by (intro legal_append_unbounded) (auto simp: linearizes_def unbounded_in_def)
  ultimately show ?thesis using assms(1) by (simp add: linearizes_def)
qed

lemma linearizable_acknowledged:
  assumes "linearizable (filter (\<lambda>op. \<not> P op) h)" "\<forall>u \<in> set h. P u \<longrightarrow> unbounded_in h u"
  shows "linearizable h"
  unfolding linearizable_keys
proof
  fix k
  let ?xs = "key_part k h"
  from assms(1) obtain order where "linearizes (filter (\<lambda>op. \<not> P op) ?xs) order"
    by (auto simp: linearizable_keys key_part_filter)
  then have "linearizes (filter P ?xs @ filter (\<lambda>op. \<not> P op) ?xs) (order @ filter P ?xs)"
    using assms(2) by (intro linearizes_add_unbounded) (auto simp: unbounded_in_def)
  then show "\<exists>order. linearizes ?xs order" using linearizes_mset [OF mset_filter_split] by blast
qed

section \<open>Histories of HTTP events\<close>

lemma mset_items: "mset (sorted_list_of_fmap m) = mset_set {(k, v). fmlookup m k = Some v}"
  by (metis distinct_map distinct_sorted_list_of_fmap mset_set_set set_sorted_list_of_fmap)

lemma finite_items [simp]: "finite {(k :: 'a :: linorder, v). fmlookup m k = Some v}"
  using List.finite_set [of "sorted_list_of_fmap m"] by (simp add: set_sorted_list_of_fmap)

lemma mset_items_upd:
  assumes "fmlookup m k = None"
  shows "mset (sorted_list_of_fmap (fmupd k v m)) = add_mset (k, v) (mset (sorted_list_of_fmap m))"
proof -
  have "{(k', v'). fmlookup (fmupd k v m) k' = Some v'} = insert (k, v) {(k, v). fmlookup m k = Some v}"
    using assms by (auto split: if_splits)
  then show ?thesis using assms by (simp only: mset_items) (simp add: mset_set.insert)
qed

lemma mset_items_drop:
  assumes "fmlookup m k = Some v"
  shows "mset (sorted_list_of_fmap m) = add_mset (k, v) (mset (sorted_list_of_fmap (fmdrop k m)))"
proof -
  have "fmupd k v (fmdrop k m) = m" using assms by (intro fmap_ext) auto
  then show ?thesis using mset_items_upd [of "fmdrop k m" k v] by simp
qed

definition kv_names :: "string set" where
  "kv_names = {OpGet, OpPut, OpAppend, OpDelete}"

definition http_inv :: "http_state \<Rightarrow> bool" where
  "http_inv h \<longleftrightarrow> 0 \<le> hh_end h \<and> hh_end h < max_int64 \<and> fset (fmdom (hh_open h)) \<subseteq> set (hh_seen h) \<and>
     (\<forall>i p. fmlookup (hh_open h) i = Some p \<longrightarrow> 0 \<le> pe_call p \<and> pe_call p \<le> hh_end h \<and> in_Op (pe_input p) \<in> kv_names) \<and>
     (\<forall>op \<in> set (hh_ops h). 0 \<le> po_Call op \<and> po_Call op \<le> po_Return op \<and> po_Return op \<le> hh_end h \<and> in_Op (po_Input op) \<in> kv_names)"

lemma http_inv_start [simp]: "http_inv http_start"
  by (simp add: http_inv_def http_start_def max_int64_def)

text \<open>The two outcomes of an event that is accepted.\<close>

lemma http_event_cases:
  assumes "http_event ev h = Inr h'" "hh_end h \<le> he_At ev"
  obtains (invoke) inp where "0 \<le> he_At ev" "he_At ev \<noteq> max_int64" "he_Input ev = Some inp" "he_Output ev = None"
      "in_Op inp \<in> kv_names" "he_ID ev \<notin> set (hh_seen h)"
      "h' = h\<lparr>hh_end := he_At ev, hh_seen := he_ID ev # hh_seen h,
         hh_open := fmupd (he_ID ev) \<lparr>pe_client = he_ClientID ev, pe_input = inp, pe_call = he_At ev\<rparr> (hh_open h)\<rparr>"
    | (respond) out p where "0 \<le> he_At ev" "he_At ev \<noteq> max_int64" "he_Input ev = None" "he_Output ev = Some out"
      "fmlookup (hh_open h) (he_ID ev) = Some p" "pe_client p = he_ClientID ev"
      "h' = h\<lparr>hh_end := he_At ev, hh_open := fmdrop (he_ID ev) (hh_open h),
         hh_ops := hh_ops h @ [\<lparr>po_ClientId = pe_client p, po_Input = pe_input p, po_Call = pe_call p,
           po_Output = out, po_Return = he_At ev\<rparr>]\<rparr>"
proof -
  have e: "(if hh_end h < he_At ev then h\<lparr>hh_end := he_At ev\<rparr> else h) = h\<lparr>hh_end := he_At ev\<rparr>"
    using assms(2) by auto
  show thesis
    using assms(1) invoke respond unfolding http_event_def e
    by (auto simp: Let_def kv_names_def split: if_splits option.splits)
qed

lemma http_event_inv:
  assumes "http_event ev h = Inr h'" "hh_end h \<le> he_At ev" "http_inv h" "he_At ev \<le> max_int64"
  shows "http_inv h' \<and> hh_end h' = he_At ev"
  using assms(1,2)
proof (cases rule: http_event_cases)
  case (invoke inp)
  then show ?thesis using assms(2-4) unfolding http_inv_def by (auto split: if_splits intro: order_trans)
next
  case (respond out p)
  have p: "0 \<le> pe_call p" "pe_call p \<le> hh_end h" "in_Op (pe_input p) \<in> kv_names"
    using respond(5) assms(3) by (auto simp: http_inv_def)
  have old: "po_Return op \<le> he_At ev" if "op \<in> set (hh_ops h)" for op
    using that assms(2,3) by (force simp: http_inv_def)
  have opens: "pe_call q \<le> he_At ev" if "fmlookup (hh_open h) i = Some q" for i q
    using that assms(2,3) by (force simp: http_inv_def)
  show ?thesis using assms(2-4) p old opens respond(1,2,7) unfolding http_inv_def by auto
qed

definition event_times :: "HTTPEvent list \<Rightarrow> bool" where
  "event_times evs \<longleftrightarrow> (\<forall>ev \<in> set evs. he_At ev \<le> max_int64)"

text \<open>
  What the events and the state say about invocations and about definite responses: the conversion
  keeps both.
\<close>

definition event_calls :: "HTTPEvent list \<Rightarrow> (int \<times> KVInput \<times> int) multiset" where
  "event_calls evs = mset (map (\<lambda>ev. (he_ClientID ev, the (he_Input ev), he_At ev)) (filter (\<lambda>ev. he_Input ev \<noteq> None) evs))"

definition event_returns :: "HTTPEvent list \<Rightarrow> (int \<times> KVOutput \<times> int) multiset" where
  "event_returns evs = mset (map (\<lambda>ev. (he_ClientID ev, the (he_Output ev), he_At ev))
     (filter (\<lambda>ev. he_Output ev \<noteq> None \<and> \<not> out_Unknown (the (he_Output ev))) evs))"

definition op_calls :: "Operation list \<Rightarrow> (int \<times> KVInput \<times> int) multiset" where
  "op_calls ops = mset (map (\<lambda>op. (po_ClientId op, po_Input op, po_Call op)) ops)"

definition op_returns :: "Operation list \<Rightarrow> (int \<times> KVOutput \<times> int) multiset" where
  "op_returns ops = mset (map (\<lambda>op. (po_ClientId op, po_Output op, po_Return op)) (filter (\<lambda>op. \<not> is_unknown op) ops))"

definition open_calls :: "http_state \<Rightarrow> (int \<times> KVInput \<times> int) multiset" where
  "open_calls h = mset (map (\<lambda>q. (pe_client (snd q), pe_input (snd q), pe_call (snd q))) (sorted_list_of_fmap (hh_open h)))"

lemma calls_simps [simp]:
  "event_calls [] = {#}" "event_returns [] = {#}" "op_calls [] = {#}" "op_returns [] = {#}"
  "event_calls (ev # evs) = (case he_Input ev of None \<Rightarrow> {#} | Some inp \<Rightarrow> {#(he_ClientID ev, inp, he_At ev)#}) + event_calls evs"
  "event_returns (ev # evs) = (case he_Output ev of None \<Rightarrow> {#} | Some out \<Rightarrow>
      if out_Unknown out then {#} else {#(he_ClientID ev, out, he_At ev)#}) + event_returns evs"
  "op_calls (op # ops) = add_mset (po_ClientId op, po_Input op, po_Call op) (op_calls ops)"
  "op_returns (op # ops) = (if is_unknown op then {#} else {#(po_ClientId op, po_Output op, po_Return op)#}) + op_returns ops"
  "op_calls (xs @ ys) = op_calls xs + op_calls ys"
  "op_returns (xs @ ys) = op_returns xs + op_returns ys"
  by (simp_all add: event_calls_def event_returns_def op_calls_def op_returns_def split: option.split)

lemma http_event_counts:
  assumes "http_event ev h = Inr h'" "hh_end h \<le> he_At ev" "http_inv h"
  shows "op_calls (hh_ops h') + open_calls h' = op_calls (hh_ops h) + open_calls h + event_calls [ev]"
    "op_returns (hh_ops h') = op_returns (hh_ops h) + event_returns [ev]"
proof -
  have "op_calls (hh_ops h') + open_calls h' = op_calls (hh_ops h) + open_calls h + event_calls [ev] \<and>
    op_returns (hh_ops h') = op_returns (hh_ops h) + event_returns [ev]"
    using assms(1,2)
  proof (cases rule: http_event_cases)
    case (invoke inp)
    then have "fmlookup (hh_open h) (he_ID ev) = None" using assms(3) unfolding http_inv_def
      by (meson fmdom_notI fmlookup_dom_iff in_mono option.exhaust)
    with invoke show ?thesis by (simp add: open_calls_def mset_items_upd)
  next
    case (respond out p)
    then show ?thesis using mset_items_drop [OF respond(5)] by (simp add: open_calls_def is_unknown_def)
  qed
  then show "op_calls (hh_ops h') + open_calls h' = op_calls (hh_ops h) + open_calls h + event_calls [ev]"
    "op_returns (hh_ops h') = op_returns (hh_ops h) + event_returns [ev]" by auto
qed

lemma http_events_facts:
  assumes "http_events evs h = Inr h'" "sorted (map he_At evs)" "\<forall>ev \<in> set evs. hh_end h \<le> he_At ev \<or> he_At ev < 0"
    "event_times evs" "http_inv h"
  shows "http_inv h' \<and> op_calls (hh_ops h') + open_calls h' = op_calls (hh_ops h) + open_calls h + event_calls evs \<and>
    op_returns (hh_ops h') = op_returns (hh_ops h) + event_returns evs"
  using assms
proof (induction evs arbitrary: h)
  case (Cons ev evs)
  then obtain h1 where h1: "http_event ev h = Inr h1" "http_events evs h1 = Inr h'" by (auto simp: rbind_Inr_iff)
  then have "\<not> he_At ev < 0" by (auto simp: http_event_def split: if_splits)
  then have le: "hh_end h \<le> he_At ev" using Cons.prems(3) by auto
  have inv: "http_inv h1 \<and> hh_end h1 = he_At ev"
    using http_event_inv [OF h1(1) le Cons.prems(5)] Cons.prems(4) by (simp add: event_times_def)
  have "http_inv h' \<and> op_calls (hh_ops h') + open_calls h' = op_calls (hh_ops h1) + open_calls h1 + event_calls evs \<and>
    op_returns (hh_ops h') = op_returns (hh_ops h1) + event_returns evs"
    using Cons.prems inv by (intro Cons.IH [OF h1(2)]) (auto simp: event_times_def)
  then show ?case using http_event_counts [OF h1(1) le Cons.prems(5)] by simp
qed simp

definition wf_history :: "Operation list \<Rightarrow> bool" where
  "wf_history h \<longleftrightarrow>
     (\<forall>op \<in> set h. 0 \<le> po_Call op \<and> po_Call op \<le> po_Return op \<and> po_Return op \<le> max_int64 \<and> in_Op (po_Input op) \<in> kv_names \<and>
       (is_unknown op \<longrightarrow> (\<forall>b \<in> set h. po_Call b < po_Return op \<and> po_Return b \<le> po_Return op)))"

lemma op_calls_close [simp]: "op_calls (map (close_unknown e) ops) = op_calls ops"
  by (induction ops) (simp_all add: close_unknown_def)

lemma op_returns_close [simp]: "op_returns (map (close_unknown e) ops) = op_returns ops"
  by (induction ops) (simp_all add: close_unknown_def is_unknown_def)

lemma op_calls_mset: "mset xs = mset ys \<Longrightarrow> op_calls xs = op_calls ys"
  by (simp add: op_calls_def)

lemma op_returns_mset: "mset xs = mset ys \<Longrightarrow> op_returns xs = op_returns ys"
  by (simp add: op_returns_def)

definition open_ops :: "http_state \<Rightarrow> Operation list" where
  "open_ops h = map (\<lambda>q. \<lparr>po_ClientId = pe_client (snd q), po_Input = pe_input (snd q), po_Call = pe_call (snd q),
     po_Output = unknown_output, po_Return = wrap64 (hh_end h + 1)\<rparr>) (sorted_list_of_fmap (hh_open h))"

lemma http_finish_open: "http_finish h = sort_key po_Call (map (close_unknown (hh_end h)) (hh_ops h @ open_ops h))"
  by (simp add: http_finish_def open_ops_def)

lemma open_ops_calls: "op_calls (open_ops h) = open_calls h"
  by (simp add: op_calls_def open_ops_def open_calls_def multiset.map_comp comp_def)

lemma open_ops_unknown: "op \<in> set (open_ops h) \<Longrightarrow> is_unknown op"
  by (auto simp: open_ops_def is_unknown_def unknown_output_def)

lemma open_ops_returns: "op_returns (open_ops h) = {#}"
proof -
  have "filter (\<lambda>op. \<not> is_unknown op) (open_ops h) = []" by (auto simp: filter_empty_conv dest: open_ops_unknown)
  then show ?thesis by (simp add: op_returns_def)
qed

lemma http_finish_counts:
  "op_calls (http_finish h) = op_calls (hh_ops h) + open_calls h" "op_returns (http_finish h) = op_returns (hh_ops h)"
proof -
  have m: "mset (http_finish h) = mset (map (close_unknown (hh_end h)) (hh_ops h @ open_ops h))"
    by (simp only: http_finish_open mset_sort)
  show "op_calls (http_finish h) = op_calls (hh_ops h) + open_calls h"
    by (simp only: op_calls_mset [OF m] op_calls_close calls_simps open_ops_calls)
  show "op_returns (http_finish h) = op_returns (hh_ops h)"
    by (simp only: op_returns_mset [OF m] op_returns_close calls_simps open_ops_returns add_0_right)
qed

lemma http_finish_wf:
  assumes "http_inv h"
  shows "wf_history (http_finish h)"
proof -
  have w: "wrap64 (hh_end h + 1) = hh_end h + 1"
    using assms by (intro wrap64_id) (auto simp: http_inv_def max_int64_def)
  have bounds: "0 \<le> po_Call op \<and> po_Call op \<le> hh_end h \<and> in_Op (po_Input op) \<in> kv_names \<and>
      po_Return (close_unknown (hh_end h) op) = (if is_unknown op then hh_end h + 1 else po_Return op) \<and>
      (\<not> is_unknown op \<longrightarrow> po_Call op \<le> po_Return op \<and> po_Return op \<le> hh_end h)"
    if "op \<in> set (hh_ops h @ open_ops h)" for op
  proof (cases "op \<in> set (hh_ops h)")
    case True
    with assms have "0 \<le> po_Call op" "po_Call op \<le> po_Return op" "po_Return op \<le> hh_end h" "in_Op (po_Input op) \<in> kv_names"
      by (auto simp: http_inv_def)
    then show ?thesis by (simp add: close_unknown_def is_unknown_def w)
  next
    case False
    with that obtain i p where "fmlookup (hh_open h) i = Some p" "po_Call op = pe_call p" "po_Input op = pe_input p" "is_unknown op"
      by (force simp: open_ops_def set_sorted_list_of_fmap is_unknown_def unknown_output_def)
    with assms show ?thesis by (simp add: http_inv_def close_unknown_def is_unknown_def w)
  qed
  have same: "po_Call (close_unknown e op) = po_Call op" "po_Input (close_unknown e op) = po_Input op"
    "is_unknown (close_unknown e op) = is_unknown op" for e op
    by (simp_all add: close_unknown_def is_unknown_def)
  have all: "0 \<le> po_Call op" "po_Call op \<le> hh_end h" "in_Op (po_Input op) \<in> kv_names"
    "is_unknown op \<longrightarrow> po_Return op = hh_end h + 1" "\<not> is_unknown op \<longrightarrow> po_Call op \<le> po_Return op \<and> po_Return op \<le> hh_end h"
    if "op \<in> set (http_finish h)" for op
  proof -
    from that obtain o1 where "op = close_unknown (hh_end h) o1" "o1 \<in> set (hh_ops h @ open_ops h)"
      by (auto simp: http_finish_open)
    then show "0 \<le> po_Call op" "po_Call op \<le> hh_end h" "in_Op (po_Input op) \<in> kv_names"
      "is_unknown op \<longrightarrow> po_Return op = hh_end h + 1" "\<not> is_unknown op \<longrightarrow> po_Call op \<le> po_Return op \<and> po_Return op \<le> hh_end h"
      using bounds [of o1] by (simp_all add: same)
  qed
  have "hh_end h + 1 \<le> max_int64" using assms by (simp add: http_inv_def)
  then show ?thesis unfolding wf_history_def by (smt (verit) all)
qed

lemma hh_end_start: "hh_end http_start = 0"
  by (simp add: http_start_def)

lemma HTTPHistory_facts:
  assumes "HTTPHistory events = Inr h" "event_times events"
  shows "wf_history h \<and> sorted (map po_Call h) \<and> op_calls h = event_calls events \<and> op_returns h = event_returns events"
proof -
  let ?evs = "sort_key he_At events"
  obtain s where s: "http_events ?evs http_start = Inr s" "h = http_finish s"
    using assms(1) by (auto simp: HTTPHistory_def rbind_Inr_iff)
  have "http_inv s \<and> op_calls (hh_ops s) + open_calls s = op_calls (hh_ops http_start) + open_calls http_start + event_calls ?evs \<and>
    op_returns (hh_ops s) = op_returns (hh_ops http_start) + event_returns ?evs"
    using assms(2) by (intro http_events_facts [OF s(1)]) (auto simp: event_times_def hh_end_start)
  moreover have "event_calls ?evs = event_calls events" "event_returns ?evs = event_returns events"
    by (simp_all add: event_calls_def event_returns_def)
  moreover have "op_calls (hh_ops http_start) = {#}" "open_calls http_start = {#}" "op_returns (hh_ops http_start) = {#}"
    by (simp_all add: http_start_def open_calls_def sorted_list_of_fmap_def sorted_list_of_fset.rep_eq)
  moreover have "sorted (map po_Call h)" by (simp add: s(2) http_finish_def)
  ultimately show ?thesis using http_finish_wf http_finish_counts s(2) by simp
qed

section \<open>Verdicts\<close>

text \<open>
  The contract of the porcupine search (its documentation: \<open>Ok\<close> when the history is linearizable,
  \<open>Illegal\<close> when it is not, \<open>Unknown\<close> when the time ran out), for histories whose operations do not
  return before they are called.
\<close>

locale porcupine =
  fixes chk :: "Operation list \<Rightarrow> int \<Rightarrow> CheckResult"
  assumes ok_sound: "\<forall>op \<in> set h. timed op \<Longrightarrow> chk h t = Ok \<Longrightarrow> linearizable h"
    and illegal_sound: "\<forall>op \<in> set h. timed op \<Longrightarrow> chk h t = Illegal \<Longrightarrow> \<not> linearizable h"
begin

lemma Check_verdict:
  assumes "\<forall>op \<in> set h. timed op"
  shows "Check chk h = Ok \<Longrightarrow> linearizable h" "Check chk h = Illegal \<Longrightarrow> \<not> linearizable h"
  using assms ok_sound illegal_sound by (auto simp: Check_def)

lemma wf_unknown_unbounded:
  assumes "wf_history h" "u \<in> set h" "is_unknown u"
  shows "unbounded_in h u"
proof -
  have "fst (kv_Step s (po_Input u) (po_Output u))" for s
    using assms by (auto simp: wf_history_def kv_names_def kv_Step_def is_unknown_def)
  then show ?thesis using assms unfolding unbounded_in_def wf_history_def by fastforce
qed

lemma wf_timed: "wf_history h \<Longrightarrow> \<forall>op \<in> set (filter P h). timed op"
  by (auto simp: wf_history_def timed_def)

lemma Within_verdict:
  assumes "CheckHTTPHistoryWithin chk events timeout elapsed = Inr v" "HTTPHistory events = Inr h" "wf_history h"
  shows "(v = Ok \<longrightarrow> linearizable h) \<and> (v = Illegal \<longrightarrow> \<not> linearizable h)"
proof -
  define cs where "cs = filter (\<lambda>op. \<not> unknown_read op) h"
  define as where "as = filter (\<lambda>op. \<not> is_unknown op) cs"
  have timed: "\<forall>op \<in> set h. timed op" "\<forall>op \<in> set cs. timed op" "\<forall>op \<in> set as. timed op"
    using wf_timed [OF assms(3), of "\<lambda>_. True"] by (simp_all add: cs_def as_def)
  have as: "as = filter (\<lambda>op. \<not> is_unknown op) h"
    by (auto simp: as_def cs_def unknown_read_def intro: filter_cong)
  have full: "linearizable cs \<longleftrightarrow> linearizable h"
    unfolding cs_def by (rule linearizable_unknown_reads) (use timed in simp)
  have fast: "linearizable as \<Longrightarrow> linearizable h"
    unfolding as by (rule linearizable_acknowledged) (use assms(3) wf_unknown_unbounded in auto)
  have "v = Unknown \<or> (v = Ok \<and> (\<exists>t. chk as t = Ok)) \<or> (\<exists>t. v = chk cs t)"
    using assms(1,2) unfolding CheckHTTPHistoryWithin_def as_def cs_def unknown_read_def
    by (auto simp: Let_def split: if_splits)
  then show ?thesis
    using full fast ok_sound [OF timed(2)] ok_sound [OF timed(3)] illegal_sound [OF timed(2)] by auto
qed

end

lemma search_check_iff: "search_check h t = Ok \<longleftrightarrow> linearizable h" "search_check h t = Illegal \<longleftrightarrow> \<not> linearizable h"
  by (auto simp: search_check_def linearizable_def search_linearizes list_all_iff)

interpretation exhaustive: porcupine search_check
  by unfold_locales (auto simp: search_check_iff)

section \<open>The sequential model and the state machine\<close>

definition key_state :: "store \<Rightarrow> string \<Rightarrow> kvState" where
  "key_state m k = (case fmlookup m k of None \<Rightarrow> kv_Init | Some v \<Rightarrow> \<lparr>ks_val = v, ks_found = True\<rparr>)"

definition input_op :: "KVInput \<Rightarrow> Op" where
  "input_op inp = zero_Op\<lparr>op_Type := in_Op inp, op_Key := in_Key inp, op_Val := in_Val inp\<rparr>"

text \<open>
  Operations served one after the other by the store of the state machine: writes by \<open>exec_op\<close>, reads
  by \<open>Get\<close>; a read without an answer asks nothing of the store.
\<close>

fun served :: "store \<Rightarrow> Operation list \<Rightarrow> bool" where
  "served m [] = True"
| "served m (op # ops) =
     (if in_Op (po_Input op) = OpGet
      then (is_unknown op \<or> (out_Val (po_Output op), out_Found (po_Output op)) = Get (sm_New\<lparr>kv := m\<rparr>) (op_key op)) \<and> served m ops
      else in_Op (po_Input op) \<in> kv_names \<and> served (fst (exec_op m (input_op (po_Input op)))) ops)"

lemma key_state_exec:
  assumes "in_Op inp \<in> kv_names" "in_Op inp \<noteq> OpGet"
  shows "key_state (fst (exec_op m (input_op inp))) k =
    (if in_Key inp = k then snd (kv_Step (key_state m k) inp out) else key_state m k)"
    "fst (kv_Step s inp out)"
  using assms unfolding kv_names_def
  by (auto simp: key_state_def exec_op_def input_op_def kv_Step_def kv_Init_def Let_def split: option.split)

lemma kv_Step_get:
  assumes "in_Op (po_Input op) = OpGet"
  shows "snd (kv_Step s (po_Input op) (po_Output op)) = s"
    "fst (kv_Step (key_state m (op_key op)) (po_Input op) (po_Output op)) \<longleftrightarrow>
       is_unknown op \<or> (out_Val (po_Output op), out_Found (po_Output op)) = Get (sm_New\<lparr>kv := m\<rparr>) (op_key op)"
  using assms by (auto simp: kv_Step_def is_unknown_def key_state_def Get_def sm_New_def kv_Init_def split: option.split)

lemma served_legal: "served m ops \<Longrightarrow> legal (key_state m k) (key_part k ops)"
proof (induction ops arbitrary: m)
  case (Cons op ops)
  show ?case
  proof (cases "in_Op (po_Input op) = OpGet")
    case True
    with Cons have "legal (key_state m k) (key_part k ops)" by simp
    then show ?thesis using Cons.prems True kv_Step_get [OF True] by (auto simp: split_beta Let_def simp del: kv_Step_unknown_read)
  next
    case False
    with Cons have "legal (key_state (fst (exec_op m (input_op (po_Input op)))) k) (key_part k ops)" by simp
    then show ?thesis
      using Cons.prems False key_state_exec(1) [of "po_Input op" m k "po_Output op"] key_state_exec(2) [of "po_Input op"]
      by (auto simp: split_beta Let_def op_key_def split: if_splits)
  qed
qed simp

lemma rt_respects_points:
  assumes "sorted (map fst pts)" "\<forall>(p, op) \<in> set pts. po_Call op \<le> p \<and> p \<le> po_Return op"
  shows "rt_respects (map snd pts)"
  using assms
proof (induction pts)
  case (Cons q pts)
  then have "\<not> rt_before (snd r) (snd q)" if "r \<in> set pts" for r
    using that by (cases q; cases r) (force simp: rt_before_def)
  with Cons show ?case by auto
qed simp

lemma linearizes_points:
  assumes "mset (map snd pts) = mset h" "sorted (map fst pts)"
    "\<forall>(p, op) \<in> set pts. po_Call op \<le> p \<and> p \<le> po_Return op" "served fmempty (map snd pts)"
  shows "linearizes (key_part k h) (key_part k (map snd pts))"
proof -
  have "mset (key_part k (map snd pts)) = mset (key_part k h)" using assms(1) unfolding key_part_def by (metis mset_filter)
  moreover have "rt_respects (key_part k (map snd pts))"
    unfolding key_part_def by (intro rt_respects_filter rt_respects_points assms)
  moreover have "legal kv_Init (key_part k (map snd pts))"
    using served_legal [OF assms(4)] by (simp add: key_state_def)
  ultimately show ?thesis by (simp add: linearizes_def)
qed

section \<open>Recorder runs\<close>

datatype recorder_call = RInvoke int int KVInput | RReturn int int KVOutput

fun recorder_step :: "recorder_call \<Rightarrow> Recorder \<Rightarrow> Recorder" where
  "recorder_step (RInvoke now c inp) r = snd (Invoke now c inp r)"
| "recorder_step (RReturn now i out) r = Return now i out r"

fun invocations :: "recorder_call list \<Rightarrow> (int \<times> KVInput \<times> int) multiset" where
  "invocations [] = {#}"
| "invocations (RInvoke now c inp # cs) = add_mset (c, inp, now) (invocations cs)"
| "invocations (RReturn now i out # cs) = invocations cs"

definition recorder_inv :: "Recorder \<Rightarrow> bool" where
  "recorder_inv r \<longleftrightarrow> (\<forall>i \<in> fset (fmdom (rec_ops r)). i < rec_next r)"

definition recorder_calls :: "Recorder \<Rightarrow> (int \<times> KVInput \<times> int) multiset" where
  "recorder_calls r = op_calls (rec_done r) + op_calls (map snd (sorted_list_of_fmap (rec_ops r)))"

lemma History_calls: "op_calls (History now r) = recorder_calls r"
  by (simp add: History_def recorder_calls_def op_calls_def multiset.map_comp comp_def)

lemma recorder_step_facts:
  assumes "recorder_inv r"
  shows "recorder_inv (recorder_step c r)" "recorder_calls (recorder_step c r) = recorder_calls r + invocations [c]"
proof -
  have "recorder_inv (recorder_step c r) \<and> recorder_calls (recorder_step c r) = recorder_calls r + invocations [c]"
  proof (cases c)
    case (RInvoke now cl inp)
    have "fmlookup (rec_ops r) (rec_next r) = None" using assms unfolding recorder_inv_def
      by (metis fmdom_notD less_irrefl)
    then show ?thesis using assms RInvoke
      by (fastforce simp: recorder_inv_def recorder_calls_def Invoke_def mset_items_upd op_calls_def)
  next
    case (RReturn now i out)
    show ?thesis
    proof (cases "fmlookup (rec_ops r) i")
      case (Some op)
      then show ?thesis using assms RReturn mset_items_drop [OF Some]
        by (simp add: recorder_inv_def recorder_calls_def Return_def op_calls_def)
    qed (use assms RReturn in \<open>simp add: Return_def\<close>)
  qed
  then show "recorder_inv (recorder_step c r)" "recorder_calls (recorder_step c r) = recorder_calls r + invocations [c]" by auto
qed

lemma recorder_run_facts:
  "recorder_inv r \<Longrightarrow> recorder_inv (fold recorder_step cs r) \<and>
     recorder_calls (fold recorder_step cs r) = recorder_calls r + invocations cs"
proof (induction cs arbitrary: r)
  case (Cons c cs)
  then show ?case using recorder_step_facts [OF Cons.prems, of c] by (cases c) simp_all
qed simp

section \<open>Properties\<close>

text \<open>
  The exhaustive search over orders of the operations of each key, which ends on every history,
  answers \<open>Ok\<close> exactly when an order exists that respects real time and that the key-value model accepts,
  and \<open>Illegal\<close> otherwise: the definition of linearizability used here is decidable, and the contract of the
  porcupine library can be met.
\<close>

theorem search_decides_linearizability:
  "search_check h timeout = (if linearizable h then Ok else Illegal)"
  by (simp add: search_check_iff)

text \<open>
  C19: whatever search the checker runs, a definite verdict of \<open>CheckHTTPHistoryWithin\<close> is right for the whole
  observed history, although the code searches only two projections of it: unknown reads are dropped,
  and when the operations with a definite outcome are linearizable alone the rest is not searched.
\<close>

theorem checker_verdict_sound:
  assumes "porcupine chk" "event_times events" "HTTPHistory events = Inr h"
    "CheckHTTPHistoryWithin chk events timeout elapsed = Inr v"
  shows "(v = Ok \<longrightarrow> linearizable h) \<and> (v = Illegal \<longrightarrow> \<not> linearizable h)"
  using porcupine.Within_verdict [OF assms(1,4,3)] HTTPHistory_facts [OF assms(3,2)] by simp

text \<open>
  C21: a history that \<open>HTTPHistory\<close> accepts has one operation per invocation event and one definite outcome
  per definite response, is sorted by call time, and has well-formed intervals without overflow: unknown
  operations stay open past every other one.
\<close>

theorem HTTPHistory_complete:
  assumes "HTTPHistory events = Inr h" "event_times events"
  shows "op_calls h = event_calls events \<and> op_returns h = event_returns events \<and> sorted (map po_Call h) \<and> wf_history h"
  using HTTPHistory_facts [OF assms] by simp_all

text \<open>
  C20: the sequential model agrees with the state machine: operations that a single store serves one
  after the other, each at a moment between its call and its return, form a linearizable history.
\<close>

theorem served_in_order_linearizable:
  assumes "mset (map snd pts) = mset h" "sorted (map fst pts)"
    "\<forall>(p, op) \<in> set pts. po_Call op \<le> p \<and> p \<le> po_Return op" "served fmempty (map snd pts)"
  shows "linearizable h"
  unfolding linearizable_keys using linearizes_points [OF assms] by blast

text \<open>
  The history of a recorder has exactly one operation for every \<open>Invoke\<close>, with its client, its input
  and its time, whatever calls of \<open>Return\<close> came between, for handles that are open, closed or unknown.
\<close>

theorem recorder_keeps_invocations:
  "op_calls (History now (fold recorder_step calls NewRecorder)) = invocations calls"
proof -
  have "recorder_inv NewRecorder" "recorder_calls NewRecorder = {#}"
    by (simp_all add: recorder_inv_def recorder_calls_def NewRecorder_def sorted_list_of_fmap_def sorted_list_of_fset.rep_eq)
  then show ?thesis using recorder_run_facts by (simp add: History_calls)
qed

section \<open>Witnesses\<close>

definition wit_input :: "string \<Rightarrow> string \<Rightarrow> KVInput" where
  "wit_input op v = \<lparr>in_Op = op, in_Key = ''k'', in_Val = v\<rparr>"

text \<open>A write whose response is lost, a read that sees it, and a read that is never answered.\<close>

definition wit_events :: "HTTPEvent list" where
  "wit_events =
    [\<lparr>he_ID = ''r'', he_ClientID = 2, he_At = 20, he_Input = Some (wit_input OpGet ''''), he_Output = None\<rparr>,
     \<lparr>he_ID = ''w'', he_ClientID = 1, he_At = 10, he_Input = Some (wit_input OpPut ''x''), he_Output = None\<rparr>,
     \<lparr>he_ID = ''r'', he_ClientID = 2, he_At = 30, he_Input = None, he_Output = Some \<lparr>out_Val = ''x'', out_Found = True, out_Unknown = False\<rparr>\<rparr>,
     \<lparr>he_ID = ''s'', he_ClientID = 3, he_At = 25, he_Input = Some (wit_input OpGet ''''), he_Output = None\<rparr>]"

definition wit_ops :: "Operation list" where
  "wit_ops =
    [\<lparr>po_ClientId = 1, po_Input = wit_input OpPut ''x'', po_Call = 10, po_Output = unknown_output, po_Return = 31\<rparr>,
     \<lparr>po_ClientId = 2, po_Input = wit_input OpGet '''', po_Call = 20,
       po_Output = \<lparr>out_Val = ''x'', out_Found = True, out_Unknown = False\<rparr>, po_Return = 30\<rparr>,
     \<lparr>po_ClientId = 3, po_Input = wit_input OpGet '''', po_Call = 25, po_Output = unknown_output, po_Return = 31\<rparr>]"

lemma wit_history: "HTTPHistory wit_events = Inr wit_ops"
  by code_simp

lemma wit_verdict: "CheckHTTPHistoryWithin search_check wit_events 1000 10 = Inr Ok"
  by code_simp

lemma wit_times: "event_times wit_events"
  by code_simp

theorem checker_verdict_sound_witness:
  "CheckHTTPHistoryWithin search_check wit_events 1000 10 = Inr Ok \<and> linearizable wit_ops"
  using checker_verdict_sound [OF exhaustive.porcupine_axioms wit_times wit_history wit_verdict] wit_verdict by simp

theorem HTTPHistory_complete_witness: "wf_history wit_ops \<and> op_calls wit_ops = event_calls wit_events"
  using HTTPHistory_complete [OF wit_history wit_times] by simp

theorem served_in_order_linearizable_witness: "linearizable (rev wit_ops)"
  by (rule served_in_order_linearizable [of "zip [15, 25, 26] wit_ops"]) (simp_all, code_simp+)

end
