(* ===== verification/MhHistory.thy ===== *)
theory MhHistory
  imports CheckFacts GoStrings "HOL-Library.Product_Lexorder" "HOL-Library.Signed_Division"
begin

text \<open>
  \<open>internal/multihost/history.go\<close> and \<open>checkrun.go\<close>: the history a driver records of a run on several
  hosts, its conversion for the checker, the table of acknowledged writes, and the report.

  Instants are nanoseconds; what the code reads from the clock is an argument.
\<close>

section \<open>Records\<close>

definition StatusOK :: string where "StatusOK = ''ok''"
definition StatusIndeterminate :: string where "StatusIndeterminate = ''indeterminate''"
definition PhaseTraffic :: string where "PhaseTraffic = ''traffic''"
definition PhaseVerify :: string where "PhaseVerify = ''post-restart-verify''"

record OpRecord =
  or_Index :: int
  or_ClientID :: int
  or_ClientSession :: string
  or_ReqID :: u64
  or_Op :: string
  or_Key :: string
  or_Value :: string
  or_CallNanos :: int
  or_ReturnNanos :: int
  or_Status :: string
  or_HTTPCode :: int
  or_Attempts :: int
  or_Redirects :: int
  or_Endpoint :: string
  or_ObservedVal :: string
  or_ObservedFound :: bool
  or_Error :: string
  or_Phase :: string

record MhHistory =
  mh_Mode :: string
  mh_Boundary :: string
  mh_GeneratedAt :: string
  mh_ClockBaseUnixNanos :: int
  mh_Endpoints :: "string list"
  mh_Ops :: "OpRecord list"
  mh_Writes :: int
  mh_Reads :: int
  mh_IndeterminateWrites :: int
  mh_IndeterminateReads :: int

record MhRecorder =
  mr_base :: int
  mr_ops :: "OpRecord list"
  mr_next :: int
  mr_phase :: string

definition mh_NewRecorder :: "int \<Rightarrow> MhRecorder" where
  "mh_NewRecorder base = \<lparr>mr_base = base, mr_ops = [], mr_next = 0, mr_phase = PhaseTraffic\<rparr>"

text \<open>\<open>time.Time.Sub\<close> saturates.\<close>

definition sat64 :: "int \<Rightarrow> int" where
  "sat64 x = (if x > max_int64 then max_int64 else if x < - (2 ^ 63) then - (2 ^ 63) else x)"

definition Since :: "MhRecorder \<Rightarrow> int \<Rightarrow> int" where
  "Since r t = sat64 (t - mr_base r)"

definition SetPhase :: "string \<Rightarrow> MhRecorder \<Rightarrow> MhRecorder" where
  "SetPhase phase r = r\<lparr>mr_phase := phase\<rparr>"

definition Add :: "OpRecord \<Rightarrow> MhRecorder \<Rightarrow> MhRecorder" where
  "Add op r =
     (let op1 = op\<lparr>or_Index := mr_next r\<rparr>;
          op2 = (if or_Phase op1 = '''' then op1\<lparr>or_Phase := mr_phase r\<rparr> else op1)
      in r\<lparr>mr_next := mr_next r + 1, mr_ops := mr_ops r @ [op2]\<rparr>)"

definition Ops :: "MhRecorder \<Rightarrow> OpRecord list" where
  "Ops r = sort_key (\<lambda>op. (or_CallNanos op, or_Index op)) (mr_ops r)"

definition count_op :: "OpRecord \<Rightarrow> MhHistory \<Rightarrow> MhHistory" where
  "count_op op h =
     (if or_Op op = ''get'' then
        (let h1 = h\<lparr>mh_Reads := mh_Reads h + 1\<rparr> in
         if or_Status op \<noteq> StatusOK then h1\<lparr>mh_IndeterminateReads := mh_IndeterminateReads h1 + 1\<rparr> else h1)
      else
        (let h1 = h\<lparr>mh_Writes := mh_Writes h + 1\<rparr> in
         if or_Status op \<noteq> StatusOK then h1\<lparr>mh_IndeterminateWrites := mh_IndeterminateWrites h1 + 1\<rparr> else h1))"

definition mh_History :: "string \<Rightarrow> string \<Rightarrow> string \<Rightarrow> string list \<Rightarrow> MhRecorder \<Rightarrow> MhHistory" where
  "mh_History generatedAt mode boundary endpoints r =
     fold count_op (Ops r)
       \<lparr>mh_Mode = mode, mh_Boundary = boundary, mh_GeneratedAt = generatedAt, mh_ClockBaseUnixNanos = mr_base r,
        mh_Endpoints = endpoints, mh_Ops = Ops r, mh_Writes = 0, mh_Reads = 0, mh_IndeterminateWrites = 0,
        mh_IndeterminateReads = 0\<rparr>"

section \<open>Operations for the checker\<close>

definition max_return :: "OpRecord list \<Rightarrow> int" where
  "max_return ops = fold (\<lambda>op m. if or_ReturnNanos op > m then or_ReturnNanos op else m) ops 0"

definition porcupine_op :: "int \<Rightarrow> OpRecord \<Rightarrow> Operation" where
  "porcupine_op fin op =
     (let inp = \<lparr>in_Op = (if or_Op op = ''get'' then ''get'' else OpPut), in_Key = or_Key op, in_Val = or_Value op\<rparr>;
          pop = \<lparr>po_ClientId = or_ClientID op, po_Input = inp, po_Call = or_CallNanos op,
                 po_Output = zero_KVOutput, po_Return = or_ReturnNanos op\<rparr>;
          pop1 = (if or_Status op = StatusOK then
                    (if or_Op op \<noteq> ''get''
                     then pop\<lparr>po_Output := \<lparr>out_Val = or_Value op, out_Found = True, out_Unknown = False\<rparr>\<rparr>
                     else pop\<lparr>po_Output := \<lparr>out_Val = or_ObservedVal op, out_Found = or_ObservedFound op, out_Unknown = False\<rparr>\<rparr>)
                  else pop\<lparr>po_Output := unknown_output, po_Return := fin\<rparr>)
      in if po_Return pop1 \<le> po_Call pop1 then pop1\<lparr>po_Return := wrap64 (po_Call pop1 + 1)\<rparr> else pop1)"

definition PorcupineOps :: "MhHistory \<Rightarrow> Operation list" where
  "PorcupineOps h = map (porcupine_op (wrap64 (max_return (mh_Ops h) + 1))) (mh_Ops h)"

section \<open>Acknowledged writes\<close>

record AckedWrites =
  aw_values :: "(string, string) fmap"
  aw_order :: "string list"

record KeyValue =
  kv_Key :: string
  kv_Value :: string

definition NewAckedWrites :: AckedWrites where
  "NewAckedWrites = \<lparr>aw_values = fmempty, aw_order = []\<rparr>"

definition aw_Record :: "string \<Rightarrow> string \<Rightarrow> AckedWrites \<Rightarrow> AckedWrites" where
  "aw_Record key value a =
     (let a1 = (if fmlookup (aw_values a) key = None then a\<lparr>aw_order := aw_order a @ [key]\<rparr> else a)
      in a1\<lparr>aw_values := fmupd key value (aw_values a1)\<rparr>)"

definition aw_Len :: "AckedWrites \<Rightarrow> int" where
  "aw_Len a = int (length (aw_order a))"

definition aw_All :: "AckedWrites \<Rightarrow> KeyValue list" where
  "aw_All a =
     map (\<lambda>k. \<lparr>kv_Key = k, kv_Value = (case fmlookup (aw_values a) k of None \<Rightarrow> '''' | Some v \<Rightarrow> v)\<rparr>) (aw_order a)"

text \<open>
  \<open>Sample\<close> on an \<open>int\<close>: negation wraps at the smallest one, the remainder has the sign of the dividend,
  and an index out of range panics.
\<close>

definition aw_Sample :: "int \<Rightarrow> AckedWrites \<Rightarrow> string res" where
  "aw_Sample n a =
     (if aw_order a = [] then Inr ''''
      else
        let n1 = (if n < 0 then wrap64 (- n) else n);
            i = n1 smod int (length (aw_order a))
        in if 0 \<le> i \<and> i < int (length (aw_order a)) then Inr (aw_order a ! nat i) else Inl ErrPanic)"

section \<open>The report\<close>

record Mismatch =
  mm_Key :: string
  mm_Expected :: string
  mm_ObservedVal :: string
  mm_ObservedFound :: bool
  mm_Status :: string
  mm_HTTPCode :: int
  mm_Error :: string

record CheckReport =
  cr_Mode :: string
  cr_Boundary :: string
  cr_GeneratedAt :: string
  cr_Linearizable :: bool
  cr_Result :: string
  cr_Ops :: int
  cr_Writes :: int
  cr_Reads :: int
  cr_IndeterminateOps :: int
  cr_CheckDurationMicros :: int
  cr_AckedWritesVerified :: int
  cr_AckedWriteLoss :: "Mismatch list"

definition ResultString :: "CheckResult \<Rightarrow> string" where
  "ResultString res = (case res of Ok \<Rightarrow> ''Ok'' | Illegal \<Rightarrow> ''Illegal'' | Unknown \<Rightarrow> ''Unknown'')"

definition RunCheck ::
  "(Operation list \<Rightarrow> int \<Rightarrow> CheckResult) \<Rightarrow> int \<Rightarrow> string \<Rightarrow> MhHistory \<Rightarrow> string \<Rightarrow> string \<Rightarrow> Mismatch list \<Rightarrow> int \<Rightarrow> CheckReport" where
  "RunCheck chk elapsed generatedAt hist mode boundary loss verified =
     (let ops = PorcupineOps hist; res = Check chk ops in
      \<lparr>cr_Mode = mode, cr_Boundary = boundary, cr_GeneratedAt = generatedAt, cr_Linearizable = (res = Ok),
       cr_Result = ResultString res, cr_Ops = int (length ops), cr_Writes = mh_Writes hist, cr_Reads = mh_Reads hist,
       cr_IndeterminateOps = mh_IndeterminateWrites hist + mh_IndeterminateReads hist,
       cr_CheckDurationMicros = elapsed div 1000, cr_AckedWritesVerified = verified, cr_AckedWriteLoss = loss\<rparr>)"

section \<open>Facts\<close>

lemma length_Ops [simp]: "length (Ops r) = length (mr_ops r)" "set (Ops r) = set (mr_ops r)" "mset (Ops r) = mset (mr_ops r)"
  by (simp_all add: Ops_def)

lemma max_return_fold:
  "m \<le> fold (\<lambda>op m. if or_ReturnNanos op > m then or_ReturnNanos op else m) ops m \<and>
   (\<forall>op \<in> set ops. or_ReturnNanos op \<le> fold (\<lambda>op m. if or_ReturnNanos op > m then or_ReturnNanos op else m) ops m)"
proof (induction ops arbitrary: m)
  case (Cons op ops)
  from Cons [of "if or_ReturnNanos op > m then or_ReturnNanos op else m"] show ?case by (auto split: if_splits)
qed simp

lemma max_return_ge: "0 \<le> max_return ops" "op \<in> set ops \<Longrightarrow> or_ReturnNanos op \<le> max_return ops"
  using max_return_fold [of 0 ops] by (auto simp: max_return_def)

lemma max_return_less:
  "0 < b \<Longrightarrow> \<forall>op \<in> set ops. or_ReturnNanos op < b \<Longrightarrow> max_return ops < b"
proof -
  have "m < b \<Longrightarrow> \<forall>op \<in> set ops. or_ReturnNanos op < b \<Longrightarrow>
      fold (\<lambda>op m. if or_ReturnNanos op > m then or_ReturnNanos op else m) ops m < b" for m
    by (induction ops arbitrary: m) auto
  then show "0 < b \<Longrightarrow> \<forall>op \<in> set ops. or_ReturnNanos op < b \<Longrightarrow> max_return ops < b"
    by (simp add: max_return_def)
qed

text \<open>Records whose clock readings are in order and not at the end of the range.\<close>

definition mh_timed :: "MhHistory \<Rightarrow> bool" where
  "mh_timed h \<longleftrightarrow> (\<forall>op \<in> set (mh_Ops h). 0 \<le> or_CallNanos op \<and> or_CallNanos op \<le> or_ReturnNanos op \<and> or_ReturnNanos op < max_int64)"

lemma porcupine_op_simps [simp]:
  "po_Call (porcupine_op fin op) = or_CallNanos op" "po_ClientId (porcupine_op fin op) = or_ClientID op"
  "op_key (porcupine_op fin op) = or_Key op" "is_unknown (porcupine_op fin op) \<longleftrightarrow> or_Status op \<noteq> StatusOK"
  "in_Op (po_Input (porcupine_op fin op)) = (if or_Op op = ''get'' then OpGet else OpPut)"
  by (simp_all add: porcupine_op_def op_key_def is_unknown_def unknown_output_def OpGet_def Let_def)

lemma porcupine_op_return:
  assumes "mh_timed h" "op \<in> set (mh_Ops h)" "fin = wrap64 (max_return (mh_Ops h) + 1)"
  shows "fin = max_return (mh_Ops h) + 1" "or_CallNanos op < po_Return (porcupine_op fin op)"
    "po_Return (porcupine_op fin op) \<le> fin" "or_Status op \<noteq> StatusOK \<Longrightarrow> po_Return (porcupine_op fin op) = fin" "fin \<le> max_int64"
proof -
  have m: "0 \<le> max_return (mh_Ops h)" "or_ReturnNanos op \<le> max_return (mh_Ops h)" "max_return (mh_Ops h) < max_int64"
    using assms max_return_ge(1) [of "mh_Ops h"] max_return_ge(2) [of op "mh_Ops h"] max_return_less [of max_int64 "mh_Ops h"]
    by (auto simp: mh_timed_def max_int64_def)
  show fin: "fin = max_return (mh_Ops h) + 1" unfolding assms(3)
    using m by (intro wrap64_id) (auto simp: max_int64_def)
  have c: "0 \<le> or_CallNanos op" "or_CallNanos op \<le> or_ReturnNanos op" using assms(1,2) by (auto simp: mh_timed_def)
  have "wrap64 (or_CallNanos op + 1) = or_CallNanos op + 1"
    using c m by (intro wrap64_id) (auto simp: max_int64_def)
  then show "or_CallNanos op < po_Return (porcupine_op fin op)" "po_Return (porcupine_op fin op) \<le> fin"
    "or_Status op \<noteq> StatusOK \<Longrightarrow> po_Return (porcupine_op fin op) = fin" "fin \<le> max_int64"
    using c m fin by (auto simp: porcupine_op_def Let_def)
qed

lemma PorcupineOps_wf:
  assumes "mh_timed h"
  shows "wf_history (PorcupineOps h)"
proof -
  define fin where "fin = wrap64 (max_return (mh_Ops h) + 1)"
  note r = porcupine_op_return [OF assms _ fin_def]
  have c: "0 \<le> or_CallNanos op" "or_CallNanos op < fin" if "op \<in> set (mh_Ops h)" for op
    using assms r(2,3) [OF that] that by (auto simp: mh_timed_def)
  have "0 \<le> po_Call p \<and> po_Call p \<le> po_Return p \<and> po_Return p \<le> max_int64 \<and> in_Op (po_Input p) \<in> kv_names \<and>
      po_Call p < fin \<and> po_Return p \<le> fin \<and> (is_unknown p \<longrightarrow> po_Return p = fin)" if p: "p \<in> set (PorcupineOps h)" for p
  proof -
    obtain op where op: "op \<in> set (mh_Ops h)" "p = porcupine_op fin op"
      using p by (auto simp: PorcupineOps_def fin_def)
    then show ?thesis using c [OF op(1)] r(2-5) [OF op(1)] by (simp add: kv_names_def)
  qed
  then show ?thesis unfolding wf_history_def by metis
qed

section \<open>Acknowledged writes\<close>

definition aw_inv :: "AckedWrites \<Rightarrow> bool" where
  "aw_inv a \<longleftrightarrow> distinct (aw_order a) \<and> (\<forall>k. k \<in> set (aw_order a) \<longleftrightarrow> fmlookup (aw_values a) k \<noteq> None)"

lemma aw_inv_New [simp]: "aw_inv NewAckedWrites"
  by (simp add: aw_inv_def NewAckedWrites_def)

lemma aw_inv_Record: "aw_inv a \<Longrightarrow> aw_inv (aw_Record k v a)"
  by (auto simp: aw_inv_def aw_Record_def Let_def)

lemma aw_Record_values [simp]: "aw_values (aw_Record k v a) = fmupd k v (aw_values a)"
  by (simp add: aw_Record_def Let_def)

lemma set_aw_All:
  assumes "aw_inv a"
  shows "\<lparr>kv_Key = k, kv_Value = v\<rparr> \<in> set (aw_All a) \<longleftrightarrow> fmlookup (aw_values a) k = Some v"
  using assms by (auto simp: aw_inv_def aw_All_def split: option.splits)

lemma map_Key_aw_All: "map kv_Key (aw_All a) = aw_order a"
  by (simp add: aw_All_def comp_def)

lemma acked_fold:
  assumes "a = fold (\<lambda>(k, v). aw_Record k v) writes NewAckedWrites"
  shows "aw_inv a \<and> aw_order a = rev (remdups (rev (map fst writes))) \<and> fmlookup (aw_values a) = map_of (rev writes)"
  using assms
proof (induction writes arbitrary: a rule: rev_induct)
  case Nil
  then show ?case by (simp add: NewAckedWrites_def aw_inv_def fun_eq_iff)
next
  case (snoc w writes)
  obtain k v where w: "w = (k, v)" by (cases w)
  define b where "b = fold (\<lambda>(k, v). aw_Record k v) writes NewAckedWrites"
  note ih = snoc.IH [OF b_def]
  have a: "a = aw_Record k v b" using snoc.prems w by (simp add: b_def)
  have "k \<in> set (map fst writes) \<longleftrightarrow> fmlookup (aw_values b) k \<noteq> None"
    using ih by (metis aw_inv_def set_remdups set_rev)
  then have "aw_order a = rev (remdups (rev (map fst (writes @ [w]))))"
    using ih w a by (auto simp: aw_Record_def Let_def)
  moreover have "fmlookup (aw_values a) = map_of (rev (writes @ [w]))" using ih w a by (auto simp: fun_eq_iff)
  ultimately show ?case using ih a aw_inv_Record by blast
qed

lemma fold_count_op:
  "fold count_op ops h =
    h\<lparr>mh_Writes := mh_Writes h + int (length (filter (\<lambda>op. or_Op op \<noteq> ''get'') ops)),
      mh_Reads := mh_Reads h + int (length (filter (\<lambda>op. or_Op op = ''get'') ops)),
      mh_IndeterminateWrites := mh_IndeterminateWrites h + int (length (filter (\<lambda>op. or_Op op \<noteq> ''get'' \<and> or_Status op \<noteq> StatusOK) ops)),
      mh_IndeterminateReads := mh_IndeterminateReads h + int (length (filter (\<lambda>op. or_Op op = ''get'' \<and> or_Status op \<noteq> StatusOK) ops))\<rparr>"
  by (induction ops arbitrary: h) (simp_all add: count_op_def Let_def)

lemma sorted_fst_key:
  "sorted (map (\<lambda>x. (f x :: 'b :: linorder, g x :: 'c :: linorder)) xs) \<Longrightarrow> sorted (map f xs)"
  unfolding sorted_map by (erule sorted_wrt_mono_rel [rotated]) (auto simp: less_eq_prod_def)

section \<open>Properties\<close>
section \<open>Properties\<close>

text \<open>
  After any sequence of acknowledged writes the table lists every acknowledged key once, in the
  order of the first acknowledgement, with the value acknowledged last.
\<close>

theorem acked_table_complete:
  "(let a = fold (\<lambda>(k, v). aw_Record k v) writes NewAckedWrites in
    map kv_Key (aw_All a) = rev (remdups (rev (map fst writes))) \<and>
    (\<forall>k v. \<lparr>kv_Key = k, kv_Value = v\<rparr> \<in> set (aw_All a) \<longleftrightarrow> map_of (rev writes) k = Some v) \<and>
    aw_Len a = int (card (set (map fst writes))))"
proof -
  define a where "a = fold (\<lambda>(k, v). aw_Record k v) writes NewAckedWrites"
  note f = acked_fold [OF a_def]
  have "length (aw_order a) = card (set (map fst writes))"
    using f by (metis distinct_card distinct_remdups length_rev set_remdups set_rev)
  then show ?thesis using f set_aw_All [of a] unfolding Let_def a_def [symmetric]
    by (simp add: map_Key_aw_All aw_Len_def del: set_map)
qed

text \<open>
  C22: a report that says the run was linearizable is right about the operations the driver recorded, and
  one that says \<open>Illegal\<close> too, whatever the search does; operations without a known outcome are open to the end
  of the history, so they never make a report fail when the operations with an outcome are
  linearizable.
\<close>

theorem run_report_sound:
  assumes "porcupine chk" "mh_timed h"
  shows "(cr_Linearizable (RunCheck chk elapsed now h mode boundary loss n) \<longrightarrow> linearizable (PorcupineOps h)) \<and>
    (cr_Result (RunCheck chk elapsed now h mode boundary loss n) = ''Illegal'' \<longrightarrow>
       \<not> linearizable (PorcupineOps h) \<and>
       \<not> linearizable (filter (\<lambda>op. \<not> is_unknown op) (PorcupineOps h)))"
proof -
  have wf: "wf_history (PorcupineOps h)" using PorcupineOps_wf assms(2) .
  then have timed: "\<forall>op \<in> set (PorcupineOps h). timed op" by (auto simp: wf_history_def timed_def)
  have "\<forall>u \<in> set (PorcupineOps h). is_unknown u \<longrightarrow> unbounded_in (PorcupineOps h) u"
    using porcupine.wf_unknown_unbounded [OF assms(1) wf] by blast
  then have "linearizable (filter (\<lambda>op. \<not> is_unknown op) (PorcupineOps h)) \<longrightarrow> linearizable (PorcupineOps h)"
    using linearizable_acknowledged by blast
  then show ?thesis using porcupine.Check_verdict [OF assms(1) timed]
    by (cases "Check chk (PorcupineOps h)") (simp_all add: RunCheck_def ResultString_def Let_def)
qed

text \<open>
  The history of a run lists every recorded operation once, in the order of the calls, and its
  counters add up: reads and writes are all the operations, the indeterminate ones those whose
  status is not \<open>ok\<close>.
\<close>

theorem run_history_counts:
  "(let h = mh_History now mode boundary endpoints r in
    mset (mh_Ops h) = mset (mr_ops r) \<and> sorted (map or_CallNanos (mh_Ops h)) \<and>
    mh_Writes h + mh_Reads h = int (length (mr_ops r)) \<and>
    mh_IndeterminateWrites h + mh_IndeterminateReads h =
      int (length (filter (\<lambda>op. or_Status op \<noteq> StatusOK) (mr_ops r))))"
proof -

  have split: "length (filter (\<lambda>x. \<not> P x) xs) + length (filter P xs) = length xs" for P and xs :: "OpRecord list"
    using sum_length_filter_compl [of P xs] by simp
  have len: "length (filter P (Ops r)) = length (filter P (mr_ops r))" for P
    by (metis length_Ops(3) mset_filter size_mset)
  have "sorted (map or_CallNanos (Ops r))" unfolding Ops_def by (rule sorted_fst_key [where g = or_Index]) simp
  moreover have "length (filter (\<lambda>op. or_Op op \<noteq> ''get'' \<and> or_Status op \<noteq> StatusOK) (mr_ops r)) +
      length (filter (\<lambda>op. or_Op op = ''get'' \<and> or_Status op \<noteq> StatusOK) (mr_ops r)) =
      length (filter (\<lambda>op. or_Status op \<noteq> StatusOK) (mr_ops r))"
    using split [of "\<lambda>op. or_Op op = ''get''" "filter (\<lambda>op. or_Status op \<noteq> StatusOK) (mr_ops r)"] by (simp add: conj_commute)
  ultimately show ?thesis
    using split [of "\<lambda>op. or_Op op = ''get''" "mr_ops r"]
    by (simp add: mh_History_def fold_count_op len Let_def flip: of_nat_add)
qed

text \<open>
  A sample is an acknowledged key for every 64-bit number but the smallest one.
\<close>

theorem sample_acknowledged:
  assumes "- (2 ^ 63) < n" "n < 2 ^ 63" "aw_order a \<noteq> []"
  shows "\<exists>k \<in> set (aw_order a). aw_Sample n a = Inr k"
proof -
  define l where "l = int (length (aw_order a))"
  define m where "m = (if n < 0 then wrap64 (- n) else n)"
  have "0 < l" using assms(3) by (simp add: l_def)
  have "0 \<le> m" using assms by (simp add: m_def wrap64_id)
  then have "m smod l = m mod l" using \<open>0 < l\<close> by (cases "m = 0") (simp_all add: signed_modulo_int_def)
  then show ?thesis using assms(3) \<open>0 < l\<close> unfolding aw_Sample_def m_def [symmetric] l_def [symmetric] Let_def
    by (simp add: l_def nat_less_iff)
qed

section \<open>Witnesses\<close>

definition wit_record :: "string \<Rightarrow> string \<Rightarrow> int \<Rightarrow> int \<Rightarrow> OpRecord" where
  "wit_record op status call ret =
     \<lparr>or_Index = 0, or_ClientID = 0, or_ClientSession = ''s'', or_ReqID = 1, or_Op = op, or_Key = ''k'', or_Value = ''v'',
      or_CallNanos = call, or_ReturnNanos = ret, or_Status = status, or_HTTPCode = 200, or_Attempts = 1, or_Redirects = 0,
      or_Endpoint = ''e'', or_ObservedVal = ''v'', or_ObservedFound = True, or_Error = '''', or_Phase = ''''\<rparr>"

definition wit_mh :: MhHistory where
  "wit_mh = mh_History ''now'' ''dry-run'' ''local'' [''e'']
     (Add (wit_record ''get'' StatusOK 6 9) (Add (wit_record ''put'' StatusIndeterminate 2 5) (mh_NewRecorder 0)))"

lemma wit_mh_check: "cr_Linearizable (RunCheck search_check 7 ''now'' wit_mh ''m'' ''b'' [] 0)"
  by code_simp

theorem run_report_sound_witness: "linearizable (PorcupineOps wit_mh)"
proof -
  have "mh_timed wit_mh" by code_simp
  from run_report_sound [OF exhaustive.porcupine_axioms this] wit_mh_check show ?thesis by blast
qed

theorem sample_acknowledged_witness: "aw_Sample (-7) (aw_Record ''a'' ''1'' NewAckedWrites) = Inr ''a''"
  using sample_acknowledged [of "-7" "aw_Record ''a'' ''1'' NewAckedWrites"]
  by (simp add: aw_Record_def NewAckedWrites_def Let_def)

end
