(* ===== verification/Traffic.thy ===== *)
theory Traffic
  imports MhHistory
begin

text \<open>
  \<open>internal/multihost/traffic.go\<close>: the clients of a driver run, which follow redirects and retry, the
  workers that share one recorder and one table of acknowledged writes, and the verification of the
  acknowledged writes.

  The network is the argument \<open>env\<close> of a call: what \<open>http.Client.Do\<close> gives for the request of an attempt,
  which endpoint the random generator picks, whether the context has ended after an attempt.  The loops
  return the requests they sent, in order, beside their result.  Sleeping is not modelled.
\<close>

section \<open>One client\<close>

record http_request =
  rq_Method :: string
  rq_URL :: string
  rq_Body :: string

datatype http_reply = TransportError string | Reply int string string

record attempt_env =
  ae_Intn :: "nat \<Rightarrow> nat"
  ae_NewRequest :: "string \<Rightarrow> string option"
  ae_Do :: "nat \<Rightarrow> http_request \<Rightarrow> http_reply"
  ae_CtxErr :: "nat \<Rightarrow> bool"

record trafficClient =
  tc_endpoints :: "string list"
  tc_leader :: string
  tc_maxAttempts :: nat

definition newTrafficClient :: "string list \<Rightarrow> trafficClient" where
  "newTrafficClient endpoints = \<lparr>tc_endpoints = endpoints, tc_leader = '''', tc_maxAttempts = 12\<rparr>"

text \<open>\<open>base\<close>: \<open>Intn\<close> panics on an empty list.\<close>

definition tc_base :: "nat \<Rightarrow> trafficClient \<Rightarrow> string res" where
  "tc_base rnd c =
     (if tc_leader c \<noteq> '''' then Inr (tc_leader c)
      else if tc_endpoints c = [] then Inl ErrPanic
      else Inr (tc_endpoints c ! (rnd mod length (tc_endpoints c))))"

record opOutcome =
  oo_ok :: bool
  oo_code :: int
  oo_attempts :: nat
  oo_redirects :: nat
  oo_endpoint :: string
  oo_val :: string
  oo_found :: bool
  oo_err :: "string option"

definition zero_outcome :: opOutcome where
  "zero_outcome = \<lparr>oo_ok = False, oo_code = 0, oo_attempts = 0, oo_redirects = 0, oo_endpoint = '''', oo_val = '''',
     oo_found = False, oo_err = None\<rparr>"

definition leaderFromLocation :: "string \<Rightarrow> string" where
  "leaderFromLocation location =
     (case index_of ''/kv/'' location of None \<Rightarrow> '''' | Some i \<Rightarrow> trim_suffix (take i location) ''/'')"

definition http_err :: "int \<Rightarrow> string option" where
  "http_err sc = Some (''http '' @ format_int sc)"

text \<open>\<open>json.Marshal\<close> of a map prints the members in the order of their names.\<close>

definition put_body :: "string \<Rightarrow> string \<Rightarrow> u64 \<Rightarrow> string" where
  "put_body value session reqID =
     jprint (JObj [(''client_id'', JStr session), (''op'', JStr ''put''), (''req_id'', JNum (format_uint reqID)), (''value'', JStr value)])"

type_synonym call_result = "(opOutcome \<times> trafficClient \<times> http_request list) res"

definition sent :: "http_request \<Rightarrow> call_result \<Rightarrow> call_result" where
  "sent rq r = map_sum id (\<lambda>(out, c, rqs). (out, c, rq # rqs)) r"

definition put_request :: "string \<Rightarrow> string \<Rightarrow> string \<Rightarrow> http_request" where
  "put_request endpoint key body = \<lparr>rq_Method = ''PUT'', rq_URL = endpoint @ ''/kv/'' @ key, rq_Body = body\<rparr>"

definition get_request :: "string \<Rightarrow> string \<Rightarrow> http_request" where
  "get_request endpoint key =
     \<lparr>rq_Method = ''GET'', rq_URL = endpoint @ ''/kv/'' @ key @ ''?consistency=linearizable'', rq_Body = ''''\<rparr>"

fun put_loop :: "attempt_env \<Rightarrow> string \<Rightarrow> string \<Rightarrow> string \<Rightarrow> nat \<Rightarrow> nat \<Rightarrow> opOutcome \<Rightarrow> trafficClient \<Rightarrow> call_result" where
  "put_loop env key value body 0 i out c = Inr (out, c, [])"
| "put_loop env key value body (Suc n) i out c =
     (case tc_base (ae_Intn env i) c of
        Inl e \<Rightarrow> Inl e
      | Inr endpoint \<Rightarrow>
          let out1 = out\<lparr>oo_attempts := oo_attempts out + 1, oo_endpoint := endpoint\<rparr>;
              rq = put_request endpoint key body
          in (case ae_NewRequest env (rq_URL rq) of
                Some e \<Rightarrow> Inr (out1\<lparr>oo_err := Some e\<rparr>, c, [])
              | None \<Rightarrow> sent rq
                  (case ae_Do env i rq of
                     TransportError e \<Rightarrow>
                       (let out2 = out1\<lparr>oo_err := Some e\<rparr>; c1 = c\<lparr>tc_leader := ''''\<rparr> in
                        if ae_CtxErr env i then Inr (out2, c1, []) else put_loop env key value body n (Suc i) out2 c1)
                   | Reply sc location _ \<Rightarrow>
                       (let out2 = out1\<lparr>oo_code := sc\<rparr> in
                        if sc = 200 then Inr (out2\<lparr>oo_ok := True, oo_val := value, oo_found := True, oo_err := None\<rparr>, c, [])
                        else
                          let (out3, c1) =
                            (if sc = 307 \<and> contains_str location ''/kv/''
                             then (out2\<lparr>oo_redirects := oo_redirects out2 + 1\<rparr>, c\<lparr>tc_leader := leaderFromLocation location\<rparr>)
                             else (out2\<lparr>oo_err := http_err sc\<rparr>, c\<lparr>tc_leader := ''''\<rparr>))
                          in if ae_CtxErr env i then Inr (out3, c1, []) else put_loop env key value body n (Suc i) out3 c1))))"

definition tc_put :: "attempt_env \<Rightarrow> string \<Rightarrow> string \<Rightarrow> string \<Rightarrow> u64 \<Rightarrow> trafficClient \<Rightarrow> call_result" where
  "tc_put env key value session reqID c =
     put_loop env key value (put_body value session reqID) (tc_maxAttempts c) 0 zero_outcome c"

definition set_kv_reply :: "string \<Rightarrow> json \<Rightarrow> string \<times> bool \<Rightarrow> (string \<times> bool) option" where
  "set_kv_reply n j p =
     (if n = ''value'' then map_option (\<lambda>v. (v, snd p)) (get_str j (fst p))
      else map_option (\<lambda>b. (fst p, b)) (get_bool j (snd p)))"

definition decode_kv_reply :: "string \<Rightarrow> (string \<times> bool) option" where
  "decode_kv_reply body =
     (case jdecode body of None \<Rightarrow> None | Some j \<Rightarrow> get_struct set_kv_reply [''value'', ''found''] j ('''', False))"

fun get_loop :: "attempt_env \<Rightarrow> string \<Rightarrow> nat \<Rightarrow> nat \<Rightarrow> opOutcome \<Rightarrow> trafficClient \<Rightarrow> call_result" where
  "get_loop env key 0 i out c = Inr (out, c, [])"
| "get_loop env key (Suc n) i out c =
     (case tc_base (ae_Intn env i) c of
        Inl e \<Rightarrow> Inl e
      | Inr endpoint \<Rightarrow>
          let out1 = out\<lparr>oo_attempts := oo_attempts out + 1, oo_endpoint := endpoint\<rparr>;
              rq = get_request endpoint key
          in (case ae_NewRequest env (rq_URL rq) of
                Some e \<Rightarrow> Inr (out1\<lparr>oo_err := Some e\<rparr>, c, [])
              | None \<Rightarrow> sent rq
                  (case ae_Do env i rq of
                     TransportError e \<Rightarrow>
                       (let out2 = out1\<lparr>oo_err := Some e\<rparr>; c1 = c\<lparr>tc_leader := ''''\<rparr> in
                        if ae_CtxErr env i then Inr (out2, c1, []) else get_loop env key n (Suc i) out2 c1)
                   | Reply sc _ body \<Rightarrow>
                       (let out2 = out1\<lparr>oo_code := sc\<rparr> in
                        if sc = 200 then
                          (case decode_kv_reply body of
                             None \<Rightarrow> get_loop env key n (Suc i) (out2\<lparr>oo_err := Some ''decode''\<rparr>) c
                           | Some (v, f) \<Rightarrow> Inr (out2\<lparr>oo_ok := True, oo_val := v, oo_found := f, oo_err := None\<rparr>, c, []))
                        else
                          let out3 = out2\<lparr>oo_err := http_err sc\<rparr>; c1 = c\<lparr>tc_leader := ''''\<rparr>
                          in if ae_CtxErr env i then Inr (out3, c1, []) else get_loop env key n (Suc i) out3 c1))))"

definition tc_get :: "attempt_env \<Rightarrow> string \<Rightarrow> trafficClient \<Rightarrow> call_result" where
  "tc_get env key c = get_loop env key (tc_maxAttempts c) 0 zero_outcome c"

section \<open>Workers\<close>

datatype worker_pc = Idle | Reading string int | Writing string string int | Stopped

record worker =
  wk_client :: trafficClient
  wk_reqID :: u64
  wk_pc :: worker_pc

record Workload =
  wl_Rec :: MhRecorder
  wl_Acked :: AckedWrites
  wl_completed :: int
  wl_writes :: int
  wl_reads :: int
  wl_lost :: int
  wl_finished :: bool
  wl_workers :: "worker list"

text \<open>The configuration of the run: the operation target, the number of workers, the endpoints.\<close>

record run_cfg =
  rc_Ops :: int
  rc_Concurrency :: nat
  rc_Endpoints :: "string list"

definition NewWorkload :: "run_cfg \<Rightarrow> MhRecorder \<Rightarrow> AckedWrites \<Rightarrow> Workload" where
  "NewWorkload cf rec acked =
     \<lparr>wl_Rec = rec, wl_Acked = acked, wl_completed = 0, wl_writes = 0, wl_reads = 0, wl_lost = 0, wl_finished = False,
      wl_workers = replicate (rc_Concurrency cf) \<lparr>wk_client = newTrafficClient (rc_Endpoints cf), wk_reqID = 0, wk_pc = Idle\<rparr>\<rparr>"

definition worker_session :: "nat \<Rightarrow> string" where
  "worker_session i = ''qlmultihost-w'' @ dec_of_nat i"

definition worker_key :: "nat \<Rightarrow> u64 \<Rightarrow> string" where
  "worker_key i reqID = ''mh-w'' @ dec_of_nat i @ ''-'' @ pad_left 6 CHR ''0'' (format_uint reqID)"

definition worker_value :: "nat \<Rightarrow> u64 \<Rightarrow> string" where
  "worker_value i reqID = ''v-w'' @ dec_of_nat i @ ''-'' @ pad_left 6 CHR ''0'' (format_uint reqID)"

text \<open>
  \<open>record\<close>: the history gets the operation with the status the outcome has.
\<close>

definition wl_record ::
  "nat \<Rightarrow> string \<Rightarrow> string \<Rightarrow> string \<Rightarrow> string \<Rightarrow> u64 \<Rightarrow> int \<Rightarrow> int \<Rightarrow> opOutcome \<Rightarrow> Workload \<Rightarrow> Workload" where
  "wl_record i session op key value reqID start now out w =
     (let rec = \<lparr>or_Index = 0, or_ClientID = int i, or_ClientSession = session, or_ReqID = reqID, or_Op = op, or_Key = key,
            or_Value = value, or_CallNanos = Since (wl_Rec w) start, or_ReturnNanos = Since (wl_Rec w) now,
            or_Status = (if oo_ok out then StatusOK else StatusIndeterminate), or_HTTPCode = oo_code out,
            or_Attempts = int (oo_attempts out), or_Redirects = int (oo_redirects out), or_Endpoint = oo_endpoint out,
            or_ObservedVal = oo_val out, or_ObservedFound = oo_found out,
            or_Error = (if oo_ok out then '''' else case oo_err out of None \<Rightarrow> '''' | Some e \<Rightarrow> e), or_Phase = ''''\<rparr>
      in w\<lparr>wl_Rec := Add rec (wl_Rec w)\<rparr>)"

text \<open>
  The first half of a round of the worker loop: the checks of the context, of the counter and of the
  fault plan, the choice of the operation.  \<open>readNow\<close> is the comparison with the read fraction, \<open>n\<close> the
  number drawn for \<open>Sample\<close>.
\<close>

definition set_worker :: "nat \<Rightarrow> worker \<Rightarrow> Workload \<Rightarrow> Workload" where
  "set_worker i k w = w\<lparr>wl_workers := (wl_workers w)[i := k]\<rparr>"

definition begin_op :: "run_cfg \<Rightarrow> nat \<Rightarrow> bool \<Rightarrow> bool \<Rightarrow> bool \<Rightarrow> nat \<Rightarrow> int \<Rightarrow> Workload \<Rightarrow> Workload res" where
  "begin_op cf i ctxErr faultsDone readNow n start w =
     (let k = wl_workers w ! i; target = rc_Ops cf; hardCap = wrap64 (target * 4); done = wl_completed w in
      if ctxErr \<or> done \<ge> hardCap \<or> (done \<ge> target \<and> faultsDone) then Inr (set_worker i (k\<lparr>wk_pc := Stopped\<rparr>) w)
      else
        rbind (if readNow then aw_Sample (int n) (wl_Acked w) else Inr '''') (\<lambda>key.
        if key \<noteq> '''' then Inr (set_worker i (k\<lparr>wk_pc := Reading key start\<rparr>) w)
        else
          let reqID = wk_reqID k + 1 in
          Inr (set_worker i (k\<lparr>wk_reqID := reqID, wk_pc := Writing (worker_key i reqID) (worker_value i reqID) start\<rparr>) w)))"

text \<open>
  The second half: the call, the record, the table of acknowledged writes and the counters.  In the code the record
  and the table have a mutex each and the counters are atomic; here they change in one step.  A worker that looks in
  between chooses as if it had looked before the step: the choice reads the table and the number of completed
  operations, never the history, and the table and the number are the last to change.  What the step fixes beyond
  that is the index of the record among those that other workers add meanwhile, which orders only records with the
  same call time.
\<close>

definition finish_op :: "attempt_env \<Rightarrow> nat \<Rightarrow> int \<Rightarrow> Workload \<Rightarrow> Workload res" where
  "finish_op env i now w =
     (let k = wl_workers w ! i in
      case wk_pc k of
        Reading key start \<Rightarrow>
          rbind (tc_get env key (wk_client k)) (\<lambda>(out, c, _).
          let w1 = wl_record i (worker_session i) ''get'' key '''' 0 start now out w
          in Inr (set_worker i (k\<lparr>wk_client := c, wk_pc := Idle\<rparr>)
               (w1\<lparr>wl_reads := wl_reads w + 1, wl_completed := wl_completed w + 1\<rparr>)))
      | Writing key value start \<Rightarrow>
          rbind (tc_put env key value (worker_session i) (wk_reqID k) (wk_client k)) (\<lambda>(out, c, _).
          let w1 = wl_record i (worker_session i) ''put'' key value (wk_reqID k) start now out w;
              w2 = (if oo_ok out then w1\<lparr>wl_Acked := aw_Record key value (wl_Acked w1)\<rparr> else w1)
          in Inr (set_worker i (k\<lparr>wk_client := c, wk_pc := Idle\<rparr>)
               (w2\<lparr>wl_writes := wl_writes w + 1, wl_completed := wl_completed w + 1\<rparr>)))
      | _ \<Rightarrow> Inr w)"

text \<open>The workers run at the same time: any of them may take the next half round.\<close>

inductive traffic_step :: "run_cfg \<Rightarrow> Workload \<Rightarrow> Workload \<Rightarrow> bool" for cf where
  begins: "i < length (wl_workers w) \<Longrightarrow> wk_pc (wl_workers w ! i) = Idle \<Longrightarrow>
     begin_op cf i ctxErr faultsDone readNow n start w = Inr w' \<Longrightarrow> traffic_step cf w w'"
| finishes: "i < length (wl_workers w) \<Longrightarrow> wk_pc (wl_workers w ! i) \<notin> {Idle, Stopped} \<Longrightarrow>
     finish_op env i now w = Inr w' \<Longrightarrow> traffic_step cf w w'"

inductive traffic_run :: "run_cfg \<Rightarrow> Workload \<Rightarrow> bool" for cf where
  start: "traffic_run cf (NewWorkload cf (mh_NewRecorder base) NewAckedWrites)"
| steps: "traffic_run cf w \<Longrightarrow> traffic_step cf w w' \<Longrightarrow> traffic_run cf w'"

text \<open>\<open>Run\<close> returns when every worker has returned.\<close>

definition run_returned :: "Workload \<Rightarrow> bool" where
  "run_returned w = list_all (\<lambda>k. wk_pc k = Stopped) (wl_workers w)"

section \<open>Verification of the acknowledged writes\<close>

definition verify_record :: "nat \<Rightarrow> string \<Rightarrow> string \<Rightarrow> int \<Rightarrow> int \<Rightarrow> opOutcome \<Rightarrow> MhRecorder \<Rightarrow> OpRecord" where
  "verify_record verifierID phase key start now out r =
     \<lparr>or_Index = 0, or_ClientID = int verifierID, or_ClientSession = ''qlmultihost-verify'', or_ReqID = 0, or_Op = ''get'',
      or_Key = key, or_Value = '''', or_CallNanos = Since r start, or_ReturnNanos = Since r now,
      or_Status = (if oo_ok out then StatusOK else StatusIndeterminate), or_HTTPCode = oo_code out,
      or_Attempts = int (oo_attempts out), or_Redirects = int (oo_redirects out), or_Endpoint = oo_endpoint out,
      or_ObservedVal = oo_val out, or_ObservedFound = oo_found out,
      or_Error = (if oo_ok out then '''' else case oo_err out of None \<Rightarrow> '''' | Some e \<Rightarrow> e), or_Phase = phase\<rparr>"

text \<open>
  The loop over the acknowledged writes; the environment of the \<open>n\<close>th round gives whether the context has
  ended, the network of its call and the two clock readings.
\<close>

record verify_env =
  ve_ctxErr :: "nat \<Rightarrow> bool"
  ve_net :: "nat \<Rightarrow> attempt_env"
  ve_start :: "nat \<Rightarrow> int"
  ve_now :: "nat \<Rightarrow> int"

fun verify_loop ::
  "verify_env \<Rightarrow> nat \<Rightarrow> string \<Rightarrow> nat \<Rightarrow> KeyValue list \<Rightarrow> trafficClient \<Rightarrow> Workload \<Rightarrow> (Mismatch list \<times> bool \<times> Workload) res" where
  "verify_loop env vid phase n [] c w = Inr ([], False, w)"
| "verify_loop env vid phase n (p # ps) c w =
     (if ve_ctxErr env n then Inr ([], True, w)
      else
        rbind (tc_get (ve_net env n) (kv_Key p) c) (\<lambda>(out, c1, _).
        let rec = verify_record vid phase (kv_Key p) (ve_start env n) (ve_now env n) out (wl_Rec w);
            w1 = w\<lparr>wl_Rec := Add rec (wl_Rec w)\<rparr>;
            (found, w2) =
              (if \<not> oo_ok out then
                 ([\<lparr>mm_Key = kv_Key p, mm_Expected = kv_Value p, mm_ObservedVal = '''', mm_ObservedFound = False,
                    mm_Status = or_Status rec, mm_HTTPCode = oo_code out, mm_Error = or_Error rec\<rparr>], w1)
               else if \<not> oo_found out \<or> oo_val out \<noteq> kv_Value p then
                 ([\<lparr>mm_Key = kv_Key p, mm_Expected = kv_Value p, mm_ObservedVal = oo_val out, mm_ObservedFound = oo_found out,
                    mm_Status = or_Status rec, mm_HTTPCode = oo_code out, mm_Error = ''''\<rparr>], w1\<lparr>wl_lost := wl_lost w1 + 1\<rparr>)
               else ([], w1))
        in rbind (verify_loop env vid phase (Suc n) ps c1 w2) (\<lambda>(ms, ended, w3). Inr (found @ ms, ended, w3))))"

definition VerifyAcked :: "verify_env \<Rightarrow> run_cfg \<Rightarrow> string \<Rightarrow> Workload \<Rightarrow> (Mismatch list \<times> int \<times> bool \<times> Workload) res" where
  "VerifyAcked env cf phase w =
     (let acked = aw_All (wl_Acked w) in
      rbind (verify_loop env (rc_Concurrency cf) phase 0 acked (newTrafficClient (rc_Endpoints cf)) w)
        (\<lambda>(ms, ended, w1). Inr (ms, int (length acked), ended, w1)))"

end
