(* ===== verification/TrafficFacts.thy ===== *)
theory TrafficFacts
  imports Traffic
begin

text \<open>
  The calls of a client are bounded and repeat one request; the runs of the workers keep the keys of
  the writes apart and the counters within the cap; the verification reports exactly the acknowledged
  writes that a read did not return.
\<close>

section \<open>Calls\<close>

definition answered :: "attempt_env \<Rightarrow> nat \<Rightarrow> http_request list \<Rightarrow> bool" where
  "answered env i rqs \<longleftrightarrow> (\<exists>j < length rqs. \<exists>loc b. ae_Do env (i + j) (rqs ! j) = Reply 200 loc b)"

lemma answered_simps [simp]:
  "\<not> answered env i []"
  "answered env i (rq # rqs) \<longleftrightarrow> (\<exists>loc b. ae_Do env i rq = Reply 200 loc b) \<or> answered env (Suc i) rqs"
  by (auto simp: answered_def less_Suc_eq_0_disj)

lemma tc_base_ok: "tc_endpoints c \<noteq> [] \<Longrightarrow> \<exists>e. tc_base rnd c = Inr e"
  by (cases "tc_leader c = []") (simp_all add: tc_base_def)

definition put_post ::
  "attempt_env \<Rightarrow> string \<Rightarrow> string \<Rightarrow> string \<Rightarrow> nat \<Rightarrow> nat \<Rightarrow> nat \<Rightarrow> opOutcome \<times> trafficClient \<times> http_request list \<Rightarrow> bool" where
  "put_post env key value body n i a r \<longleftrightarrow>
     (case r of (out, c, rqs) \<Rightarrow>
        length rqs \<le> n \<and> oo_attempts out \<le> a + n \<and>
        (\<forall>rq \<in> set rqs. \<exists>endpoint. rq = put_request endpoint key body) \<and>
        (oo_ok out \<longleftrightarrow> answered env i rqs) \<and>
        (oo_ok out \<longrightarrow> oo_val out = value \<and> oo_found out \<and> oo_err out = None))"

lemma put_loop_total:
  assumes "tc_endpoints c \<noteq> []" "\<not> oo_ok out"
  shows "\<exists>r. put_loop env key value body n i out c = Inr r \<and> put_post env key value body n i (oo_attempts out) r"
  using assms
proof (induction n arbitrary: i out c)
  case 0
  then show ?case by (simp add: put_post_def)
next
  case (Suc n)
  obtain endpoint where e: "tc_base (ae_Intn env i) c = Inr endpoint"
    using tc_base_ok Suc.prems(1) by blast
  define rq where "rq = put_request endpoint key body"
  have rq: "\<exists>endpoint. rq = put_request endpoint key body" by (auto simp: rq_def)
  let ?goal = "\<lambda>x. \<exists>r. sent rq x = Inr r \<and> put_post env key value body (Suc n) i (oo_attempts out) r"
  have step: "?goal (put_loop env key value body n (Suc i) out1 c1)"
    if a: "\<not> oo_ok out1" "tc_endpoints c1 \<noteq> []" "oo_attempts out1 = Suc (oo_attempts out)" "\<nexists>loc b. ae_Do env i rq = Reply 200 loc b"
    for out1 c1
  proof -
    obtain o' c' rqs where r: "put_loop env key value body n (Suc i) out1 c1 = Inr (o', c', rqs)"
      "put_post env key value body n (Suc i) (oo_attempts out1) (o', c', rqs)"
      using Suc.IH [OF a(2,1), of "Suc i"] by (metis prod_cases3)
    then have "put_post env key value body (Suc n) i (oo_attempts out) (o', c', rq # rqs)"
      using a(3,4) rq by (simp add: put_post_def)
    then show ?thesis using r(1) by (simp add: sent_def)
  qed
  have stop: "?goal (Inr (out1, c1, []))"
    if "\<not> oo_ok out1" "oo_attempts out1 = Suc (oo_attempts out)" "\<nexists>loc b. ae_Do env i rq = Reply 200 loc b" for out1 c1
    using that rq by (simp add: put_post_def sent_def)
  have ok: "?goal (Inr (out1\<lparr>oo_ok := True, oo_val := value, oo_found := True, oo_err := None\<rparr>, c1, []))"
    if "oo_attempts out1 = Suc (oo_attempts out)" "\<exists>loc b. ae_Do env i rq = Reply 200 loc b" for out1 c1
    using that rq by (simp add: put_post_def sent_def)
  show ?case
  proof (cases "ae_NewRequest env (rq_URL rq)")
    case None
    show ?thesis
    proof (cases "ae_Do env i rq")
      case (TransportError x)
      then show ?thesis using e None Suc.prems step stop by (simp add: Let_def rq_def [symmetric])
    next
      case (Reply sc loc b)
      then show ?thesis using e None Suc.prems step stop ok
        by (simp add: Let_def rq_def [symmetric] split_beta)
    qed
  qed (use e Suc.prems in \<open>simp add: Let_def put_post_def rq_def\<close>)
qed

definition get_post ::
  "attempt_env \<Rightarrow> string \<Rightarrow> nat \<Rightarrow> nat \<Rightarrow> nat \<Rightarrow> opOutcome \<times> trafficClient \<times> http_request list \<Rightarrow> bool" where
  "get_post env key n i a r \<longleftrightarrow>
     (case r of (out, c, rqs) \<Rightarrow>
        length rqs \<le> n \<and> oo_attempts out \<le> a + n \<and>
        (\<forall>rq \<in> set rqs. rq_Method rq = ''GET'' \<and> suffix (''/kv/'' @ key @ ''?consistency=linearizable'') (rq_URL rq)) \<and>
        (oo_ok out \<longrightarrow> (\<exists>j rq loc b. rq \<in> set rqs \<and> ae_Do env j rq = Reply 200 loc b \<and> decode_kv_reply b = Some (oo_val out, oo_found out))))"

lemma get_loop_total:
  assumes "tc_endpoints c \<noteq> []" "\<not> oo_ok out"
  shows "\<exists>r. get_loop env key n i out c = Inr r \<and> get_post env key n i (oo_attempts out) r"
  using assms
proof (induction n arbitrary: i out c)
  case 0
  then show ?case by (simp add: get_post_def)
next
  case (Suc n)
  obtain endpoint where e: "tc_base (ae_Intn env i) c = Inr endpoint"
    using tc_base_ok Suc.prems(1) by blast
  define rq where "rq = get_request endpoint key"
  have rq: "suffix (''/kv/'' @ key @ ''?consistency=linearizable'') (rq_URL rq)" "rq_Method rq = ''GET''"
    by (auto simp: rq_def get_request_def suffix_def)
  let ?goal = "\<lambda>x. \<exists>r. sent rq x = Inr r \<and> get_post env key (Suc n) i (oo_attempts out) r"
  have step: "?goal (get_loop env key n (Suc i) out1 c1)"
    if a: "\<not> oo_ok out1" "tc_endpoints c1 \<noteq> []" "oo_attempts out1 = Suc (oo_attempts out)" for out1 c1
  proof -
    obtain o' c' rqs where r: "get_loop env key n (Suc i) out1 c1 = Inr (o', c', rqs)"
      "get_post env key n (Suc i) (oo_attempts out1) (o', c', rqs)"
      using Suc.IH [OF a(2,1), of "Suc i"] by (metis prod_cases3)
    then have "get_post env key (Suc n) i (oo_attempts out) (o', c', rq # rqs)"
      using a(3) rq unfolding get_post_def by fastforce
    then show ?thesis using r(1) by (simp add: sent_def)
  qed
  have stop: "?goal (Inr (out1, c1, []))"
    if "\<not> oo_ok out1" "oo_attempts out1 = Suc (oo_attempts out)" for out1 c1
    using that rq by (simp add: get_post_def sent_def)
  have ok: "?goal (Inr (out1\<lparr>oo_ok := True, oo_val := v, oo_found := f, oo_err := None\<rparr>, c1, []))"
    if "oo_attempts out1 = Suc (oo_attempts out)" "ae_Do env i rq = Reply 200 loc b" "decode_kv_reply b = Some (v, f)" for out1 c1 loc b v f
    using that rq by (auto simp: get_post_def sent_def)
  show ?case
  proof (cases "ae_NewRequest env (rq_URL rq)")
    case None
    show ?thesis
    proof (cases "ae_Do env i rq")
      case (TransportError x)
      then show ?thesis using e None Suc.prems step stop by (simp add: Let_def rq_def [symmetric])
    next
      case (Reply sc loc b)
      then show ?thesis using e None Suc.prems step stop ok
        by (cases "decode_kv_reply b") (auto simp: Let_def rq_def [symmetric])
    qed
  qed (use e Suc.prems in \<open>simp add: Let_def get_post_def rq_def\<close>)
qed

lemma tc_put_total:
  assumes "tc_endpoints c \<noteq> []"
  obtains (result) out c' rqs where "tc_put env key value session reqID c = Inr (out, c', rqs)"
    "put_post env key value (put_body value session reqID) (tc_maxAttempts c) 0 0 (out, c', rqs)"
  using put_loop_total [of c zero_outcome env key "value" "put_body value session reqID" "tc_maxAttempts c" 0] assms
  by (auto simp: tc_put_def zero_outcome_def)

lemma tc_get_total:
  assumes "tc_endpoints c \<noteq> []"
  obtains (result) out c' rqs where "tc_get env key c = Inr (out, c', rqs)" "get_post env key (tc_maxAttempts c) 0 0 (out, c', rqs)"
  using get_loop_total [of c zero_outcome env key "tc_maxAttempts c" 0] assms
  by (auto simp: tc_get_def zero_outcome_def)

section \<open>Keys of the workers\<close>

lemma worker_key_inj:
  assumes "worker_key i r = worker_key j s"
  shows "i = j \<and> r = s"
proof -
  have no: "\<not> is_digit CHR ''-''" by (simp add: is_digit_def)
  have "dec_of_nat i @ CHR ''-'' # pad_left 6 CHR ''0'' (format_uint r) = dec_of_nat j @ CHR ''-'' # pad_left 6 CHR ''0'' (format_uint s)"
    using assms by (simp add: worker_key_def)
  from split_at_last_separator [OF this no] show ?thesis
    using pad_left_inj dec_of_nat_inj by (metis format_uint_digits(1) pad_left_digits)
qed

section \<open>Invariant of a run\<close>

definition busy :: "worker \<Rightarrow> bool" where
  "busy k \<longleftrightarrow> wk_pc k \<notin> {Idle, Stopped}"

definition busy_count :: "Workload \<Rightarrow> nat" where
  "busy_count w = length (filter busy (wl_workers w))"

definition puts :: "Workload \<Rightarrow> OpRecord list" where
  "puts w = filter (\<lambda>op. or_Op op = ''put'') (mr_ops (wl_Rec w))"

definition hard_cap :: "run_cfg \<Rightarrow> int" where
  "hard_cap cf = wrap64 (rc_Ops cf * 4)"

definition pc_ok :: "nat \<Rightarrow> worker \<Rightarrow> bool" where
  "pc_ok i k \<longleftrightarrow> (\<forall>key value start. wk_pc k = Writing key value start \<longrightarrow>
     key = worker_key i (wk_reqID k) \<and> value = worker_value i (wk_reqID k))"

definition put_ok :: "Workload \<Rightarrow> OpRecord \<Rightarrow> bool" where
  "put_ok w op \<longleftrightarrow>
     (\<exists>i < length (wl_workers w). or_ClientID op = int i \<and> or_Key op = worker_key i (or_ReqID op) \<and>
        or_Value op = worker_value i (or_ReqID op) \<and> or_ReqID op \<le> wk_reqID (wl_workers w ! i) \<and>
        (\<forall>key value start. wk_pc (wl_workers w ! i) = Writing key value start \<longrightarrow> or_ReqID op < wk_reqID (wl_workers w ! i)))"

definition count_inv :: "run_cfg \<Rightarrow> Workload \<Rightarrow> bool" where
  "count_inv cf w \<longleftrightarrow> length (wl_workers w) = rc_Concurrency cf \<and> 0 \<le> wl_completed w \<and>
     wl_completed w = int (length (mr_ops (wl_Rec w))) \<and> wl_writes w + wl_reads w = wl_completed w \<and>
     wl_completed w + int (busy_count w) \<le> max 0 (hard_cap cf - 1) + int (rc_Concurrency cf) \<and>
     (\<forall>k \<in> set (wl_workers w). int (unat (wk_reqID k)) \<le> wl_completed w + (if busy k then 1 else 0))"

definition key_inv :: "Workload \<Rightarrow> bool" where
  "key_inv w \<longleftrightarrow> distinct (map or_Key (puts w)) \<and> (\<forall>op \<in> set (puts w). put_ok w op) \<and>
     (\<forall>i < length (wl_workers w). pc_ok i (wl_workers w ! i))"

definition acked_inv :: "Workload \<Rightarrow> bool" where
  "acked_inv w \<longleftrightarrow> aw_inv (wl_Acked w) \<and>
     (\<forall>k v. fmlookup (aw_values (wl_Acked w)) k = Some v \<longleftrightarrow>
        (\<exists>op \<in> set (puts w). or_Status op = StatusOK \<and> or_Key op = k \<and> or_Value op = v))"

lemma begin_op_cases:
  assumes "begin_op cf i ctxErr faultsDone readNow n start w = Inr w'"
  obtains (stop) "w' = set_worker i ((wl_workers w ! i)\<lparr>wk_pc := Stopped\<rparr>) w"
    | (reads) key where "wl_completed w < hard_cap cf" "w' = set_worker i ((wl_workers w ! i)\<lparr>wk_pc := Reading key start\<rparr>) w"
    | (writes) r where "wl_completed w < hard_cap cf" "r = wk_reqID (wl_workers w ! i) + 1"
        "w' = set_worker i ((wl_workers w ! i)\<lparr>wk_reqID := r, wk_pc := Writing (worker_key i r) (worker_value i r) start\<rparr>) w"
  using assms by (auto simp: begin_op_def hard_cap_def Let_def rbind_Inr_iff split: if_splits)

lemma mr_ops_Add:
  obtains op' where "mr_ops (Add op r) = mr_ops r @ [op']" "or_Op op' = or_Op op" "or_Key op' = or_Key op"
    "or_Value op' = or_Value op" "or_ClientID op' = or_ClientID op" "or_ReqID op' = or_ReqID op" "or_Status op' = or_Status op"
  by (auto simp: Add_def Let_def)

lemma finish_read_cases:
  assumes "finish_op env i now w = Inr w'" "wk_pc (wl_workers w ! i) = Reading key start"
  obtains c op where "wl_workers w' = (wl_workers w)[i := (wl_workers w ! i)\<lparr>wk_client := c, wk_pc := Idle\<rparr>]"
    "wl_completed w' = wl_completed w + 1" "wl_reads w' = wl_reads w + 1" "wl_writes w' = wl_writes w" "wl_Acked w' = wl_Acked w"
    "mr_ops (wl_Rec w') = mr_ops (wl_Rec w) @ [op]" "or_Op op = ''get''"
  using assms
  by (auto simp: finish_op_def Let_def rbind_Inr_iff wl_record_def set_worker_def Add_def split: prod.splits if_splits)

lemma finish_write_cases:
  assumes "finish_op env i now w = Inr w'" "wk_pc (wl_workers w ! i) = Writing key v start"
  obtains c op where "wl_workers w' = (wl_workers w)[i := (wl_workers w ! i)\<lparr>wk_client := c, wk_pc := Idle\<rparr>]"
    "wl_completed w' = wl_completed w + 1" "wl_writes w' = wl_writes w + 1" "wl_reads w' = wl_reads w"
    "wl_Acked w' = (if or_Status op = StatusOK then aw_Record key v (wl_Acked w) else wl_Acked w)"
    "mr_ops (wl_Rec w') = mr_ops (wl_Rec w) @ [op]" "or_Op op = ''put''" "or_ClientID op = int i" "or_Key op = key" "or_Value op = v"
    "or_ReqID op = wk_reqID (wl_workers w ! i)"
proof -
  obtain out c rqs where o: "tc_put env key v (worker_session i) (wk_reqID (wl_workers w ! i)) (wk_client (wl_workers w ! i)) = Inr (out, c, rqs)"
    using assms by (auto simp: finish_op_def Let_def rbind_Inr_iff)
  have "StatusOK \<noteq> StatusIndeterminate" by (simp add: StatusOK_def StatusIndeterminate_def)
  with o assms show thesis
    by (intro that [of c "last (mr_ops (wl_Rec w'))"])
      (auto simp: finish_op_def Let_def wl_record_def set_worker_def Add_def split: if_splits)
qed

lemma length_filter_update:
  "i < length xs \<Longrightarrow> length (filter P (xs[i := x])) + (if P (xs ! i) then 1 else 0) = length (filter P xs) + (if P x then 1 else 0)"
proof (induction xs arbitrary: i)
  case (Cons a xs)
  show ?case
  proof (cases i)
    case (Suc j)
    with Cons show ?thesis by force
  qed simp
qed simp

lemma in_set_update: "x \<in> set (xs[i := y]) \<Longrightarrow> x = y \<or> x \<in> set xs"
  using set_update_subset_insert by fastforce

lemma busy_count_update:
  assumes "i < length (wl_workers w)" "wl_workers w' = (wl_workers w)[i := k]"
  shows "busy_count w' + (if busy (wl_workers w ! i) then 1 else 0) = busy_count w + (if busy k then 1 else 0)"
  using length_filter_update [OF assms(1), of busy k] assms(2) by (simp add: busy_count_def)

lemma busy_count_less:
  assumes "i < length (wl_workers w)" "\<not> busy (wl_workers w ! i)"
  shows "busy_count w < length (wl_workers w)"
  unfolding busy_count_def using assms by (intro length_filter_less [where x = "wl_workers w ! i"]) auto

lemma count_inv_start: "count_inv cf (NewWorkload cf (mh_NewRecorder base) NewAckedWrites)"
  by (auto simp: count_inv_def NewWorkload_def mh_NewRecorder_def busy_count_def busy_def)

lemma busy_simps [simp]:
  "\<not> busy (k\<lparr>wk_pc := Stopped\<rparr>)" "\<not> busy (k\<lparr>wk_pc := Idle\<rparr>)" "\<not> busy (k\<lparr>wk_client := c, wk_pc := Idle\<rparr>)"
  "busy (k\<lparr>wk_pc := Reading key start\<rparr>)" "busy (k\<lparr>wk_reqID := r, wk_pc := Writing key v start\<rparr>)"
  by (simp_all add: busy_def)

lemma unat_Suc_small:
  assumes "int (unat r) < 2 ^ 63"
  shows "unat (r + 1) = unat (r :: u64) + 1"
proof -
  have "unat r < 2 ^ 63" using assms of_nat_less_numeral_power_cancel_iff [where 'a = int] by blast
  then show ?thesis by (simp add: unat_word_ariths)
qed

lemma pc_ok_update:
  "\<forall>j < length xs. pc_ok j (xs ! j) \<Longrightarrow> pc_ok i k \<Longrightarrow> \<forall>j < length xs. pc_ok j (xs[i := k] ! j)"
  by (metis nth_list_update_eq nth_list_update_neq)

lemma count_inv_begin:
  assumes "count_inv cf w" "i < length (wl_workers w)" "wk_pc (wl_workers w ! i) = Idle"
    "begin_op cf i ctxErr faultsDone readNow n start w = Inr w'"
  shows "count_inv cf w'"
proof -
  have idle: "\<not> busy (wl_workers w ! i)" using assms(3) by (simp add: busy_def)
  have room: "busy_count w < length (wl_workers w)" using busy_count_less [OF assms(2) idle] .
  have req: "int (unat (wk_reqID (wl_workers w ! i))) \<le> wl_completed w"
    using assms(1) idle nth_mem [OF assms(2)] by (fastforce simp: count_inv_def)
  have upd: "count_inv cf (set_worker i k w)"
    if k: "busy k \<longrightarrow> wl_completed w < hard_cap cf" "int (unat (wk_reqID k)) \<le> wl_completed w + (if busy k then 1 else 0)" for k
  proof -
    have "busy_count (set_worker i k w) = busy_count w + (if busy k then 1 else 0)"
      using busy_count_update [OF assms(2), of "set_worker i k w" k] idle by (simp add: set_worker_def)
    moreover have "\<forall>ka \<in> set ((wl_workers w)[i := k]). int (unat (wk_reqID ka)) \<le> wl_completed w + (if busy ka then 1 else 0)"
      using assms(1) k(2) unfolding count_inv_def by (blast dest: in_set_update)
    ultimately show ?thesis using assms(1) k(1) room unfolding count_inv_def set_worker_def by auto
  qed
  show ?thesis using assms(4)
  proof (cases rule: begin_op_cases)
    case (writes r)
    have "hard_cap cf < 2 ^ 63" using wrap64_range by (simp add: hard_cap_def)
    then have "int (unat (wk_reqID (wl_workers w ! i))) < 2 ^ 63" using req writes(1) by linarith
    then have "unat r = unat (wk_reqID (wl_workers w ! i)) + 1" using writes(2) unat_Suc_small by simp
    then have "int (unat r) \<le> wl_completed w + 1" using req by linarith
    then show ?thesis unfolding writes(3) by (intro upd) (use writes(1) in simp_all)
  qed (use upd req in simp_all)
qed

lemma count_inv_finish:
  assumes "count_inv cf w" "i < length (wl_workers w)" "busy (wl_workers w ! i)" "finish_op env i now w = Inr w'"
  shows "count_inv cf w'"
proof -
  obtain c op where w': "wl_workers w' = (wl_workers w)[i := (wl_workers w ! i)\<lparr>wk_client := c, wk_pc := Idle\<rparr>]"
    "wl_completed w' = wl_completed w + 1" "wl_writes w' + wl_reads w' = wl_writes w + wl_reads w + 1"
    "mr_ops (wl_Rec w') = mr_ops (wl_Rec w) @ [op]"
  proof (cases "wk_pc (wl_workers w ! i)")
    case (Reading key start)
    from assms(4) this show ?thesis by (rule finish_read_cases) (rule that; simp)
  next
    case (Writing key v start)
    from assms(4) this show ?thesis by (rule finish_write_cases) (rule that; simp)
  qed (use assms(3) in \<open>simp_all add: busy_def\<close>)
  have "busy_count w' + 1 = busy_count w" using busy_count_update [OF assms(2) w'(1)] assms(3) by simp
  moreover have "\<forall>k \<in> set (wl_workers w'). int (unat (wk_reqID k)) \<le> wl_completed w' + (if busy k then 1 else 0)"
  proof
    fix k assume "k \<in> set (wl_workers w')"
    then have k: "k = (wl_workers w ! i)\<lparr>wk_client := c, wk_pc := Idle\<rparr> \<or> k \<in> set (wl_workers w)"
      using w'(1) by (auto dest: in_set_update)
    have "int (unat (wk_reqID k)) \<le> wl_completed w + 1" if "k \<in> set (wl_workers w)" for k
      using assms(1) that by (fastforce simp: count_inv_def split: if_splits)
    with k assms(2) have "int (unat (wk_reqID k)) \<le> wl_completed w + 1" by auto
    then show "int (unat (wk_reqID k)) \<le> wl_completed w' + (if busy k then 1 else 0)" using w'(2) by simp
  qed
  ultimately show ?thesis using assms(1,2) w' unfolding count_inv_def by simp
qed

lemma next_reqID:
  assumes "count_inv cf w" "k \<in> set (wl_workers w)" "\<not> busy k" "wl_completed w < hard_cap cf"
  shows "wk_reqID k < wk_reqID k + 1"
proof -
  have "hard_cap cf < 2 ^ 63" using wrap64_range by (simp add: hard_cap_def)
  moreover have "int (unat (wk_reqID k)) \<le> wl_completed w" using assms(1-3) by (fastforce simp: count_inv_def)
  ultimately have "int (unat (wk_reqID k)) < 2 ^ 63" using assms(4) by linarith
  then have "unat (wk_reqID k + 1) = unat (wk_reqID k) + 1" by (rule unat_Suc_small)
  then show ?thesis by (simp add: word_less_nat_alt)
qed

lemma put_ok_update:
  assumes "put_ok w op" "i < length (wl_workers w)" "wl_workers w' = (wl_workers w)[i := k]"
    "wk_reqID (wl_workers w ! i) \<le> wk_reqID k"
    "\<And>key v start. wk_pc k = Writing key v start \<Longrightarrow> wk_reqID (wl_workers w ! i) < wk_reqID k"
  shows "put_ok w' op"
proof -
  obtain j where j: "j < length (wl_workers w)" "or_ClientID op = int j" "or_Key op = worker_key j (or_ReqID op)"
    "or_Value op = worker_value j (or_ReqID op)" "or_ReqID op \<le> wk_reqID (wl_workers w ! j)"
    "\<forall>key v start. wk_pc (wl_workers w ! j) = Writing key v start \<longrightarrow> or_ReqID op < wk_reqID (wl_workers w ! j)"
    using assms(1) by (auto simp: put_ok_def)
  have "or_ReqID op \<le> wk_reqID (wl_workers w' ! j) \<and>
    (\<forall>key v start. wk_pc (wl_workers w' ! j) = Writing key v start \<longrightarrow> or_ReqID op < wk_reqID (wl_workers w' ! j))"
  proof (cases "i = j")
    case True
    have "or_ReqID op \<le> wk_reqID k" using True j(5) assms(4) by simp
    moreover have "or_ReqID op < wk_reqID k" if "wk_pc k = Writing key v start" for key v start
      using assms(5) [OF that] True j(5) by simp
    ultimately show ?thesis using True j(1) assms(3) by simp
  qed (use j assms(3) in simp)
  then show ?thesis unfolding put_ok_def using j(1-4) assms(3) by (intro exI [of _ j]) simp
qed

lemma begin_op_keeps:
  assumes "begin_op cf i ctxErr faultsDone readNow n start w = Inr w'"
  shows "wl_Rec w' = wl_Rec w" "wl_Acked w' = wl_Acked w"
  using assms by (cases rule: begin_op_cases; simp add: set_worker_def)+

lemma key_inv_begin:
  assumes "key_inv w" "count_inv cf w" "i < length (wl_workers w)" "wk_pc (wl_workers w ! i) = Idle"
    "begin_op cf i ctxErr faultsDone readNow n start w = Inr w'"
  shows "key_inv w'"
proof -
  have mem: "wl_workers w ! i \<in> set (wl_workers w)" "\<not> busy (wl_workers w ! i)" using assms(3,4) by (auto simp: busy_def)
  obtain k where k: "wl_workers w' = (wl_workers w)[i := k]" "wk_reqID (wl_workers w ! i) \<le> wk_reqID k"
    "\<And>key v start. wk_pc k = Writing key v start \<Longrightarrow> wk_reqID (wl_workers w ! i) < wk_reqID k" "pc_ok i k"
    using assms(5)
  proof (cases rule: begin_op_cases)
    case (writes r)
    then have "wk_reqID (wl_workers w ! i) < r" using next_reqID [OF assms(2) mem] by simp
    then show ?thesis
      using writes by (intro that [of "(wl_workers w ! i)\<lparr>wk_reqID := r, wk_pc := Writing (worker_key i r) (worker_value i r) start\<rparr>"])
        (auto simp: set_worker_def pc_ok_def)
  qed (auto simp: set_worker_def pc_ok_def intro: that)
  have "puts w' = puts w" using begin_op_keeps [OF assms(5)] by (simp add: puts_def)
  moreover have "\<forall>op \<in> set (puts w). put_ok w' op"
    using assms(1) put_ok_update [OF _ assms(3) k(1-3)] by (auto simp: key_inv_def)
  moreover have "\<forall>j < length (wl_workers w'). pc_ok j (wl_workers w' ! j)"
    using assms(1) k(1,4) pc_ok_update by (simp add: key_inv_def)
  ultimately show ?thesis using assms(1) by (simp add: key_inv_def)
qed

lemma finish_keeps:
  assumes "key_inv w" "i < length (wl_workers w)" "wl_workers w' = (wl_workers w)[i := (wl_workers w ! i)\<lparr>wk_client := c, wk_pc := Idle\<rparr>]"
  shows "\<forall>op \<in> set (puts w). put_ok w' op" "\<forall>j < length (wl_workers w'). pc_ok j (wl_workers w' ! j)"
proof -
  show "\<forall>op \<in> set (puts w). put_ok w' op"
    using assms(1) put_ok_update [OF _ assms(2,3)] by (auto simp: key_inv_def)
  show "\<forall>j < length (wl_workers w'). pc_ok j (wl_workers w' ! j)"
    using assms(1,3) pc_ok_update [of "wl_workers w" i] by (simp add: key_inv_def) (simp add: pc_ok_def)
qed

lemma writing_key_fresh:
  assumes "key_inv w" "i < length (wl_workers w)" "wk_pc (wl_workers w ! i) = Writing key v start" "op \<in> set (puts w)"
  shows "or_Key op \<noteq> key"
proof
  assume eq: "or_Key op = key"
  have "key = worker_key i (wk_reqID (wl_workers w ! i))" using assms(1-3) by (auto simp: key_inv_def pc_ok_def)
  moreover obtain j where j: "or_Key op = worker_key j (or_ReqID op)"
    "\<forall>key v start. wk_pc (wl_workers w ! j) = Writing key v start \<longrightarrow> or_ReqID op < wk_reqID (wl_workers w ! j)"
    using assms(1,4) by (auto simp: key_inv_def put_ok_def)
  ultimately have "j = i" "or_ReqID op = wk_reqID (wl_workers w ! i)" using eq worker_key_inj by metis+
  then show False using j(2) assms(3) by auto
qed

lemma key_inv_finish:
  assumes "key_inv w" "acked_inv w" "i < length (wl_workers w)" "busy (wl_workers w ! i)" "finish_op env i now w = Inr w'"
  shows "key_inv w' \<and> acked_inv w'"
proof (cases "wk_pc (wl_workers w ! i)")
  case (Reading key start)
  from assms(5) this obtain c op where w': "wl_workers w' = (wl_workers w)[i := (wl_workers w ! i)\<lparr>wk_client := c, wk_pc := Idle\<rparr>]"
    "wl_Acked w' = wl_Acked w" "mr_ops (wl_Rec w') = mr_ops (wl_Rec w) @ [op]" "or_Op op = ''get''"
    by (rule finish_read_cases)
  then have "puts w' = puts w" by (simp add: puts_def)
  then show ?thesis using finish_keeps [OF assms(1,3) w'(1)] assms(1,2) w'(2) by (simp add: key_inv_def acked_inv_def)
next
  case (Writing key v start)
  from assms(5) this obtain c op where w': "wl_workers w' = (wl_workers w)[i := (wl_workers w ! i)\<lparr>wk_client := c, wk_pc := Idle\<rparr>]"
    "wl_Acked w' = (if or_Status op = StatusOK then aw_Record key v (wl_Acked w) else wl_Acked w)"
    "mr_ops (wl_Rec w') = mr_ops (wl_Rec w) @ [op]" "or_Op op = ''put''" "or_ClientID op = int i" "or_Key op = key" "or_Value op = v"
    "or_ReqID op = wk_reqID (wl_workers w ! i)"
    by (rule finish_write_cases)
  have puts: "puts w' = puts w @ [op]" using w' by (simp add: puts_def)
  have kv: "key = worker_key i (wk_reqID (wl_workers w ! i))" "v = worker_value i (wk_reqID (wl_workers w ! i))"
    using assms(1,3) Writing by (auto simp: key_inv_def pc_ok_def)
  have fresh: "\<forall>op \<in> set (puts w). or_Key op \<noteq> key" using writing_key_fresh [OF assms(1,3) Writing] by blast
  have "put_ok w' op" unfolding put_ok_def using w' kv assms(3) by (intro exI [of _ i]) simp
  then have "key_inv w'" using finish_keeps [OF assms(1,3) w'(1)] puts fresh w'(6) assms(1) by (auto simp: key_inv_def)
  moreover have "acked_inv w'"
    using assms(2) fresh w' aw_inv_Record by (auto simp: acked_inv_def puts)
  ultimately show ?thesis by blast
qed (use assms(4) in \<open>simp_all add: busy_def\<close>)

lemma traffic_run_inv: "traffic_run cf w \<Longrightarrow> count_inv cf w \<and> key_inv w \<and> acked_inv w"
proof (induction rule: traffic_run.induct)
  case (start base)
  show ?case using count_inv_start
    by (simp add: key_inv_def acked_inv_def puts_def NewWorkload_def mh_NewRecorder_def pc_ok_def)
      (simp add: NewAckedWrites_def)
next
  case (steps w w')
  from steps.hyps(2) show ?case
  proof cases
    case (begins i ctxErr faultsDone readNow n start)
    then have "key_inv w'" "count_inv cf w'" using key_inv_begin count_inv_begin steps.IH by blast+
    moreover have "acked_inv w'" using steps.IH begin_op_keeps [OF begins(3)] by (simp add: acked_inv_def puts_def)
    ultimately show ?thesis by blast
  next
    case (finishes i env now)
    then have "busy (wl_workers w ! i)" by (simp add: busy_def)
    then show ?thesis using key_inv_finish count_inv_finish steps.IH finishes by blast
  qed
qed

section \<open>Verification\<close>

definition read_back :: "string \<Rightarrow> string \<Rightarrow> OpRecord \<Rightarrow> bool" where
  "read_back k v op \<longleftrightarrow> or_Op op = ''get'' \<and> or_Key op = k \<and> or_Status op = StatusOK \<and> or_ObservedFound op \<and> or_ObservedVal op = v"

definition reported :: "string \<Rightarrow> string \<Rightarrow> Mismatch list \<Rightarrow> bool" where
  "reported k v ms \<longleftrightarrow> (\<exists>m \<in> set ms. mm_Key m = k \<and> mm_Expected m = v)"

text \<open>One round of the loop.\<close>

text \<open>
  The record of a read of the verification: it carries the phase of the verification, and a read against the
  network of one of its rounds found the value.
\<close>

definition verified_read :: "verify_env \<Rightarrow> string \<Rightarrow> KeyValue \<Rightarrow> OpRecord \<Rightarrow> bool" where
  "verified_read env phase p op \<longleftrightarrow> read_back (kv_Key p) (kv_Value p) op \<and> (phase \<noteq> '''' \<longrightarrow> or_Phase op = phase) \<and>
     (\<exists>n c out c1 rqs. tc_get (ve_net env n) (kv_Key p) c = Inr (out, c1, rqs) \<and> oo_ok out \<and> oo_found out \<and> oo_val out = kv_Value p)"

lemma verify_loop_Cons:
  assumes "verify_loop env vid phase n (p # ps) c w = Inr (ms, False, w')"
  obtains c1 w2 found ms' op where "verify_loop env vid phase (Suc n) ps c1 w2 = Inr (ms', False, w')" "ms = found @ ms'"
    "mr_ops (wl_Rec w2) = mr_ops (wl_Rec w) @ [op]"
    "reported (kv_Key p) (kv_Value p) found \<or> verified_read env phase p op"
proof -
  have "\<not> ve_ctxErr env n" using assms by auto
  with assms obtain out c1 rqs where o: "tc_get (ve_net env n) (kv_Key p) c = Inr (out, c1, rqs)"
    by (auto simp: rbind_Inr_iff)
  define rec where "rec = verify_record vid phase (kv_Key p) (ve_start env n) (ve_now env n) out (wl_Rec w)"
  define w1 where "w1 = w\<lparr>wl_Rec := Add rec (wl_Rec w)\<rparr>"
  define op where "op = last (mr_ops (wl_Rec w1))"
  have op: "mr_ops (wl_Rec w1) = mr_ops (wl_Rec w) @ [op]" by (simp add: w1_def op_def Add_def Let_def)
  have "read_back (kv_Key p) (kv_Value p) op \<and> (phase \<noteq> '''' \<longrightarrow> or_Phase op = phase)" if "oo_ok out" "oo_found out" "oo_val out = kv_Value p"
    using that by (simp add: read_back_def op_def w1_def Add_def rec_def verify_record_def Let_def)
  then have rb: "verified_read env phase p op" if "oo_ok out" "oo_found out" "oo_val out = kv_Value p"
    using that o unfolding verified_read_def by blast
  consider "\<not> oo_ok out" | "oo_ok out" "\<not> oo_found out \<or> oo_val out \<noteq> kv_Value p" | "oo_ok out" "oo_found out" "oo_val out = kv_Value p"
    by blast
  then show thesis
  proof cases
    case 1
    with assms o \<open>\<not> ve_ctxErr env n\<close> show ?thesis
      by (auto simp: Let_def rbind_Inr_iff reported_def op rec_def [symmetric] w1_def [symmetric] intro!: that [of c1 w1])
  next
    case 2
    with assms o \<open>\<not> ve_ctxErr env n\<close> show ?thesis
      by (auto simp: Let_def rbind_Inr_iff reported_def op rec_def [symmetric] w1_def [symmetric] intro!: that [of c1 "w1\<lparr>wl_lost := wl_lost w1 + 1\<rparr>"])
  next
    case 3
    with assms o \<open>\<not> ve_ctxErr env n\<close> rb show ?thesis
      by (auto simp: Let_def rbind_Inr_iff op rec_def [symmetric] w1_def [symmetric] intro!: that [of c1 w1])
  qed
qed

lemma verify_loop_keeps:
  "verify_loop env vid phase n ps c w = Inr (ms, False, w') \<Longrightarrow> set (mr_ops (wl_Rec w)) \<subseteq> set (mr_ops (wl_Rec w'))"
proof (induction ps arbitrary: n c w ms)
  case (Cons p ps)
  from Cons.prems show ?case
  proof (rule verify_loop_Cons)
    fix c1 w2 found ms' op
    assume "verify_loop env vid phase (Suc n) ps c1 w2 = Inr (ms', False, w')" "mr_ops (wl_Rec w2) = mr_ops (wl_Rec w) @ [op]"
    with Cons.IH show ?thesis by fastforce
  qed
qed simp

lemma verify_loop_covers:
  "verify_loop env vid phase n ps c w = Inr (ms, False, w') \<Longrightarrow> p \<in> set ps \<Longrightarrow>
     reported (kv_Key p) (kv_Value p) ms \<or> (\<exists>op \<in> set (mr_ops (wl_Rec w')). verified_read env phase p op)"
proof (induction ps arbitrary: n c w ms)
  case (Cons q ps)
  from Cons.prems(1) show ?case
  proof (rule verify_loop_Cons)
    fix c1 w2 found ms' op
    assume l: "verify_loop env vid phase (Suc n) ps c1 w2 = Inr (ms', False, w')" "ms = found @ ms'"
      "mr_ops (wl_Rec w2) = mr_ops (wl_Rec w) @ [op]"
      "reported (kv_Key q) (kv_Value q) found \<or> verified_read env phase q op"
    have "op \<in> set (mr_ops (wl_Rec w'))" using verify_loop_keeps [OF l(1)] l(3) by auto
    then show ?thesis using Cons.IH [OF l(1)] Cons.prems(2) l(2,4) by (auto simp: reported_def)
  qed
qed simp

lemma VerifyAcked_clean:
  assumes "VerifyAcked env cf phase w = Inr ([], n, False, w')" "p \<in> set (aw_All (wl_Acked w))"
  shows "\<exists>rd \<in> set (mr_ops (wl_Rec w')). verified_read env phase p rd"
proof -
  have "verify_loop env (rc_Concurrency cf) phase 0 (aw_All (wl_Acked w)) (newTrafficClient (rc_Endpoints cf)) w = Inr ([], False, w')"
    using assms(1) by (auto simp: VerifyAcked_def rbind_Inr_iff Let_def split: prod.splits)
  from verify_loop_covers [OF this assms(2)] show ?thesis by (simp add: reported_def)
qed

section \<open>Properties\<close>

text \<open>
  A write of a traffic client sends at most twelve requests, all with the same body (and so the same
  client and request number, which the state machine uses to apply it once) and for the same key; the call
  always returns, and it counts as acknowledged exactly when a node answered one of the requests with 200.
\<close>

theorem put_is_one_request:
  assumes "endpoints \<noteq> []"
  shows "\<exists>out c rqs. tc_put env key v session reqID (newTrafficClient endpoints) = Inr (out, c, rqs) \<and>
    length rqs \<le> 12 \<and> oo_attempts out \<le> 12 \<and>
    (\<forall>rq \<in> set rqs. rq_Body rq = put_body v session reqID \<and> suffix (''/kv/'' @ key) (rq_URL rq)) \<and>
    (oo_ok out \<longleftrightarrow> (\<exists>j < length rqs. \<exists>loc b. ae_Do env j (rqs ! j) = Reply 200 loc b))"
proof -
  have c: "tc_endpoints (newTrafficClient endpoints) \<noteq> []" "tc_maxAttempts (newTrafficClient endpoints) = 12"
    using assms by (simp_all add: newTrafficClient_def)
  obtain out c' rqs where r: "tc_put env key v session reqID (newTrafficClient endpoints) = Inr (out, c', rqs)"
    "put_post env key v (put_body v session reqID) 12 0 0 (out, c', rqs)"
    by (rule tc_put_total [OF c(1), of env key v session reqID]) (simp add: c(2))
  from r(2) have "length rqs \<le> 12 \<and> oo_attempts out \<le> 12 \<and>
    (\<forall>rq \<in> set rqs. rq_Body rq = put_body v session reqID \<and> suffix (''/kv/'' @ key) (rq_URL rq)) \<and>
    (oo_ok out \<longleftrightarrow> (\<exists>j < length rqs. \<exists>loc b. ae_Do env j (rqs ! j) = Reply 200 loc b))"
    by (auto simp: put_post_def answered_def put_request_def suffix_def)
  with r(1) show ?thesis by blast
qed

text \<open>
  C23: in every interleaving of the workers no two writes use the same key, and the table of acknowledged
  writes holds exactly the keys and values of the writes that a node acknowledged, so what a later read has
  to return is never ambiguous.
\<close>

theorem acknowledged_writes_unambiguous:
  assumes "traffic_run cf w"
  shows "distinct (map or_Key (puts w)) \<and>
    (\<forall>k v. fmlookup (aw_values (wl_Acked w)) k = Some v \<longleftrightarrow>
       (\<exists>op \<in> set (puts w). or_Status op = StatusOK \<and> or_Key op = k \<and> or_Value op = v))"
  using traffic_run_inv [OF assms] by (simp add: key_inv_def acked_inv_def)

text \<open>
  The workers together never overshoot the cap of four times the target by more than one operation
  each, the completed operations are all in the history, and they are the reads and the writes.
\<close>

theorem run_operations_bounded:
  assumes "traffic_run cf w" "0 < rc_Ops cf" "rc_Ops cf < 2 ^ 61"
  shows "wl_completed w < 4 * rc_Ops cf + int (rc_Concurrency cf) \<and>
    wl_completed w = int (length (mr_ops (wl_Rec w))) \<and> wl_completed w = wl_reads w + wl_writes w"
proof -
  have "hard_cap cf = 4 * rc_Ops cf" using assms(2,3) unfolding hard_cap_def by (subst wrap64_id) auto
  then show ?thesis using traffic_run_inv [OF assms(1)] assms(2) by (auto simp: count_inv_def)
qed

text \<open>
  C24: when the verification after the run ends without a mismatch, every write that was acknowledged
  during the run has been read back with its value, and that read is in the history the checker gets.
\<close>

theorem clean_verification_reads_back:
  assumes "traffic_run cf w" "VerifyAcked env cf phase w = Inr ([], n, False, w')"
    "op \<in> set (puts w)" "or_Status op = StatusOK"
  shows "\<exists>rd \<in> set (mr_ops (wl_Rec w')). read_back (or_Key op) (or_Value op) rd"
proof -
  have acked: "acked_inv w" using traffic_run_inv [OF assms(1)] by simp
  then have "\<lparr>kv_Key = or_Key op, kv_Value = or_Value op\<rparr> \<in> set (aw_All (wl_Acked w))"
    using assms(3,4) set_aw_All [of "wl_Acked w"] by (auto simp: acked_inv_def)
  from VerifyAcked_clean [OF assms(2) this] show ?thesis by (auto simp: verified_read_def)
qed

section \<open>Witnesses\<close>

text \<open>A node that redirects once and then answers, and one worker that writes one key.\<close>

definition wit_net :: attempt_env where
  "wit_net = \<lparr>ae_Intn = (\<lambda>_. 0), ae_NewRequest = (\<lambda>_. None),
     ae_Do = (\<lambda>i rq. if i = 0 \<and> rq_Method rq = ''PUT'' then Reply 307 ''http://b/kv/x'' ''''
       else Reply 200 '''' (jprint (JObj [(''value'', JStr ''v-w0-000001''), (''found'', JBool True)]))),
     ae_CtxErr = (\<lambda>_. False)\<rparr>"

definition wit_cf :: run_cfg where
  "wit_cf = \<lparr>rc_Ops = 1, rc_Concurrency = 1, rc_Endpoints = [''http://a'']\<rparr>"

definition wit_w0 :: Workload where
  "wit_w0 = NewWorkload wit_cf (mh_NewRecorder 0) NewAckedWrites"

definition wit_w1 :: Workload where
  "wit_w1 = (case begin_op wit_cf 0 False False False 0 10 wit_w0 of Inr w \<Rightarrow> w | Inl _ \<Rightarrow> wit_w0)"

definition wit_w2 :: Workload where
  "wit_w2 = (case finish_op wit_net 0 20 wit_w1 of Inr w \<Rightarrow> w | Inl _ \<Rightarrow> wit_w0)"

definition wit_verify :: verify_env where
  "wit_verify = \<lparr>ve_ctxErr = (\<lambda>_. False), ve_net = (\<lambda>_. wit_net), ve_start = (\<lambda>_. 30), ve_now = (\<lambda>_. 40)\<rparr>"

lemma wit_traffic_run: "traffic_run wit_cf wit_w2"
proof -
  have "traffic_run wit_cf wit_w0" unfolding wit_w0_def by (rule traffic_run.start)
  moreover have "traffic_step wit_cf wit_w0 wit_w1"
    by (rule begins [of 0 _ _ False False False 0 10]) code_simp+
  moreover have "traffic_step wit_cf wit_w1 wit_w2"
    by (rule finishes [of 0 _ wit_net 20]) code_simp+
  ultimately show ?thesis using traffic_run.steps by blast
qed

theorem put_is_one_request_witness:
  "\<exists>out c rqs. tc_put wit_net ''k'' ''v'' ''s'' 1 (newTrafficClient [''http://a'']) = Inr (out, c, rqs) \<and> length rqs \<le> 12"
  using put_is_one_request [of "[''http://a'']" wit_net "''k''" "''v''" "''s''" 1] by auto

theorem acknowledged_writes_unambiguous_witness: "distinct (map or_Key (puts wit_w2))"
  using acknowledged_writes_unambiguous [OF wit_traffic_run] by simp

theorem run_operations_bounded_witness: "wl_completed wit_w2 < 5"
  using run_operations_bounded [OF wit_traffic_run] by (simp add: wit_cf_def)

theorem clean_verification_reads_back_witness:
  "\<exists>w'. VerifyAcked wit_verify wit_cf PhaseVerify wit_w2 = Inr ([], 1, False, w') \<and>
     (\<exists>rd \<in> set (mr_ops (wl_Rec w')). read_back ''mh-w0-000001'' ''v-w0-000001'' rd)"
proof -
  have p: "list_ex (\<lambda>op. or_Status op = StatusOK \<and> or_Key op = ''mh-w0-000001'' \<and> or_Value op = ''v-w0-000001'') (puts wit_w2)"
    by code_simp
  have "(case VerifyAcked wit_verify wit_cf PhaseVerify wit_w2 of Inr (ms, n, b, _) \<Rightarrow> ms = [] \<and> n = 1 \<and> \<not> b | Inl _ \<Rightarrow> False)"
    by code_simp
  then obtain w' where v: "VerifyAcked wit_verify wit_cf PhaseVerify wit_w2 = Inr ([], 1, False, w')"
    by (auto split: sum.splits prod.splits)
  from p obtain op where "op \<in> set (puts wit_w2)" "or_Status op = StatusOK" "or_Key op = ''mh-w0-000001''" "or_Value op = ''v-w0-000001''"
    by (auto simp: list_ex_iff)
  with clean_verification_reads_back [OF wit_traffic_run v] v show ?thesis by metis
qed

end
