(* ===== verification/ClientServer.thy ===== *)
theory ClientServer
  imports ServerExamples TrafficFacts
begin

text \<open>
  What the server and the traffic client promise each other: a redirect leads the client to the leader,
  and copies of one command are applied once.  Theory \<open>ClientRequests\<close> follows the requests of a write through
  the routes of the server.
\<close>

section \<open>Redirects\<close>

lemma index_of_first:
  assumes "\<not> contains_str (u @ butlast sub) sub" "sub \<noteq> []"
  shows "index_of sub (u @ sub @ rest) = Some (length u)"
proof -
  obtain n where n: "index_of sub (u @ sub @ rest) = Some n" using index_of_found by blast
  then have le: "n \<le> length u" using index_of_append by blast
  have "n = length u"
  proof (rule ccontr)
    assume "n \<noteq> length u"
    then have less: "n < length u" using le by simp
    obtain post where "drop n (u @ sub @ rest) = sub @ post" using index_of_prefix [OF n] by (auto elim: prefixE)
    then have d: "drop n u @ sub @ rest = sub @ post" using less by simp
    have "take (length (drop n u) + length (butlast sub)) (drop n u @ sub @ rest) = drop n u @ butlast sub"
      by (simp add: butlast_conv_take)
    moreover have "length sub \<le> length (drop n u) + length (butlast sub)" using less assms(2) by simp
    ultimately have "\<exists>post'. drop n u @ butlast sub = sub @ post'" using d by (auto intro: sym)
    then obtain post' where "drop n u @ butlast sub = sub @ post'" by blast
    then have "u @ butlast sub = take n u @ sub @ post'" by (metis append_assoc append_take_drop_id)
    then show False using assms(1) contains_str_iff by blast
  qed
  with n show ?thesis by simp
qed

lemma leaderFromLocation_url:
  assumes "\<not> contains_str (u @ ''/kv'') ''/kv/''" "\<not> suffix ''/'' u"
  shows "leaderFromLocation (u @ ''/kv/'' @ rest) = u"
  using index_of_first [of u "''/kv/''" rest] assms by (simp add: leaderFromLocation_def trim_suffix_def)

section \<open>Bodies\<close>

lemma write_op_put_body:
  assumes "utf8_valid v" "utf8_valid session" "hr_Method r = ''PUT''" "hr_Body r = put_body v session reqID"
  shows "write_op r key = Some \<lparr>op_Type = OpPut, op_Key = key, op_Val = v, op_ClientID = session, op_ReqID = reqID\<rparr>"
proof -
  let ?kvs = "[(''client_id'', JStr session), (''op'', JStr ''put''), (''req_id'', JNum (format_uint reqID)), (''value'', JStr v)]"
  have "utf8_valid ''client_id''" "utf8_valid ''op''" "utf8_valid ''put''" "utf8_valid ''req_id''" "utf8_valid ''value''"
    by code_simp+
  then have "jvalid (JObj ?kvs)" using assms by simp
  then have "jdecode (put_body v session reqID) = Some (JObj ?kvs)"
    unfolding put_body_def
    by (subst jdecode_jprint) (simp_all add: jcoerce_valid max_depth_def del: jcoerce.simps jprint.simps)
  then show ?thesis using assms(3,4)
    by (simp add: write_op_def get_struct_def set_kvWriteReq_def zero_kvWriteReq_def OpPut_def)
qed

lemma Apply_retry:
  assumes "op_ClientID op \<noteq> ''''"
  shows "fst (Apply (fst (Apply m op)) op) = fst (Apply m op)"
proof -
  have "cached (fst (Apply m op)) op \<noteq> None"
    using assms by (auto simp: Apply_def cached_def Let_def split_beta split: option.splits if_splits)
  then show ?thesis by (cases "cached (fst (Apply m op)) op") (auto simp: Apply_def [of "fst (Apply m op)"])
qed

lemma apply_log_retries:
  assumes "op_ClientID op \<noteq> ''''"
  shows "fst (apply_log (fst (Apply m op)) (replicate n op)) = fst (Apply m op)"
  by (induction n) (simp_all add: Let_def split_beta Apply_retry [OF assms])

section \<open>Properties\<close>

text \<open>
  C26: a client that follows the redirect of a follower contacts the leader next: what the client cuts out
  of the \<open>Location\<close> header is exactly the URL the server has for the leader, for every URL without a path that
  contains \<open>/kv/\<close> and without a slash at the end.
\<close>

theorem redirect_reaches_leader:
  assumes "hp_Code (writeProposeErr r (ErrNotLeader l) s) = 307" "hr_URI r = ''/kv/'' @ rest" "fmlookup (sv_peers s) l = Some u"
    "\<not> contains_str (u @ ''/kv'') ''/kv/''" "\<not> suffix ''/'' u"
  shows "contains_str (hp_Location (writeProposeErr r (ErrNotLeader l) s)) ''/kv/'' \<and>
    tc_base rnd (c\<lparr>tc_leader := leaderFromLocation (hp_Location (writeProposeErr r (ErrNotLeader l) s))\<rparr>) = Inr u"
proof -
  have "u \<noteq> ''''" "l \<noteq> 0" using assms(1,3) by (auto simp: writeProposeErr_def writeJSON_def split: if_splits)
  then have loc: "hp_Location (writeProposeErr r (ErrNotLeader l) s) = u @ ''/kv/'' @ rest"
    using assms(2,3) by (simp add: writeProposeErr_def)
  then have "contains_str (hp_Location (writeProposeErr r (ErrNotLeader l) s)) ''/kv/''"
    using contains_str_iff by metis
  then show ?thesis using \<open>u \<noteq> ''''\<close> leaderFromLocation_url [OF assms(4,5)] by (simp add: loc tc_base_def)
qed



section \<open>Witnesses\<close>

theorem redirect_reaches_leader_witness:
  "tc_base 0 ((newTrafficClient [''http://x''])\<lparr>tc_leader :=
     leaderFromLocation (hp_Location (writeProposeErr wit_write (ErrNotLeader 2) wit_server))\<rparr>) = Inr ''http://b''"
proof -
  have "hp_Code (writeProposeErr wit_write (ErrNotLeader 2) wit_server) = 307" "hr_URI wit_write = ''/kv/'' @ ''k''"
    "fmlookup (sv_peers wit_server) 2 = Some ''http://b''" "\<not> contains_str (''http://b'' @ ''/kv'') ''/kv/''" "\<not> suffix ''/'' ''http://b''"
    by code_simp+
  from redirect_reaches_leader [OF this, of 0 "newTrafficClient [''http://x'']"] show ?thesis by blast
qed

end
