(* ===== verification/GoNet.thy ===== *)
theory GoNet
  imports GoStrings
begin

text \<open>
  More of Go's standard library, as the command line tools and the driver use it: splitting, trimming, joining and
  replacing in \<open>strings\<close>, \<open>strconv.Atoi\<close>, and the addresses of \<open>net\<close> (\<open>JoinHostPort\<close>, \<open>SplitHostPort\<close>,
  \<open>ParseIP\<close> with its IPv4 and IPv6 syntax, \<open>IP.IsLoopback\<close>).
\<close>

section \<open>White space\<close>

text \<open>The UTF-8 encodings of the runes of \<open>unicode.IsSpace\<close>.\<close>

definition space_runes :: "string list" where
  "space_runes = map (map char_of)
     ([[9], [10], [11], [12], [13], [32], [194, 133], [194, 160], [225, 154, 128 :: nat]] @
      map (\<lambda>b. [226, 128, b]) ([128..<139] @ [168, 169, 175]) @ [[226, 129, 159], [227, 128, 128]])"

definition lead_space :: "string \<Rightarrow> nat" where
  "lead_space s = (case find (\<lambda>r. prefix r s) space_runes of None \<Rightarrow> 0 | Some r \<Rightarrow> length r)"

definition trail_space :: "string \<Rightarrow> nat" where
  "trail_space s = (case find (\<lambda>r. suffix r s) space_runes of None \<Rightarrow> 0 | Some r \<Rightarrow> length r)"

lemma lead_space_le: "lead_space s \<le> length s"
  by (auto simp: lead_space_def find_Some_iff dest: prefix_length_le split: option.split)

lemma trail_space_le: "trail_space s \<le> length s"
  by (auto simp: trail_space_def find_Some_iff dest: suffix_length_le split: option.split)

lemma lead_space_shorter: "lead_space s \<noteq> 0 \<Longrightarrow> length s - lead_space s < length s"
  using lead_space_le [of s] by simp

lemma trail_space_shorter: "trail_space s \<noteq> 0 \<Longrightarrow> length s - trail_space s < length s"
  using trail_space_le [of s] by simp

function trim_left :: "string \<Rightarrow> string" where
  "trim_left s = (if lead_space s = 0 then s else trim_left (drop (lead_space s) s))"
  by pat_completeness auto
termination
  by (relation "measure length") (simp_all add: lead_space_shorter)

function trim_right :: "string \<Rightarrow> string" where
  "trim_right s = (if trail_space s = 0 then s else trim_right (take (length s - trail_space s) s))"
  by pat_completeness auto
termination
  by (relation "measure length") (simp_all add: trail_space_shorter)

declare trim_left.simps [simp del] trim_right.simps [simp del]

definition TrimSpace :: "string \<Rightarrow> string" where
  "TrimSpace s = trim_right (trim_left s)"

text \<open>\<open>strings.Fields\<close>: the runs of bytes between white space.\<close>

function fields_from :: "string \<Rightarrow> string \<Rightarrow> string list" where
  "fields_from acc s =
     (if s = [] then (if acc = [] then [] else [rev acc])
      else if lead_space s = 0 then fields_from (hd s # acc) (tl s)
      else (if acc = [] then [] else [rev acc]) @ fields_from [] (drop (lead_space s) s))"
  by pat_completeness auto
termination
  by (relation "measure (\<lambda>(_, s). length s)") (simp_all add: lead_space_shorter)

declare fields_from.simps [simp del]

definition Fields :: "string \<Rightarrow> string list" where
  "Fields s = fields_from [] s"

section \<open>Splitting, joining and replacing\<close>

fun split_char :: "char \<Rightarrow> string \<Rightarrow> string list" where
  "split_char c [] = [[]]"
| "split_char c (x # xs) =
     (if x = c then [] # split_char c xs
      else case split_char c xs of [] \<Rightarrow> [[x]] | p # ps \<Rightarrow> (x # p) # ps)"

text \<open>\<open>strings.SplitN(s, c, 2)\<close>\<close>

definition split_two :: "char \<Rightarrow> string \<Rightarrow> string list" where
  "split_two c s = (if c \<in> set s then [takeWhile (\<lambda>x. x \<noteq> c) s, tl (dropWhile (\<lambda>x. x \<noteq> c) s)] else [s])"

fun join_with :: "string \<Rightarrow> string list \<Rightarrow> string" where
  "join_with sep [] = []"
| "join_with sep [p] = p"
| "join_with sep (p # q # ps) = p @ sep @ join_with sep (q # ps)"

definition replace_char :: "char \<Rightarrow> string \<Rightarrow> string \<Rightarrow> string" where
  "replace_char c new s = concat (map (\<lambda>x. if x = c then new else [x]) s)"

definition contains_any :: "string \<Rightarrow> string \<Rightarrow> bool" where
  "contains_any s chars = list_ex (\<lambda>c. c \<in> set chars) s"

text \<open>\<open>strconv.Atoi\<close> on a 64 bit machine.\<close>

definition Atoi :: "string \<Rightarrow> int option" where
  "Atoi s =
     (let neg = (s \<noteq> [] \<and> hd s = CHR ''-''); d = (if s \<noteq> [] \<and> (hd s = CHR ''-'' \<or> hd s = CHR ''+'') then tl s else s);
          n = int (nat_of_dec 0 d); v = (if neg then - n else n)
      in if d \<noteq> [] \<and> list_all is_digit d \<and> - (2 ^ 63) \<le> v \<and> v < 2 ^ 63 then Some v else None)"

section \<open>Addresses\<close>

definition JoinHostPort :: "string \<Rightarrow> string \<Rightarrow> string" where
  "JoinHostPort host port =
     (if CHR '':'' \<in> set host then ''['' @ host @ '']:'' @ port else host @ '':'' @ port)"

definition index_char :: "char \<Rightarrow> string \<Rightarrow> nat" where
  "index_char c s = length (takeWhile (\<lambda>x. x \<noteq> c) s)"

definition last_char_index :: "char \<Rightarrow> string \<Rightarrow> nat" where
  "last_char_index c s = length s - 1 - index_char c (rev s)"

text \<open>\<open>net.SplitHostPort\<close>; every error is \<^term>\<open>None\<close>.\<close>

definition SplitHostPort :: "string \<Rightarrow> (string \<times> string) option" where
  "SplitHostPort a =
     (if CHR '':'' \<notin> set a then None
      else
        let i = last_char_index CHR '':'' a; port = drop (i + 1) a in
        if hd a = CHR ''['' then
          (let e = index_char CHR '']'' a in
           if CHR '']'' \<notin> set a \<or> e + 1 \<noteq> i then None
           else if CHR ''['' \<in> set (drop 1 a) \<or> CHR '']'' \<in> set (drop (e + 1) a) then None
           else Some (drop 1 (take e a), port))
        else if CHR '':'' \<in> set (take i a) then None
        else if CHR ''['' \<in> set a \<or> CHR '']'' \<in> set a then None
        else Some (take i a, port))"

definition parse_octet :: "string \<Rightarrow> nat option" where
  "parse_octet s =
     (if s \<noteq> [] \<and> list_all is_digit s \<and> (hd s = CHR ''0'' \<longrightarrow> length s = 1) \<and> nat_of_dec 0 s \<le> 255
      then Some (nat_of_dec 0 s) else None)"

definition parse_v4 :: "string \<Rightarrow> nat list option" where
  "parse_v4 s =
     (let ps = map parse_octet (split_char CHR ''.'' s) in
      if length ps = 4 \<and> None \<notin> set ps then Some (map the ps) else None)"

fun hex_num :: "nat \<Rightarrow> string \<Rightarrow> nat" where
  "hex_num acc [] = acc"
| "hex_num acc (c # cs) = hex_num (16 * acc + (case hex_val c of None \<Rightarrow> 0 | Some d \<Rightarrow> d)) cs"

text \<open>The groups of an IPv6 address: the rest of the text, the bytes so far, the place of the ellipsis.\<close>

function v6_groups :: "string \<Rightarrow> nat list \<Rightarrow> nat option \<Rightarrow> (string \<times> nat list \<times> nat option) option" where
  "v6_groups s acc ell =
     (if length acc \<ge> 16 then Some (s, acc, ell)
      else
        let h = takeWhile (\<lambda>c. hex_val c \<noteq> None) s; r = drop (length h) s; v = hex_num 0 h;
            acc1 = acc @ [v div 256, v mod 256]
        in
        if h = [] \<or> length h > 4 then None
        else if r \<noteq> [] \<and> hd r = CHR ''.'' then
          (if (ell = None \<and> length acc \<noteq> 12) \<or> length acc + 4 > 16 then None
           else map_option (\<lambda>f. ([], acc @ f, ell)) (parse_v4 s))
        else if r = [] then Some ([], acc1, ell)
        else if hd r \<noteq> CHR '':'' \<or> length r = 1 then None
        else if hd (tl r) = CHR '':'' then
          (if ell \<noteq> None then None
           else if tl (tl r) = [] then Some ([], acc1, Some (length acc1))
           else v6_groups (tl (tl r)) acc1 (Some (length acc1)))
        else v6_groups (tl r) acc1 ell)"
  by pat_completeness auto
termination
  by (relation "measure (\<lambda>(s, _). length s)") auto

declare v6_groups.simps [simp del]

definition parse_v6 :: "string \<Rightarrow> nat list option" where
  "parse_v6 s =
     (let (ell0, s0) = (if prefix ''::'' s then (Some 0, drop 2 s) else (None, s)) in
      if ell0 \<noteq> None \<and> s0 = [] then Some (replicate 16 0)
      else
        case v6_groups s0 [] ell0 of
          None \<Rightarrow> None
        | Some (r, b, ell) \<Rightarrow>
            if r \<noteq> [] then None
            else if length b < 16 then
              (case ell of None \<Rightarrow> None | Some e \<Rightarrow> Some (take e b @ replicate (16 - length b) 0 @ drop e b))
            else if ell \<noteq> None then None else Some b)"

text \<open>\<open>net.ParseIP\<close>: sixteen bytes, an IPv4 address in its mapped form; an address with a zone is refused.\<close>

definition ParseIP :: "string \<Rightarrow> nat list option" where
  "ParseIP s =
     (if CHR ''%'' \<in> set s then None
      else case find (\<lambda>c. c = CHR ''.'' \<or> c = CHR '':'') s of
        None \<Rightarrow> None
      | Some c \<Rightarrow> if c = CHR ''.'' then map_option (\<lambda>b. replicate 10 0 @ [255, 255] @ b) (parse_v4 s) else parse_v6 s)"

definition IsLoopback :: "nat list \<Rightarrow> bool" where
  "IsLoopback ip =
     (if take 12 ip = replicate 10 0 @ [255, 255] then ip ! 12 = 127 else ip = replicate 15 0 @ [1])"

section \<open>Facts\<close>

lemma join_split_char: "c \<notin> set p \<Longrightarrow> split_char c (p @ c # s) = p # split_char c s"
  by (induction p) auto

lemma split_char_none: "c \<notin> set p \<Longrightarrow> split_char c p = [p]"
  by (induction p) auto

lemma split_char_join:
  "ps \<noteq> [] \<Longrightarrow> \<forall>p \<in> set ps. c \<notin> set p \<Longrightarrow> split_char c (join_with [c] ps) = ps"
  by (induction ps rule: induct_list012) (auto simp: join_split_char split_char_none)

lemma space_runes_ends: "list_all (\<lambda>r. r \<noteq> [] \<and> \<not> is_digit (hd r) \<and> \<not> is_digit (last r)) space_runes"
  by code_simp

lemma lead_space_digit: "is_digit (hd s) \<Longrightarrow> s \<noteq> [] \<Longrightarrow> lead_space s = 0"
proof -
  assume "is_digit (hd s)" "s \<noteq> []"
  moreover have "r \<noteq> [] \<Longrightarrow> prefix r s \<Longrightarrow> hd r = hd s" for r by (auto simp: prefix_def)
  moreover have "r \<noteq> [] \<and> \<not> is_digit (hd r)" if "r \<in> set space_runes" for r
    using space_runes_ends that by (simp add: list_all_iff)
  ultimately have "\<forall>r \<in> set space_runes. \<not> prefix r s" by metis
  then have "find (\<lambda>r. prefix r s) space_runes = None" by (simp add: find_None_iff)
  then show "lead_space s = 0" by (simp add: lead_space_def)
qed

lemma trail_space_digit: "is_digit (last s) \<Longrightarrow> s \<noteq> [] \<Longrightarrow> trail_space s = 0"
proof -
  assume "is_digit (last s)" "s \<noteq> []"
  moreover have "r \<noteq> [] \<Longrightarrow> suffix r s \<Longrightarrow> last r = last s" for r by (auto simp: suffix_def)
  moreover have "r \<noteq> [] \<and> \<not> is_digit (last r)" if "r \<in> set space_runes" for r
    using space_runes_ends that by (simp add: list_all_iff)
  ultimately have "\<forall>r \<in> set space_runes. \<not> suffix r s" by metis
  then have "find (\<lambda>r. suffix r s) space_runes = None" by (simp add: find_None_iff)
  then show "trail_space s = 0" by (simp add: trail_space_def)
qed

lemma TrimSpace_digits [simp]: "is_digit (hd s) \<Longrightarrow> is_digit (last s) \<Longrightarrow> s \<noteq> [] \<Longrightarrow> TrimSpace s = s"
  by (simp add: TrimSpace_def trim_left.simps trim_right.simps lead_space_digit trail_space_digit)

lemma split_two_first: "c \<notin> set k \<Longrightarrow> split_two c (k @ c # v) = [k, v]"
  by (simp add: split_two_def takeWhile_append dropWhile_append)

lemma last_char_index_append: "c \<notin> set p \<Longrightarrow> last_char_index c (s @ c # p) = length s"
  by (simp add: last_char_index_def index_char_def takeWhile_append)

lemma set_JoinHostPort: "set (JoinHostPort h p) \<subseteq> set h \<union> set p \<union> {CHR '':'', CHR ''['', CHR '']''}"
  by (auto simp: JoinHostPort_def)

lemma last_JoinHostPort: "p \<noteq> [] \<Longrightarrow> last (JoinHostPort h p) = last p"
  by (simp add: JoinHostPort_def)

text \<open>An address that \<open>JoinHostPort\<close> made is taken apart again.\<close>

lemma SplitHostPort_JoinHostPort:
  assumes "set p \<inter> {CHR '':'', CHR ''['', CHR '']''} = {}" "set h \<inter> {CHR ''['', CHR '']''} = {}"
  shows "SplitHostPort (JoinHostPort h p) = Some (h, p)"
proof (cases "CHR '':'' \<in> set h")
  case False
  then have j: "JoinHostPort h p = h @ CHR '':'' # p" by (simp add: JoinHostPort_def)
  have i: "last_char_index CHR '':'' (h @ CHR '':'' # p) = length h" using assms by (intro last_char_index_append) auto
  have "hd (h @ CHR '':'' # p) \<noteq> CHR ''[''" using assms by (cases h) auto
  then show ?thesis unfolding j SplitHostPort_def Let_def i using assms False by auto
next
  case True
  let ?a = "CHR ''['' # h @ CHR '']'' # CHR '':'' # p"
  have j: "JoinHostPort h p = ?a" using True by (simp add: JoinHostPort_def)
  have i: "last_char_index CHR '':'' ?a = length h + 2"
    using last_char_index_append [of "CHR '':''" p "CHR ''['' # h @ [CHR '']'']"] assms by auto
  have e: "index_char CHR '']'' ?a = length h + 1" using assms by (auto simp: index_char_def takeWhile_append)
  show ?thesis unfolding j SplitHostPort_def Let_def i e using assms by auto
qed

end
