(* ===== verification/GoFlag.thy ===== *)
theory GoFlag
  imports GoNet
begin

text \<open>
  Package \<open>flag\<close> as the commands use it: the parsing of an argument list, and the values of unsigned, signed and
  Boolean flags (\<open>strconv\<close> with base 0).
\<close>

section \<open>Numbers with base 0\<close>

definition lower_char :: "char \<Rightarrow> char" where
  "lower_char c = (if 65 \<le> code c \<and> code c \<le> 90 then char_of (code c + 32) else c)"

definition digit_val :: "char \<Rightarrow> nat option" where
  "digit_val c =
     (if is_digit c then Some (code c - 48)
      else if 97 \<le> code (lower_char c) \<and> code (lower_char c) \<le> 122 then Some (code (lower_char c) - 87)
      else None)"

text \<open>The digits of a number, underscores left out.\<close>

fun digits_val :: "nat \<Rightarrow> nat \<Rightarrow> string \<Rightarrow> nat option" where
  "digits_val base acc [] = Some acc"
| "digits_val base acc (c # s) =
     (if c = CHR ''_'' then digits_val base acc s
      else
        (case digit_val c of
           None \<Rightarrow> None
         | Some d \<Rightarrow> if d < base then digits_val base (base * acc + d) s else None))"

definition base_prefix :: "string \<Rightarrow> (nat \<times> string) option" where
  "base_prefix s =
     (case s of
        z # b # c # rest \<Rightarrow>
          if z \<noteq> CHR ''0'' then None
          else if lower_char b = CHR ''b'' then Some (2, c # rest)
          else if lower_char b = CHR ''o'' then Some (8, c # rest)
          else if lower_char b = CHR ''x'' then Some (16, c # rest)
          else None
      | _ \<Rightarrow> None)"

text \<open>\<open>underscoreOK\<close>: underscores only between digits, or between the prefix and a digit.\<close>

fun underscores :: "bool \<Rightarrow> char \<Rightarrow> string \<Rightarrow> bool" where
  "underscores hex saw [] \<longleftrightarrow> saw \<noteq> CHR ''_''"
| "underscores hex saw (c # s) \<longleftrightarrow>
     (if is_digit c \<or> hex \<and> 97 \<le> code (lower_char c) \<and> code (lower_char c) \<le> 102 then underscores hex CHR ''0'' s
      else if c = CHR ''_'' then saw = CHR ''0'' \<and> underscores hex CHR ''_'' s
      else saw \<noteq> CHR ''_'' \<and> underscores hex CHR ''!'' s)"

definition underscoreOK :: "string \<Rightarrow> bool" where
  "underscoreOK s =
     (case base_prefix s of
        None \<Rightarrow> underscores False CHR ''^'' s
      | Some (base, rest) \<Rightarrow> underscores (base = 16) CHR ''0'' rest)"

definition parse_uint0 :: "string \<Rightarrow> nat option" where
  "parse_uint0 s =
     (if s = '''' then None
      else
        let (base, ds) = (case base_prefix s of Some p \<Rightarrow> p | None \<Rightarrow> if hd s = CHR ''0'' then (8, tl s) else (10, s)) in
        case digits_val base 0 ds of
          None \<Rightarrow> None
        | Some n \<Rightarrow> if n < 2 ^ 64 \<and> (CHR ''_'' \<in> set s \<longrightarrow> underscoreOK s) then Some n else None)"

definition flag_uint :: "string \<Rightarrow> u64 option" where
  "flag_uint s = map_option of_nat (parse_uint0 s)"

definition flag_int :: "string \<Rightarrow> int option" where
  "flag_int s =
     (let neg = (s \<noteq> [] \<and> hd s = CHR ''-''); d = (if s \<noteq> [] \<and> (hd s = CHR ''-'' \<or> hd s = CHR ''+'') then tl s else s) in
      case parse_uint0 d of
        None \<Rightarrow> None
      | Some n \<Rightarrow> let v = (if neg then - int n else int n) in if - (2 ^ 63) \<le> v \<and> v < 2 ^ 63 then Some v else None)"

definition flag_bool :: "string \<Rightarrow> bool option" where
  "flag_bool s =
     (if s \<in> {''1'', ''t'', ''T'', ''true'', ''TRUE'', ''True''} then Some True
      else if s \<in> {''0'', ''f'', ''F'', ''false'', ''FALSE'', ''False''} then Some False
      else None)"

section \<open>Flag sets\<close>

text \<open>
  A flag set: the names of the flags, which of them are Boolean, and how a value is stored; \<^term>\<open>None\<close> when the
  value does not parse.
\<close>

record 'a flag_set =
  fs_names :: "string list"
  fs_bool :: "string \<Rightarrow> bool"
  fs_set :: "string \<Rightarrow> string \<Rightarrow> 'a \<Rightarrow> 'a option"

datatype flag_error = FlagHelp | FlagBad string

text \<open>The name and the value of an argument \<open>-name\<close>, \<open>--name\<close> or \<open>-name=value\<close>; the value starts after the first \<open>=\<close> past the first character.\<close>

definition flag_name :: "string \<Rightarrow> (string \<times> string option) option" where
  "flag_name name =
     (if name = '''' \<or> hd name = CHR ''-'' \<or> hd name = CHR ''='' then None
      else if CHR ''='' \<in> set name then
        Some (takeWhile (\<lambda>x. x \<noteq> CHR ''='') name, Some (tl (dropWhile (\<lambda>x. x \<noteq> CHR ''='') name)))
      else Some (name, None))"

text \<open>\<open>Parse\<close>: the flags stored, and the arguments left over.\<close>

fun flag_parse :: "'a flag_set \<Rightarrow> string list \<Rightarrow> 'a \<Rightarrow> flag_error + 'a \<times> string list" where
  "flag_parse F [] x = Inr (x, [])"
| "flag_parse F (s # args) x =
     (if length s < 2 \<or> hd s \<noteq> CHR ''-'' then Inr (x, s # args)
      else if s = ''--'' then Inr (x, args)
      else
        (case flag_name (if s ! 1 = CHR ''-'' then drop 2 s else drop 1 s) of
           None \<Rightarrow> Inl (FlagBad s)
         | Some (name, v) \<Rightarrow>
             if name \<notin> set (fs_names F) then Inl (if name = ''help'' \<or> name = ''h'' then FlagHelp else FlagBad name)
             else if fs_bool F name then
               (case fs_set F name (case v of None \<Rightarrow> ''true'' | Some w \<Rightarrow> w) x of
                  None \<Rightarrow> Inl (FlagBad name)
                | Some y \<Rightarrow> flag_parse F args y)
             else
               (case v of
                  Some w \<Rightarrow> (case fs_set F name w x of None \<Rightarrow> Inl (FlagBad name) | Some y \<Rightarrow> flag_parse F args y)
                | None \<Rightarrow>
                    (case args of
                       [] \<Rightarrow> Inl (FlagBad name)
                     | w # rest \<Rightarrow> (case fs_set F name w x of None \<Rightarrow> Inl (FlagBad name) | Some y \<Rightarrow> flag_parse F rest y)))))"

text \<open>The exit code of a flag set that exits on errors.\<close>

definition flag_exit :: "flag_error \<Rightarrow> int" where
  "flag_exit e = (case e of FlagHelp \<Rightarrow> 0 | FlagBad _ \<Rightarrow> 2)"

section \<open>Facts\<close>

lemma flag_parse_value:
  assumes "2 \<le> length s" "hd s = CHR ''-''" "s ! 1 \<noteq> CHR ''-''" "flag_name (drop 1 s) = Some (name, None)" "name \<in> set (fs_names F)"
    "\<not> fs_bool F name" "fs_set F name w x = Some y"
  shows "flag_parse F (s # w # rest) x = flag_parse F rest y"
proof -
  have "s \<noteq> ''--''" using assms(3) by auto
  then show ?thesis using assms by simp
qed

lemma digits_val_dec:
  assumes "list_all is_digit s"
  shows "digits_val 10 acc s = Some (nat_of_dec acc s)"
  using assms
proof (induction s arbitrary: acc)
  case (Cons c s)
  then have c: "is_digit c" by simp
  then have "c \<noteq> CHR ''_''" "code c - 48 < 10" by (auto simp: is_digit_def)
  then show ?case using Cons c by (simp add: digit_val_def)
qed simp

lemma parse_uint0_dec:
  assumes "0 < n" "n < 2 ^ 64"
  shows "parse_uint0 (dec_of_nat n) = Some n"
proof -
  let ?s = "dec_of_nat n"
  have d: "?s \<noteq> []" "list_all is_digit ?s" "hd ?s \<noteq> CHR ''0''"
    using dec_of_nat_digits [of n] dec_of_nat_no_leading_zero [of n] assms(1) by auto
  have "base_prefix ?s = None" using d(3) by (auto simp: base_prefix_def split: list.splits)
  moreover have "CHR ''_'' \<notin> set ?s" using d(2) by (force simp: list_all_iff is_digit_def)
  ultimately show ?thesis using d assms(2) by (simp add: parse_uint0_def digits_val_dec)
qed

lemma flag_uint_dec: "0 < n \<Longrightarrow> n < 2 ^ 64 \<Longrightarrow> flag_uint (dec_of_nat n) = Some (of_nat n)"
  by (simp add: flag_uint_def parse_uint0_dec)

end
