(* ===== verification/Inventory.thy ===== *)
theory Inventory
  imports Complex_Main GoNet
begin

text \<open>
  \<open>internal/multihost/inventory.go\<close> and the quoting of \<open>exec.go\<close>: the hosts, the plan of the run, the checks an
  inventory has to pass, and the flags the driver hands to the nodes; together with the side that reads those flags,
  \<open>parsePeers\<close> of \<open>cmd/quorumlogd\<close> and \<open>checkLoopbackAddr\<close> of \<open>internal/server/chaos.go\<close>.

  Every error of \<open>Validate\<close> is a constructor of \<open>inv_error\<close> with the values its text shows; \<open>int\<close> fields are
  \<^typ>\<open>int\<close>, \<open>float64\<close> fields \<^typ>\<open>rat\<close>.
\<close>

section \<open>The inventory\<close>

definition ModeMultiHost :: string where "ModeMultiHost = ''multi-host''"
definition ModeLocalDryRun :: string where "ModeLocalDryRun = ''local-dry-run''"

record Host =
  ho_ID :: u64
  ho_Name :: string
  ho_SSH :: string
  ho_Advertise :: string
  ho_RaftPort :: int
  ho_ChaosPort :: int
  ho_DataDir :: string
  ho_GOOS :: string
  ho_GOARCH :: string

record ClientPlan =
  cp_Ops :: int
  cp_ReadFraction :: rat
  cp_Concurrency :: int
  cp_Seed :: int

record FaultPlan =
  fp_KillLeaderAtOp :: int
  fp_IsolateFollowerAtOp :: int
  fp_IsolateLeaderAtOp :: int
  fp_RestoreAtOp :: int
  fp_RestartAllAfter :: bool

record Inventory =
  iv_Mode :: string
  iv_Hosts :: "Host list"
  iv_Client :: ClientPlan
  iv_Faults :: FaultPlan

definition zero_Host :: Host where
  "zero_Host = \<lparr>ho_ID = 0, ho_Name = '''', ho_SSH = '''', ho_Advertise = '''', ho_RaftPort = 0, ho_ChaosPort = 0,
     ho_DataDir = '''', ho_GOOS = '''', ho_GOARCH = ''''\<rparr>"

section \<open>Names and addresses of a host\<close>

definition ListenAddr :: "Host \<Rightarrow> string" where
  "ListenAddr h = JoinHostPort (ho_Advertise h) (format_int (ho_RaftPort h))"

definition RaftURL :: "Host \<Rightarrow> string" where
  "RaftURL h = ''http://'' @ JoinHostPort (ho_Advertise h) (format_int (ho_RaftPort h))"

definition ChaosListenAddr :: "Host \<Rightarrow> string" where
  "ChaosListenAddr h = JoinHostPort ''127.0.0.1'' (format_int (ho_ChaosPort h))"

definition ChaosURL :: "Host \<Rightarrow> string" where
  "ChaosURL h = ''http://'' @ ChaosListenAddr h"

definition Target :: "Host \<Rightarrow> string" where
  "Target h = (if ho_SSH h \<noteq> '''' then ho_SSH h else ho_Name h)"

definition BinaryPath :: "Host \<Rightarrow> string" where "BinaryPath h = ho_DataDir h @ ''/quorumlogd''"
definition StartScriptPath :: "Host \<Rightarrow> string" where "StartScriptPath h = ho_DataDir h @ ''/start.sh''"
definition PidPath :: "Host \<Rightarrow> string" where "PidPath h = ho_DataDir h @ ''/node.pid''"
definition LogPath :: "Host \<Rightarrow> string" where "LogPath h = ho_DataDir h @ ''/node.log''"

text \<open>The platform of the driver's own machine (\<open>runtime.GOOS\<close>, \<open>runtime.GOARCH\<close>) is an argument.\<close>

definition BuildOS :: "string \<Rightarrow> Host \<Rightarrow> string" where
  "BuildOS goos h = (if ho_GOOS h \<noteq> '''' then ho_GOOS h else goos)"

definition BuildArch :: "string \<Rightarrow> Host \<Rightarrow> string" where
  "BuildArch goarch h = (if ho_GOARCH h \<noteq> '''' then ho_GOARCH h else goarch)"

definition HostByID :: "u64 \<Rightarrow> Inventory \<Rightarrow> Host option" where
  "HostByID i iv = find (\<lambda>h. ho_ID h = i) (iv_Hosts iv)"

definition PeersFlag :: "Inventory \<Rightarrow> string" where
  "PeersFlag iv = join_with '','' (map (\<lambda>h. format_uint (ho_ID h) @ ''='' @ RaftURL h) (iv_Hosts iv))"

definition ShellQuote :: "string \<Rightarrow> string" where
  "ShellQuote s = [CHR 0x27] @ replace_char CHR 0x27 [CHR 0x27, CHR 0x5C, CHR 0x27, CHR 0x27] s @ [CHR 0x27]"

section \<open>Validation\<close>

datatype host_error =
    IdZero
  | DuplicateId u64
  | NameRequired
  | AdvertiseRequired
  | RaftPortRange int
  | ChaosPortRange int
  | PortsEqual
  | DataDirRequired
  | DataDirQuoting string
  | DuplicateAddress string
  | SSHRequired
  | AdvertiseLoopback string
  | DataDirRelative string
  | AdvertiseNotLoopback string

datatype inv_error =
    BadMode string
  | HostCount nat
  | BadHost nat host_error
  | BadOps
  | BadConcurrency
  | BadReadFraction

definition loopback_ip :: "string \<Rightarrow> bool" where
  "loopback_ip s = (case ParseIP s of None \<Rightarrow> False | Some ip \<Rightarrow> IsLoopback ip)"

text \<open>The body of the loop over the hosts, with the ids and addresses seen so far.\<close>

definition check_host :: "string \<Rightarrow> u64 list \<Rightarrow> string list \<Rightarrow> Host \<Rightarrow> host_error option" where
  "check_host mode seenID seenAddr h =
     (if ho_ID h = 0 then Some IdZero
      else if ho_ID h \<in> set seenID then Some (DuplicateId (ho_ID h))
      else if ho_Name h = '''' then Some NameRequired
      else if ho_Advertise h = '''' then Some AdvertiseRequired
      else if ho_RaftPort h \<le> 0 \<or> ho_RaftPort h > 65535 then Some (RaftPortRange (ho_RaftPort h))
      else if ho_ChaosPort h \<le> 0 \<or> ho_ChaosPort h > 65535 then Some (ChaosPortRange (ho_ChaosPort h))
      else if ho_RaftPort h = ho_ChaosPort h then Some PortsEqual
      else if ho_DataDir h = '''' then Some DataDirRequired
      else if contains_any (ho_DataDir h) [CHR '' '', CHR 0x09, CHR 0x27, CHR 0x22] then Some (DataDirQuoting (ho_DataDir h))
      else if ListenAddr h \<in> set seenAddr then Some (DuplicateAddress (ListenAddr h))
      else if mode = ModeMultiHost then
        (if ho_SSH h = '''' then Some SSHRequired
         else if loopback_ip (ho_Advertise h) then Some (AdvertiseLoopback (ho_Advertise h))
         else if \<not> prefix ''/'' (ho_DataDir h) then Some (DataDirRelative (ho_DataDir h))
         else None)
      else if \<not> loopback_ip (ho_Advertise h) then Some (AdvertiseNotLoopback (ho_Advertise h))
      else None)"

fun check_hosts :: "string \<Rightarrow> nat \<Rightarrow> u64 list \<Rightarrow> string list \<Rightarrow> Host list \<Rightarrow> inv_error option" where
  "check_hosts mode i seenID seenAddr [] = None"
| "check_hosts mode i seenID seenAddr (h # hs) =
     (case check_host mode seenID seenAddr h of
        Some e \<Rightarrow> Some (BadHost i e)
      | None \<Rightarrow> check_hosts mode (i + 1) (ho_ID h # seenID) (ListenAddr h # seenAddr) hs)"

definition Validate :: "Inventory \<Rightarrow> inv_error option" where
  "Validate iv =
     (if iv_Mode iv \<noteq> ModeMultiHost \<and> iv_Mode iv \<noteq> ModeLocalDryRun then Some (BadMode (iv_Mode iv))
      else if length (iv_Hosts iv) \<noteq> 3 then Some (HostCount (length (iv_Hosts iv)))
      else
        case check_hosts (iv_Mode iv) 0 [] [] (iv_Hosts iv) of
          Some e \<Rightarrow> Some e
        | None \<Rightarrow>
            if cp_Ops (iv_Client iv) \<le> 0 then Some BadOps
            else if cp_Concurrency (iv_Client iv) \<le> 0 then Some BadConcurrency
            else if cp_ReadFraction (iv_Client iv) < 0 \<or> cp_ReadFraction (iv_Client iv) > 1 then Some BadReadFraction
            else None)"

text \<open>
  \<open>LoadInventory\<close> after the file is read: \<open>decoded\<close> is what the JSON decoder returned, \<open>absf\<close> is \<open>filepath.Abs\<close>, which
  depends on the working directory.
\<close>

fun abs_dirs :: "(string \<Rightarrow> string res) \<Rightarrow> Host list \<Rightarrow> Host list res" where
  "abs_dirs absf [] = Inr []"
| "abs_dirs absf (h # hs) =
     rbind (absf (ho_DataDir h)) (\<lambda>d. rbind (abs_dirs absf hs) (\<lambda>hs1. Inr (h\<lparr>ho_DataDir := d\<rparr> # hs1)))"

datatype load_error = LoadIO err | LoadInvalid inv_error

definition LoadInventory :: "(string \<Rightarrow> string res) \<Rightarrow> Inventory res \<Rightarrow> load_error + Inventory" where
  "LoadInventory absf decoded =
     (case decoded of
        Inl e \<Rightarrow> Inl (LoadIO e)
      | Inr iv \<Rightarrow>
          (case Validate iv of
             Some e \<Rightarrow> Inl (LoadInvalid e)
           | None \<Rightarrow>
               if iv_Mode iv = ModeLocalDryRun then
                 (case abs_dirs absf (iv_Hosts iv) of
                    Inl e \<Rightarrow> Inl (LoadIO e)
                  | Inr hs \<Rightarrow> Inr (iv\<lparr>iv_Hosts := hs\<rparr>))
               else Inr iv))"

section \<open>The node's side of the flags\<close>

datatype peer_error = BadPeer string | BadPeerId string

fun add_pairs :: "string list \<Rightarrow> (u64, string) fmap \<Rightarrow> peer_error + (u64, string) fmap" where
  "add_pairs [] ps = Inr ps"
| "add_pairs (pair # pairs) ps =
     (case split_two CHR ''='' (TrimSpace pair) of
        [k, v] \<Rightarrow>
          (case parse_uint k of
             None \<Rightarrow> Inl (BadPeerId k)
           | Some i \<Rightarrow> if i = 0 then Inl (BadPeerId k) else add_pairs pairs (fmupd i (trim_suffix v ''/'') ps))
      | _ \<Rightarrow> Inl (BadPeer pair))"

definition parsePeers :: "string \<Rightarrow> peer_error + (u64, string) fmap" where
  "parsePeers s = (if s = '''' then Inr fmempty else add_pairs (split_char CHR '','' s) fmempty)"

datatype chaos_addr_error = NotHostPort | NoPort | NotAnIP string | NotLoopback string

definition checkLoopbackAddr :: "string \<Rightarrow> chaos_addr_error option" where
  "checkLoopbackAddr a =
     (case SplitHostPort a of
        None \<Rightarrow> Some NotHostPort
      | Some (host, port) \<Rightarrow>
          if port = '''' then Some NoPort
          else if host = ''localhost'' then None
          else
            case ParseIP host of
              None \<Rightarrow> Some (NotAnIP host)
            | Some ip \<Rightarrow> if \<not> IsLoopback ip then Some (NotLoopback host) else None)"

section \<open>Facts\<close>

text \<open>What an inventory has to be, host by host and across hosts.\<close>

definition host_ok :: "string \<Rightarrow> Host \<Rightarrow> bool" where
  "host_ok mode h \<longleftrightarrow>
     ho_ID h \<noteq> 0 \<and> ho_Name h \<noteq> '''' \<and> ho_Advertise h \<noteq> '''' \<and> ho_RaftPort h \<in> {1..65535} \<and> ho_ChaosPort h \<in> {1..65535} \<and>
     ho_RaftPort h \<noteq> ho_ChaosPort h \<and> ho_DataDir h \<noteq> '''' \<and>
     set (ho_DataDir h) \<inter> {CHR '' '', CHR 0x09, CHR 0x27, CHR 0x22} = {} \<and>
     (if mode = ModeMultiHost then ho_SSH h \<noteq> '''' \<and> \<not> loopback_ip (ho_Advertise h) \<and> prefix ''/'' (ho_DataDir h)
      else loopback_ip (ho_Advertise h))"

definition inventory_ok :: "Inventory \<Rightarrow> bool" where
  "inventory_ok iv \<longleftrightarrow>
     iv_Mode iv \<in> {ModeMultiHost, ModeLocalDryRun} \<and> length (iv_Hosts iv) = 3 \<and>
     (\<forall>h \<in> set (iv_Hosts iv). host_ok (iv_Mode iv) h) \<and>
     distinct (map ho_ID (iv_Hosts iv)) \<and> distinct (map ListenAddr (iv_Hosts iv)) \<and>
     cp_Ops (iv_Client iv) > 0 \<and> cp_Concurrency (iv_Client iv) > 0 \<and> cp_ReadFraction (iv_Client iv) \<in> {0..1}"

lemma check_host_iff:
  "check_host mode ids addrs h = None \<longleftrightarrow> host_ok mode h \<and> ho_ID h \<notin> set ids \<and> ListenAddr h \<notin> set addrs"
proof -
  have "contains_any (ho_DataDir h) [CHR '' '', CHR 0x09, CHR 0x27, CHR 0x22] \<longleftrightarrow>
      set (ho_DataDir h) \<inter> {CHR '' '', CHR 0x09, CHR 0x27, CHR 0x22} \<noteq> {}"
    by (auto simp: contains_any_def list_ex_iff)
  then show ?thesis by (auto simp: check_host_def host_ok_def)
qed

lemma check_hosts_iff:
  "check_hosts mode i ids addrs hs = None \<longleftrightarrow>
     (\<forall>h \<in> set hs. host_ok mode h) \<and> distinct (map ho_ID hs) \<and> distinct (map ListenAddr hs) \<and>
     ho_ID ` set hs \<inter> set ids = {} \<and> ListenAddr ` set hs \<inter> set addrs = {}"
proof (induction hs arbitrary: i ids addrs)
  case (Cons h hs)
  show ?case
  proof (cases "check_host mode ids addrs h")
    case None
    then show ?thesis using Cons check_host_iff [of mode ids addrs h] by auto
  next
    case (Some e)
    then show ?thesis using check_host_iff [of mode ids addrs h] by auto
  qed
qed simp

lemma Validate_unfold:
  "Validate iv = None \<longleftrightarrow>
     iv_Mode iv \<in> {ModeMultiHost, ModeLocalDryRun} \<and> length (iv_Hosts iv) = 3 \<and> check_hosts (iv_Mode iv) 0 [] [] (iv_Hosts iv) = None \<and>
     cp_Ops (iv_Client iv) > 0 \<and> cp_Concurrency (iv_Client iv) > 0 \<and> cp_ReadFraction (iv_Client iv) \<in> {0..1}"
  by (cases "check_hosts (iv_Mode iv) 0 [] [] (iv_Hosts iv)") (auto simp: Validate_def)

text \<open>
  C32: the loop of \<open>Validate\<close> with its tables of seen ids and addresses accepts exactly the inventories of three
  hosts whose fields are in range, whose ids and addresses are pairwise different, and whose addresses are all
  loopback in a dry run and none of them in a run on several hosts.
\<close>

theorem Validate_iff: "Validate iv = None \<longleftrightarrow> inventory_ok iv"
  by (simp add: Validate_unfold inventory_ok_def check_hosts_iff conj_ac)

lemma add_pairs_urls:
  assumes "\<forall>(i, u) \<in> set ps. i \<noteq> 0 \<and> u \<noteq> [] \<and> is_digit (last u)"
  shows "add_pairs (map (\<lambda>(i, u). format_uint i @ ''='' @ u) ps) m = Inr (fold (\<lambda>(i, u). fmupd i u) ps m)"
  using assms
proof (induction ps arbitrary: m)
  case (Cons p ps)
  obtain i u where p: "p = (i, u)" by (cases p)
  have digits: "format_uint i \<noteq> []" "\<forall>c \<in> set (format_uint i). is_digit c"
    using format_uint_digits [of i] by (simp_all add: list_all_iff)
  have u: "i \<noteq> 0" "u \<noteq> []" "is_digit (last u)" using Cons.prems p by auto
  have "CHR ''='' \<notin> set (format_uint i)" using digits(2) by (force simp: is_digit_def)
  then have "split_two CHR ''='' (format_uint i @ ''='' @ u) = [format_uint i, u]" using split_two_first by force
  moreover have "TrimSpace (format_uint i @ ''='' @ u) = format_uint i @ ''='' @ u"
    using digits u by (intro TrimSpace_digits) (auto simp: hd_append)
  moreover have "trim_suffix u ''/'' = u"
    using u by (auto simp: trim_suffix_def suffix_def is_digit_def)
  ultimately show ?case using Cons u p by simp
qed simp

lemma fold_fmupd_other: "i \<notin> fst ` set ps \<Longrightarrow> fmlookup (fold (\<lambda>(i, u). fmupd i u) ps m) i = fmlookup m i"
  by (induction ps arbitrary: m) (auto split: prod.splits)

lemma fold_fmupd_distinct:
  "distinct (map fst ps) \<Longrightarrow> (i, u) \<in> set ps \<Longrightarrow> fmlookup (fold (\<lambda>(i, u). fmupd i u) ps m) i = Some u"
proof (induction ps arbitrary: m)
  case (Cons p ps)
  then show ?case by (cases p) (auto simp: fold_fmupd_other)
qed simp

lemma fold_fmupd_dom:
  "fset (fmdom (fold (\<lambda>(i, u). fmupd i u) ps m)) = fst ` set ps \<union> fset (fmdom m)"
  by (induction ps arbitrary: m) (auto split: prod.splits)

lemma port_digits:
  "0 \<le> p \<Longrightarrow> format_int p \<noteq> [] \<and> (\<forall>c \<in> set (format_int p). is_digit c)"
  using dec_of_nat_digits [of "nat p"] by (simp add: format_int_def list_all_iff)

lemma RaftURL_last: "0 \<le> ho_RaftPort h \<Longrightarrow> RaftURL h \<noteq> [] \<and> is_digit (last (RaftURL h))"
  using port_digits [of "ho_RaftPort h"] by (auto simp: RaftURL_def last_JoinHostPort JoinHostPort_def)

lemma RaftURL_commas:
  assumes "0 \<le> ho_RaftPort h" "CHR '','' \<notin> set (ho_Advertise h)"
  shows "CHR '','' \<notin> set (RaftURL h)"
proof -
  have "CHR '','' \<notin> set (format_int (ho_RaftPort h))" using port_digits [OF assms(1)] by (force simp: is_digit_def)
  then show ?thesis
    using assms(2) set_JoinHostPort [of "ho_Advertise h" "format_int (ho_RaftPort h)"] by (auto simp: RaftURL_def)
qed

lemma ChaosListenAddr_loopback: "0 \<le> ho_ChaosPort h \<Longrightarrow> checkLoopbackAddr (ChaosListenAddr h) = None"
proof -
  assume p: "0 \<le> ho_ChaosPort h"
  let ?p = "format_int (ho_ChaosPort h)"
  have "set ?p \<inter> {CHR '':'', CHR ''['', CHR '']''} = {}" using port_digits [OF p] by (force simp: is_digit_def)
  moreover have "set ''127.0.0.1'' \<inter> {CHR ''['', CHR '']''} = {}" by simp
  ultimately have "SplitHostPort (ChaosListenAddr h) = Some (''127.0.0.1'', ?p)"
    unfolding ChaosListenAddr_def by (rule SplitHostPort_JoinHostPort)
  moreover have "case ParseIP ''127.0.0.1'' of None \<Rightarrow> False | Some ip \<Rightarrow> IsLoopback ip" by code_simp
  moreover have "?p \<noteq> []" using port_digits [OF p] by simp
  ultimately show ?thesis by (auto simp: checkLoopbackAddr_def split: option.splits)
qed

text \<open>
  C33: what the driver writes on the command line of a node, the node understands.  For an inventory that passes
  \<open>Validate\<close> and whose addresses contain no comma, \<open>parsePeers\<close> of \<open>quorumlogd\<close> reads the \<open>-peers\<close> flag back as
  exactly the table from the host ids to the URLs of their nodes, and the node accepts every \<open>-chaos-listen\<close> flag.
\<close>

theorem node_accepts_driver_flags:
  assumes "Validate iv = None" "\<forall>h \<in> set (iv_Hosts iv). CHR '','' \<notin> set (ho_Advertise h)"
  shows "\<exists>peers. parsePeers (PeersFlag iv) = Inr peers \<and> fset (fmdom peers) = ho_ID ` set (iv_Hosts iv) \<and>
    (\<forall>h \<in> set (iv_Hosts iv). fmlookup peers (ho_ID h) = Some (RaftURL h) \<and> checkLoopbackAddr (ChaosListenAddr h) = None)"
proof -
  let ?hs = "iv_Hosts iv"
  let ?ps = "map (\<lambda>h. (ho_ID h, RaftURL h)) ?hs"
  let ?pairs = "map (\<lambda>h. format_uint (ho_ID h) @ ''='' @ RaftURL h) ?hs"
  have ok: "inventory_ok iv" using assms(1) by (simp add: Validate_unfold inventory_ok_def check_hosts_iff)
  then have ports: "0 \<le> ho_RaftPort h \<and> 0 \<le> ho_ChaosPort h \<and> ho_ID h \<noteq> 0" if "h \<in> set ?hs" for h
    using that by (fastforce simp: host_ok_def inventory_ok_def)
  have ne: "?pairs \<noteq> []" using ok by (auto simp: inventory_ok_def)
  have "CHR '','' \<notin> set (format_uint i)" for i
    using format_uint_digits [of i] by (force simp: is_digit_def list_all_iff)
  then have "\<forall>p \<in> set ?pairs. CHR '','' \<notin> set p" using RaftURL_commas ports assms(2) by auto
  then have split: "split_char CHR '','' (PeersFlag iv) = ?pairs" unfolding PeersFlag_def by (rule split_char_join [OF ne])
  have "PeersFlag iv \<noteq> ''''"
  proof
    assume "PeersFlag iv = ''''"
    then have "?pairs = [[]]" using split by simp
    then show False by (auto simp: map_eq_Cons_conv)
  qed
  moreover have "add_pairs ?pairs fmempty = Inr (fold (\<lambda>(i, u). fmupd i u) ?ps fmempty)"
    using add_pairs_urls [of ?ps fmempty] ports RaftURL_last by (simp add: comp_def)
  ultimately have p: "parsePeers (PeersFlag iv) = Inr (fold (\<lambda>(i, u). fmupd i u) ?ps fmempty)"
    by (simp add: parsePeers_def split)
  have "distinct (map fst ?ps)" using ok by (simp add: inventory_ok_def comp_def)
  then have "fmlookup (fold (\<lambda>(i, u). fmupd i u) ?ps fmempty) (ho_ID h) = Some (RaftURL h)" if "h \<in> set ?hs" for h
    using that by (intro fold_fmupd_distinct) auto
  then show ?thesis using p ports ChaosListenAddr_loopback fold_fmupd_dom [of ?ps fmempty] by (auto simp: image_image)
qed

definition wit_host :: "u64 \<Rightarrow> string \<Rightarrow> int \<Rightarrow> int \<Rightarrow> Host" where
  "wit_host i addr port chaos = \<lparr>ho_ID = i, ho_Name = ''host'', ho_SSH = '''', ho_Advertise = addr, ho_RaftPort = port,
     ho_ChaosPort = chaos, ho_DataDir = ''data'', ho_GOOS = '''', ho_GOARCH = ''''\<rparr>"

definition wit_inventory :: Inventory where
  "wit_inventory = \<lparr>iv_Mode = ModeLocalDryRun,
     iv_Hosts = [wit_host 1 ''127.0.0.1'' 9101 9201, wit_host 2 ''::1'' 9102 9201, wit_host 3 ''127.0.0.1'' 9103 9201],
     iv_Client = \<lparr>cp_Ops = 1200, cp_ReadFraction = 1 / 2, cp_Concurrency = 4, cp_Seed = 1\<rparr>,
     iv_Faults = \<lparr>fp_KillLeaderAtOp = 200, fp_IsolateFollowerAtOp = 400, fp_IsolateLeaderAtOp = 700, fp_RestoreAtOp = 900,
       fp_RestartAllAfter = True\<rparr>\<rparr>"

lemma wit_inventory_valid: "Validate wit_inventory = None"
  by code_simp

theorem node_accepts_driver_flags_witness:
  "\<exists>peers. parsePeers ''1=http://127.0.0.1:9101,2=http://[::1]:9102,3=http://127.0.0.1:9103'' = Inr peers \<and>
    fmlookup peers 2 = Some ''http://[::1]:9102''"
proof -
  have "list_all (\<lambda>h. CHR '','' \<notin> set (ho_Advertise h)) (iv_Hosts wit_inventory)" by code_simp
  then have "\<forall>h \<in> set (iv_Hosts wit_inventory). CHR '','' \<notin> set (ho_Advertise h)" by (simp add: list_all_iff)
  then obtain peers where p: "parsePeers (PeersFlag wit_inventory) = Inr peers"
      "\<forall>h \<in> set (iv_Hosts wit_inventory). fmlookup peers (ho_ID h) = Some (RaftURL h)"
    using node_accepts_driver_flags [OF wit_inventory_valid] by blast
  moreover have "PeersFlag wit_inventory = ''1=http://127.0.0.1:9101,2=http://[::1]:9102,3=http://127.0.0.1:9103''" by code_simp
  moreover have "wit_host 2 ''::1'' 9102 9201 \<in> set (iv_Hosts wit_inventory)" by (simp add: wit_inventory_def)
  moreover have "RaftURL (wit_host 2 ''::1'' 9102 9201) = ''http://[::1]:9102''" by code_simp
  moreover have "ho_ID (wit_host 2 ''::1'' 9102 9201) = 2" by (simp add: wit_host_def)
  ultimately show ?thesis by metis
qed

text \<open>
  \<open>Validate\<close> accepts a dry run in which two nodes on the one machine share their data directory and their chaos
  port, although each node needs its own: only ids and advertised addresses are compared across hosts.
\<close>

theorem shared_data_dir_accepted:
  "\<exists>iv. iv_Mode iv = ModeLocalDryRun \<and> Validate iv = None \<and> ho_ID (iv_Hosts iv ! 0) \<noteq> ho_ID (iv_Hosts iv ! 1) \<and>
     StartScriptPath (iv_Hosts iv ! 0) = StartScriptPath (iv_Hosts iv ! 1) \<and>
     ChaosListenAddr (iv_Hosts iv ! 0) = ChaosListenAddr (iv_Hosts iv ! 1)"
proof -
  have "iv_Mode wit_inventory = ModeLocalDryRun" "ho_ID (iv_Hosts wit_inventory ! 0) \<noteq> ho_ID (iv_Hosts wit_inventory ! 1)"
    "StartScriptPath (iv_Hosts wit_inventory ! 0) = StartScriptPath (iv_Hosts wit_inventory ! 1)"
    "ChaosListenAddr (iv_Hosts wit_inventory ! 0) = ChaosListenAddr (iv_Hosts wit_inventory ! 1)"
    by code_simp+
  then show ?thesis using wit_inventory_valid by blast
qed

end
