(* ===== verification/Driver.thy ===== *)
theory Driver
  imports Inventory Traffic
begin

text \<open>
  The control plane of the multi-host driver: \<open>internal/multihost/exec.go\<close> (the executors), \<open>status.go\<close> (polling
  the nodes) and \<open>deploy.go\<close> (building, transferring, starting, stopping and killing nodes).

  The world outside of the process is the parameter \<open>W\<close>: the clock, the timers, the processes the driver starts,
  the files it writes and the HTTP requests it sends, each an operation on a state of an arbitrary type \<^typ>\<open>'w\<close>.
  An action of the driver takes the state of the driver and gives its result and the new state, or \<^term>\<open>None\<close> when
  it never returns; an error ends an action like an early return.  Instants and durations are nanoseconds.
\<close>

section \<open>The world and its actions\<close>

record 'w world =
  w_now :: "'w \<Rightarrow> int \<times> 'w"
  w_after :: "int \<Rightarrow> 'w \<Rightarrow> bool \<times> 'w"
  w_sleep :: "int \<Rightarrow> 'w \<Rightarrow> 'w"
  w_exec :: "string \<Rightarrow> string list \<Rightarrow> string list \<Rightarrow> 'w \<Rightarrow> (string \<times> string option) \<times> 'w"
  w_copyfile :: "string \<Rightarrow> string \<Rightarrow> 'w \<Rightarrow> string option \<times> 'w"
  w_writefile :: "string \<Rightarrow> string \<Rightarrow> 'w \<Rightarrow> string option \<times> 'w"
  w_mkdir :: "string \<Rightarrow> 'w \<Rightarrow> string option \<times> 'w"
  w_get :: "string \<Rightarrow> 'w \<Rightarrow> http_reply \<times> 'w"
  w_progress :: "'w \<Rightarrow> (int \<times> bool) \<times> 'w"

text \<open>
  \<open>w_after d\<close> is the \<open>select\<close> between \<open>ctx.Done()\<close> and \<open>time.After(d)\<close>, true when the context has ended;
  \<open>w_exec\<close> runs a program with arguments and extra environment variables and gives its combined output and error;
  \<open>w_get\<close> is a GET request with its context and client timeout, errors in making the request included;
  \<open>w_progress\<close> reads the counters of the workers that run at the same time (operations completed, all finished).
\<close>

text \<open>The errors of the driver, with the values their texts show; \<open>EWrap\<close> is \<open>fmt.Errorf("text: %w", err)\<close>.\<close>

datatype drv_error =
    EIO string
  | ECtx
  | ENoSSH string
  | EExec string string string string
  | EStatus string int
  | EDecode
  | ENoLeader
  | ENoLeaderWithin u64 int
  | ENotReady string int
  | ENoAgreement int
  | ETrafficStopped int int
  | ENoBinary string
  | ENoPid string string
  | EBuild string string string
  | EStopAll "(u64 \<times> drv_error) list"
  | ENoCurl string
  | EVerify
  | EPanic
  | EMode string
  | ELoad load_error
  | EWrap string drv_error

record Deployment =
  dp_binaries :: "(string, string) fmap"
  dp_pids :: "(u64, int) fmap"

record FaultEvent =
  fe_Name :: string
  fe_Detail :: string
  fe_AtOp :: int
  fe_AtNanos :: int
  fe_DurationMicros :: int
  fe_NodeID :: u64
  fe_Peers :: "u64 list"

record FaultRunner =
  fr_events :: "FaultEvent list"
  fr_notes :: "string list"
  fr_killAtNanos :: int
  fr_isolateFollowerNanos :: int
  fr_clearFollowerNanos :: int
  fr_isolateLeaderNanos :: int
  fr_restoreNanos :: int
  fr_restartIssuedNanos :: int
  fr_restartReadyNanos :: int
  fr_killElectionMicros :: int
  fr_isolationElectionMicros :: int
  fr_restartVerified :: bool
  fr_restartVerifiedKeys :: int
  fr_restartMismatches :: "Mismatch list"
  fr_isolatedFollowerID :: u64
  fr_isolatedLeaderID :: u64
  fr_killedLeaderID :: u64
  fr_newLeaderAfterKill :: u64
  fr_newLeaderAfterIsolate :: u64

record 'w drv =
  dv_world :: 'w
  dv_dep :: Deployment
  dv_run :: FaultRunner

type_synonym ('w, 'a) act = "'w drv \<Rightarrow> ((drv_error + 'a) \<times> 'w drv) option"

definition ret :: "'a \<Rightarrow> ('w, 'a) act" where
  "ret x s = Some (Inr x, s)"

definition failed :: "drv_error \<Rightarrow> ('w, 'a) act" where
  "failed e s = Some (Inl e, s)"

definition bnd :: "('w, 'a) act \<Rightarrow> ('a \<Rightarrow> ('w, 'b) act) \<Rightarrow> ('w, 'b) act" where
  "bnd m f s = Option.bind (m s) (\<lambda>(r, s1). case r of Inl e \<Rightarrow> Some (Inl e, s1) | Inr x \<Rightarrow> f x s1)"

definition attempted :: "('w, 'a) act \<Rightarrow> ('w, drv_error + 'a) act" where
  "attempted m s = map_option (\<lambda>(r, s1). (Inr r, s1)) (m s)"

definition wrapped :: "string \<Rightarrow> ('w, 'a) act \<Rightarrow> ('w, 'a) act" where
  "wrapped text m s = map_option (\<lambda>(r, s1). (map_sum (EWrap text) id r, s1)) (m s)"

definition world :: "('w \<Rightarrow> 'a \<times> 'w) \<Rightarrow> ('w, 'a) act" where
  "world f s = (let (x, w) = f (dv_world s) in Some (Inr x, s\<lparr>dv_world := w\<rparr>))"

definition modify_dep :: "(Deployment \<Rightarrow> Deployment) \<Rightarrow> ('w, unit) act" where
  "modify_dep f s = Some (Inr (), s\<lparr>dv_dep := f (dv_dep s)\<rparr>)"

definition modify_run :: "(FaultRunner \<Rightarrow> FaultRunner) \<Rightarrow> ('w, unit) act" where
  "modify_run f s = Some (Inr (), s\<lparr>dv_run := f (dv_run s)\<rparr>)"

definition get_dep :: "('w, Deployment) act" where
  "get_dep s = Some (Inr (dv_dep s), s)"

definition get_run :: "('w, FaultRunner) act" where
  "get_run s = Some (Inr (dv_run s), s)"

fun each :: "('h \<Rightarrow> ('w, unit) act) \<Rightarrow> 'h list \<Rightarrow> ('w, unit) act" where
  "each f [] = ret ()"
| "each f (h # hs) = bnd (f h) (\<lambda>_. each f hs)"

definition file_error :: "string option \<Rightarrow> ('w, unit) act" where
  "file_error r = (case r of None \<Rightarrow> ret () | Some e \<Rightarrow> failed (EIO e))"

section \<open>Executors\<close>

record SSHExec =
  se_SSH :: string
  se_SCP :: string
  se_Options :: "string list"

datatype Executor = OverSSH SSHExec | Locally

definition NewSSHExec :: SSHExec where
  "NewSSHExec = \<lparr>se_SSH = ''ssh'', se_SCP = ''scp'',
     se_Options = [''-o'', ''BatchMode=yes'', ''-o'', ''ConnectTimeout=10'', ''-o'', ''StrictHostKeyChecking=accept-new'']\<rparr>"

definition NewExecutor :: "Inventory \<Rightarrow> drv_error + Executor" where
  "NewExecutor iv =
     (if iv_Mode iv = ModeMultiHost then Inr (OverSSH NewSSHExec)
      else if iv_Mode iv = ModeLocalDryRun then Inr Locally
      else Inl (EMode (iv_Mode iv)))"

definition ex_Kind :: "Executor \<Rightarrow> string" where
  "ex_Kind ex = (case ex of OverSSH _ \<Rightarrow> ''ssh'' | Locally \<Rightarrow> ''local'')"

definition RunArgs :: "SSHExec \<Rightarrow> Host \<Rightarrow> string \<Rightarrow> string list" where
  "RunArgs e h script = se_Options e @ [ho_SSH h, ''/bin/sh'', ''-c'', ShellQuote script]"

definition CopyArgs :: "SSHExec \<Rightarrow> Host \<Rightarrow> string \<Rightarrow> string \<Rightarrow> string list" where
  "CopyArgs e h localPath remotePath = se_Options e @ [localPath, ho_SSH h @ '':'' @ remotePath]"

definition combined :: "(string \<Rightarrow> string \<Rightarrow> drv_error) \<Rightarrow> string \<times> string option \<Rightarrow> ('w, string) act" where
  "combined err r = (case r of (out, None) \<Rightarrow> ret out | (out, Some e) \<Rightarrow> failed (err e (TrimSpace out)))"

definition ex_Run :: "'w world \<Rightarrow> Executor \<Rightarrow> Host \<Rightarrow> string \<Rightarrow> ('w, string) act" where
  "ex_Run W ex h script =
     (case ex of
        OverSSH e \<Rightarrow>
          if ho_SSH h = '''' then failed (ENoSSH (ho_Name h))
          else bnd (world (w_exec W (se_SSH e) (RunArgs e h script) [])) (combined (EExec ''ssh'' (ho_SSH h)))
      | Locally \<Rightarrow>
          bnd (world (w_exec W ''/bin/sh'' [''-c'', script] [])) (combined (EExec ''local sh'' '''')))"

definition ex_Copy :: "'w world \<Rightarrow> Executor \<Rightarrow> Host \<Rightarrow> string \<Rightarrow> string \<Rightarrow> ('w, unit) act" where
  "ex_Copy W ex h localPath remotePath =
     (case ex of
        OverSSH e \<Rightarrow>
          if ho_SSH h = '''' then failed (ENoSSH (ho_Name h))
          else bnd (bnd (world (w_exec W (se_SCP e) (CopyArgs e h localPath remotePath) []))
                 (combined (EExec (''scp '' @ localPath) (ho_SSH h @ '':'' @ remotePath)))) (\<lambda>_. ret ())
      | Locally \<Rightarrow>
          if localPath = remotePath then ret ()
          else bnd (world (w_copyfile W localPath remotePath)) file_error)"

section \<open>Status of the nodes\<close>

record NodeStatus =
  ns_ID :: u64
  ns_Leader :: u64
  ns_IsLeader :: bool
  ns_Applied :: u64
  ns_Keys :: int

definition zero_NodeStatus :: NodeStatus where
  "zero_NodeStatus = \<lparr>ns_ID = 0, ns_Leader = 0, ns_IsLeader = False, ns_Applied = 0, ns_Keys = 0\<rparr>"

text \<open>\<open>int\<close> fields: \<open>strconv.ParseInt\<close> on a JSON number.\<close>

definition get_int :: "json \<Rightarrow> int \<Rightarrow> int option" where
  "get_int j cur = (case j of JNum l \<Rightarrow> Atoi l | JNull \<Rightarrow> Some cur | _ \<Rightarrow> None)"

definition set_NodeStatus :: "string \<Rightarrow> json \<Rightarrow> NodeStatus \<Rightarrow> NodeStatus option" where
  "set_NodeStatus n j s =
     (if n = ''id'' then map_option (\<lambda>v. s\<lparr>ns_ID := v\<rparr>) (get_u64 j (ns_ID s))
      else if n = ''leader'' then map_option (\<lambda>v. s\<lparr>ns_Leader := v\<rparr>) (get_u64 j (ns_Leader s))
      else if n = ''is_leader'' then map_option (\<lambda>v. s\<lparr>ns_IsLeader := v\<rparr>) (get_bool j (ns_IsLeader s))
      else if n = ''applied'' then map_option (\<lambda>v. s\<lparr>ns_Applied := v\<rparr>) (get_u64 j (ns_Applied s))
      else map_option (\<lambda>v. s\<lparr>ns_Keys := v\<rparr>) (get_int j (ns_Keys s)))"

definition decode_status :: "string \<Rightarrow> NodeStatus option" where
  "decode_status body =
     (case jdecode body of
        None \<Rightarrow> None
      | Some j \<Rightarrow> get_struct set_NodeStatus [''id'', ''leader'', ''is_leader'', ''applied'', ''keys''] j zero_NodeStatus)"

definition read_status :: "Host \<Rightarrow> http_reply \<Rightarrow> drv_error + NodeStatus" where
  "read_status h r =
     (case r of
        TransportError e \<Rightarrow> Inl (EIO e)
      | Reply status _ body \<Rightarrow>
          if status \<noteq> 200 then Inl (EStatus (Target h) status)
          else (case decode_status body of None \<Rightarrow> Inl EDecode | Some st \<Rightarrow> Inr st))"

definition FetchStatus :: "'w world \<Rightarrow> Host \<Rightarrow> ('w, NodeStatus) act" where
  "FetchStatus W h =
     bnd (world (w_get W (RaftURL h @ ''/status''))) (\<lambda>r.
       case read_status h r of Inl e \<Rightarrow> failed e | Inr st \<Rightarrow> ret st)"

fun FindLeader :: "'w world \<Rightarrow> Host list \<Rightarrow> ('w, Host \<times> NodeStatus) act" where
  "FindLeader W [] = failed ENoLeader"
| "FindLeader W (h # hs) =
     bnd (attempted (FetchStatus W h)) (\<lambda>r.
       case r of
         Inl _ \<Rightarrow> FindLeader W hs
       | Inr st \<Rightarrow> if ns_IsLeader st then ret (h, st) else FindLeader W hs)"

text \<open>
  The loop that \<open>WaitLeader\<close>, \<open>WaitReady\<close> and \<open>waitAllAgreeOnLeader\<close> share: check, give up after the deadline, wait
  for the next poll or for the end of the context.
\<close>

partial_function (option) poll ::
  "'w world \<Rightarrow> ('w drv \<Rightarrow> ((drv_error + ('b + 'a)) \<times> 'w drv) option) \<Rightarrow> int \<Rightarrow> int \<Rightarrow> ('b \<Rightarrow> drv_error) \<Rightarrow> 'w drv \<Rightarrow>
   ((drv_error + 'a) \<times> 'w drv) option" where
  "poll W check deadline delay late s =
     Option.bind (check s) (\<lambda>(r, s1).
       case r of
         Inl e \<Rightarrow> Some (Inl e, s1)
       | Inr (Inr x) \<Rightarrow> Some (Inr x, s1)
       | Inr (Inl b) \<Rightarrow>
           if fst (w_now W (dv_world s1)) > deadline then Some (Inl (late b), s1\<lparr>dv_world := snd (w_now W (dv_world s1))\<rparr>)
           else if fst (w_after W delay (snd (w_now W (dv_world s1))))
             then Some (Inl ECtx, s1\<lparr>dv_world := snd (w_after W delay (snd (w_now W (dv_world s1))))\<rparr>)
           else poll W check deadline delay late (s1\<lparr>dv_world := snd (w_after W delay (snd (w_now W (dv_world s1))))\<rparr>))"

declare poll.simps [code]

definition ms :: "int \<Rightarrow> int" where "ms n = n * 1000000"
definition seconds :: "int \<Rightarrow> int" where "seconds n = n * 1000000000"

definition since :: "'w world \<Rightarrow> int \<Rightarrow> ('w, int) act" where
  "since W start = bnd (world (w_now W)) (\<lambda>t. ret (sat64 (t - start)))"

definition new_leader :: "'w world \<Rightarrow> Host list \<Rightarrow> u64 \<Rightarrow> ('w, unit + Host) act" where
  "new_leader W hosts exclude =
     bnd (attempted (FindLeader W hosts)) (\<lambda>r.
       ret (case r of Inl _ \<Rightarrow> Inl () | Inr (h, st) \<Rightarrow> if ns_ID st \<noteq> exclude then Inr h else Inl ()))"

definition WaitLeader :: "'w world \<Rightarrow> Host list \<Rightarrow> u64 \<Rightarrow> int \<Rightarrow> ('w, Host \<times> int) act" where
  "WaitLeader W hosts exclude timeout =
     bnd (world (w_now W)) (\<lambda>start.
     bnd (poll W (new_leader W hosts exclude) (start + timeout) (ms 50) (\<lambda>_. ENoLeaderWithin exclude timeout)) (\<lambda>h.
     bnd (since W start) (\<lambda>d. ret (h, d))))"

definition OtherHosts :: "Host list \<Rightarrow> u64 \<Rightarrow> Host list" where
  "OtherHosts hosts i = filter (\<lambda>h. ho_ID h \<noteq> i) hosts"

definition HostIDs :: "Host list \<Rightarrow> u64 list" where
  "HostIDs hosts = map ho_ID hosts"

section \<open>Deployment\<close>

text \<open>
  What does not change in a run: the inventory, the executor, the build, the platform and environment of the driver,
  \<open>filepath.Join\<close>, the recorder (for its start) and the scenario.
\<close>

record drv_cfg =
  dc_Inv :: Inventory
  dc_Ex :: Executor
  dc_Scratch :: string
  dc_BuildTags :: string
  dc_RepoRoot :: string
  dc_GOOS :: string
  dc_GOARCH :: string
  dc_Environ :: "string list"
  dc_Join :: "string \<Rightarrow> string \<Rightarrow> string"
  dc_Rec :: MhRecorder
  dc_Scenario :: string

definition NewDeployment :: Deployment where
  "NewDeployment = \<lparr>dp_binaries = fmempty, dp_pids = fmempty\<rparr>"

definition build_target :: "drv_cfg \<Rightarrow> Host \<Rightarrow> string" where
  "build_target C h = BuildOS (dc_GOOS C) h @ ''/'' @ BuildArch (dc_GOARCH C) h"

definition binary_name :: "drv_cfg \<Rightarrow> Host \<Rightarrow> string" where
  "binary_name C h =
     ''quorumlogd-'' @ BuildOS (dc_GOOS C) h @ ''-'' @ BuildArch (dc_GOARCH C) h @
     (if dc_BuildTags C \<noteq> '''' then ''-'' @ replace_char CHR '','' ''-'' (dc_BuildTags C) else '''')"

definition build_host :: "'w world \<Rightarrow> drv_cfg \<Rightarrow> Host \<Rightarrow> ('w, unit) act" where
  "build_host W C h =
     bnd get_dep (\<lambda>d.
       if fmlookup (dp_binaries d) (build_target C h) \<noteq> None then ret ()
       else
         let out = dc_Join C (dc_Scratch C) (binary_name C h);
             args = [''build''] @ (if dc_BuildTags C \<noteq> '''' then [''-tags'', dc_BuildTags C] else []) @ [''-o'', out, ''./cmd/quorumlogd''];
             env = dc_Environ C @ [''GOOS='' @ BuildOS (dc_GOOS C) h, ''GOARCH='' @ BuildArch (dc_GOARCH C) h]
         in bnd (bnd (world (w_exec W ''go'' args env)) (combined (EBuild (build_target C h)))) (\<lambda>_.
            modify_dep (\<lambda>d. d\<lparr>dp_binaries := fmupd (build_target C h) out (dp_binaries d)\<rparr>)))"

definition dp_Build :: "'w world \<Rightarrow> drv_cfg \<Rightarrow> ('w, unit) act" where
  "dp_Build W C = each (build_host W C) (iv_Hosts (dc_Inv C))"

definition BinaryFor :: "drv_cfg \<Rightarrow> Host \<Rightarrow> ('w, string) act" where
  "BinaryFor C h =
     bnd get_dep (\<lambda>d.
       case fmlookup (dp_binaries d) (build_target C h) of
         None \<Rightarrow> failed (ENoBinary (build_target C h))
       | Some p \<Rightarrow> ret p)"

definition nl :: string where "nl = [CHR 0x0A]"
definition dq :: "string \<Rightarrow> string" where "dq s = [CHR 0x22] @ s @ [CHR 0x22]"

definition startScript :: "drv_cfg \<Rightarrow> Host \<Rightarrow> string" where
  "startScript C h =
     ''#!/bin/sh'' @ nl @
     ''# Generated by qlmultihost. Starts one quorum-log node on this host.'' @ nl @
     ''set -eu'' @ nl @
     ''DATA_DIR='' @ ho_DataDir h @ nl @
     ''mkdir -p '' @ dq ''$DATA_DIR'' @ nl @
     ''cd '' @ dq ''$DATA_DIR'' @ nl @
     ''rm -f node.pid'' @ nl @
     ''nohup ./quorumlogd -id '' @ format_uint (ho_ID h) @ '' -listen '' @ ListenAddr h @ '' -data '' @ dq ''$DATA_DIR'' @
       '' -peers '' @ ShellQuote (PeersFlag (dc_Inv C)) @ '' -chaos-listen '' @ ChaosListenAddr h @ '' >>node.log 2>&1 &'' @ nl @
     ''echo $! >node.pid'' @ nl @
     ''sleep 1'' @ nl @
     ''PID=$(cat node.pid)'' @ nl @
     ''kill -0 '' @ dq ''$PID'' @ '' 2>/dev/null || { echo '' @ dq ''node exited during startup; see $DATA_DIR/node.log'' @
       '' >&2; tail -5 node.log >&2; exit 1; }'' @ nl @
     ''echo '' @ dq ''$PID'' @ nl"

definition dp_Deploy :: "'w world \<Rightarrow> drv_cfg \<Rightarrow> Host \<Rightarrow> ('w, unit) act" where
  "dp_Deploy W C h =
     (let ex = dc_Ex C; script = dc_Join C (dc_Scratch C) (''start-n'' @ format_uint (ho_ID h) @ ''.sh'') in
      bnd (BinaryFor C h) (\<lambda>bin.
      bnd (ex_Run W ex h (''mkdir -p '' @ ho_DataDir h)) (\<lambda>_.
      bnd (ex_Copy W ex h bin (BinaryPath h)) (\<lambda>_.
      bnd (ex_Run W ex h (''chmod +x '' @ BinaryPath h)) (\<lambda>_.
      bnd (bnd (world (w_writefile W script (startScript C h))) file_error) (\<lambda>_.
      bnd (ex_Copy W ex h script (StartScriptPath h)) (\<lambda>_.
      bnd (ex_Run W ex h (''chmod +x '' @ StartScriptPath h)) (\<lambda>_. ret ()))))))))"

definition lastIntLine :: "string \<Rightarrow> int option" where
  "lastIntLine out = (case List.map_filter Atoi (rev (map TrimSpace (Fields out))) of [] \<Rightarrow> None | n # _ \<Rightarrow> Some n)"

definition dp_Start :: "'w world \<Rightarrow> drv_cfg \<Rightarrow> Host \<Rightarrow> ('w, int) act" where
  "dp_Start W C h =
     bnd (ex_Run W (dc_Ex C) h (''sh '' @ StartScriptPath h)) (\<lambda>out.
       case lastIntLine out of
         None \<Rightarrow> failed (ENoPid (Target h) (TrimSpace out))
       | Some pid \<Rightarrow> bnd (modify_dep (\<lambda>d. d\<lparr>dp_pids := fmupd (ho_ID h) pid (dp_pids d)\<rparr>)) (\<lambda>_. ret pid))"

definition statusOK :: "'w world \<Rightarrow> Host \<Rightarrow> ('w, bool) act" where
  "statusOK W h =
     bnd (world (w_get W (RaftURL h @ ''/status''))) (\<lambda>r.
       ret (case r of TransportError _ \<Rightarrow> False | Reply status _ _ \<Rightarrow> status = 200))"

text \<open>One round over the hosts; the first that does not answer is the pending one.\<close>

fun all_ready :: "'w world \<Rightarrow> Host list \<Rightarrow> ('w, string + unit) act" where
  "all_ready W [] = ret (Inr ())"
| "all_ready W (h # hs) = bnd (statusOK W h) (\<lambda>b. if b then all_ready W hs else ret (Inl (Target h)))"

definition WaitReady :: "'w world \<Rightarrow> Host list \<Rightarrow> int \<Rightarrow> ('w, unit) act" where
  "WaitReady W hosts timeout =
     bnd (world (w_now W)) (\<lambda>start.
       poll W (all_ready W hosts) (start + timeout) (ms 100) (\<lambda>p. ENotReady p timeout))"

definition dp_StartAll :: "'w world \<Rightarrow> drv_cfg \<Rightarrow> ('w, unit) act" where
  "dp_StartAll W C =
     bnd (each (\<lambda>h. bnd (dp_Start W C h) (\<lambda>_. ret ())) (iv_Hosts (dc_Inv C))) (\<lambda>_.
       WaitReady W (iv_Hosts (dc_Inv C)) (seconds 30))"

definition signalScript :: "Host \<Rightarrow> string \<Rightarrow> string" where
  "signalScript h signal =
     ''set -eu'' @ nl @
     ''PIDFILE='' @ PidPath h @ nl @
     ''[ -f '' @ dq ''$PIDFILE'' @ '' ] || { echo '' @ dq ''no pid file'' @ '' >&2; exit 1; }'' @ nl @
     ''PID=$(cat '' @ dq ''$PIDFILE'' @ '')'' @ nl @
     ''CMD=$(ps -p '' @ dq ''$PID'' @ '' -o command= 2>/dev/null || true)'' @ nl @
     ''case '' @ dq ''$CMD'' @ '' in'' @ nl @
     ''  *quorumlogd*)'' @ nl @
     ''    kill -'' @ signal @ '' '' @ dq ''$PID'' @ nl @
     ''    echo '' @ dq ''signalled $PID'' @ nl @
     ''    ;;'' @ nl @
     ''  '' @ dq '''' @ '')'' @ nl @
     ''    echo '' @ dq ''pid $PID already gone'' @ nl @
     ''    ;;'' @ nl @
     ''  *)'' @ nl @
     ''    echo '' @ dq ''pid $PID is not a quorumlogd process; refusing to signal'' @ '' >&2'' @ nl @
     ''    exit 1'' @ nl @
     ''    ;;'' @ nl @
     ''esac'' @ nl"

definition dp_Kill :: "'w world \<Rightarrow> drv_cfg \<Rightarrow> Host \<Rightarrow> ('w, unit) act" where
  "dp_Kill W C h = bnd (ex_Run W (dc_Ex C) h (signalScript h ''9'')) (\<lambda>_. ret ())"

text \<open>The loop of \<open>Stop\<close>: wait for the process to go away, kill it after the deadline.\<close>

definition still_there :: "'w world \<Rightarrow> drv_cfg \<Rightarrow> Host \<Rightarrow> ('w, bool) act" where
  "still_there W C h =
     bnd (attempted (ex_Run W (dc_Ex C) h (''ps -p $(cat '' @ PidPath h @ '') -o command= 2>/dev/null || true''))) (\<lambda>r.
       ret (case r of Inl _ \<Rightarrow> True | Inr out \<Rightarrow> contains_str out ''quorumlogd''))"

partial_function (option) stop_loop ::
  "'w world \<Rightarrow> drv_cfg \<Rightarrow> Host \<Rightarrow> int \<Rightarrow> 'w drv \<Rightarrow> ((drv_error + unit) \<times> 'w drv) option" where
  "stop_loop W C h deadline s =
     (if fst (w_now W (dv_world s)) \<ge> deadline then dp_Kill W C h (s\<lparr>dv_world := snd (w_now W (dv_world s))\<rparr>)
      else
        Option.bind (still_there W C h (s\<lparr>dv_world := snd (w_now W (dv_world s))\<rparr>)) (\<lambda>(r, s1).
          case r of
            Inl e \<Rightarrow> Some (Inl e, s1)
          | Inr b \<Rightarrow>
              if \<not> b then Some (Inr (), s1)
              else stop_loop W C h deadline (s1\<lparr>dv_world := w_sleep W (ms 100) (dv_world s1)\<rparr>)))"

declare stop_loop.simps [code]

definition dp_Stop :: "'w world \<Rightarrow> drv_cfg \<Rightarrow> Host \<Rightarrow> ('w, unit) act" where
  "dp_Stop W C h =
     bnd (ex_Run W (dc_Ex C) h (signalScript h ''TERM'')) (\<lambda>_.
     bnd (world (w_now W)) (\<lambda>t. stop_loop W C h (t + seconds 10)))"

text \<open>\<open>StopAll\<close> goes on after an error and returns all of them.\<close>

fun stop_hosts :: "'w world \<Rightarrow> drv_cfg \<Rightarrow> Host list \<Rightarrow> ('w, (u64 \<times> drv_error) list) act" where
  "stop_hosts W C [] = ret []"
| "stop_hosts W C (h # hs) =
     bnd (attempted (dp_Stop W C h)) (\<lambda>r.
     bnd (stop_hosts W C hs) (\<lambda>es.
       ret ((case r of Inl e \<Rightarrow> [(ho_ID h, EWrap (''stop node '' @ format_uint (ho_ID h)) e)] | Inr _ \<Rightarrow> []) @ es)))"

definition dp_StopAll :: "'w world \<Rightarrow> drv_cfg \<Rightarrow> ('w, (u64 \<times> drv_error) list) act" where
  "dp_StopAll W C = stop_hosts W C (iv_Hosts (dc_Inv C))"

definition TailLog :: "'w world \<Rightarrow> drv_cfg \<Rightarrow> Host \<Rightarrow> int \<Rightarrow> ('w, string) act" where
  "TailLog W C h lines =
     bnd (attempted (ex_Run W (dc_Ex C) h (''tail -'' @ format_int lines @ '' '' @ LogPath h @ '' 2>/dev/null || true''))) (\<lambda>r.
       ret (case r of Inl _ \<Rightarrow> '''' | Inr out \<Rightarrow> out))"

end
