(* ===== verification/DriverFacts.thy ===== *)
theory DriverFacts
  imports Driver
begin

text \<open>
  Facts on the actions of the driver and on its polling loops.  The laws of time the loops rely on are the locale
  \<open>clock\<close>: readings and timers never go back, and a timer that fired has waited; \<open>responsive\<close> adds that a request has
  a timeout and that the context is still alive.
\<close>

section \<open>Actions\<close>

lemma act_simps:
  "ret x s = Some (Inr x, s)"
  "failed e s = Some (Inl e, s)"
  "world f s = Some (Inr (fst (f (dv_world s))), s\<lparr>dv_world := snd (f (dv_world s))\<rparr>)"
  "modify_dep g s = Some (Inr (), s\<lparr>dv_dep := g (dv_dep s)\<rparr>)"
  "modify_run q s = Some (Inr (), s\<lparr>dv_run := q (dv_run s)\<rparr>)"
  "get_dep s = Some (Inr (dv_dep s), s)"
  "get_run s = Some (Inr (dv_run s), s)"
  by (simp_all add: ret_def failed_def world_def modify_dep_def modify_run_def get_dep_def get_run_def split_beta)

lemma bnd_Some [simp]:
  "m s = Some (Inr x, s1) \<Longrightarrow> bnd m f s = f x s1"
  "m s = Some (Inl e, s1) \<Longrightarrow> bnd m f s = Some (Inl e, s1)"
  by (simp_all add: bnd_def)

lemma attempted_Some [simp]: "m s = Some (r, s1) \<Longrightarrow> attempted m s = Some (Inr r, s1)"
  by (simp add: attempted_def)

lemma bnd_ret [simp]: "bnd (ret x) f = f x" "bnd (failed e) f = failed e"
  by (rule ext, simp add: bnd_def act_simps)+

lemma bnd_cases:
  assumes "bnd m f s = Some (r, s')"
  obtains (err) e where "m s = Some (Inl e, s')" "r = Inl e"
  | (ok) x s1 where "m s = Some (Inr x, s1)" "f x s1 = Some (r, s')"
proof (cases "m s")
  case None
  then show thesis using assms by (simp add: bnd_def)
next
  case (Some p)
  then obtain q s1 where p: "m s = Some (q, s1)" by (cases p) auto
  then show thesis using assms that by (cases q) (auto simp: bnd_def)
qed

section \<open>Polling\<close>

text \<open>A loop keeps what its check keeps; what it returned, its check returned in the last round.\<close>

lemma poll_invariant:
  assumes keeps: "\<And>s r s1. I s \<Longrightarrow> check s = Some (r, s1) \<Longrightarrow> I s1" "\<And>s w. I s \<Longrightarrow> I (s\<lparr>dv_world := w\<rparr>)"
    and run: "poll W check deadline delay late s = Some (r, s')" and start: "I s"
  shows "I s' \<and> (\<forall>x. r = Inr x \<longrightarrow> (\<exists>s0. I s0 \<and> check s0 = Some (Inr (Inr x), s')))"
proof -
  define Q where "Q y \<longleftrightarrow> (case y of (r, s') \<Rightarrow> I s' \<and> (\<forall>x. r = Inr x \<longrightarrow> (\<exists>s0. I s0 \<and> check s0 = Some (Inr (Inr x), s'))))"
    for y :: "(drv_error + 'c) \<times> 'a drv"
  have "check = check \<longrightarrow> I s \<longrightarrow> Q (r, s')"
  proof (rule poll.raw_induct [where P = "\<lambda>_ c _ _ _ s y. c = check \<longrightarrow> I s \<longrightarrow> Q y", OF _ run])
    fix f :: "'a world \<Rightarrow> ('a drv \<Rightarrow> ((drv_error + 'b + 'c) \<times> 'a drv) option) \<Rightarrow> int \<Rightarrow> int \<Rightarrow> ('b \<Rightarrow> drv_error) \<Rightarrow> 'a drv \<Rightarrow> ((drv_error + 'c) \<times> 'a drv) option"
      and W c deadline delay late s y
    assume ih: "\<And>W c deadline delay late s y. f W c deadline delay late s = Some y \<Longrightarrow> c = check \<longrightarrow> I s \<longrightarrow> Q y"
      and e: "Option.bind (c s) (\<lambda>(r, s1). case r of Inl e \<Rightarrow> Some (Inl e, s1)
         | Inr (Inl b) \<Rightarrow>
           if fst (w_now W (dv_world s1)) > deadline then Some (Inl (late b), s1\<lparr>dv_world := snd (w_now W (dv_world s1))\<rparr>)
           else if fst (w_after W delay (snd (w_now W (dv_world s1))))
             then Some (Inl ECtx, s1\<lparr>dv_world := snd (w_after W delay (snd (w_now W (dv_world s1))))\<rparr>)
           else f W c deadline delay late (s1\<lparr>dv_world := snd (w_after W delay (snd (w_now W (dv_world s1))))\<rparr>)
         | Inr (Inr x) \<Rightarrow> Some (Inr x, s1)) = Some y"
    show "c = check \<longrightarrow> I s \<longrightarrow> Q y"
    proof (intro impI)
      assume c: "c = check" and s: "I s"
      from e obtain r s1 where r: "check s = Some (r, s1)" using c by (auto simp: bind_eq_Some_conv)
      then have "I s1" by (rule keeps(1) [OF s])
      with e r c ih keeps(2) s show "Q y" by (auto simp: Q_def split: sum.splits if_splits)
    qed
  qed
  then show ?thesis using start by (simp add: Q_def)
qed

section \<open>Looking for the leader\<close>

lemma FetchStatus_simp:
  "FetchStatus W h s =
     (let w = w_get W (RaftURL h @ ''/status'') (dv_world s) in Some (read_status h (fst w), s\<lparr>dv_world := snd w\<rparr>))"
  by (cases "read_status h (fst (w_get W (RaftURL h @ ''/status'') (dv_world s)))")
    (simp_all add: FetchStatus_def bnd_def act_simps Let_def)

text \<open>\<open>h\<close> answered a status request as the leader.\<close>

definition leads :: "'w world \<Rightarrow> Host \<Rightarrow> NodeStatus \<Rightarrow> 'w \<Rightarrow> bool" where
  "leads W h st w \<longleftrightarrow> read_status h (fst (w_get W (RaftURL h @ ''/status'') w)) = Inr st \<and> ns_IsLeader st"

lemma FindLeader_Cons:
  "(\<exists>st. leads W h st (dv_world s) \<and>
      FindLeader W (h # hs) s = Some (Inr (h, st), s\<lparr>dv_world := snd (w_get W (RaftURL h @ ''/status'') (dv_world s))\<rparr>)) \<or>
   (\<nexists>st. leads W h st (dv_world s)) \<and>
      FindLeader W (h # hs) s = FindLeader W hs (s\<lparr>dv_world := snd (w_get W (RaftURL h @ ''/status'') (dv_world s))\<rparr>)"
  by (cases "read_status h (fst (w_get W (RaftURL h @ ''/status'') (dv_world s)))")
    (auto simp: leads_def FetchStatus_simp Let_def act_simps)

lemma FindLeader_result:
  "FindLeader W hosts s = Some (Inr (h, st), s') \<Longrightarrow> h \<in> set hosts \<and> (\<exists>w. leads W h st w)"
proof (induction hosts arbitrary: s)
  case (Cons k ks)
  let ?s = "s\<lparr>dv_world := snd (w_get W (RaftURL k @ ''/status'') (dv_world s))\<rparr>"
  consider (here) st' where "leads W k st' (dv_world s)" "FindLeader W (k # ks) s = Some (Inr (k, st'), ?s)"
    | (there) "FindLeader W (k # ks) s = FindLeader W ks ?s"
    using FindLeader_Cons [of W k s ks] by blast
  then show ?case
  proof cases
    case here
    then show ?thesis using Cons.prems by (auto simp del: FindLeader.simps)
  next
    case there
    then show ?thesis using Cons.IH [of ?s] Cons.prems by (simp del: FindLeader.simps)
  qed
qed (simp add: act_simps)

lemma new_leader_result:
  "new_leader W hosts exclude s = Some (Inr (Inr h), s') \<Longrightarrow> h \<in> set hosts \<and> (\<exists>st w. leads W h st w \<and> ns_ID st \<noteq> exclude)"
  unfolding new_leader_def
proof (erule bnd_cases)
  fix r s1
  assume "attempted (FindLeader W hosts) s = Some (Inr r, s1)"
    and e: "ret (case r of Inl _ \<Rightarrow> Inl () | Inr (h, st) \<Rightarrow> if ns_ID st \<noteq> exclude then Inr h else Inl ()) s1 = Some (Inr (Inr h), s')"
  then have "FindLeader W hosts s = Some (r, s1)" by (auto simp: attempted_def)
  then show ?thesis using e FindLeader_result [of W hosts s] by (fastforce simp: act_simps split: sum.splits if_splits)
qed (simp add: attempted_def)

lemma WaitLeader_result:
  assumes "WaitLeader W hosts exclude timeout s = Some (Inr (h, d), s')"
  shows "h \<in> set hosts \<and> (\<exists>st w. leads W h st w \<and> ns_ID st \<noteq> exclude)"
proof -
  obtain start k s1 s2 where "poll W (new_leader W hosts exclude) (start + timeout) (ms 50) (\<lambda>_. ENoLeaderWithin exclude timeout) s1 = Some (Inr k, s2)"
      "k = h"
    using assms unfolding WaitLeader_def since_def by (elim bnd_cases) (auto simp: act_simps)
  then show ?thesis using poll_invariant [where I = "\<lambda>_. True", of "new_leader W hosts exclude"] new_leader_result by blast
qed

section \<open>Time\<close>

locale clock =
  fixes W :: "'w world" and time :: "'w \<Rightarrow> int"
  assumes now_ge: "time w \<le> fst (w_now W w)"
    and now_le: "fst (w_now W w) \<le> time (snd (w_now W w))"
    and after_le: "\<not> fst (w_after W d w) \<Longrightarrow> time w + d \<le> time (snd (w_after W d w))"
    and after_mono: "time w \<le> time (snd (w_after W d w))"
    and get_le: "time w \<le> time (snd (w_get W url w))"
    and exec_le: "time w \<le> time (snd (w_exec W cmd args env w))"
    and sleep_le: "time w + d \<le> time (w_sleep W d w)"
begin

abbreviation tm :: "'w drv \<Rightarrow> int" where
  "tm s \<equiv> time (dv_world s)"

text \<open>An action that always returns and never goes back in time.\<close>

definition ends :: "('w drv \<Rightarrow> ((drv_error + 'a) \<times> 'w drv) option) \<Rightarrow> bool" where
  "ends m \<longleftrightarrow> (\<forall>s. \<exists>r s1. m s = Some (r, s1) \<and> tm s \<le> tm s1)"

lemma endsE: "ends m \<Longrightarrow> (\<And>r s1. m s = Some (r, s1) \<Longrightarrow> tm s \<le> tm s1 \<Longrightarrow> thesis) \<Longrightarrow> thesis"
  unfolding ends_def by blast

lemma ends_ret [intro, simp]: "ends (ret x)" "ends (failed e)" "ends get_dep" "ends get_run" "ends (modify_dep f)" "ends (modify_run g)"
  by (simp_all add: ends_def act_simps)

lemma ends_world [intro]: "(\<And>w. time w \<le> time (snd (f w))) \<Longrightarrow> ends (world f)"
  by (simp add: ends_def act_simps)

lemma ends_bnd [intro]:
  assumes "ends m" "\<And>x. ends (f x)"
  shows "ends (bnd m f)"
  unfolding ends_def
proof
  fix s
  obtain r s1 where m: "m s = Some (r, s1)" "tm s \<le> tm s1" using assms(1) by (rule endsE)
  show "\<exists>r s1. bnd m f s = Some (r, s1) \<and> tm s \<le> tm s1"
  proof (cases r)
    case (Inl e)
    then show ?thesis using m by (auto simp: bnd_def)
  next
    case (Inr x)
    obtain r2 s2 where "f x s1 = Some (r2, s2)" "tm s1 \<le> tm s2" using assms(2) by (rule endsE)
    then show ?thesis using m Inr by (auto simp: bnd_def)
  qed
qed

lemma ends_attempted [intro]: "ends m \<Longrightarrow> ends (attempted m)"
  unfolding ends_def attempted_def by fastforce

lemma ends_wrapped [intro]: "ends m \<Longrightarrow> ends (wrapped t m)"
  unfolding ends_def wrapped_def by fastforce

lemma ends_combined [intro, simp]: "ends (combined err r)"
  by (simp add: combined_def split: prod.split option.split)

lemma ends_exec [intro]: "ends (ex_Run W ex h script)"
  unfolding ex_Run_def
  by (auto split: Executor.split intro!: ends_bnd ends_world exec_le)

lemma ends_FetchStatus [intro]: "ends (FetchStatus W h)"
  unfolding FetchStatus_def by (auto split: sum.split intro!: ends_bnd ends_world get_le)

lemma ends_FindLeader [intro]: "ends (FindLeader W hosts)"
  by (induction hosts) (auto split: sum.split intro!: ends_bnd ends_attempted ends_FetchStatus)

lemma ends_new_leader [intro]: "ends (new_leader W hosts exclude)"
  unfolding new_leader_def by (intro ends_bnd ends_attempted ends_FindLeader ends_ret)

lemma ends_all_ready [intro]: "ends (all_ready W hosts)"
  by (induction hosts) (auto simp: statusOK_def intro!: ends_bnd ends_world get_le)

text \<open>A polling loop returns: the clock passes the deadline.\<close>

lemma poll_ends:
  assumes "ends check" "0 < delay"
  shows "ends (poll W check deadline delay late)"
  unfolding ends_def
proof
  fix s
  show "\<exists>r s1. poll W check deadline delay late s = Some (r, s1) \<and> tm s \<le> tm s1"
  proof (induction "nat (deadline + 1 - tm s)" arbitrary: s rule: less_induct)
    case less
    obtain r s1 where c: "check s = Some (r, s1)" "tm s \<le> tm s1" using assms(1) by (rule endsE)
    let ?n = "w_now W (dv_world s1)" and ?a = "w_after W delay (snd (w_now W (dv_world s1)))"
    have n: "tm s1 \<le> fst ?n" "fst ?n \<le> time (snd ?n)" "time (snd ?n) \<le> time (snd ?a)"
      by (rule now_ge, rule now_le, rule after_mono)
    show ?case
    proof (cases "\<exists>b. r = Inr (Inl b) \<and> \<not> fst ?n > deadline \<and> \<not> fst ?a")
      case True
      then obtain b where b: "r = Inr (Inl b)" "\<not> fst ?n > deadline" "\<not> fst ?a" by blast
      have "tm s + delay \<le> tm (s1\<lparr>dv_world := snd ?a\<rparr>)" using after_le [OF b(3)] c(2) n by simp
      moreover have "tm s \<le> deadline" using c(2) n b(2) by simp
      ultimately have "nat (deadline + 1 - tm (s1\<lparr>dv_world := snd ?a\<rparr>)) < nat (deadline + 1 - tm s)" using assms(2) by linarith
      from less [OF this] obtain r2 s2 where "poll W check deadline delay late (s1\<lparr>dv_world := snd ?a\<rparr>) = Some (r2, s2)"
          "tm (s1\<lparr>dv_world := snd ?a\<rparr>) \<le> tm s2" by blast
      moreover have "poll W check deadline delay late s = poll W check deadline delay late (s1\<lparr>dv_world := snd ?a\<rparr>)"
        using c(1) b by (subst poll.simps) simp
      ultimately show ?thesis using \<open>tm s + delay \<le> _\<close> assms(2) by auto
    next
      case False
      have "\<exists>r2 s2. poll W check deadline delay late s = Some (r2, s2) \<and> tm s1 \<le> tm s2"
        using False c(1) n by (subst poll.simps) (auto split: sum.split)
      then show ?thesis using c(2) by (meson order_trans)
    qed
  qed
qed

end

locale responsive = clock W time for W :: "'w world" and time :: "'w \<Rightarrow> int" +
  fixes g :: int
  assumes get_bound: "time (snd (w_get W url w)) \<le> time w + g"
    and now_bound: "fst (w_now W w) \<le> time w + g"
    and alive: "\<not> fst (w_after W d w)"
begin

lemma g_nonneg: "0 \<le> g"
  using get_le [of undefined undefined] get_bound [of undefined undefined] by linarith

text \<open>Actions that take at most \<open>n\<close> requests.\<close>

definition takes :: "nat \<Rightarrow> ('w drv \<Rightarrow> ((drv_error + 'a) \<times> 'w drv) option) \<Rightarrow> bool" where
  "takes n m \<longleftrightarrow> (\<forall>s r s1. m s = Some (r, s1) \<longrightarrow> tm s1 \<le> tm s + int n * g)"

lemma takes_ret [simp]: "takes n (ret x)" "takes n (failed e)"
  using g_nonneg by (auto simp: takes_def act_simps)

lemma takes_bnd:
  assumes "takes a m" "\<And>x. takes b (f x)"
  shows "takes (a + b) (bnd m f)"
  unfolding takes_def
proof (intro allI impI)
  fix s r s'
  assume "bnd m f s = Some (r, s')"
  then show "tm s' \<le> tm s + int (a + b) * g"
  proof (cases rule: bnd_cases)
    case (err e)
    then have "tm s' \<le> tm s + int a * g" using assms(1) by (simp add: takes_def)
    moreover have "0 \<le> int b * g" using g_nonneg by simp
    ultimately show ?thesis by (simp add: algebra_simps)
  next
    case (ok x s1)
    then have "tm s1 \<le> tm s + int a * g" "tm s' \<le> tm s1 + int b * g" using assms by (auto simp: takes_def)
    then show ?thesis by (simp add: algebra_simps)
  qed
qed

lemma takes_attempted: "takes n m \<Longrightarrow> takes n (attempted m)"
  by (auto simp: takes_def attempted_def)

lemma takes_FetchStatus: "takes 1 (FetchStatus W h)"
proof -
  have "takes 1 (world (w_get W (RaftURL h @ ''/status'')))" using get_bound by (auto simp: takes_def act_simps)
  moreover have "takes 0 (case read_status h r of Inl e \<Rightarrow> failed e | Inr st \<Rightarrow> ret st)" for r by (simp split: sum.split)
  ultimately have "takes (1 + 0) (FetchStatus W h)" unfolding FetchStatus_def by (rule takes_bnd)
  then show ?thesis by simp
qed

lemma takes_FindLeader: "takes (length hosts) (FindLeader W hosts)"
proof (induction hosts)
  case (Cons h hs)
  have "takes (1 + length hs) (FindLeader W (h # hs))" unfolding FindLeader.simps
    using Cons by (intro takes_bnd takes_attempted takes_FetchStatus) (simp split: sum.split)
  then show ?case by simp
qed simp

lemma takes_new_leader: "takes (length hosts) (new_leader W hosts exclude)"
proof -
  have "takes (length hosts + 0) (new_leader W hosts exclude)" unfolding new_leader_def
    by (intro takes_bnd takes_attempted takes_FindLeader) simp
  then show ?thesis by simp
qed

text \<open>A loop whose check holds from some instant on, a round before the deadline, returns a value.\<close>

lemma poll_succeeds:
  assumes check: "ends check" "takes n check" "\<And>s e s1. check s \<noteq> Some (Inl e, s1)" and "0 < delay"
    and good: "\<And>s. T \<le> tm s \<Longrightarrow> \<exists>x s1. check s = Some (Inr (Inr x), s1)"
    and early: "T + (int n + 1) * g \<le> deadline"
  shows "\<exists>x s1. poll W check deadline delay late s = Some (Inr x, s1)"
proof (induction "nat (T - tm s)" arbitrary: s rule: less_induct)
  case less
  obtain r s1 where c: "check s = Some (r, s1)" "tm s \<le> tm s1" using check(1) by (rule endsE)
  then obtain q where q: "r = Inr q" using check(3) by (cases r) auto
  show ?case
  proof (cases q)
    case (Inr x)
    then show ?thesis using c q by (subst poll.simps) simp
  next
    case (Inl b)
    let ?n = "w_now W (dv_world s1)" and ?a = "w_after W delay (snd (w_now W (dv_world s1)))"
    have T: "tm s < T" using good [of s] c q Inl by force
    have "tm s1 \<le> tm s + int n * g" using check(2) c(1) by (simp add: takes_def)
    moreover have "fst ?n \<le> tm s1 + g" by (rule now_bound)
    ultimately have d: "\<not> fst ?n > deadline" using T early by (simp add: algebra_simps)
    have "tm s + delay \<le> tm (s1\<lparr>dv_world := snd ?a\<rparr>)"
      using after_le [OF alive, of "snd ?n" delay] now_ge [of "dv_world s1"] now_le [of "dv_world s1"] c(2) by simp
    then have "nat (T - tm (s1\<lparr>dv_world := snd ?a\<rparr>)) < nat (T - tm s)" using assms(4) T by linarith
    from less [OF this] show ?thesis using c q Inl d alive by (subst poll.simps) simp
  qed
qed

lemma FindLeader_finds:
  assumes "l \<in> set hosts" "T \<le> tm s" and l: "\<forall>w. T \<le> time w \<longrightarrow> (\<exists>st. leads W l st w)"
  shows "\<exists>h st s1 w. FindLeader W hosts s = Some (Inr (h, st), s1) \<and> h \<in> set hosts \<and> T \<le> time w \<and> leads W h st w"
  using assms(1,2)
proof (induction hosts arbitrary: s)
  case (Cons h hs)
  let ?s = "s\<lparr>dv_world := snd (w_get W (RaftURL h @ ''/status'') (dv_world s))\<rparr>"
  show ?case
  proof (cases "\<exists>st. leads W h st (dv_world s)")
    case True
    then show ?thesis using FindLeader_Cons [of W h s hs] Cons.prems(2) by auto
  next
    case False
    then have "l \<in> set hs" using Cons.prems l by auto
    moreover have "T \<le> tm ?s" using Cons.prems(2) get_le [of "dv_world s" "RaftURL h @ ''/status''"] by simp
    ultimately have "\<exists>k st s1 w. FindLeader W hs ?s = Some (Inr (k, st), s1) \<and> k \<in> set hs \<and> T \<le> time w \<and> leads W k st w"
      by (rule Cons.IH)
    moreover have "FindLeader W (h # hs) s = FindLeader W hs ?s" using FindLeader_Cons [of W h s hs] False by blast
    ultimately show ?thesis by auto
  qed
qed simp

lemma WaitLeader_succeeds:
  assumes "l \<in> set hosts" and l: "\<forall>w. T \<le> time w \<longrightarrow> (\<exists>st. leads W l st w)"
    and new: "\<forall>w h st. T \<le> time w \<and> h \<in> set hosts \<and> leads W h st w \<longrightarrow> ns_ID st \<noteq> exclude"
    and early: "T + (int (length hosts) + 1) * g \<le> fst (w_now W (dv_world s)) + timeout"
  shows "\<exists>h d s'. WaitLeader W hosts exclude timeout s = Some (Inr (h, d), s')"
proof -
  let ?c = "new_leader W hosts exclude" and ?d = "fst (w_now W (dv_world s)) + timeout"
  let ?s = "s\<lparr>dv_world := snd (w_now W (dv_world s))\<rparr>"
  have "\<exists>x s1. ?c s = Some (Inr (Inr x), s1)" if late: "T \<le> tm s" for s
  proof -
    obtain h st s1 w where f: "FindLeader W hosts s = Some (Inr (h, st), s1)" "h \<in> set hosts" "T \<le> time w" "leads W h st w"
      using FindLeader_finds [OF assms(1) late l] by blast
    then have "ns_ID st \<noteq> exclude" using new by blast
    then show ?thesis using f(1) by (simp add: new_leader_def act_simps)
  qed
  moreover have "?c s \<noteq> Some (Inl e, s1)" for s e s1
    by (auto simp: new_leader_def act_simps attempted_def elim!: bnd_cases)
  ultimately obtain h s2 where "poll W ?c ?d (ms 50) (\<lambda>_. ENoLeaderWithin exclude timeout) ?s = Some (Inr h, s2)"
    using poll_succeeds [OF ends_new_leader takes_new_leader _ _ _ early, of exclude "ms 50"] by (force simp: ms_def)
  then show ?thesis by (simp add: WaitLeader_def since_def act_simps)
qed

end

text \<open>
  C11: waiting for a new leader succeeds when there is one.  If the clock and the timers advance, a request ends within
  \<open>g\<close> and the context lives, and if from an instant \<open>T\<close> on some host answers every status request as leader and no host
  answers as the excluded leader, with one round of requests left before the deadline, then \<open>WaitLeader\<close> returns a host
  of the list that reported itself leader under an id other than the excluded one.
\<close>

theorem WaitLeader_returns_leader:
  assumes "responsive W time g" "l \<in> set hosts" "\<forall>w. T \<le> time w \<longrightarrow> (\<exists>st. leads W l st w)"
    and "\<forall>w h st. T \<le> time w \<and> h \<in> set hosts \<and> leads W h st w \<longrightarrow> ns_ID st \<noteq> exclude"
    and "T + (int (length hosts) + 1) * g \<le> fst (w_now W (dv_world s)) + timeout"
  shows "\<exists>h d s'. WaitLeader W hosts exclude timeout s = Some (Inr (h, d), s') \<and> h \<in> set hosts \<and>
    (\<exists>st w. leads W h st w \<and> ns_ID st \<noteq> exclude)"
  using responsive.WaitLeader_succeeds [OF assms] WaitLeader_result by blast

end
