(* ===== verification/Faults.thy ===== *)
theory Faults
  imports DriverFacts
begin

text \<open>
  \<open>internal/multihost/faults.go\<close>: the scenarios that kill and isolate nodes while traffic runs, the timeline they
  record, and the measurements derived from the recorded history.  A duration in milliseconds is the exact quotient,
  a \<^typ>\<open>rat\<close>; the wall clock text of an event repeats its instant and is left out.
\<close>

section \<open>Events and waiting\<close>

definition ScenarioFull :: string where "ScenarioFull = ''full''"
definition ScenarioLeaderIsolation :: string where "ScenarioLeaderIsolation = ''leader-isolation''"

definition NewFaultRunner :: FaultRunner where
  "NewFaultRunner = \<lparr>fr_events = [], fr_notes = [], fr_killAtNanos = 0, fr_isolateFollowerNanos = 0, fr_clearFollowerNanos = 0,
     fr_isolateLeaderNanos = 0, fr_restoreNanos = 0, fr_restartIssuedNanos = 0, fr_restartReadyNanos = 0, fr_killElectionMicros = 0,
     fr_isolationElectionMicros = 0, fr_restartVerified = False, fr_restartVerifiedKeys = 0, fr_restartMismatches = [],
     fr_isolatedFollowerID = 0, fr_isolatedLeaderID = 0, fr_killedLeaderID = 0, fr_newLeaderAfterKill = 0, fr_newLeaderAfterIsolate = 0\<rparr>"

definition Note :: "string \<Rightarrow> ('w, unit) act" where
  "Note text = modify_run (\<lambda>f. f\<lparr>fr_notes := fr_notes f @ [text]\<rparr>)"

definition fr_event :: "'w world \<Rightarrow> drv_cfg \<Rightarrow> string \<Rightarrow> string \<Rightarrow> u64 \<Rightarrow> u64 list \<Rightarrow> int \<Rightarrow> ('w, int) act" where
  "fr_event W C name detail nodeID peers dur =
     bnd (world (w_now W)) (\<lambda>now.
     bnd (world (w_progress W)) (\<lambda>p.
       let t = Since (dc_Rec C) now;
           ev = \<lparr>fe_Name = name, fe_Detail = detail, fe_AtOp = fst p, fe_AtNanos = t,
                 fe_DurationMicros = (if dur > 0 then dur div 1000 else 0), fe_NodeID = nodeID, fe_Peers = peers\<rparr>
       in bnd (modify_run (\<lambda>f. f\<lparr>fr_events := fr_events f @ [ev]\<rparr>)) (\<lambda>_. ret t)))"

text \<open>\<open>waitOp\<close> reads the counters once for each of its tests, and once more for its error.\<close>

partial_function (option) waitOp :: "'w world \<Rightarrow> int \<Rightarrow> 'w drv \<Rightarrow> ((drv_error + unit) \<times> 'w drv) option" where
  "waitOp W n s =
     (let p1 = w_progress W (dv_world s) in
      if fst (fst p1) \<ge> n then Some (Inr (), s\<lparr>dv_world := snd p1\<rparr>)
      else let p2 = w_progress W (snd p1) in
      if snd (fst p2) then
        (let p3 = w_progress W (snd p2) in Some (Inl (ETrafficStopped (fst (fst p3)) n), s\<lparr>dv_world := snd p3\<rparr>))
      else let a = w_after W (ms 20) (snd p2) in
      if fst a then Some (Inl ECtx, s\<lparr>dv_world := snd a\<rparr>)
      else waitOp W n (s\<lparr>dv_world := snd a\<rparr>))"

declare waitOp.simps [code]

section \<open>Fault injection on a node\<close>

definition isolate_body :: "u64 list \<Rightarrow> string" where
  "isolate_body peers =
     ''{'' @ dq ''peers'' @ '':['' @ join_with '','' (map format_uint peers) @ ''],'' @ dq ''drop_inbound'' @ '':true,'' @
     dq ''drop_outbound'' @ '':true}''"

definition fr_isolate :: "'w world \<Rightarrow> drv_cfg \<Rightarrow> Host \<Rightarrow> u64 list \<Rightarrow> ('w, unit) act" where
  "fr_isolate W C h peers =
     bnd (ex_Run W (dc_Ex C) h (''curl -sS -f -X POST '' @ ChaosURL h @ ''/chaos/isolate -d '' @ ShellQuote (isolate_body peers)))
       (\<lambda>_. ret ())"

definition clearIsolation :: "'w world \<Rightarrow> drv_cfg \<Rightarrow> Host \<Rightarrow> ('w, unit) act" where
  "clearIsolation W C h =
     bnd (ex_Run W (dc_Ex C) h (''curl -sS -f -X DELETE '' @ ChaosURL h @ ''/chaos/isolate'')) (\<lambda>_. ret ())"

text \<open>The text of an error, for the detail of an event, is an argument of what reads the state of the fault injection.\<close>

definition fr_chaosState :: "'w world \<Rightarrow> (drv_error \<Rightarrow> string) \<Rightarrow> drv_cfg \<Rightarrow> Host \<Rightarrow> ('w, string) act" where
  "fr_chaosState W text C h =
     bnd (attempted (ex_Run W (dc_Ex C) h (''curl -sS -f '' @ ChaosURL h @ ''/chaos''))) (\<lambda>r.
       ret (case r of Inl e \<Rightarrow> ''unavailable: '' @ text e | Inr out \<Rightarrow> TrimSpace out))"

text \<open>The leaders the hosts report, \<^term>\<open>None\<close> at the first that reports none.\<close>

fun reported_leaders :: "'w world \<Rightarrow> Host list \<Rightarrow> ('w, u64 list option) act" where
  "reported_leaders W [] = ret (Some [])"
| "reported_leaders W (h # hs) =
     bnd (attempted (FetchStatus W h)) (\<lambda>r.
       case r of
         Inl _ \<Rightarrow> ret None
       | Inr st \<Rightarrow>
           if ns_Leader st = 0 then ret None
           else bnd (reported_leaders W hs) (\<lambda>ls. ret (map_option (\<lambda>l. ns_Leader st # l) ls)))"

definition agreed :: "u64 list option \<Rightarrow> unit + u64" where
  "agreed ls =
     (case ls of
        None \<Rightarrow> Inl ()
      | Some l \<Rightarrow> (case remdups l of [i] \<Rightarrow> Inr i | _ \<Rightarrow> Inl ()))"

definition waitAllAgreeOnLeader :: "'w world \<Rightarrow> drv_cfg \<Rightarrow> int \<Rightarrow> ('w, u64 \<times> int) act" where
  "waitAllAgreeOnLeader W C timeout =
     bnd (world (w_now W)) (\<lambda>start.
     bnd (poll W (bnd (reported_leaders W (iv_Hosts (dc_Inv C))) (\<lambda>ls. ret (agreed ls))) (start + timeout) (ms 100)
            (\<lambda>_. ENoAgreement timeout)) (\<lambda>i.
     bnd (since W start) (\<lambda>d. ret (i, d))))"

section \<open>Scenarios\<close>

definition fmt_ids :: "u64 list \<Rightarrow> string" where
  "fmt_ids ids = ''['' @ join_with '' '' (map format_uint ids) @ '']''"

definition settled :: "'w world \<Rightarrow> drv_cfg \<Rightarrow> string \<Rightarrow> ('w, unit) act" where
  "settled W C what =
     bnd (wrapped what (waitAllAgreeOnLeader W C (seconds 30))) (\<lambda>r.
     bnd (fr_event W C ''cluster_settled'' ''all three nodes report the same leader again'' 0 [] (snd r)) (\<lambda>_. ret ()))"

definition kill_leader :: "'w world \<Rightarrow> drv_cfg \<Rightarrow> ('w, unit) act" where
  "kill_leader W C =
     (let hosts = iv_Hosts (dc_Inv C) in
      bnd (wrapped ''kill leader'' (FindLeader W hosts)) (\<lambda>(leader, _).
      let idt = format_uint (ho_ID leader) in
      bnd (modify_run (\<lambda>f. f\<lparr>fr_killedLeaderID := ho_ID leader\<rparr>)) (\<lambda>_.
      bnd (wrapped (''kill leader '' @ idt) (dp_Kill W C leader)) (\<lambda>_.
      bnd (fr_event W C ''kill_leader'' (''SIGKILL to node '' @ idt @ '' on '' @ Target leader) (ho_ID leader) [] 0) (\<lambda>t.
      bnd (modify_run (\<lambda>f. f\<lparr>fr_killAtNanos := t\<rparr>)) (\<lambda>_.
      bnd (wrapped (''no new leader after killing node '' @ idt)
             (WaitLeader W (OtherHosts hosts (ho_ID leader)) (ho_ID leader) (seconds 30))) (\<lambda>(newLeader, elapsed).
      bnd (modify_run (\<lambda>f. f\<lparr>fr_killElectionMicros := elapsed div 1000, fr_newLeaderAfterKill := ho_ID newLeader\<rparr>)) (\<lambda>_.
      bnd (fr_event W C ''new_leader_elected'' (''node '' @ format_uint (ho_ID newLeader) @ '' took over from killed node '' @ idt)
             (ho_ID newLeader) [] elapsed) (\<lambda>_.
      bnd (wrapped (''restart killed node '' @ idt) (dp_Start W C leader)) (\<lambda>_.
      bnd (wrapped (''killed node '' @ idt @ '' did not come back'') (WaitReady W [leader] (seconds 30))) (\<lambda>_.
      bnd (fr_event W C ''restart_killed_node'' (''node '' @ idt @ '' restarted from its persisted state'') (ho_ID leader) [] 0) (\<lambda>_.
      settled W C (''cluster did not settle after restarting node '' @ idt)))))))))))))"

definition isolate_follower :: "'w world \<Rightarrow> (drv_error \<Rightarrow> string) \<Rightarrow> drv_cfg \<Rightarrow> ('w, unit) act" where
  "isolate_follower W text C =
     (let hosts = iv_Hosts (dc_Inv C) in
      bnd (wrapped ''isolate follower'' (FindLeader W hosts)) (\<lambda>(leader, _).
      case OtherHosts hosts (ho_ID leader) of
        [] \<Rightarrow> failed EPanic
      | follower # _ \<Rightarrow>
          let peers = HostIDs (OtherHosts hosts (ho_ID follower)); idt = format_uint (ho_ID follower) in
          bnd (wrapped (''isolate follower '' @ idt) (fr_isolate W C follower peers)) (\<lambda>_.
          bnd (modify_run (\<lambda>f. f\<lparr>fr_isolatedFollowerID := ho_ID follower\<rparr>)) (\<lambda>_.
          bnd (fr_chaosState W text C follower) (\<lambda>cs.
          bnd (fr_event W C ''isolate_follower''
                 (''node '' @ idt @ '' blackholed from nodes '' @ fmt_ids peers @ '' in both directions; chaos state: '' @ cs)
                 (ho_ID follower) peers 0) (\<lambda>t.
          modify_run (\<lambda>f. f\<lparr>fr_isolateFollowerNanos := t\<rparr>)))))))"

definition clear_follower :: "'w world \<Rightarrow> drv_cfg \<Rightarrow> u64 \<Rightarrow> ('w, unit) act" where
  "clear_follower W C i =
     (let follower = (case HostByID i (dc_Inv C) of None \<Rightarrow> zero_Host | Some h \<Rightarrow> h); idt = format_uint (ho_ID follower) in
      bnd (wrapped ''clear follower isolation'' (clearIsolation W C follower)) (\<lambda>_.
      bnd (fr_event W C ''clear_follower_isolation''
             (''node '' @ idt @ '' reconnected before the leader is isolated, so a quorum can still exist'') (ho_ID follower) [] 0) (\<lambda>t.
      bnd (modify_run (\<lambda>f. f\<lparr>fr_clearFollowerNanos := t\<rparr>)) (\<lambda>_.
      settled W C (''cluster did not settle after reconnecting node '' @ idt)))))"

definition isolateLeaderFromMajority :: "'w world \<Rightarrow> (drv_error \<Rightarrow> string) \<Rightarrow> drv_cfg \<Rightarrow> ('w, unit) act" where
  "isolateLeaderFromMajority W text C =
     (let hosts = iv_Hosts (dc_Inv C) in
      bnd (wrapped ''isolate leader'' (FindLeader W hosts)) (\<lambda>(leader, _).
      let majority = OtherHosts hosts (ho_ID leader); peers = HostIDs majority; idt = format_uint (ho_ID leader) in
      bnd (wrapped (''isolate leader '' @ idt) (fr_isolate W C leader peers)) (\<lambda>_.
      bnd (modify_run (\<lambda>f. f\<lparr>fr_isolatedLeaderID := ho_ID leader\<rparr>)) (\<lambda>_.
      bnd (fr_chaosState W text C leader) (\<lambda>cs.
      bnd (fr_event W C ''isolate_leader''
             (''leader node '' @ idt @ '' blackholed from nodes '' @ fmt_ids peers @ '' in both directions; chaos state: '' @ cs)
             (ho_ID leader) peers 0) (\<lambda>t.
      bnd (modify_run (\<lambda>f. f\<lparr>fr_isolateLeaderNanos := t\<rparr>)) (\<lambda>_.
      bnd (wrapped (''no new leader after isolating node '' @ idt)
             (WaitLeader W majority (ho_ID leader) (seconds 30))) (\<lambda>(newLeader, elapsed).
      bnd (modify_run (\<lambda>f. f\<lparr>fr_isolationElectionMicros := elapsed div 1000, fr_newLeaderAfterIsolate := ho_ID newLeader\<rparr>)) (\<lambda>_.
      bnd (fr_event W C ''new_leader_elected'' (''node '' @ format_uint (ho_ID newLeader) @ '' elected while node '' @ idt @ '' was isolated'')
             (ho_ID newLeader) [] elapsed) (\<lambda>_. ret ()))))))))))"

definition restoreAll :: "'w world \<Rightarrow> drv_cfg \<Rightarrow> ('w, unit) act" where
  "restoreAll W C =
     bnd (each (\<lambda>h. wrapped (''restore network on node '' @ format_uint (ho_ID h)) (clearIsolation W C h)) (iv_Hosts (dc_Inv C))) (\<lambda>_.
     bnd (fr_event W C ''restore_network'' ''every chaos isolation cleared on all three nodes'' 0 [] 0) (\<lambda>t.
     bnd (modify_run (\<lambda>f. f\<lparr>fr_restoreNanos := t\<rparr>)) (\<lambda>_.
     bnd (wrapped ''cluster did not heal after restore'' (waitAllAgreeOnLeader W C (seconds 60))) (\<lambda>(leader, elapsed).
     bnd (fr_event W C ''cluster_healed'' (''all three nodes agree on leader node '' @ format_uint leader) leader [] elapsed) (\<lambda>_. ret ())))))"

definition at_op :: "'w world \<Rightarrow> int \<Rightarrow> ('w, unit) act \<Rightarrow> ('w, unit) act" where
  "at_op W n step = (if n > 0 then bnd (waitOp W n) (\<lambda>_. step) else ret ())"

definition runFull :: "'w world \<Rightarrow> (drv_error \<Rightarrow> string) \<Rightarrow> drv_cfg \<Rightarrow> ('w, unit) act" where
  "runFull W text C =
     (let plan = iv_Faults (dc_Inv C) in
      bnd (at_op W (fp_KillLeaderAtOp plan) (kill_leader W C)) (\<lambda>_.
      bnd (at_op W (fp_IsolateFollowerAtOp plan) (isolate_follower W text C)) (\<lambda>_.
      bnd (at_op W (fp_IsolateLeaderAtOp plan)
             (bnd get_run (\<lambda>f.
              bnd (if fr_isolatedFollowerID f \<noteq> 0 then clear_follower W C (fr_isolatedFollowerID f) else ret ()) (\<lambda>_.
              isolateLeaderFromMajority W text C)))) (\<lambda>_.
      at_op W (fp_RestoreAtOp plan) (restoreAll W C)))))"

definition isolation_ops :: "int \<Rightarrow> int \<times> int" where
  "isolation_ops ops =
     (let isolateAt = (let i = wrap64 (ops * 3) sdiv 10 in if i < 1 then 1 else i);
          restoreAt = (let r = wrap64 (ops * 3) sdiv 4 in if r \<le> isolateAt then isolateAt + 1 else r)
      in (isolateAt, restoreAt))"

definition runLeaderIsolationOnly :: "'w world \<Rightarrow> (drv_error \<Rightarrow> string) \<Rightarrow> drv_cfg \<Rightarrow> ('w, unit) act" where
  "runLeaderIsolationOnly W text C =
     (let ops = cp_Ops (iv_Client (dc_Inv C)); (isolateAt, restoreAt) = isolation_ops ops in
      bnd (Note (''scenario '' @ ScenarioLeaderIsolation @ '': isolate the leader at op '' @ format_int isolateAt @ '' and restore at op '' @
             format_int restoreAt @ '', derived from the '' @ format_int ops @ ''-operation target'')) (\<lambda>_.
      bnd (waitOp W isolateAt) (\<lambda>_.
      bnd (isolateLeaderFromMajority W text C) (\<lambda>_.
      bnd (waitOp W restoreAt) (\<lambda>_.
      restoreAll W C)))))"

definition fr_Run :: "'w world \<Rightarrow> (drv_error \<Rightarrow> string) \<Rightarrow> drv_cfg \<Rightarrow> ('w, unit) act" where
  "fr_Run W text C =
     (if dc_Scenario C = ScenarioLeaderIsolation then runLeaderIsolationOnly W text C else runFull W text C)"

section \<open>The full restart\<close>

text \<open>
  The workers have stopped; the workload is an argument and a result.  The reads of the verification meet the world
  at which they start: \<open>E\<close> gives the network and the clock they see there.
\<close>

definition verify_acked :: "('w \<Rightarrow> verify_env) \<Rightarrow> run_cfg \<Rightarrow> Workload \<Rightarrow> ('w, Mismatch list \<times> int \<times> Workload) act" where
  "verify_acked E rc w s =
     (case VerifyAcked (E (dv_world s)) rc PhaseVerify w of
        Inl _ \<Rightarrow> failed EPanic s
      | Inr (mms, n, ended, w1) \<Rightarrow> if ended then failed (EWrap ''verify acknowledged writes'' ECtx) s else ret (mms, n, w1) s)"

text \<open>Stop every node, start it again from its disk, and wait until all agree on a leader.\<close>

definition restart_all :: "'w world \<Rightarrow> drv_cfg \<Rightarrow> ('w, unit) act" where
  "restart_all W C =
     bnd (world (w_now W)) (\<lambda>start.
     bnd (fr_event W C ''restart_all_stop'' ''SIGTERM to all three nodes'' 0 [] 0) (\<lambda>t.
     bnd (modify_run (\<lambda>f. f\<lparr>fr_restartIssuedNanos := t\<rparr>)) (\<lambda>_.
     bnd (dp_StopAll W C) (\<lambda>errs.
     if errs \<noteq> [] then failed (EStopAll errs)
     else
       bnd (wrapped ''restart all'' (dp_StartAll W C)) (\<lambda>_.
       bnd (wrapped ''cluster did not elect a leader after the full restart'' (waitAllAgreeOnLeader W C (seconds 60))) (\<lambda>(leader, _).
       bnd (since W start) (\<lambda>ready.
       bnd (fr_event W C ''restart_all_ready'' (''all three nodes restarted from disk and agree on leader node '' @ format_uint leader)
              leader [] ready) (\<lambda>t2.
       modify_run (\<lambda>f. f\<lparr>fr_restartReadyNanos := t2\<rparr>)))))))))"

definition RestartAllAndVerify :: "'w world \<Rightarrow> drv_cfg \<Rightarrow> ('w \<Rightarrow> verify_env) \<Rightarrow> run_cfg \<Rightarrow> Workload \<Rightarrow> ('w, Workload) act" where
  "RestartAllAndVerify W C E rc w =
     bnd (restart_all W C) (\<lambda>_.
     bnd (verify_acked E rc (w\<lparr>wl_Rec := SetPhase PhaseVerify (wl_Rec w)\<rparr>)) (\<lambda>(mismatches, verified, w1).
     bnd (modify_run (\<lambda>f. f\<lparr>fr_restartMismatches := mismatches, fr_restartVerifiedKeys := verified,
            fr_restartVerified := (mismatches = [])\<rparr>)) (\<lambda>_.
     bnd (fr_event W C ''verify_acknowledged_writes'' (format_int verified @ '' acknowledged writes re-read with linearizable reads; '' @
            dec_of_nat (length mismatches) @ '' missing or changed'') 0 [] 0) (\<lambda>_. ret w1))))"

section \<open>Measurements\<close>

record OutageMeasurement =
  om_Event :: string
  om_EventAtNanos :: int
  om_LastAckBeforeNanos :: int
  om_FirstAckAfterNanos :: int
  om_OutageMs :: rat
  om_Method :: string
  om_Complete :: bool

record ProgressMeasurement =
  pm_WindowStartNanos :: int
  pm_WindowEndNanos :: int
  pm_WindowMs :: rat
  pm_AcknowledgedWrites :: int
  pm_AcknowledgedReads :: int
  pm_WritesPerSecond :: rat
  pm_MadeProgress :: bool
  pm_Method :: string

record DurationMeasurement =
  dm_Ms :: rat
  dm_Method :: string

record Measurements =
  me_LeaderKillWriteOutage :: "OutageMeasurement option"
  me_LeaderKillElection :: "DurationMeasurement option"
  me_FollowerIsolationProgress :: "ProgressMeasurement option"
  me_LeaderIsolationWriteOutage :: "OutageMeasurement option"
  me_LeaderIsolationElection :: "DurationMeasurement option"
  me_RestartReadyRecovery :: "DurationMeasurement option"
  me_RestartFirstReadRecovery :: "DurationMeasurement option"

record FaultReport =
  frp_Mode :: string
  frp_Boundary :: string
  frp_GeneratedAt :: string
  frp_Scenario :: string
  frp_Executor :: string
  frp_Events :: "FaultEvent list"
  frp_Measurements :: Measurements
  frp_AckedWrites :: int
  frp_AckedWriteLoss :: "Mismatch list"
  frp_VerifiedKeys :: int
  frp_RestartVerified :: bool
  frp_Notes :: "string list"

definition nanos_ms :: "int \<Rightarrow> rat" where
  "nanos_ms n = of_int n / 1000000"

definition is_ack_put :: "OpRecord \<Rightarrow> bool" where
  "is_ack_put op \<longleftrightarrow> or_Op op = ''put'' \<and> or_Status op = StatusOK"

definition outage_step :: "int \<Rightarrow> OpRecord \<Rightarrow> int \<times> int \<Rightarrow> int \<times> int" where
  "outage_step eventNanos op acc =
     (let (before, after) = acc in
      if \<not> is_ack_put op then (before, after)
      else if or_ReturnNanos op \<le> eventNanos then (if or_ReturnNanos op > before then or_ReturnNanos op else before, after)
      else (before, if after < 0 \<or> or_ReturnNanos op < after then or_ReturnNanos op else after))"

definition measureOutage :: "OpRecord list \<Rightarrow> string \<Rightarrow> int \<Rightarrow> OutageMeasurement" where
  "measureOutage ops event eventNanos =
     (let (before, after) = fold (outage_step eventNanos) ops (0, -1);
          out = \<lparr>om_Event = event, om_EventAtNanos = eventNanos, om_LastAckBeforeNanos = before, om_FirstAckAfterNanos = 0, om_OutageMs = 0,
            om_Method = ''client-observed: last acknowledged write returning before the event to the first acknowledged write returning after it'',
            om_Complete = False\<rparr>
      in if after < 0 then out
         else out\<lparr>om_FirstAckAfterNanos := after, om_OutageMs := nanos_ms (wrap64 (after - before)), om_Complete := (before > 0)\<rparr>)"

definition in_window :: "int \<Rightarrow> int \<Rightarrow> OpRecord \<Rightarrow> bool" where
  "in_window startNanos endNanos op \<longleftrightarrow>
     \<not> (or_Status op \<noteq> StatusOK \<or> or_ReturnNanos op < startNanos \<or> or_ReturnNanos op > endNanos)"

definition measureProgress :: "OpRecord list \<Rightarrow> int \<Rightarrow> int \<Rightarrow> ProgressMeasurement" where
  "measureProgress ops startNanos endNanos =
     (let acked = filter (in_window startNanos endNanos) ops;
          writes = int (length (filter (\<lambda>op. or_Op op = ''put'') acked));
          reads = int (length (filter (\<lambda>op. or_Op op \<noteq> ''put'') acked));
          windowMs = nanos_ms (wrap64 (endNanos - startNanos))
      in \<lparr>pm_WindowStartNanos = startNanos, pm_WindowEndNanos = endNanos, pm_WindowMs = windowMs,
          pm_AcknowledgedWrites = writes, pm_AcknowledgedReads = reads,
          pm_WritesPerSecond = (if windowMs > 0 then of_int writes / (windowMs / 1000) else 0),
          pm_MadeProgress = (writes > 0),
          pm_Method = ''acknowledged client operations returning inside the fault window, measured by the driver''\<rparr>)"

definition firstVerifyReadNanos :: "OpRecord list \<Rightarrow> int" where
  "firstVerifyReadNanos ops =
     fold (\<lambda>op first. if or_Phase op \<noteq> PhaseVerify \<or> or_Status op \<noteq> StatusOK then first
       else if first < 0 \<or> or_ReturnNanos op < first then or_ReturnNanos op else first) ops (-1)"

definition micros_ms :: "int \<Rightarrow> rat" where
  "micros_ms n = of_int n / 1000"

definition fr_measure :: "FaultRunner \<Rightarrow> MhHistory \<Rightarrow> Measurements" where
  "fr_measure f hist =
     (let ops = mh_Ops hist;
          killed = fr_killAtNanos f > 0; isolated = fr_isolateLeaderNanos f > 0; restarted = fr_restartReadyNanos f > 0;
          finish = (if fr_clearFollowerNanos f = 0 then max_return ops else fr_clearFollowerNanos f);
          first = firstVerifyReadNanos ops
      in \<lparr>me_LeaderKillWriteOutage = (if killed then Some (measureOutage ops ''kill_leader'' (fr_killAtNanos f)) else None),
          me_LeaderKillElection = (if killed then Some \<lparr>dm_Ms = micros_ms (fr_killElectionMicros f),
            dm_Method = ''driver polled /status until a node other than the killed node '' @ format_uint (fr_killedLeaderID f) @ '' reported itself leader''\<rparr> else None),
          me_FollowerIsolationProgress = (if fr_isolateFollowerNanos f > 0 then Some (measureProgress ops (fr_isolateFollowerNanos f) finish) else None),
          me_LeaderIsolationWriteOutage = (if isolated then Some (measureOutage ops ''isolate_leader'' (fr_isolateLeaderNanos f)) else None),
          me_LeaderIsolationElection = (if isolated then Some \<lparr>dm_Ms = micros_ms (fr_isolationElectionMicros f),
            dm_Method = ''driver polled /status on the majority until one of them reported itself leader while node '' @
              format_uint (fr_isolatedLeaderID f) @ '' was isolated''\<rparr> else None),
          me_RestartReadyRecovery = (if restarted then Some \<lparr>dm_Ms = nanos_ms (wrap64 (fr_restartReadyNanos f - fr_restartIssuedNanos f)),
            dm_Method = ''from the stop signal to all three nodes ready and agreeing on one leader''\<rparr> else None),
          me_RestartFirstReadRecovery = (if restarted \<and> first > 0 then Some \<lparr>dm_Ms = nanos_ms (wrap64 (first - fr_restartIssuedNanos f)),
            dm_Method = ''from the stop signal to the first successful linearizable read after the restart''\<rparr> else None)\<rparr>)"

definition fr_Report :: "drv_cfg \<Rightarrow> FaultRunner \<Rightarrow> Workload \<Rightarrow> string \<Rightarrow> string \<Rightarrow> string \<Rightarrow> MhHistory \<Rightarrow> FaultReport" where
  "fr_Report C f w generatedAt mode boundary hist =
     \<lparr>frp_Mode = mode, frp_Boundary = boundary, frp_GeneratedAt = generatedAt, frp_Scenario = dc_Scenario C,
      frp_Executor = ex_Kind (dc_Ex C), frp_Events = fr_events f, frp_Measurements = fr_measure f hist,
      frp_AckedWrites = aw_Len (wl_Acked w), frp_AckedWriteLoss = fr_restartMismatches f, frp_VerifiedKeys = fr_restartVerifiedKeys f,
      frp_RestartVerified = fr_restartVerified f, frp_Notes = fr_notes f\<rparr>"

end
