(* ===== verification/Preflight.thy ===== *)
theory Preflight
  imports Driver
begin

text \<open>
  \<open>internal/multihost/preflight.go\<close>: what the driver asks every host, and the decision whether the three hosts are three
  machines.

  \<open>sha256.Sum256\<close>, \<open>filepath.Abs\<close>, \<open>filepath.Rel\<close>, the texts of errors (\<open>txt\<close>) and \<open>strconv.Quote\<close> (\<open>qt\<close>) are arguments;
  so is the order in which Go ranges over a map (\<open>ord\<close>).
\<close>

section \<open>Facts about a host\<close>

definition ModeLabelMultiHost :: string where "ModeLabelMultiHost = ''multi-host''"
definition ModeLabelDryRun :: string where "ModeLabelDryRun = ''single-host-dry-run''"

definition BlockedReasonDryRun :: string where
  "BlockedReasonDryRun = ''three distinct authorized hosts required; this was a single-host dry run''"

definition BoundaryMultiHost :: string where
  "BoundaryMultiHost = ''Multi-host run: each quorum-log node ran on a separate machine with its own kernel, network identity, and disk; the driver and client ran on this machine. Numbers are measured, not simulated.''"

definition BoundaryDryRun :: string where
  "BoundaryDryRun = ''Single-host dry run: all three quorum-log node processes, the fault injection, and the client ran on one machine over loopback. This validates the harness only. It is not multi-host evidence, no remote host was contacted, and nothing here measures a network between machines.''"

definition IdentityNote :: string where
  "IdentityNote = ''machine identity and boot id are recorded as sha256 fingerprints: distinctness is still verifiable (two hosts match only if the underlying values match) without publishing a machine'' @ [CHR 0x27] @ ''s hardware identifiers''"

record HostFacts =
  hf_ID :: u64
  hf_ConfiguredName :: string
  hf_Target :: string
  hf_Executor :: string
  hf_Hostname :: string
  hf_OSKind :: string
  hf_Kernel :: string
  hf_MachineID :: string
  hf_MachineIDSource :: string
  hf_BootID :: string
  hf_BootIDSource :: string
  hf_PrimaryAddress :: string
  hf_Advertise :: string
  hf_RaftPort :: int
  hf_ChaosPort :: int
  hf_DataDir :: string
  hf_DataDevice :: string
  hf_DataMountPoint :: string
  hf_BuildTarget :: string
  hf_Problems :: "string list"

record InventoryReport =
  ir_Mode :: string
  ir_Executor :: string
  ir_InventoryMode :: string
  ir_InventoryPath :: string
  ir_GeneratedAt :: string
  ir_DistinctHosts :: bool
  ir_DistinctnessReasons :: "string list"
  ir_Hosts :: "HostFacts list"
  ir_IdentityNote :: string
  ir_Boundary :: string

record pre_ops =
  pf_sha :: "string \<Rightarrow> string"
  pf_Abs :: "string \<Rightarrow> string res"
  pf_Rel :: "string \<Rightarrow> string \<Rightarrow> string res"
  pf_txt :: "drv_error \<Rightarrow> string"
  pf_quote :: "string \<Rightarrow> string"
  pf_ord :: "string list \<Rightarrow> string list"

definition hex_bytes :: "string \<Rightarrow> string" where
  "hex_bytes s = concat (map (\<lambda>c. [hex_char (code c div 16), hex_char (code c mod 16)]) s)"

definition fingerprint :: "pre_ops \<Rightarrow> string \<Rightarrow> string" where
  "fingerprint F v0 =
     (let v = TrimSpace v0 in if v = '''' then '''' else ''sha256:'' @ hex_bytes (take 8 (pf_sha F v)))"

definition displayPath :: "pre_ops \<Rightarrow> string \<Rightarrow> string \<Rightarrow> string" where
  "displayPath F path repoRoot =
     (if repoRoot = '''' then path
      else case pf_Abs F repoRoot of
        Inl _ \<Rightarrow> path
      | Inr absRoot \<Rightarrow>
          (case pf_Rel F absRoot path of
             Inl _ \<Rightarrow> path
           | Inr rel \<Rightarrow> if prefix ''..'' rel then path else rel))"

definition parseDF :: "string \<Rightarrow> string \<times> string" where
  "parseDF line = (let fs = Fields line in if length fs < 6 then ('''', '''') else (hd fs, last fs))"

definition sq :: "string \<Rightarrow> string" where "sq s = [CHR 0x27] @ s @ [CHR 0x27]"

text \<open>\<open>ask\<close>: a command that fails leaves its field empty and is recorded as a problem.\<close>

definition ask :: "'w world \<Rightarrow> pre_ops \<Rightarrow> drv_cfg \<Rightarrow> Host \<Rightarrow> string \<Rightarrow> HostFacts \<Rightarrow> ('w, string \<times> HostFacts) act" where
  "ask W F C h script f =
     bnd (attempted (ex_Run W (dc_Ex C) h script)) (\<lambda>r.
       ret (case r of
              Inl e \<Rightarrow> ('''', f\<lparr>hf_Problems := hf_Problems f @ [script @ '': '' @ pf_txt F e]\<rparr>)
            | Inr out \<Rightarrow> (TrimSpace out, f)))"

definition identity_scripts :: "string \<Rightarrow> (string \<times> string \<times> string \<times> string \<times> string) option" where
  "identity_scripts kind =
     (if kind = ''Linux'' then Some
        (''/etc/machine-id or /var/lib/dbus/machine-id'',
         ''cat /etc/machine-id 2>/dev/null || cat /var/lib/dbus/machine-id 2>/dev/null || true'',
         ''/proc/sys/kernel/random/boot_id'',
         ''cat /proc/sys/kernel/random/boot_id 2>/dev/null || true'',
         ''hostname -I 2>/dev/null | awk '' @ sq ''{print $1}'' @ '' || true'')
      else if kind = ''Darwin'' then Some
        (''ioreg IOPlatformUUID'',
         ''ioreg -rd1 -c IOPlatformExpertDevice | awk -F'' @ sq [CHR 0x22] @ '' '' @ sq ''/IOPlatformUUID/{print $4}'',
         ''sysctl kern.boottime (macOS has no boot_id)'',
         ''sysctl -n kern.boottime 2>/dev/null || true'',
         ''ipconfig getifaddr en0 2>/dev/null || ipconfig getifaddr en1 2>/dev/null || true'')
      else None)"

definition identify :: "'w world \<Rightarrow> pre_ops \<Rightarrow> drv_cfg \<Rightarrow> Host \<Rightarrow> HostFacts \<Rightarrow> ('w, HostFacts) act" where
  "identify W F C h f =
     (case identity_scripts (hf_OSKind f) of
        None \<Rightarrow> ret (f\<lparr>hf_Problems := hf_Problems f @
          [''unsupported os kind '' @ pf_quote F (hf_OSKind f) @ '': machine and boot identity not collected'']\<rparr>)
      | Some (msrc, mcmd, bsrc, bcmd, acmd) \<Rightarrow>
          bnd (ask W F C h mcmd (f\<lparr>hf_MachineIDSource := msrc\<rparr>)) (\<lambda>(m, f1).
          bnd (ask W F C h bcmd (f1\<lparr>hf_MachineID := fingerprint F m, hf_BootIDSource := bsrc\<rparr>)) (\<lambda>(b, f2).
          bnd (ask W F C h acmd (f2\<lparr>hf_BootID := fingerprint F b\<rparr>)) (\<lambda>(a, f3).
          ret (f3\<lparr>hf_PrimaryAddress := a\<rparr>)))))"

definition initial_facts :: "pre_ops \<Rightarrow> drv_cfg \<Rightarrow> Host \<Rightarrow> string \<Rightarrow> HostFacts" where
  "initial_facts F C h repoRoot =
     \<lparr>hf_ID = ho_ID h, hf_ConfiguredName = ho_Name h, hf_Target = Target h, hf_Executor = ex_Kind (dc_Ex C), hf_Hostname = '''',
      hf_OSKind = '''', hf_Kernel = '''', hf_MachineID = '''', hf_MachineIDSource = '''', hf_BootID = '''', hf_BootIDSource = '''',
      hf_PrimaryAddress = '''', hf_Advertise = ho_Advertise h, hf_RaftPort = ho_RaftPort h, hf_ChaosPort = ho_ChaosPort h,
      hf_DataDir = displayPath F (ho_DataDir h) repoRoot, hf_DataDevice = '''', hf_DataMountPoint = '''',
      hf_BuildTarget = build_target C h, hf_Problems = []\<rparr>"

definition collectHostFacts :: "'w world \<Rightarrow> pre_ops \<Rightarrow> drv_cfg \<Rightarrow> string \<Rightarrow> Host \<Rightarrow> ('w, HostFacts) act" where
  "collectHostFacts W F C repoRoot h =
     bnd (ask W F C h ''uname -s'' (initial_facts F C h repoRoot)) (\<lambda>(k, f1).
     bnd (ask W F C h ''uname -n'' (f1\<lparr>hf_OSKind := k\<rparr>)) (\<lambda>(n, f2).
     bnd (ask W F C h ''uname -a'' (f2\<lparr>hf_Hostname := n\<rparr>)) (\<lambda>(a, f3).
     bnd (identify W F C h (f3\<lparr>hf_Kernel := a\<rparr>)) (\<lambda>f4.
     bnd (ask W F C h (''mkdir -p '' @ ho_DataDir h @ '' && df -P '' @ ho_DataDir h @ '' | tail -1'') f4) (\<lambda>(df, f5).
     ret (f5\<lparr>hf_DataDevice := fst (parseDF df), hf_DataMountPoint := snd (parseDF df)\<rparr>))))))"

section \<open>Distinct machines\<close>

definition joinIDs :: "u64 list \<Rightarrow> string" where
  "joinIDs ids = join_with '' and '' (map format_uint ids)"

text \<open>\<open>check\<close>: the reasons one field gives; \<open>seen\<close> maps each value to the hosts that have it.\<close>

definition field_reasons :: "(string list \<Rightarrow> string list) \<Rightarrow> HostFacts list \<Rightarrow> string \<Rightarrow> (HostFacts \<Rightarrow> string) \<Rightarrow> string list" where
  "field_reasons ord facts field value =
     (let seen = map (\<lambda>f. (value f, hf_ID f)) (filter (\<lambda>f. value f \<noteq> '''') facts);
          ids = (\<lambda>v. map snd (filter (\<lambda>p. fst p = v) seen))
      in map (\<lambda>f. ''host '' @ format_uint (hf_ID f) @ '': '' @ field @ '' is empty, so identity cannot be established'')
           (filter (\<lambda>f. value f = '''') facts) @
         map (\<lambda>v. ''hosts '' @ joinIDs (ids v) @ '' share the same '' @ field @ '' ('' @ v @ ''), so they are the same machine'')
           (filter (\<lambda>v. length (ids v) > 1) (ord (remdups (map fst seen)))))"

definition EvaluateDistinct :: "(string list \<Rightarrow> string list) \<Rightarrow> HostFacts list \<Rightarrow> bool \<times> string list" where
  "EvaluateDistinct ord facts =
     (let reasons =
        (if length facts < 3 then [''only '' @ dec_of_nat (length facts) @ '' hosts described; the gate requires 3''] else []) @
        field_reasons ord facts ''machine identity'' hf_MachineID @
        field_reasons ord facts ''hostname'' hf_Hostname @
        field_reasons ord facts ''boot id'' hf_BootID
      in if reasons = [] then (True, [''machine identity, hostname, and boot id all differ across the three hosts''])
         else (False, reasons))"

fun collect_all :: "'w world \<Rightarrow> pre_ops \<Rightarrow> drv_cfg \<Rightarrow> string \<Rightarrow> Host list \<Rightarrow> ('w, HostFacts list) act" where
  "collect_all W F C repoRoot [] = ret []"
| "collect_all W F C repoRoot (h # hs) =
     bnd (collectHostFacts W F C repoRoot h) (\<lambda>f. bnd (collect_all W F C repoRoot hs) (\<lambda>fs. ret (f # fs)))"

definition preflight_report :: "pre_ops \<Rightarrow> drv_cfg \<Rightarrow> string \<Rightarrow> string \<Rightarrow> HostFacts list \<Rightarrow> InventoryReport" where
  "preflight_report F C inventoryPath generatedAt facts =
     (let (distinct, reasons) = EvaluateDistinct (pf_ord F) facts; multi = (distinct \<and> iv_Mode (dc_Inv C) = ModeMultiHost) in
      \<lparr>ir_Mode = (if multi then ModeLabelMultiHost else ModeLabelDryRun), ir_Executor = ex_Kind (dc_Ex C),
       ir_InventoryMode = iv_Mode (dc_Inv C), ir_InventoryPath = inventoryPath, ir_GeneratedAt = generatedAt, ir_DistinctHosts = multi,
       ir_DistinctnessReasons = reasons, ir_Hosts = facts, ir_IdentityNote = IdentityNote,
       ir_Boundary = (if multi then BoundaryMultiHost else BoundaryDryRun)\<rparr>)"

definition Preflight :: "'w world \<Rightarrow> pre_ops \<Rightarrow> drv_cfg \<Rightarrow> string \<Rightarrow> string \<Rightarrow> string \<Rightarrow> ('w, InventoryReport) act" where
  "Preflight W F C inventoryPath repoRoot generatedAt =
     bnd (collect_all W F C repoRoot (iv_Hosts (dc_Inv C))) (\<lambda>facts. ret (preflight_report F C inventoryPath generatedAt facts))"

section \<open>Facts\<close>

lemma distinct_by_count: "distinct xs \<longleftrightarrow> (\<forall>v \<in> set xs. length (filter (\<lambda>x. x = v) xs) \<le> 1)"
proof (induction xs)
  case (Cons x xs)
  have "length (filter (\<lambda>y. y = v) (x # xs)) \<le> 1 \<longleftrightarrow> (if v = x then x \<notin> set xs else length (filter (\<lambda>y. y = v) xs) \<le> 1)" for v
    by (auto simp: filter_empty_conv)
  then show ?case using Cons by (auto split: if_splits)
qed simp

lemma field_reasons_Nil:
  assumes "\<forall>xs. set (ord xs) = set xs"
  shows "field_reasons ord facts field value = [] \<longleftrightarrow> (\<forall>f \<in> set facts. value f \<noteq> '''') \<and> distinct (map value facts)"
proof (cases "\<forall>f \<in> set facts. value f \<noteq> ''''")
  case True
  let ?vs = "map value facts"
  have seen: "filter (\<lambda>f. value f \<noteq> '''') facts = facts" "filter (\<lambda>f. value f = '''') facts = []" using True by (auto simp: filter_id_conv)
  have "length (filter (\<lambda>p. fst p = v) (map (\<lambda>f. (value f, hf_ID f)) facts)) = length (filter (\<lambda>x. x = v) ?vs)" for v
    by (simp add: filter_map comp_def)
  then have "field_reasons ord facts field value = [] \<longleftrightarrow> (\<forall>v \<in> set ?vs. \<not> length (filter (\<lambda>x. x = v) ?vs) > 1)"
    using assms by (simp add: field_reasons_def Let_def seen filter_empty_conv comp_def)
  then show ?thesis using True by (simp add: distinct_by_count not_less)
next
  case False
  then have "filter (\<lambda>f. value f = '''') facts \<noteq> []" by (simp add: filter_empty_conv)
  then show ?thesis using False by (auto simp: field_reasons_def Let_def)
qed

text \<open>
  The driver calls the hosts distinct exactly when it described at least three and every machine identity, every
  hostname and every boot id is present and none of them occurs twice, in whatever order Go visits its tables.
\<close>

theorem EvaluateDistinct_iff:
  assumes "\<forall>xs. set (ord xs) = set xs"
  shows "fst (EvaluateDistinct ord facts) \<longleftrightarrow>
    3 \<le> length facts \<and> (\<forall>f \<in> set facts. hf_MachineID f \<noteq> '''' \<and> hf_Hostname f \<noteq> '''' \<and> hf_BootID f \<noteq> '''') \<and>
    distinct (map hf_MachineID facts) \<and> distinct (map hf_Hostname facts) \<and> distinct (map hf_BootID facts)"
  by (auto simp: EvaluateDistinct_def Let_def field_reasons_Nil [OF assms] not_less)

definition wit_facts :: "u64 \<Rightarrow> string \<Rightarrow> HostFacts" where
  "wit_facts i name = \<lparr>hf_ID = i, hf_ConfiguredName = name, hf_Target = name, hf_Executor = ''ssh'', hf_Hostname = name, hf_OSKind = ''Linux'',
     hf_Kernel = '''', hf_MachineID = name, hf_MachineIDSource = '''', hf_BootID = name, hf_BootIDSource = '''', hf_PrimaryAddress = '''',
     hf_Advertise = '''', hf_RaftPort = 0, hf_ChaosPort = 0, hf_DataDir = '''', hf_DataDevice = '''', hf_DataMountPoint = '''',
     hf_BuildTarget = '''', hf_Problems = []\<rparr>"

theorem EvaluateDistinct_iff_witness:
  "fst (EvaluateDistinct rev [wit_facts 1 ''a'', wit_facts 2 ''b'', wit_facts 3 ''c'']) \<and>
   \<not> fst (EvaluateDistinct rev [wit_facts 1 ''a'', wit_facts 2 ''b'', wit_facts 3 ''a''])"
  using EvaluateDistinct_iff [of rev "[wit_facts 1 ''a'', wit_facts 2 ''b'', wit_facts 3 ''c'']"]
    EvaluateDistinct_iff [of rev "[wit_facts 1 ''a'', wit_facts 2 ''b'', wit_facts 3 ''a'']"]
  by (simp add: wit_facts_def)

end
