(* ===== verification/Gate.thy ===== *)
theory Gate
  imports Faults Preflight
begin

text \<open>
  \<open>internal/multihost/run.go\<close>, \<open>report.go\<close> and \<open>cmd/qlmultihost\<close>: one gate run from the preflight to the artifacts,
  the criteria it is judged by, the negative control, the report and the exit code.

  The workers of the traffic phase and the fault scenario run at the same time.  The scenario acts on the world, which
  shows it the counters of the workers; the workload the workers leave behind is the argument \<open>traffic\<close> of the run.
  Log lines are left out.
\<close>

section \<open>Options and results\<close>

record Options =
  op_InventoryPath :: string
  op_OutDir :: string
  op_ScratchDir :: string
  op_RepoRoot :: string
  op_BuildTags :: string
  op_Scenario :: string
  op_OpsOverride :: int
  op_ExpectReject :: bool

record Criterion =
  ct_Name :: string
  ct_Met :: bool
  ct_Detail :: string

record NegativeControlReport =
  nc_Mode :: string
  nc_Boundary :: string
  nc_GeneratedAt :: string
  nc_BuildTags :: string
  nc_Scenario :: string
  nc_PlantedFault :: string
  nc_Expectation :: string
  nc_Rejected :: bool
  nc_RejectionsFound :: "string list"
  nc_PorcupineResult :: string
  nc_Ops :: int
  nc_AckedWrites :: int
  nc_LostWrites :: int
  nc_LostSample :: "Mismatch list"
  nc_FailingLine :: string
  nc_Restoration :: string

record GateResult =
  gr_Mode :: string
  gr_DistinctHosts :: bool
  gr_Passed :: bool
  gr_BlockedReason :: string
  gr_Criteria :: "Criterion list"
  gr_Artifacts :: "string list"
  gr_Rejected :: bool
  gr_RejectionsFound :: "string list"
  gr_Inventory :: InventoryReport
  gr_History :: MhHistory
  gr_Faults :: FaultReport
  gr_Check :: CheckReport
  gr_NegativeControl :: "NegativeControlReport option"
  gr_TrafficOps :: int
  gr_VerificationOps :: int
  gr_NodeProcessPids :: "(u64, int) fmap"
  gr_PlantedBuildTags :: string

section \<open>Numbers in texts\<close>

definition round_even :: "rat \<Rightarrow> int" where
  "round_even r =
     (let f = \<lfloor>r\<rfloor>; d = r - of_int f in if d < 1 / 2 then f else if d > 1 / 2 then f + 1 else if even f then f else f + 1)"

text \<open>\<open>%.nf\<close>\<close>

definition fmt_fixed :: "nat \<Rightarrow> rat \<Rightarrow> string" where
  "fmt_fixed n r =
     (let k = nat (round_even (\<bar>r\<bar> * 10 ^ n)) in
      (if r < 0 then ''-'' else '''') @ dec_of_nat (k div 10 ^ n) @
      (if n = 0 then '''' else ''.'' @ pad_left n CHR ''0'' (dec_of_nat (k mod 10 ^ n))))"

definition fmt_bool :: "bool \<Rightarrow> string" where
  "fmt_bool b = (if b then ''true'' else ''false'')"

section \<open>The fault plan of a shortened run\<close>

definition scale_op :: "int \<Rightarrow> int \<Rightarrow> int \<Rightarrow> int" where
  "scale_op oldOps newOps v =
     (if v \<le> 0 then v else let scaled = wrap64 (v * newOps) sdiv oldOps in if scaled < 1 then 1 else scaled)"

definition fmt_plan :: "FaultPlan \<Rightarrow> string" where
  "fmt_plan p = join_with ''/'' (map format_int [fp_KillLeaderAtOp p, fp_IsolateFollowerAtOp p, fp_IsolateLeaderAtOp p, fp_RestoreAtOp p])"

definition scaleFaultPlan :: "Inventory \<Rightarrow> int \<Rightarrow> Inventory \<times> string" where
  "scaleFaultPlan iv newOps =
     (let oldOps = cp_Ops (iv_Client iv); before = iv_Faults iv in
      if oldOps \<le> 0 then (iv, '''')
      else
        let after = before\<lparr>fp_KillLeaderAtOp := scale_op oldOps newOps (fp_KillLeaderAtOp before),
              fp_IsolateFollowerAtOp := scale_op oldOps newOps (fp_IsolateFollowerAtOp before),
              fp_IsolateLeaderAtOp := scale_op oldOps newOps (fp_IsolateLeaderAtOp before),
              fp_RestoreAtOp := scale_op oldOps newOps (fp_RestoreAtOp before)\<rparr>
        in (iv\<lparr>iv_Faults := after\<rparr>,
            ''operation count overridden from '' @ format_int oldOps @ '' to '' @ format_int newOps @ '', so the fault schedule was scaled from '' @
            fmt_plan before @ '' to '' @ fmt_plan after @ '' (kill leader, isolate follower, isolate leader, restore)''))"

text \<open>What \<open>Run\<close> does with the loaded inventory before it touches the hosts.\<close>

definition prepare :: "load_error + Inventory \<Rightarrow> Options \<Rightarrow> drv_error + Inventory \<times> string \<times> Executor" where
  "prepare loaded opts =
     (case loaded of
        Inl e \<Rightarrow> Inl (ELoad e)
      | Inr iv \<Rightarrow>
          let (iv1, scaleNote) =
            (if op_OpsOverride opts > 0 \<and> op_OpsOverride opts \<noteq> cp_Ops (iv_Client iv) then
               (let (iv0, t) = scaleFaultPlan iv (op_OpsOverride opts) in
                (iv0\<lparr>iv_Client := (iv_Client iv0)\<lparr>cp_Ops := op_OpsOverride opts\<rparr>\<rparr>, t))
             else (iv, ''''))
          in (case NewExecutor iv1 of Inl e \<Rightarrow> Inl e | Inr ex \<Rightarrow> Inr (iv1, scaleNote, ex)))"

section \<open>The negative control\<close>

definition buildNegativeControl ::
  "Options \<Rightarrow> string \<Rightarrow> string \<Rightarrow> string \<Rightarrow> CheckReport \<Rightarrow> Mismatch list \<Rightarrow> Workload \<Rightarrow> NegativeControlReport" where
  "buildNegativeControl opts generatedAt mode boundary chk loss w =
     (let reasons =
        (if cr_Result chk = ''Illegal'' then [''porcupine rejected the externally observed history (result Illegal)''] else []) @
        (if loss \<noteq> [] then [dec_of_nat (length loss) @ '' acknowledged writes were missing or changed when re-read after the restart''] else [])
      in \<lparr>nc_Mode = mode, nc_Boundary = boundary, nc_GeneratedAt = generatedAt, nc_BuildTags = op_BuildTags opts, nc_Scenario = op_Scenario opts,
          nc_PlantedFault = ''engine applies a proposed entry on the leader before quorum commit, so the client is acknowledged before the entry is committed'',
          nc_Expectation = ''the harness must reject this history: either porcupine reports Illegal or an acknowledged write is missing afterwards'',
          nc_Rejected = (reasons \<noteq> []), nc_RejectionsFound = reasons, nc_PorcupineResult = cr_Result chk, nc_Ops = cr_Ops chk,
          nc_AckedWrites = aw_Len (wl_Acked w), nc_LostWrites = int (length loss), nc_LostSample = take 10 loss,
          nc_FailingLine = (if reasons \<noteq> [] then ''NEGATIVE CONTROL REJECTED THE PLANTED FAULT: '' @ join_with ''; '' reasons
            else ''NEGATIVE CONTROL FAILED TO FAIL: the planted apply-before-quorum build produced a history the harness accepted''),
          nc_Restoration = ''the planted fault exists only behind the build tag; the shipped build excludes it and is rebuilt and rerun immediately after this control''\<rparr>)"

section \<open>Criteria\<close>

definition durOrZero :: "DurationMeasurement option \<Rightarrow> rat" where
  "durOrZero d = (case d of None \<Rightarrow> 0 | Some m \<Rightarrow> dm_Ms m)"

definition criterion :: "string \<Rightarrow> bool \<Rightarrow> string \<Rightarrow> Criterion" where
  "criterion name met detail = \<lparr>ct_Name = name, ct_Met = met, ct_Detail = detail\<rparr>"

definition outage_criterion :: "string \<Rightarrow> string \<Rightarrow> string \<Rightarrow> OutageMeasurement option \<Rightarrow> Criterion" where
  "outage_criterion name absent present m =
     criterion name (case m of None \<Rightarrow> False | Some k \<Rightarrow> om_Complete k)
       (case m of None \<Rightarrow> absent | Some k \<Rightarrow> present @ fmt_fixed 0 (om_OutageMs k) @ '' ms'')"

definition evaluateCriteria :: "Inventory \<Rightarrow> GateResult \<Rightarrow> FaultReport \<Rightarrow> CheckReport \<Rightarrow> Criterion list" where
  "evaluateCriteria iv res faults chk =
     (let m = frp_Measurements faults in
      [criterion ''three_distinct_hosts'' (gr_DistinctHosts res)
         (''machine identity, hostname, and boot id distinct across all three hosts: '' @ fmt_bool (gr_DistinctHosts res)),
       criterion ''at_least_1000_mixed_operations'' (gr_TrafficOps res \<ge> 1000)
         (format_int (gr_TrafficOps res) @ '' client operations completed during the traffic phase ('' @ format_int (mh_Writes (gr_History res)) @
          '' writes, '' @ format_int (mh_Reads (gr_History res)) @ '' reads recorded in the history)'')] @
      (if frp_Scenario (gr_Faults res) = ScenarioFull then
         [criterion ''majority_progress_while_follower_isolated''
            (case me_FollowerIsolationProgress m of None \<Rightarrow> False | Some p \<Rightarrow> pm_MadeProgress p)
            (case me_FollowerIsolationProgress m of
               None \<Rightarrow> ''follower isolation was not part of this scenario''
             | Some p \<Rightarrow> format_int (pm_AcknowledgedWrites p) @ '' writes and '' @ format_int (pm_AcknowledgedReads p) @
                 '' reads acknowledged during the '' @ fmt_fixed 0 (pm_WindowMs p) @ '' ms the follower was isolated ('' @
                 fmt_fixed 1 (pm_WritesPerSecond p) @ '' writes/s)''),
          outage_criterion ''leader_kill_outage_recorded'' ''the leader was not killed in this scenario''
            ''write outage after SIGKILL of the leader: '' (me_LeaderKillWriteOutage m)]
       else []) @
      [outage_criterion ''leader_isolation_outage_recorded'' ''the leader was not isolated in this scenario''
         ''write outage while the leader was isolated from the majority: '' (me_LeaderIsolationWriteOutage m),
       criterion ''new_leader_elected_after_isolation''
         (case me_LeaderIsolationElection m of None \<Rightarrow> False | Some e \<Rightarrow> dm_Ms e > 0)
         (''new leader observed '' @ fmt_fixed 0 (durOrZero (me_LeaderIsolationElection m)) @ '' ms after the isolation'')] @
      (if fp_RestartAllAfter (iv_Faults iv) then
         [criterion ''no_acknowledged_write_lost'' (frp_RestartVerified faults \<and> frp_AckedWriteLoss faults = [])
            (format_int (frp_VerifiedKeys faults) @ '' acknowledged writes re-read with linearizable reads after restarting every node from disk; '' @
             dec_of_nat (length (frp_AckedWriteLoss faults)) @ '' missing or changed''),
          criterion ''restart_recovery_recorded'' (me_RestartReadyRecovery m \<noteq> None)
            (''recovery to a ready cluster: '' @ fmt_fixed 0 (durOrZero (me_RestartReadyRecovery m)) @
             '' ms; to the first successful linearizable read: '' @ fmt_fixed 0 (durOrZero (me_RestartFirstReadRecovery m)) @ '' ms'')]
       else []) @
      [criterion ''history_linearizable'' (cr_Linearizable chk)
         (''porcupine result '' @ cr_Result chk @ '' over '' @ format_int (cr_Ops chk) @ '' operations in '' @
          fmt_fixed 0 (micros_ms (cr_CheckDurationMicros chk)) @ '' ms'')])"

definition allMet :: "Criterion list \<Rightarrow> bool" where
  "allMet cs = list_all ct_Met cs"

section \<open>Artifacts\<close>

definition artifactNames :: "string \<Rightarrow> string \<Rightarrow> string" where
  "artifactNames mode kind =
     (let names = [(''inventory'', ''inventory.json''), (''history'', ''history.json''), (''faults'', ''faults.json''),
                   (''porcupine'', ''porcupine.json''), (''report'', ''report.md'')];
          name = (case map_of names kind of None \<Rightarrow> '''' | Some n \<Rightarrow> n)
      in if mode = ModeLabelMultiHost \<and> name \<noteq> '''' then ''multihost-'' @ name else name)"

text \<open>The documents \<open>writeJSONFile\<close> marshals; the JSON text of a document is the argument \<open>J\<close>.\<close>

datatype document = DInventory InventoryReport | DHistory MhHistory | DFaults FaultReport | DCheck CheckReport | DControl NegativeControlReport

definition writeJSONFile :: "'w world \<Rightarrow> (document \<Rightarrow> string) \<Rightarrow> (string \<Rightarrow> string) \<Rightarrow> string \<Rightarrow> document \<Rightarrow> ('w, unit) act" where
  "writeJSONFile W J Dir path v =
     bnd (bnd (world (w_mkdir W (Dir path))) file_error) (\<lambda>_.
     bnd (world (w_writefile W path (J v @ nl))) file_error)"

definition writeArtifacts ::
  "'w world \<Rightarrow> (document \<Rightarrow> string) \<Rightarrow> (string \<Rightarrow> string) \<Rightarrow> drv_cfg \<Rightarrow> Options \<Rightarrow> string \<Rightarrow> GateResult \<Rightarrow> string \<Rightarrow> ('w, string list) act" where
  "writeArtifacts W J Dir C opts mode res reportMD =
     (let dir = (if op_ExpectReject opts then op_ScratchDir opts else op_OutDir opts);
          pth = (\<lambda>kind. dc_Join C dir (artifactNames mode kind));
          control = dc_Join C (op_OutDir opts) ''negative-control.json''
      in
      bnd (writeJSONFile W J Dir (pth ''inventory'') (DInventory (gr_Inventory res))) (\<lambda>_.
      bnd (writeJSONFile W J Dir (pth ''history'') (DHistory (gr_History res))) (\<lambda>_.
      bnd (writeJSONFile W J Dir (pth ''faults'') (DFaults (gr_Faults res))) (\<lambda>_.
      bnd (writeJSONFile W J Dir (pth ''porcupine'') (DCheck (gr_Check res))) (\<lambda>_.
      bnd (bnd (world (w_writefile W (pth ''report'') reportMD)) file_error) (\<lambda>_.
      bnd (case gr_NegativeControl res of
             None \<Rightarrow> ret []
           | Some nc \<Rightarrow> bnd (writeJSONFile W J Dir control (DControl nc)) (\<lambda>_. ret [control])) (\<lambda>extra.
      ret (map pth [''inventory'', ''history'', ''faults'', ''porcupine'', ''report''] @ extra))))))))"

section \<open>Steps of a run\<close>

definition requireCurl :: "'w world \<Rightarrow> drv_cfg \<Rightarrow> ('w, unit) act" where
  "requireCurl W C =
     each (\<lambda>h. bnd (attempted (ex_Run W (dc_Ex C) h ''command -v curl >/dev/null 2>&1'')) (\<lambda>r.
       case r of Inl _ \<Rightarrow> failed (ENoCurl (Target h)) | Inr _ \<Rightarrow> ret ())) (iv_Hosts (dc_Inv C))"

definition cleanNodeState :: "'w world \<Rightarrow> drv_cfg \<Rightarrow> Host \<Rightarrow> ('w, unit) act" where
  "cleanNodeState W C h =
     (let d = ho_DataDir h in
      bnd (ex_Run W (dc_Ex C) h (''mkdir -p '' @ d @ '' && rm -rf '' @ d @ ''/raft '' @ d @ ''/peers.json '' @ d @ ''/peers.json.tmp '' @
             d @ ''/node.log '' @ d @ ''/node.pid'')) (\<lambda>_. ret ()))"

text \<open>
  From the recorded history to the verdict; \<open>rep\<close> is the preflight report, \<open>w\<close> the workload, \<open>f\<close> the fault runner.
\<close>

definition gate_result ::
  "(Operation list \<Rightarrow> int \<Rightarrow> CheckResult) \<Rightarrow> int \<Rightarrow> string \<Rightarrow> drv_cfg \<Rightarrow> Options \<Rightarrow> InventoryReport \<Rightarrow> int \<Rightarrow> Workload \<Rightarrow> FaultRunner \<Rightarrow>
   (u64, int) fmap \<Rightarrow> GateResult" where
  "gate_result chk elapsed generatedAt C opts rep trafficOps w f pids =
     (let mode = ir_Mode rep; boundary = ir_Boundary rep;
          hist = mh_History generatedAt mode boundary (map RaftURL (iv_Hosts (dc_Inv C))) (wl_Rec w);
          fr = fr_Report C f w generatedAt mode boundary hist;
          cr = RunCheck chk elapsed generatedAt hist mode boundary (fr_restartMismatches f) (frp_VerifiedKeys fr);
          nc = (if op_ExpectReject opts then Some (buildNegativeControl opts generatedAt mode boundary cr (fr_restartMismatches f) w) else None);
          res = \<lparr>gr_Mode = mode, gr_DistinctHosts = ir_DistinctHosts rep, gr_Passed = False, gr_BlockedReason = '''', gr_Criteria = [], gr_Artifacts = [],
            gr_Rejected = (case nc of None \<Rightarrow> False | Some n \<Rightarrow> nc_Rejected n),
            gr_RejectionsFound = (case nc of None \<Rightarrow> [] | Some n \<Rightarrow> nc_RejectionsFound n),
            gr_Inventory = rep, gr_History = hist, gr_Faults = fr, gr_Check = cr, gr_NegativeControl = nc, gr_TrafficOps = trafficOps,
            gr_VerificationOps = frp_VerifiedKeys fr, gr_NodeProcessPids = pids, gr_PlantedBuildTags = op_BuildTags opts\<rparr>;
          criteria = evaluateCriteria (dc_Inv C) res fr cr
      in res\<lparr>gr_Criteria := criteria, gr_Passed := (allMet criteria \<and> ir_DistinctHosts rep),
            gr_BlockedReason := (if \<not> ir_DistinctHosts rep then BlockedReasonDryRun else '''')\<rparr>)"

section \<open>The report\<close>

definition executorNote :: "string \<Rightarrow> string" where
  "executorNote kind = (if kind = ''ssh'' then ''each host command ran on a separate machine over ssh'' else ''every command ran locally on this one machine'')"

definition gateWord :: "GateResult \<Rightarrow> string" where
  "gateWord res =
     (case gr_NegativeControl res of
        Some nc \<Rightarrow> if nc_Rejected nc then ''negative control rejected the planted fault, as required'' else ''negative control failed to fail''
      | None \<Rightarrow>
          if gr_Passed res then ''passed'' else if gr_BlockedReason res \<noteq> '''' then ''blocked'' else ''failed'')"

definition yesNo :: "bool \<Rightarrow> string" where "yesNo b = (if b then ''yes'' else ''no'')"

definition bt :: "string \<Rightarrow> string" where "bt s = [CHR 0x60] @ s @ [CHR 0x60]"

definition md_code :: "string \<Rightarrow> string" where "md_code s = (if s = '''' then '''' else bt s)"

definition shorten :: "string \<Rightarrow> nat \<Rightarrow> string" where
  "shorten s0 n = (let s = TrimSpace (replace_char CHR 0x0A '' '' s0) in if length s \<le> n then s else take n s @ ''...'')"

definition sanitizeCell :: "string \<Rightarrow> string" where
  "sanitizeCell s = replace_char CHR 0x0A '' '' (replace_char CHR ''|'' ''/'' s)"

definition writeOutage :: "string \<Rightarrow> OutageMeasurement \<Rightarrow> string" where
  "writeOutage label m =
     (if \<not> om_Complete m then ''- '' @ label @ '': not measurable (no acknowledged write on one side of the event)'' @ nl
      else ''- '' @ label @ '': **'' @ fmt_fixed 0 (om_OutageMs m) @ '' ms** (last acknowledged write at t+'' @
        fmt_fixed 0 (nanos_ms (om_LastAckBeforeNanos m)) @ '' ms, first acknowledged write after at t+'' @
        fmt_fixed 0 (nanos_ms (om_FirstAckAfterNanos m)) @ '' ms; '' @ om_Method m @ '')'' @ nl)"

definition cells :: "string list \<Rightarrow> string" where
  "cells cs = ''| '' @ join_with '' | '' cs @ '' |'' @ nl"

definition report_head :: "GateResult \<Rightarrow> string" where
  "report_head res =
     (let rep = gr_Inventory res in
      ''# '' @ (if gr_Mode res \<noteq> ModeLabelMultiHost then ''Multi-host gate harness: single-host dry run'' else ''Multi-host gate run'') @ nl @ nl @
      ''- Mode: '' @ bt (gr_Mode res) @ nl @
      ''- Executor: '' @ bt (ir_Executor rep) @ '' ('' @ executorNote (ir_Executor rep) @ '')'' @ nl @
      ''- Inventory: '' @ bt (ir_InventoryPath rep) @ '' (declared mode '' @ bt (ir_InventoryMode rep) @ '')'' @ nl @
      ''- Scenario: '' @ bt (frp_Scenario (gr_Faults res)) @ nl @
      ''- Generated: '' @ ir_GeneratedAt rep @ nl @
      ''- Distinct hosts: **'' @ fmt_bool (gr_DistinctHosts res) @ ''**'' @ nl @
      ''- Gate result: **'' @ gateWord res @ ''**'' @ nl @
      (if gr_BlockedReason res \<noteq> '''' then ''- Blocked reason: '' @ gr_BlockedReason res @ nl else '''') @
      (if gr_PlantedBuildTags res \<noteq> '''' then ''- Node build tags: '' @ bt (gr_PlantedBuildTags res) @ '' (planted-fault build, not the shipped code)'' @ nl else '''') @
      nl @ ''## Boundary'' @ nl @ nl @ ir_Boundary rep @ nl)"

definition report_hosts :: "GateResult \<Rightarrow> string" where
  "report_hosts res =
     nl @ ''## Host inventory'' @ nl @ nl @
     ''| node | target | hostname | machine identity | boot id | kernel | data device | build target |'' @ nl @
     ''|---|---|---|---|---|---|---|---|'' @ nl @
     concat (map (\<lambda>h. cells [format_uint (hf_ID h), md_code (hf_Target h), md_code (hf_Hostname h), md_code (shorten (hf_MachineID h) 40),
       md_code (shorten (hf_BootID h) 40), shorten (hf_Kernel h) 60, md_code (hf_DataDevice h), md_code (hf_BuildTarget h)]) (ir_Hosts (gr_Inventory res))) @
     nl @ ''Distinctness findings:'' @ nl @ nl @
     concat (map (\<lambda>r. ''- '' @ r @ nl) (ir_DistinctnessReasons (gr_Inventory res)))"

definition report_ops :: "Inventory \<Rightarrow> GateResult \<Rightarrow> string" where
  "report_ops iv res =
     (let c = iv_Client iv; h = gr_History res; f = gr_Faults res in
      nl @ ''## Operations'' @ nl @ nl @
      ''- Traffic phase: '' @ format_int (gr_TrafficOps res) @ '' operations completed (target '' @ format_int (cp_Ops c) @ '', concurrency '' @
        format_int (cp_Concurrency c) @ '', read fraction '' @ fmt_fixed 2 (cp_ReadFraction c) @ '', seed '' @ format_int (cp_Seed c) @ '')'' @ nl @
      ''- Recorded history: '' @ dec_of_nat (length (mh_Ops h)) @ '' operations ('' @ format_int (mh_Writes h) @ '' writes, '' @ format_int (mh_Reads h) @ '' reads)'' @ nl @
      ''- Indeterminate: '' @ format_int (mh_IndeterminateWrites h) @ '' writes and '' @ format_int (mh_IndeterminateReads h) @
        '' reads never learned their outcome and are checked as indeterminate'' @ nl @
      ''- Acknowledged writes tracked: '' @ format_int (frp_AckedWrites f) @ nl @
      ''- Acknowledged writes re-read after the full restart: '' @ format_int (frp_VerifiedKeys f) @ '' ('' @
        dec_of_nat (length (frp_AckedWriteLoss f)) @ '' missing or changed)'' @ nl)"

definition report_timeline :: "GateResult \<Rightarrow> string" where
  "report_timeline res =
     nl @ ''## Fault timeline'' @ nl @ nl @ ''| at op | t+ms | event | node | detail | waited ms |'' @ nl @ ''|---|---|---|---|---|---|'' @ nl @
     concat (map (\<lambda>e. cells [format_int (fe_AtOp e), fmt_fixed 0 (nanos_ms (fe_AtNanos e)), bt (fe_Name e),
       (if fe_NodeID e \<noteq> 0 then format_uint (fe_NodeID e) else ''''), sanitizeCell (fe_Detail e),
       (if fe_DurationMicros e > 0 then fmt_fixed 0 (micros_ms (fe_DurationMicros e)) else '''')]) (frp_Events (gr_Faults res)))"

definition duration_line :: "string \<Rightarrow> DurationMeasurement option \<Rightarrow> string" where
  "duration_line label d =
     (case d of None \<Rightarrow> '''' | Some m \<Rightarrow> ''- '' @ label @ '': **'' @ fmt_fixed 0 (dm_Ms m) @ '' ms** ('' @ dm_Method m @ '')'' @ nl)"

definition outage_line :: "string \<Rightarrow> OutageMeasurement option \<Rightarrow> string" where
  "outage_line label d = (case d of None \<Rightarrow> '''' | Some m \<Rightarrow> writeOutage label m)"

definition report_measurements :: "GateResult \<Rightarrow> string" where
  "report_measurements res =
     (let m = frp_Measurements (gr_Faults res) in
      nl @ ''## Measurements'' @ nl @ nl @
      outage_line ''Write outage after SIGKILL of the leader'' (me_LeaderKillWriteOutage m) @
      duration_line ''New leader after the kill'' (me_LeaderKillElection m) @
      (case me_FollowerIsolationProgress m of
         None \<Rightarrow> ''''
       | Some p \<Rightarrow> ''- Majority progress while one follower was isolated: **'' @ format_int (pm_AcknowledgedWrites p) @ '' writes and '' @
           format_int (pm_AcknowledgedReads p) @ '' reads acknowledged** over '' @ fmt_fixed 0 (pm_WindowMs p) @ '' ms ('' @
           fmt_fixed 1 (pm_WritesPerSecond p) @ '' writes/s); progress: **'' @ fmt_bool (pm_MadeProgress p) @ ''** ('' @ pm_Method p @ '')'' @ nl) @
      outage_line ''Write outage while the leader was isolated from the majority'' (me_LeaderIsolationWriteOutage m) @
      duration_line ''New leader after isolating the leader'' (me_LeaderIsolationElection m) @
      duration_line ''Restart recovery to a ready cluster'' (me_RestartReadyRecovery m) @
      duration_line ''Restart recovery to the first successful linearizable read'' (me_RestartFirstReadRecovery m))"

definition loss_line :: "Mismatch \<Rightarrow> string" where
  "loss_line mm = ''  - '' @ bt (mm_Key mm) @ '': expected '' @ bt (mm_Expected mm) @ '', observed '' @ bt (mm_ObservedVal mm) @ '' (found='' @
     fmt_bool (mm_ObservedFound mm) @ '', status='' @ mm_Status mm @ '')'' @ nl"

definition report_check :: "GateResult \<Rightarrow> string" where
  "report_check res =
     (let c = gr_Check res; loss = frp_AckedWriteLoss (gr_Faults res) in
      nl @ ''## Linearizability'' @ nl @ nl @
      ''- Checker: github.com/anishathalye/porcupine via internal/check'' @ nl @
      ''- Model: internal/check.KVModel (sequential key-value store, partitioned by key)'' @ nl @
      ''- Result: **'' @ cr_Result c @ ''** over '' @ format_int (cr_Ops c) @ '' operations in '' @ fmt_fixed 0 (micros_ms (cr_CheckDurationMicros c)) @ '' ms'' @ nl @
      ''- history recorded by the driver (the client), not by any node; operations whose outcome the client never learned are checked as indeterminate'' @ nl @
      (if loss \<noteq> [] then
         ''- Acknowledged writes missing after the restart: '' @ dec_of_nat (length loss) @ '' (a hard failure)'' @ nl @
         concat (map loss_line (take 10 loss)) @
         (if length loss > 10 then ''  - ... and '' @ dec_of_nat (length loss - 10) @ '' more'' @ nl else '''')
       else ''''))"

definition report_control :: "GateResult \<Rightarrow> string" where
  "report_control res =
     (case gr_NegativeControl res of
        None \<Rightarrow> ''''
      | Some nc \<Rightarrow>
          nl @ ''## Negative control'' @ nl @ nl @ ''- Planted fault: '' @ nc_PlantedFault nc @ nl @ ''- Build tags: '' @ bt (nc_BuildTags nc) @ nl @
          ''- Expectation: '' @ nc_Expectation nc @ nl @ ''- Rejected: **'' @ fmt_bool (nc_Rejected nc) @ ''**'' @ nl @
          concat (map (\<lambda>r. ''  - '' @ r @ nl) (nc_RejectionsFound nc)) @ ''- '' @ nc_FailingLine nc @ nl @ ''- Restoration: '' @ nc_Restoration nc @ nl)"

definition report_tail :: "GateResult \<Rightarrow> string" where
  "report_tail res =
     nl @ ''## Gate criteria'' @ nl @ nl @ ''| criterion | met | detail |'' @ nl @ ''|---|---|---|'' @ nl @
     concat (map (\<lambda>c. cells [bt (ct_Name c), yesNo (ct_Met c), sanitizeCell (ct_Detail c)]) (gr_Criteria res)) @
     (if frp_Notes (gr_Faults res) \<noteq> [] then
        nl @ ''## Notes and judgment calls'' @ nl @ nl @ concat (map (\<lambda>n. ''- '' @ n @ nl) (frp_Notes (gr_Faults res)))
      else '''') @
     nl @ ''## What this run is and is not'' @ nl @ nl @
     (if gr_Mode res = ModeLabelMultiHost then
        ''Implemented and measured: every number above was measured by the driver against three distinct hosts over a real network.'' @ nl
      else ''Implemented, and measured only as a single-host dry run: the harness ran end to end, so the code paths for deployment, fault injection, history recording, and the linearizability check are exercised and their numbers are real measurements of this machine. They are not multi-host evidence. The gate stays blocked until three distinct authorized hosts are available, and no remote host was contacted by this run.'' @ nl)"

definition RenderReport :: "Inventory \<Rightarrow> GateResult \<Rightarrow> string" where
  "RenderReport iv res =
     report_head res @ report_hosts res @ report_ops iv res @ report_timeline res @ report_measurements res @ report_check res @
     report_control res @ report_tail res"

section \<open>The whole run\<close>

definition save_log :: "'w world \<Rightarrow> drv_cfg \<Rightarrow> Options \<Rightarrow> Host \<Rightarrow> ('w, unit) act" where
  "save_log W C opts h =
     bnd (TailLog W C h 200) (\<lambda>out.
       if out = '''' then ret ()
       else bnd (world (w_writefile W (dc_Join C (op_ScratchDir opts) (''node-'' @ format_uint (ho_ID h) @ ''.log'')) out)) (\<lambda>_. ret ()))"

definition collectNodeLogs :: "'w world \<Rightarrow> drv_cfg \<Rightarrow> Options \<Rightarrow> ('w, unit) act" where
  "collectNodeLogs W C opts = each (save_log W C opts) (iv_Hosts (dc_Inv C))"

text \<open>\<open>defer\<close>: the teardown runs whatever the result is, and its own errors are only logged.\<close>

definition deferred :: "('w, unit) act \<Rightarrow> ('w, 'a) act \<Rightarrow> ('w, 'a) act" where
  "deferred t m = bnd (attempted m) (\<lambda>r. bnd (attempted t) (\<lambda>_. case r of Inl e \<Rightarrow> failed e | Inr x \<Rightarrow> ret x))"

definition teardown :: "'w world \<Rightarrow> drv_cfg \<Rightarrow> Options \<Rightarrow> ('w, unit) act" where
  "teardown W C opts = bnd (collectNodeLogs W C opts) (\<lambda>_. bnd (dp_StopAll W C) (\<lambda>_. ret ()))"

record gate_ops =
  go_pre :: pre_ops
  go_check :: "Operation list \<Rightarrow> int \<Rightarrow> CheckResult"
  go_json :: "document \<Rightarrow> string"
  go_dir :: "string \<Rightarrow> string"
  go_stamp :: string
  go_elapsed :: int

definition run_notes :: "gate_ops \<Rightarrow> Options \<Rightarrow> string \<Rightarrow> ('w, unit) act" where
  "run_notes G opts scaleNote =
     bnd (if op_BuildTags opts \<noteq> '''' then Note (''node binary built with build tags '' @ pf_quote (go_pre G) (op_BuildTags opts) @
            ''; this is a planted-fault build, not the shipped code'') else ret ()) (\<lambda>_.
     bnd (Note (''client traffic and fault injection both ran from this driver; every timestamp is on the driver'' @ [CHR 0x27] @ ''s clock'')) (\<lambda>_.
     if scaleNote \<noteq> '''' then Note scaleNote else ret ()))"

text \<open>\<open>traffic\<close>: the workload the workers left, or the error of \<open>work.Run\<close>.\<close>

definition gate_body ::
  "'w world \<Rightarrow> gate_ops \<Rightarrow> drv_cfg \<Rightarrow> Options \<Rightarrow> string \<Rightarrow> InventoryReport \<Rightarrow> drv_error + Workload \<Rightarrow> ('w \<Rightarrow> verify_env) \<Rightarrow> run_cfg \<Rightarrow> ('w, GateResult) act" where
  "gate_body W G C opts scaleNote rep traffic E rc =
     bnd (wrapped ''start cluster'' (dp_StartAll W C)) (\<lambda>_.
     bnd (wrapped ''no initial leader'' (WaitLeader W (iv_Hosts (dc_Inv C)) 0 (seconds 60))) (\<lambda>_.
     bnd (modify_run (\<lambda>_. NewFaultRunner)) (\<lambda>_.
     bnd (run_notes G opts scaleNote) (\<lambda>_.
     bnd (attempted (fr_Run W (pf_txt (go_pre G)) C)) (\<lambda>faultErr.
     case traffic of
       Inl e \<Rightarrow> failed e
     | Inr w \<Rightarrow>
         (case faultErr of
            Inl e \<Rightarrow> failed (EWrap ''fault injection'' e)
          | Inr _ \<Rightarrow>
              bnd (if fp_RestartAllAfter (iv_Faults (dc_Inv C)) then RestartAllAndVerify W C E rc w else ret w) (\<lambda>w1.
              bnd get_run (\<lambda>f.
              bnd get_dep (\<lambda>d.
              let res = gate_result (go_check G) (go_elapsed G) (go_stamp G) C opts rep (wl_completed w) w1 f (dp_pids d) in
              bnd (writeArtifacts W (go_json G) (go_dir G) C opts (ir_Mode rep) res (RenderReport (dc_Inv C) res)) (\<lambda>artifacts.
              ret (res\<lparr>gr_Artifacts := artifacts\<rparr>)))))))))))"

definition gate_Run ::
  "'w world \<Rightarrow> gate_ops \<Rightarrow> drv_cfg \<Rightarrow> Options \<Rightarrow> string \<Rightarrow> drv_error + Workload \<Rightarrow> ('w \<Rightarrow> verify_env) \<Rightarrow> run_cfg \<Rightarrow> ('w, GateResult) act" where
  "gate_Run W G C opts scaleNote traffic E rc =
     bnd (bnd (world (w_mkdir W (op_OutDir opts))) file_error) (\<lambda>_.
     bnd (bnd (world (w_mkdir W (op_ScratchDir opts))) file_error) (\<lambda>_.
     bnd (Preflight W (go_pre G) C (op_InventoryPath opts) (op_RepoRoot opts) (go_stamp G)) (\<lambda>rep.
     bnd (requireCurl W C) (\<lambda>_.
     bnd (bnd (world (w_mkdir W (dc_Scratch C))) file_error) (\<lambda>_.
     bnd (modify_dep (\<lambda>_. NewDeployment)) (\<lambda>_.
     bnd (dp_Build W C) (\<lambda>_.
     bnd (each (\<lambda>h. bnd (cleanNodeState W C h) (\<lambda>_. dp_Deploy W C h)) (iv_Hosts (dc_Inv C))) (\<lambda>_.
     deferred (teardown W C opts) (gate_body W G C opts scaleNote rep traffic E rc)))))))))"

text \<open>
  The whole of \<open>Run\<close> and of \<open>PreflightOnly\<close>; \<open>loaded\<close> is what \<open>LoadInventory\<close> returned, \<open>base\<close> holds the platform and
  the environment of the driver.
\<close>

definition mh_Run ::
  "'w world \<Rightarrow> gate_ops \<Rightarrow> drv_cfg \<Rightarrow> Options \<Rightarrow> load_error + Inventory \<Rightarrow> drv_error + Workload \<Rightarrow> ('w \<Rightarrow> verify_env) \<Rightarrow> run_cfg \<Rightarrow> ('w, GateResult) act" where
  "mh_Run W G base opts0 loaded traffic E rc =
     (let opts = opts0\<lparr>op_Scenario := (if op_Scenario opts0 = '''' then ScenarioFull else op_Scenario opts0)\<rparr> in
      case prepare loaded opts of
        Inl e \<Rightarrow> failed e
      | Inr (iv, scaleNote, ex) \<Rightarrow>
          gate_Run W G (base\<lparr>dc_Inv := iv, dc_Ex := ex, dc_Scratch := op_ScratchDir opts, dc_BuildTags := op_BuildTags opts,
            dc_RepoRoot := op_RepoRoot opts, dc_Scenario := op_Scenario opts\<rparr>) opts scaleNote traffic E rc)"

definition PreflightOnly ::
  "'w world \<Rightarrow> gate_ops \<Rightarrow> drv_cfg \<Rightarrow> Options \<Rightarrow> load_error + Inventory \<Rightarrow> string \<Rightarrow> ('w, InventoryReport) act" where
  "PreflightOnly W G base opts loaded outPath =
     (case loaded of
        Inl e \<Rightarrow> failed (ELoad e)
      | Inr iv \<Rightarrow>
          (case NewExecutor iv of
             Inl e \<Rightarrow> failed e
           | Inr ex \<Rightarrow>
               bnd (Preflight W (go_pre G) (base\<lparr>dc_Inv := iv, dc_Ex := ex\<rparr>) (op_InventoryPath opts)
                      (if op_RepoRoot opts = '''' then ''.'' else op_RepoRoot opts) (go_stamp G)) (\<lambda>rep.
               bnd (if outPath \<noteq> '''' then writeJSONFile W (go_json G) (go_dir G) outPath (DInventory rep) else ret ()) (\<lambda>_. ret rep))))"

text \<open>
  \<open>runGate\<close> of \<open>cmd/qlmultihost\<close>: the exit code for what \<open>Run\<close> returned; a nil pointer panics with exit status 2.
\<close>

definition exitOK :: int where "exitOK = 0"
definition exitFailure :: int where "exitFailure = 1"
definition exitUsage :: int where "exitUsage = 2"
definition exitBlocked :: int where "exitBlocked = 3"
definition exitNotThree :: int where "exitNotThree = 10"

definition runGate_exit :: "Options \<Rightarrow> drv_error + GateResult \<Rightarrow> int" where
  "runGate_exit opts r =
     (case r of
        Inl _ \<Rightarrow> exitFailure
      | Inr res \<Rightarrow>
          if op_ExpectReject opts then
            (case gr_NegativeControl res of Some nc \<Rightarrow> if \<not> nc_Rejected nc then exitFailure else exitOK | None \<Rightarrow> 2)
          else if \<not> gr_DistinctHosts res then exitBlocked
          else if \<not> gr_Passed res then exitFailure
          else exitOK)"

definition runPreflight_exit :: "drv_error + InventoryReport \<Rightarrow> int" where
  "runPreflight_exit r =
     (case r of Inl _ \<Rightarrow> exitFailure | Inr rep \<Rightarrow> if \<not> ir_DistinctHosts rep then exitNotThree else exitOK)"

end
