(* ===== verification/Commands.thy ===== *)
theory Commands
  imports GoFlag Gate Server
begin

text \<open>
  The commands around the components: \<open>cmd/quorumlogd\<close> with its flags, the routes and listeners of the server it
  starts, and the dispatch of \<open>cmd/qlmultihost\<close>.  Signals and log lines are not modelled.
\<close>

section \<open>The node command\<close>

record node_flags =
  nf_id :: u64
  nf_listen :: string
  nf_peers :: string
  nf_data :: string
  nf_join :: bool
  nf_snapThresh :: u64
  nf_snapTrail :: u64
  nf_tickMs :: int
  nf_chaos :: string

definition node_defaults :: node_flags where
  "node_defaults = \<lparr>nf_id = 0, nf_listen = ''127.0.0.1:9101'', nf_peers = '''', nf_data = '''', nf_join = False,
     nf_snapThresh = 10000, nf_snapTrail = 64, nf_tickMs = 100, nf_chaos = ''''\<rparr>"

definition set_node_flag :: "string \<Rightarrow> string \<Rightarrow> node_flags \<Rightarrow> node_flags option" where
  "set_node_flag name v x =
     (if name = ''id'' then map_option (\<lambda>n. x\<lparr>nf_id := n\<rparr>) (flag_uint v)
      else if name = ''listen'' then Some (x\<lparr>nf_listen := v\<rparr>)
      else if name = ''peers'' then Some (x\<lparr>nf_peers := v\<rparr>)
      else if name = ''data'' then Some (x\<lparr>nf_data := v\<rparr>)
      else if name = ''join'' then map_option (\<lambda>b. x\<lparr>nf_join := b\<rparr>) (flag_bool v)
      else if name = ''snapshot-threshold'' then map_option (\<lambda>n. x\<lparr>nf_snapThresh := n\<rparr>) (flag_uint v)
      else if name = ''snapshot-trailing'' then map_option (\<lambda>n. x\<lparr>nf_snapTrail := n\<rparr>) (flag_uint v)
      else if name = ''tick-ms'' then map_option (\<lambda>n. x\<lparr>nf_tickMs := n\<rparr>) (flag_int v)
      else Some (x\<lparr>nf_chaos := v\<rparr>))"

definition node_flag_set :: "node_flags flag_set" where
  "node_flag_set =
     \<lparr>fs_names = [''id'', ''listen'', ''peers'', ''data'', ''join'', ''snapshot-threshold'', ''snapshot-trailing'', ''tick-ms'', ''chaos-listen''],
      fs_bool = (\<lambda>n. n = ''join''), fs_set = set_node_flag\<rparr>"

record node_config =
  nc_sv :: SvConfig
  nc_DataDir :: string
  nc_ListenAddr :: string
  nc_TickInterval :: int
  nc_ChaosListen :: string

datatype node_outcome = NodeExit int | NodeRun node_config

text \<open>\<open>main\<close> up to \<open>server.New\<close>: the exit code, or the configuration of the server.\<close>

definition node_main :: "string list \<Rightarrow> node_outcome" where
  "node_main args =
     (case flag_parse node_flag_set args node_defaults of
        Inl e \<Rightarrow> NodeExit (flag_exit e)
      | Inr (x, _) \<Rightarrow>
          if nf_id x = 0 \<or> nf_data x = '''' then NodeExit 2
          else
            (case parsePeers (nf_peers x) of
               Inl _ \<Rightarrow> NodeExit 1
             | Inr peers \<Rightarrow>
                 NodeRun \<lparr>nc_sv = \<lparr>sc_ID = nf_id x, sc_Peers = peers, sc_Join = nf_join x, sc_SnapshotThreshold = nf_snapThresh x,
                     sc_SnapshotTrailing = nf_snapTrail x\<rparr>,
                   nc_DataDir = nf_data x, nc_ListenAddr = nf_listen x, nc_TickInterval = wrap64 (nf_tickMs x * 1000000),
                   nc_ChaosListen = nf_chaos x\<rparr>))"

section \<open>Listeners and routes\<close>

text \<open>
  \<open>http.ServeMux\<close>: a path that is not clean is redirected to its clean form; then an exact pattern or the prefix pattern wins.
\<close>

fun clean_segments :: "string list \<Rightarrow> string list \<Rightarrow> string list" where
  "clean_segments acc [] = rev acc"
| "clean_segments acc (p # ps) =
     (if p = '''' \<or> p = ''.'' then clean_segments acc ps
      else if p = ''..'' then clean_segments (tl acc) ps
      else clean_segments (p # acc) ps)"

definition clean_path :: "string \<Rightarrow> string" where
  "clean_path p =
     (let np = ''/'' @ join_with ''/'' (clean_segments [] (split_char CHR ''/'' p)) in
      if p \<noteq> '''' \<and> last p = CHR ''/'' \<and> np \<noteq> ''/'' then np @ ''/'' else np)"

datatype route = RRaft | RKV | RMembers | RStatus | RNotFound | RMoved string

definition server_route :: "string \<Rightarrow> route" where
  "server_route path =
     (if clean_path path \<noteq> path then RMoved (clean_path path)
      else if path = ''/raft'' then RRaft
      else if prefix ''/kv/'' path then RKV
      else if path = ''/members'' \<or> prefix ''/members/'' path then RMembers
      else if path = ''/status'' then RStatus
      else RNotFound)"

text \<open>One request of the main listener; \<open>body\<close> is what reading the body of a raft message gives.\<close>

definition serve ::
  "'m mem_ops \<Rightarrow> ('m, 'r, 'g) raw_ops \<Rightarrow> 'g msg_ops \<Rightarrow> http_req \<Rightarrow> string res \<Rightarrow> u64 \<Rightarrow> ('m, 'r, 'g) Server \<Rightarrow>
   (handler \<times> ('m, 'r, 'g) Server) option" where
  "serve M R G r body now s =
     (case server_route (hr_Path r) of
        RRaft \<Rightarrow> map_option (\<lambda>(resp, s1). (Answer resp, s1)) (handleRaft M R G body s)
      | RKV \<Rightarrow> handleKV M R G r s
      | RMembers \<Rightarrow> handleMembers M R G r now s
      | RStatus \<Rightarrow> Some (Answer (handleStatus R s), s)
      | RNotFound \<Rightarrow> Some (Answer (http_Error ''404 page not found'' 404), s)
      | RMoved p \<Rightarrow> Some (Answer (\<lparr>hp_Code = 301, hp_Location = p, hp_Body = ''''\<rparr>), s))"

datatype chaos_route = CState | CIsolate | CNotFound | CMoved string

definition chaosMux :: "string \<Rightarrow> chaos_route" where
  "chaosMux path =
     (if clean_path path \<noteq> path then CMoved (clean_path path)
      else if path = ''/chaos'' then CState
      else if path = ''/chaos/isolate'' then CIsolate
      else CNotFound)"

definition serve_chaos :: "http_req \<Rightarrow> ('m, 'r, 'g) Server \<Rightarrow> http_resp \<times> ('m, 'r, 'g) Server" where
  "serve_chaos r s =
     (case chaosMux (hr_Path r) of
        CState \<Rightarrow> (handleChaosState r s, s)
      | CIsolate \<Rightarrow> handleChaosIsolate r s
      | CNotFound \<Rightarrow> (http_Error ''404 page not found'' 404, s)
      | CMoved p \<Rightarrow> (\<lparr>hp_Code = 301, hp_Location = p, hp_Body = ''''\<rparr>, s))"

text \<open>
  \<open>startChaosListener\<close> and \<open>Start\<close>: \<open>bind\<close> is the error of \<open>net.Listen\<close>, \<open>ended\<close> the error \<open>ListenAndServe\<close> ends with,
  \<^term>\<open>None\<close> for \<open>ErrServerClosed\<close>.
\<close>

datatype start_error = ChaosAddr chaos_addr_error | ChaosBind string | Serving string

definition startChaosListener :: "(string \<Rightarrow> string option) \<Rightarrow> string \<Rightarrow> start_error option" where
  "startChaosListener bind addr =
     (case checkLoopbackAddr addr of
        Some e \<Rightarrow> Some (ChaosAddr e)
      | None \<Rightarrow> map_option ChaosBind (bind addr))"

definition sv_Start :: "(string \<Rightarrow> string option) \<Rightarrow> string option \<Rightarrow> node_config \<Rightarrow> start_error option" where
  "sv_Start bind ended c =
     (case (if nc_ChaosListen c \<noteq> '''' then startChaosListener bind (nc_ChaosListen c) else None) of
        Some e \<Rightarrow> Some e
      | None \<Rightarrow> map_option Serving ended)"

text \<open>The exit code of the command: \<open>log.Fatalf\<close> on an error of \<open>New\<close> or of \<open>Start\<close>.\<close>

definition node_exit :: "(string \<Rightarrow> string option) \<Rightarrow> string option \<Rightarrow> ('m, 'r, 'g) Server res \<Rightarrow> node_config \<Rightarrow> int" where
  "node_exit bind ended srv c =
     (case srv of Inl _ \<Rightarrow> 1 | Inr _ \<Rightarrow> (case sv_Start bind ended c of Some _ \<Rightarrow> 1 | None \<Rightarrow> 0))"

section \<open>The gate command\<close>

record gate_flags =
  gf_opts :: Options
  gf_timeout :: int

definition gate_defaults :: gate_flags where
  "gate_defaults = \<lparr>gf_opts = \<lparr>op_InventoryPath = '''', op_OutDir = '''', op_ScratchDir = ''.agent-work/multihost-gate'', op_RepoRoot = ''.'',
     op_BuildTags = '''', op_Scenario = ScenarioFull, op_OpsOverride = 0, op_ExpectReject = False\<rparr>, gf_timeout = 15 * 60 * 10 ^ 9\<rparr>"

definition on_opts :: "(Options \<Rightarrow> Options) \<Rightarrow> gate_flags \<Rightarrow> gate_flags" where
  "on_opts f x = x\<lparr>gf_opts := f (gf_opts x)\<rparr>"

text \<open>\<open>dur\<close> is \<open>time.ParseDuration\<close>.\<close>

definition set_gate_flag :: "(string \<Rightarrow> int option) \<Rightarrow> string \<Rightarrow> string \<Rightarrow> gate_flags \<Rightarrow> gate_flags option" where
  "set_gate_flag dur name v x =
     (if name = ''inventory'' then Some (on_opts (\<lambda>o'. o'\<lparr>op_InventoryPath := v\<rparr>) x)
      else if name = ''out'' then Some (on_opts (\<lambda>o'. o'\<lparr>op_OutDir := v\<rparr>) x)
      else if name = ''scratch'' then Some (on_opts (\<lambda>o'. o'\<lparr>op_ScratchDir := v\<rparr>) x)
      else if name = ''repo-root'' then Some (on_opts (\<lambda>o'. o'\<lparr>op_RepoRoot := v\<rparr>) x)
      else if name = ''node-build-tags'' then Some (on_opts (\<lambda>o'. o'\<lparr>op_BuildTags := v\<rparr>) x)
      else if name = ''scenario'' then Some (on_opts (\<lambda>o'. o'\<lparr>op_Scenario := v\<rparr>) x)
      else if name = ''ops'' then map_option (\<lambda>n. on_opts (\<lambda>o'. o'\<lparr>op_OpsOverride := n\<rparr>) x) (flag_int v)
      else if name = ''expect-reject'' then map_option (\<lambda>b. on_opts (\<lambda>o'. o'\<lparr>op_ExpectReject := b\<rparr>) x) (flag_bool v)
      else map_option (\<lambda>d. x\<lparr>gf_timeout := d\<rparr>) (dur v))"

definition gate_flag_set :: "(string \<Rightarrow> int option) \<Rightarrow> gate_flags flag_set" where
  "gate_flag_set dur =
     \<lparr>fs_names = [''inventory'', ''out'', ''scratch'', ''repo-root'', ''node-build-tags'', ''scenario'', ''ops'', ''expect-reject'', ''timeout''],
      fs_bool = (\<lambda>n. n = ''expect-reject''), fs_set = set_gate_flag dur\<rparr>"

definition preflight_flag_set :: "(string \<times> string) flag_set" where
  "preflight_flag_set =
     \<lparr>fs_names = [''inventory'', ''out''], fs_bool = (\<lambda>_. False),
      fs_set = (\<lambda>n v (inventory, out). Some (if n = ''inventory'' then (v, out) else (inventory, v)))\<rparr>"

datatype mh_cmd = MhExit int | MhPreflight string string | MhGate Options int

definition mh_main :: "(string \<Rightarrow> int option) \<Rightarrow> string list \<Rightarrow> mh_cmd" where
  "mh_main dur args =
     (case args of
        prog # mode # rest \<Rightarrow>
          if mode = ''preflight'' then
            (case flag_parse preflight_flag_set rest ('''', '''') of
               Inl e \<Rightarrow> MhExit (flag_exit e)
             | Inr ((inventory, out), _) \<Rightarrow> if inventory = '''' then MhExit exitUsage else MhPreflight inventory out)
          else if mode = ''run'' then
            (case flag_parse (gate_flag_set dur) rest gate_defaults of
               Inl e \<Rightarrow> MhExit (flag_exit e)
             | Inr (x, _) \<Rightarrow>
                 if op_InventoryPath (gf_opts x) = '''' \<or> op_OutDir (gf_opts x) = '''' then MhExit exitUsage
                 else MhGate (gf_opts x) (gf_timeout x))
          else MhExit exitUsage
      | _ \<Rightarrow> MhExit exitUsage)"

end
