(* ===== verification/ClientRequests.thy ===== *)
theory ClientRequests
  imports ClientServer Commands
begin

text \<open>
  The requests of one write, from the URL the traffic client builds (\<open>internal/multihost/traffic.go\<close>) through
  \<open>net/http\<close> and the routes of the server to the command that is proposed.
\<close>

section \<open>From the URL to the path\<close>

text \<open>Percent-decoding, as \<open>net/url\<close> does it for a path.\<close>

fun unescape :: "string \<Rightarrow> string option" where
  "unescape [] = Some []"
| "unescape (c # s) =
     (if c = CHR ''%'' then
        (case s of
           a # b # t \<Rightarrow>
             (case (hex_val a, hex_val b) of
                (Some x, Some y) \<Rightarrow> map_option (\<lambda>u. char_of (16 * x + y) # u) (unescape t)
              | _ \<Rightarrow> None)
         | _ \<Rightarrow> None)
      else map_option (\<lambda>u. c # u) (unescape s))"

text \<open>
  \<open>r.URL.Path\<close> at the server of a request for a URL: the fragment and the query are cut off, the authority ends at
  the first slash, and an empty path is sent as a slash.  The nodes speak plain \<open>http\<close>.
\<close>

definition url_path :: "string \<Rightarrow> string option" where
  "url_path u =
     (if prefix ''http://'' u then
        let rest = takeWhile (\<lambda>c. c \<noteq> CHR ''?'') (takeWhile (\<lambda>c. c \<noteq> CHR ''#'') (drop 7 u));
            p = dropWhile (\<lambda>c. c \<noteq> CHR ''/'') rest
        in (if p = '''' then Some ''/'' else unescape p)
      else None)"

text \<open>The request \<open>r\<close> that a server sees when a client sends \<open>rq\<close>.\<close>

definition delivers :: "http_request \<Rightarrow> http_req \<Rightarrow> bool" where
  "delivers rq r \<longleftrightarrow> hr_Method r = rq_Method rq \<and> hr_Body r = rq_Body rq \<and> url_path (rq_URL rq) = Some (hr_Path r)"

text \<open>
  Base URLs as the inventory has them, a host and a port; keys that need no escaping and are one segment of a path,
  as those of the workload are.
\<close>

definition url_special :: "char \<Rightarrow> bool" where
  "url_special c \<longleftrightarrow> c = CHR ''/'' \<or> c = CHR ''%'' \<or> c = CHR ''?'' \<or> c = CHR ''#''"

definition plain_base :: "string \<Rightarrow> bool" where
  "plain_base e \<longleftrightarrow> prefix ''http://'' e \<and> list_all (\<lambda>c. \<not> url_special c) (drop 7 e)"

definition plain_key :: "string \<Rightarrow> bool" where
  "plain_key key \<longleftrightarrow> key \<noteq> '''' \<and> key \<noteq> ''.'' \<and> key \<noteq> ''..'' \<and> list_all (\<lambda>c. \<not> url_special c) key"

lemma unescape_plain: "CHR ''%'' \<notin> set s \<Longrightarrow> unescape s = Some s"
  by (induction s) auto

lemma takeWhile_whole: "c \<notin> set s \<Longrightarrow> takeWhile (\<lambda>x. x \<noteq> c) s = s"
  by (induction s) auto

lemma dropWhile_first: "c \<notin> set s \<Longrightarrow> dropWhile (\<lambda>x. x \<noteq> c) (s @ c # t) = c # t"
  by (induction s) auto

lemma url_path_request:
  assumes "plain_base e" "plain_key key"
  shows "url_path (e @ ''/kv/'' @ key) = Some (''/kv/'' @ key)"
proof -
  from assms(1) obtain a where e: "e = ''http://'' @ a" and a: "list_all (\<lambda>c. \<not> url_special c) a"
    unfolding plain_base_def by (elim conjE prefixE) simp
  let ?u = "a @ ''/kv/'' @ key"
  have sp: "CHR ''#'' \<notin> set ?u" "CHR ''?'' \<notin> set ?u" "CHR ''/'' \<notin> set a" "CHR ''%'' \<notin> set (''/kv/'' @ key)"
    using a assms(2) by (auto simp: plain_key_def list_all_iff url_special_def)
  have d: "drop 7 (e @ ''/kv/'' @ key) = ?u" "prefix ''http://'' (e @ ''/kv/'' @ key)" by (simp_all add: e)
  have "dropWhile (\<lambda>c. c \<noteq> CHR ''/'') ?u = ''/kv/'' @ key" using dropWhile_first [OF sp(3)] by simp
  then show ?thesis
    unfolding url_path_def d(1) takeWhile_whole [OF sp(1)] takeWhile_whole [OF sp(2)] Let_def
    using d(2) unescape_plain [OF sp(4)] by simp
qed

section \<open>From the path to the command\<close>

lemma route_key:
  assumes "plain_key key"
  shows "server_route (''/kv/'' @ key) = RKV"
proof -
  have k: "CHR ''/'' \<notin> set key" "key \<noteq> ''''" "key \<noteq> ''.''" "key \<noteq> ''..''"
    using assms by (auto simp: plain_key_def list_all_iff url_special_def)
  have "split_char CHR ''/'' (''/kv/'' @ key) = ['''', ''kv'', key]" using split_char_none [OF k(1)] by simp
  moreover have "last (''/kv/'' @ key) \<noteq> CHR ''/''" using k(1,2) by (metis last_appendR last_in_set)
  ultimately have "clean_path (''/kv/'' @ key) = ''/kv/'' @ key" using k(2-4) by (simp add: clean_path_def)
  then show ?thesis unfolding server_route_def by simp
qed

lemma serve_put:
  assumes "plain_key key" "utf8_valid v" "utf8_valid session"
    and "hr_Method r = ''PUT''" "hr_Path r = ''/kv/'' @ key" "hr_Body r = put_body v session reqID"
  shows "serve M R G r body now s =
    propose_write M R G r \<lparr>op_Type = OpPut, op_Key = key, op_Val = v, op_ClientID = session, op_ReqID = reqID\<rparr> s"
proof -
  have "trim_prefix (hr_Path r) ''/kv/'' = key" "key \<noteq> ''''" using assms(1,5) by (auto simp: trim_prefix_def plain_key_def)
  then have "handleKV M R G r s = handleWrite M R G r key s" using assms(4) by (simp add: handleKV_def Let_def)
  then show ?thesis
    using route_key [OF assms(1)] write_op_put_body [OF assms(2,3,4,6)] assms(5) by (simp add: serve_def handleWrite_def)
qed

section \<open>From the client to the URL\<close>

text \<open>The redirects of a network lead to base URLs.\<close>

definition plain_redirects :: "attempt_env \<Rightarrow> bool" where
  "plain_redirects env \<longleftrightarrow>
     (\<forall>i rq sc loc b. ae_Do env i rq = Reply sc loc b \<longrightarrow> contains_str loc ''/kv/'' \<longrightarrow> plain_base (leaderFromLocation loc))"

definition plain_client :: "trafficClient \<Rightarrow> bool" where
  "plain_client c \<longleftrightarrow> list_all plain_base (tc_endpoints c) \<and> (tc_leader c = '''' \<or> plain_base (tc_leader c))"

lemma sent_Inr: "sent rq x = Inr (out, c, rqs) \<longleftrightarrow> (\<exists>rqs'. x = Inr (out, c, rqs') \<and> rqs = rq # rqs')"
  by (cases x) (auto simp: sent_def)

lemma tc_base_plain: "plain_client c \<Longrightarrow> tc_base k c = Inr e \<Longrightarrow> plain_base e"
  by (auto simp: plain_client_def tc_base_def list_all_iff split: if_splits)

lemma put_loop_plain:
  assumes "plain_redirects env"
  shows "plain_client c \<Longrightarrow> put_loop env key v body n i out c = Inr (out', c', rqs) \<Longrightarrow> rq \<in> set rqs \<Longrightarrow>
    \<exists>e. plain_base e \<and> rq = put_request e key body"
proof (induction n arbitrary: i out c rqs)
  case (Suc n)
  from Suc.prems(2) obtain e where e: "tc_base (ae_Intn env i) c = Inr e" by (auto split: sum.splits)
  have p: "plain_base e" by (rule tc_base_plain [OF Suc.prems(1) e])
  have c0: "plain_client (c\<lparr>tc_leader := ''''\<rparr>)" using Suc.prems(1) by (simp add: plain_client_def)
  have c1: "plain_client (c\<lparr>tc_leader := leaderFromLocation loc\<rparr>)"
    if "ae_Do env i (put_request e key body) = Reply sc loc b" "contains_str loc ''/kv/''" for sc loc b
  proof -
    from assms that have "plain_base (leaderFromLocation loc)" unfolding plain_redirects_def by blast
    then show ?thesis using Suc.prems(1) by (simp add: plain_client_def)
  qed
  show ?case
  proof (cases "rq = put_request e key body")
    case False
    with Suc.prems(2,3) e show ?thesis
      by (auto simp: Let_def sent_Inr split: option.splits http_reply.splits if_splits prod.splits
          dest: Suc.IH [OF c0] Suc.IH [OF c1])
  qed (use p in blast)
qed simp

lemma tc_put_plain:
  assumes "plain_redirects env" "list_all plain_base endpoints"
    and "tc_put env key v session reqID (newTrafficClient endpoints) = Inr (out, c, rqs)" "rq \<in> set rqs"
  shows "\<exists>e. plain_base e \<and> rq = put_request e key (put_body v session reqID)"
  using put_loop_plain [OF assms(1) _ assms(3) [unfolded tc_put_def] assms(4)] assms(2)
  by (simp add: plain_client_def newTrafficClient_def)

text \<open>The keys of the workload are plain.\<close>

lemma worker_key_plain: "plain_key (worker_key i reqID)"
proof -
  have no: "\<not> is_digit c" if "url_special c" for c using that by (auto simp: url_special_def is_digit_def)
  have "list_all is_digit (dec_of_nat i)" "list_all is_digit (pad_left 6 CHR ''0'' (format_uint reqID))"
    using format_uint_digits [of reqID] by (simp_all add: dec_of_nat_digits pad_left_digits)
  then have "list_all (\<lambda>c. \<not> url_special c) (dec_of_nat i)" "list_all (\<lambda>c. \<not> url_special c) (pad_left 6 CHR ''0'' (format_uint reqID))"
    using no by (auto simp: list_all_iff)
  then show ?thesis by (simp add: plain_key_def worker_key_def url_special_def)
qed

section \<open>Properties\<close>

text \<open>
  C25: all requests that a client sends for one write ask for one command.  The client has base URLs of hosts as
  endpoints and is redirected to such URLs only, and the key is one plain segment of a path, as the keys of the workload
  are.  Then the call returns, and each request it sent goes to the path of the key below one of those URLs; whatever
  node receives such a request, its routes and handlers take from it, from its path and its body, the put of that key
  and that value with the session and the request number of the client, and propose exactly that; and the state
  machine applies any number of copies of that command as one.
\<close>

theorem retries_are_one_command:
  assumes "endpoints \<noteq> []" "list_all plain_base endpoints" "plain_redirects env" "plain_key key"
    and "utf8_valid v" "utf8_valid session" "session \<noteq> ''''"
  shows "\<exists>out c rqs op. tc_put env key v session reqID (newTrafficClient endpoints) = Inr (out, c, rqs) \<and>
    op = \<lparr>op_Type = OpPut, op_Key = key, op_Val = v, op_ClientID = session, op_ReqID = reqID\<rparr> \<and>
    (\<forall>rq \<in> set rqs. url_path (rq_URL rq) = Some (''/kv/'' @ key) \<and>
      (\<forall>r body now s. delivers rq r \<longrightarrow> serve M R G r body now s = propose_write M R G r op s)) \<and>
    (\<forall>m n. fst (apply_log m (replicate (Suc n) op)) = fst (Apply m op))"
proof -
  define op where "op = \<lparr>op_Type = OpPut, op_Key = key, op_Val = v, op_ClientID = session, op_ReqID = reqID\<rparr>"
  have e: "tc_endpoints (newTrafficClient endpoints) \<noteq> []" using assms(1) by (simp add: newTrafficClient_def)
  obtain out c rqs where r: "tc_put env key v session reqID (newTrafficClient endpoints) = Inr (out, c, rqs)"
    by (rule tc_put_total [OF e])
  have q: "url_path (rq_URL rq) = Some (''/kv/'' @ key) \<and>
      (\<forall>r body now s. delivers rq r \<longrightarrow> serve M R G r body now s = propose_write M R G r op s)" if "rq \<in> set rqs" for rq
  proof -
    from tc_put_plain [OF assms(3,2) r that] obtain e where e: "plain_base e" "rq = put_request e key (put_body v session reqID)" by blast
    then have u: "url_path (rq_URL rq) = Some (''/kv/'' @ key)" using url_path_request [OF e(1) assms(4)] by (simp add: put_request_def)
    have "serve M R G r body now s = propose_write M R G r op s" if "delivers rq r" for r body now s
      unfolding op_def by (rule serve_put [OF assms(4-6)]) (use that u e(2) in \<open>simp_all add: delivers_def put_request_def\<close>)
    with u show ?thesis by blast
  qed
  have a: "\<forall>m n. fst (apply_log m (replicate (Suc n) op)) = fst (Apply m op)"
    using apply_log_retries [of op] assms(7) by (simp add: op_def Let_def split_beta)
  show ?thesis by (rule exI, rule exI, rule exI, rule exI, intro conjI ballI, rule r, rule op_def) (use q a in blast)+
qed

section \<open>Witness\<close>

definition wit_put_req :: http_req where
  "wit_put_req = \<lparr>hr_Method = ''PUT'', hr_Path = ''/kv/mh-w0-000001'', hr_URI = ''/kv/mh-w0-000001'', hr_Query = (\<lambda>_. ''''),
     hr_Body = put_body ''v'' ''s'' 1\<rparr>"

lemma wit_net_plain: "plain_redirects wit_net"
proof -
  have "plain_base (leaderFromLocation ''http://b/kv/x'')" "\<not> contains_str '''' ''/kv/''" by code_simp+
  then show ?thesis by (auto simp: plain_redirects_def wit_net_def split: if_splits)
qed

lemma wit_put_sent:
  "map_sum id (\<lambda>(out, c, rqs). map rq_URL rqs) (tc_put wit_net ''mh-w0-000001'' ''v'' ''s'' 1 (newTrafficClient [''http://a''])) =
     Inr [''http://a/kv/mh-w0-000001'', ''http://b/kv/mh-w0-000001'']"
  "list_all (\<lambda>rq. delivers rq wit_put_req)
     (case tc_put wit_net ''mh-w0-000001'' ''v'' ''s'' 1 (newTrafficClient [''http://a'']) of Inr (_, _, rqs) \<Rightarrow> rqs | Inl _ \<Rightarrow> [])"
  by code_simp+

theorem retries_are_one_command_witness:
  "\<exists>out c rqs. tc_put wit_net ''mh-w0-000001'' ''v'' ''s'' 1 (newTrafficClient [''http://a'']) = Inr (out, c, rqs) \<and>
     map rq_URL rqs = [''http://a/kv/mh-w0-000001'', ''http://b/kv/mh-w0-000001''] \<and> delivers (rqs ! 1) wit_put_req \<and>
     serve ref_mem script_node wit_msgs wit_put_req (Inr '''') 0 wit_server =
       propose_write ref_mem script_node wit_msgs wit_put_req
         \<lparr>op_Type = OpPut, op_Key = ''mh-w0-000001'', op_Val = ''v'', op_ClientID = ''s'', op_ReqID = 1\<rparr> wit_server"
proof -
  have h: "list_all plain_base [''http://a'']" "plain_key ''mh-w0-000001''" "utf8_valid ''v''" "utf8_valid ''s''" by code_simp+
  from retries_are_one_command [OF _ h(1) wit_net_plain h(2-4), of 1 ref_mem script_node wit_msgs]
  obtain out c rqs where t: "tc_put wit_net ''mh-w0-000001'' ''v'' ''s'' 1 (newTrafficClient [''http://a'']) = Inr (out, c, rqs)"
    "\<forall>rq \<in> set rqs. \<forall>r body now s. delivers rq r \<longrightarrow> serve ref_mem script_node wit_msgs r body now s =
       propose_write ref_mem script_node wit_msgs r
         \<lparr>op_Type = OpPut, op_Key = ''mh-w0-000001'', op_Val = ''v'', op_ClientID = ''s'', op_ReqID = 1\<rparr> s"
    by auto
  have u: "map rq_URL rqs = [''http://a/kv/mh-w0-000001'', ''http://b/kv/mh-w0-000001'']" using wit_put_sent(1) t(1) by simp
  then have m: "rqs ! 1 \<in> set rqs" by (metis One_nat_def length_Cons length_map lessI list.size(3) nth_mem)
  then have d: "delivers (rqs ! 1) wit_put_req" using wit_put_sent(2) t(1) by (simp add: list_all_iff)
  show ?thesis by (intro exI conjI) (rule t(1), rule u, rule d, rule t(2) [rule_format, OF m d])
qed

end
