(* ===== verification/Simulation.thy ===== *)
theory Simulation
  imports Complex_Main Engine Check "HOL-Library.Product_Lexorder"
begin

text \<open>
  \<open>internal/sim/sim.go\<close> and \<open>client.go\<close>: the deterministic simulator of a cluster.  A simulated process is
  an engine on its directory; the network is a queue of messages with delivery times; clients run one
  operation at a time and record it.

  The random generator is a parameter \<open>Z\<close> on a state \<open>'z\<close>: \<open>Intn\<close> (and \<open>Int63n\<close>) and
  \<open>Float64\<close>, whose values are rationals.  Callbacks of the engine are numbers; the table \<open>cl_cbs\<close> has the closure of
  each.  The engine only reports that it called them, and they run after \<open>HandleReady\<close>, in the same order:
  none of them changes an engine, and reads are called last, when the state machine has its final
  value.  \<^term>\<open>None\<close> stands for a nil dereference or for a loop of \<open>drainReady\<close> that does not end.
\<close>

section \<open>State\<close>

definition electionPatience :: int where "electionPatience = 25"
definition defaultOpTimeout :: int where "defaultOpTimeout = 60"

record 'z rng_ops =
  rg_Intn :: "'z \<Rightarrow> nat \<Rightarrow> nat \<times> 'z"
  rg_Float64 :: "'z \<Rightarrow> rat \<times> 'z"

record 'g sim_msg =
  gm_To :: "'g \<Rightarrow> u64"
  gm_Type :: "'g \<Rightarrow> int"
  gm_Index :: "'g \<Rightarrow> u64"
  gm_Term :: "'g \<Rightarrow> u64"

definition MsgSnap :: int where "MsgSnap = 7"

record NetConfig =
  DropProb :: rat
  DupProb :: rat
  MinDelay :: int
  MaxDelay :: int

definition DefaultNet :: NetConfig where
  "DefaultNet = \<lparr>DropProb = 0, DupProb = 0, MinDelay = 1, MaxDelay = 3\<rparr>"

record SimConfig =
  sm_NumNodes :: nat
  sm_Net :: NetConfig
  sm_SnapshotThreshold :: u64
  sm_SnapshotTrailing :: u64

record 'g net_event =
  ev_at :: int
  ev_seq :: u64
  ev_from :: u64
  ev_msg :: 'g

text \<open>A node: its engine while it is alive, its directory otherwise.\<close>

record ('m, 'r) Node =
  nd_Eng :: "('m, 'r) Engine option"
  nd_Dir :: "'m DiskStorage"
  nd_Alive :: bool

record ClientConfig =
  cc_NumOps :: int
  cc_Keys :: "string list"
  cc_GetFrac :: rat
  cc_DelFrac :: rat
  cc_OpTimeout :: int

record pendingOp =
  po_recID :: int
  po_op :: Op
  po_isRead :: bool
  po_readKey :: string
  po_inflight :: bool
  po_deadline :: int

record Client =
  ct_name :: string
  ct_cfg :: ClientConfig
  ct_opsDone :: int
  ct_reqID :: u64
  ct_gen :: int
  ct_pending :: "pendingOp option"
  ct_target :: u64

datatype callback =
    CbWrite nat int int
  | CbRead nat int u64 string int
  | CbDone nat
  | CbValue nat u64 string

record ('m, 'r, 'g, 'z) Cluster =
  cl_cfg :: SimConfig
  cl_rng :: 'z
  cl_now :: int
  cl_seq :: u64
  cl_inc :: u64
  cl_nodes :: "(u64, ('m, 'r) Node) fmap"
  cl_ids :: "u64 list"
  cl_queue :: "'g net_event list"
  cl_group :: "(u64, int) fmap"
  cl_Recorder :: Recorder
  cl_clients :: "Client list"
  cl_noLeaderSince :: int
  cl_traceHash :: u64
  cl_Delivered :: u64
  cl_Dropped :: u64
  cl_err :: "err option"
  cl_cbs :: "(nat, callback) fmap"
  cl_nextcb :: nat
  cl_flags :: "(nat, string \<times> bool) fmap"

section \<open>Nodes\<close>

definition startNode ::
  "'m mem_ops \<Rightarrow> ('m, 'r, 'g) raw_ops \<Rightarrow> 'm DiskStorage \<Rightarrow> u64 \<Rightarrow> u64 list \<Rightarrow> ('m, 'r, 'g, 'z) Cluster \<Rightarrow>
   err option \<times> ('m, 'r, 'g, 'z) Cluster" where
  "startNode M R d0 i bootstrap c =
     (let c1 = c\<lparr>cl_inc := cl_inc c + 1\<rparr>;
          dir = (case fmlookup (cl_nodes c) i of None \<Rightarrow> d0
             | Some n \<Rightarrow> (case nd_Eng n of None \<Rightarrow> nd_Dir n | Some e \<Rightarrow> st e))
      in case New M R \<lparr>cfg_ID = i, cfg_SnapshotThreshold = sm_SnapshotThreshold (cl_cfg c),
                cfg_SnapshotTrailing = sm_SnapshotTrailing (cl_cfg c), cfg_BootstrapPeers = bootstrap,
                cfg_OnConfChange = False, cfg_Incarnation = cl_inc c1\<rparr> dir of
           Inl e \<Rightarrow> (Some e, c1)
         | Inr eng \<Rightarrow>
             (None, c1\<lparr>cl_ids := (if fmlookup (cl_nodes c) i = None then sort (cl_ids c @ [i]) else cl_ids c),
               cl_nodes := fmupd i \<lparr>nd_Eng = Some eng, nd_Dir = dir, nd_Alive = True\<rparr> (cl_nodes c)\<rparr>))"

fun start_all ::
  "'m mem_ops \<Rightarrow> ('m, 'r, 'g) raw_ops \<Rightarrow> 'm DiskStorage \<Rightarrow> u64 list \<Rightarrow> u64 list \<Rightarrow> ('m, 'r, 'g, 'z) Cluster \<Rightarrow> ('m, 'r, 'g, 'z) Cluster res" where
  "start_all M R d0 ps [] c = Inr c"
| "start_all M R d0 ps (i # is) c =
     (case startNode M R d0 i ps c of (Some e, _) \<Rightarrow> Inl e | (None, c1) \<Rightarrow> start_all M R d0 ps is c1)"

definition sim_defaults :: "SimConfig \<Rightarrow> SimConfig" where
  "sim_defaults cf =
     (let mn = (if MinDelay (sm_Net cf) < 1 then 1 else MinDelay (sm_Net cf));
          mx = (if MaxDelay (sm_Net cf) < mn then mn else MaxDelay (sm_Net cf))
      in cf\<lparr>sm_Net := (sm_Net cf)\<lparr>MinDelay := mn, MaxDelay := mx\<rparr>,
           sm_SnapshotThreshold := (if sm_SnapshotThreshold cf = 0 then 100 else sm_SnapshotThreshold cf),
           sm_SnapshotTrailing := (if sm_SnapshotTrailing cf = 0 then 8 else sm_SnapshotTrailing cf)\<rparr>)"

definition NewCluster ::
  "'m mem_ops \<Rightarrow> ('m, 'r, 'g) raw_ops \<Rightarrow> 'm DiskStorage \<Rightarrow> SimConfig \<Rightarrow> 'z \<Rightarrow> ('m, 'r, 'g, 'z) Cluster res" where
  "NewCluster M R d0 cf seed =
     (let ids = map of_nat [1..<Suc (sm_NumNodes cf)] in
      start_all M R d0 ids ids
        \<lparr>cl_cfg = sim_defaults cf, cl_rng = seed, cl_now = 0, cl_seq = 0, cl_inc = 0, cl_nodes = fmempty, cl_ids = [], cl_queue = [],
         cl_group = fmempty, cl_Recorder = NewRecorder, cl_clients = [], cl_noLeaderSince = 0, cl_traceHash = fnv64a '''',
         cl_Delivered = 0, cl_Dropped = 0, cl_err = None, cl_cbs = fmempty, cl_nextcb = 0, cl_flags = fmempty\<rparr>)"

definition AddNodeProcess ::
  "'m mem_ops \<Rightarrow> ('m, 'r, 'g) raw_ops \<Rightarrow> 'm DiskStorage \<Rightarrow> u64 \<Rightarrow> ('m, 'r, 'g, 'z) Cluster \<Rightarrow> err option \<times> ('m, 'r, 'g, 'z) Cluster" where
  "AddNodeProcess M R d0 i c = startNode M R d0 i [] c"

definition Crash :: "u64 \<Rightarrow> ('m, 'r, 'g, 'z) Cluster \<Rightarrow> ('m, 'r, 'g, 'z) Cluster option" where
  "Crash i c =
     (case fmlookup (cl_nodes c) i of
        None \<Rightarrow> None
      | Some n \<Rightarrow>
          (case nd_Eng n of
             None \<Rightarrow> None
           | Some e \<Rightarrow> Some (c\<lparr>cl_nodes := fmupd i \<lparr>nd_Eng = None, nd_Dir = st (snd (eng_Close e)), nd_Alive = False\<rparr> (cl_nodes c)\<rparr>)))"

definition Restart ::
  "'m mem_ops \<Rightarrow> ('m, 'r, 'g) raw_ops \<Rightarrow> 'm DiskStorage \<Rightarrow> u64 \<Rightarrow> ('m, 'r, 'g, 'z) Cluster \<Rightarrow>
   (err option \<times> ('m, 'r, 'g, 'z) Cluster) option" where
  "Restart M R d0 i c =
     (case fmlookup (cl_nodes c) i of
        None \<Rightarrow> None
      | Some n \<Rightarrow> if nd_Alive n then Some (Some (ErrMsg ''node is alive''), c) else Some (startNode M R d0 i [] c))"

fun group_all :: "int \<Rightarrow> u64 list list \<Rightarrow> (u64, int) fmap \<Rightarrow> (u64, int) fmap" where
  "group_all gi [] g = g"
| "group_all gi (ids # gs) g = group_all (gi + 1) gs (fold (\<lambda>i. fmupd i gi) ids g)"

definition sim_Partition :: "u64 list list \<Rightarrow> ('m, 'r, 'g, 'z) Cluster \<Rightarrow> ('m, 'r, 'g, 'z) Cluster" where
  "sim_Partition groups c = c\<lparr>cl_group := group_all 0 groups fmempty\<rparr>"

definition Heal :: "('m, 'r, 'g, 'z) Cluster \<Rightarrow> ('m, 'r, 'g, 'z) Cluster" where
  "Heal c = c\<lparr>cl_group := fmempty\<rparr>"

definition group_of :: "('m, 'r, 'g, 'z) Cluster \<Rightarrow> u64 \<Rightarrow> int" where
  "group_of c i = (case fmlookup (cl_group c) i of None \<Rightarrow> 0 | Some g \<Rightarrow> g)"

definition connected :: "('m, 'r, 'g, 'z) Cluster \<Rightarrow> u64 \<Rightarrow> u64 \<Rightarrow> bool" where
  "connected c a b \<longleftrightarrow> group_of c a = group_of c b"

text \<open>The engine of a node that is alive.\<close>

definition live :: "('m, 'r, 'g, 'z) Cluster \<Rightarrow> u64 \<Rightarrow> ('m, 'r) Engine option" where
  "live c i = (case fmlookup (cl_nodes c) i of None \<Rightarrow> None | Some n \<Rightarrow> if nd_Alive n then nd_Eng n else None)"

definition set_eng :: "u64 \<Rightarrow> ('m, 'r) Engine \<Rightarrow> ('m, 'r, 'g, 'z) Cluster \<Rightarrow> ('m, 'r, 'g, 'z) Cluster" where
  "set_eng i e c =
     (case fmlookup (cl_nodes c) i of
        None \<Rightarrow> c | Some n \<Rightarrow> c\<lparr>cl_nodes := fmupd i (n\<lparr>nd_Eng := Some e\<rparr>) (cl_nodes c)\<rparr>)"

definition on_live :: "u64 \<Rightarrow> (('m, 'r) Engine \<Rightarrow> ('m, 'r) Engine) \<Rightarrow> ('m, 'r, 'g, 'z) Cluster \<Rightarrow> ('m, 'r, 'g, 'z) Cluster" where
  "on_live i f c = (case live c i of None \<Rightarrow> c | Some e \<Rightarrow> set_eng i (f e) c)"

definition AliveIDs :: "('m, 'r, 'g, 'z) Cluster \<Rightarrow> u64 list" where
  "AliveIDs c = filter (\<lambda>i. case live c i of None \<Rightarrow> False | Some e \<Rightarrow> \<not> removed e) (cl_ids c)"

definition reachesQuorum :: "('m, 'r, 'g) raw_ops \<Rightarrow> ('m, 'r, 'g, 'z) Cluster \<Rightarrow> u64 \<Rightarrow> bool" where
  "reachesQuorum R c i =
     (case live c i of
        None \<Rightarrow> False
      | Some e \<Rightarrow>
          let voters = rn_Voters R (rn e);
              reach = length (filter (\<lambda>v. live c v \<noteq> None \<and> (v = i \<or> connected c i v)) voters)
          in voters \<noteq> [] \<and> reach > length voters div 2)"

definition sim_Leader :: "('m, 'r, 'g) raw_ops \<Rightarrow> ('m, 'r, 'g, 'z) Cluster \<Rightarrow> u64" where
  "sim_Leader R c =
     (case find (\<lambda>i. (case live c i of None \<Rightarrow> False | Some e \<Rightarrow> \<not> removed e \<and> IsLeader R e) \<and> reachesQuorum R c i) (cl_ids c) of
        None \<Rightarrow> 0 | Some i \<Rightarrow> i)"

definition pickAlive :: "'z rng_ops \<Rightarrow> ('m, 'r, 'g, 'z) Cluster \<Rightarrow> u64 \<times> ('m, 'r, 'g, 'z) Cluster" where
  "pickAlive Z c =
     (let alive = AliveIDs c in
      if alive = [] then (0, c)
      else let (k, z) = rg_Intn Z (cl_rng c) (length alive) in (alive ! k, c\<lparr>cl_rng := z\<rparr>))"

section \<open>The network\<close>

definition reportSnap :: "('m, 'r, 'g) raw_ops \<Rightarrow> u64 \<Rightarrow> u64 \<Rightarrow> bool \<Rightarrow> ('m, 'r, 'g, 'z) Cluster \<Rightarrow> ('m, 'r, 'g, 'z) Cluster" where
  "reportSnap R frm to ok c = on_live frm (ReportSnapshot R to ok) c"

definition enqueue_copy :: "'z rng_ops \<Rightarrow> u64 \<Rightarrow> 'g \<Rightarrow> ('m, 'r, 'g, 'z) Cluster \<Rightarrow> ('m, 'r, 'g, 'z) Cluster" where
  "enqueue_copy Z frm msg c =
     (let net = sm_Net (cl_cfg c);
          (delay, z) = (if MaxDelay net > MinDelay net then
              (let (k, z) = rg_Intn Z (cl_rng c) (nat (MaxDelay net - MinDelay net + 1)) in (MinDelay net + int k, z))
            else (MinDelay net, cl_rng c))
      in c\<lparr>cl_rng := z, cl_seq := cl_seq c + 1,
           cl_queue := cl_queue c @ [\<lparr>ev_at = cl_now c + delay, ev_seq = cl_seq c + 1, ev_from = frm, ev_msg = msg\<rparr>]\<rparr>)"

definition enqueue_msg ::
  "('m, 'r, 'g) raw_ops \<Rightarrow> 'z rng_ops \<Rightarrow> 'g sim_msg \<Rightarrow> u64 \<Rightarrow> 'g \<Rightarrow> ('m, 'r, 'g, 'z) Cluster \<Rightarrow> ('m, 'r, 'g, 'z) Cluster" where
  "enqueue_msg R Z G frm msg c =
     (let (x, z) = rg_Float64 Z (cl_rng c);
          c1 = c\<lparr>cl_rng := z\<rparr>
      in if x < DropProb (sm_Net (cl_cfg c)) then
           (let c2 = c1\<lparr>cl_Dropped := cl_Dropped c1 + 1\<rparr> in
            if gm_Type G msg = MsgSnap then reportSnap R frm (gm_To G msg) False c2 else c2)
         else
           (let (y, z2) = rg_Float64 Z z;
                c2 = enqueue_copy Z frm msg (c1\<lparr>cl_rng := z2\<rparr>)
            in if y < DupProb (sm_Net (cl_cfg c)) then enqueue_copy Z frm msg c2 else c2))"

definition sim_enqueue ::
  "('m, 'r, 'g) raw_ops \<Rightarrow> 'z rng_ops \<Rightarrow> 'g sim_msg \<Rightarrow> u64 \<Rightarrow> 'g list \<Rightarrow> ('m, 'r, 'g, 'z) Cluster \<Rightarrow> ('m, 'r, 'g, 'z) Cluster" where
  "sim_enqueue R Z G frm msgs = fold (enqueue_msg R Z G frm) msgs"

fun hex_of_nat :: "nat \<Rightarrow> string" where
  "hex_of_nat n = (if n < 16 then [hex_char n] else hex_of_nat (n div 16) @ [hex_char (n mod 16)])"

declare hex_of_nat.simps [simp del]

definition trace_line :: "'g sim_msg \<Rightarrow> u64 \<Rightarrow> int \<Rightarrow> 'g net_event \<Rightarrow> string" where
  "trace_line G h now ev =
     hex_of_nat (unat h) @ ''|'' @ format_int now @ ''|'' @ format_uint (ev_from ev) @ ''|'' @ format_uint (gm_To G (ev_msg ev)) @ ''|'' @
     format_int (gm_Type G (ev_msg ev)) @ ''|'' @ format_uint (gm_Index G (ev_msg ev)) @ ''|'' @ format_uint (gm_Term G (ev_msg ev))"

definition sim_deliver ::
  "('m, 'r, 'g) raw_ops \<Rightarrow> 'g sim_msg \<Rightarrow> 'g net_event \<Rightarrow> ('m, 'r, 'g, 'z) Cluster \<Rightarrow> ('m, 'r, 'g, 'z) Cluster" where
  "sim_deliver R G ev c =
     (let msg = ev_msg ev; to = gm_To G msg; isSnap = (gm_Type G msg = MsgSnap) in
      case live c to of
        Some e \<Rightarrow>
          if \<not> connected c (ev_from ev) to then
            (let c1 = c\<lparr>cl_Dropped := cl_Dropped c + 1\<rparr> in if isSnap then reportSnap R (ev_from ev) to False c1 else c1)
          else
            (let c1 = c\<lparr>cl_Delivered := cl_Delivered c + 1, cl_traceHash := fnv64a (trace_line G (cl_traceHash c) (cl_now c) ev)\<rparr>;
                 c2 = set_eng to (snd (Step R msg e)) c1
             in if isSnap then reportSnap R (ev_from ev) to True c2 else c2)
      | None \<Rightarrow>
          (let c1 = c\<lparr>cl_Dropped := cl_Dropped c + 1\<rparr> in if isSnap then reportSnap R (ev_from ev) to False c1 else c1))"

definition deliverDue :: "('m, 'r, 'g) raw_ops \<Rightarrow> 'g sim_msg \<Rightarrow> ('m, 'r, 'g, 'z) Cluster \<Rightarrow> ('m, 'r, 'g, 'z) Cluster" where
  "deliverDue R G c =
     (let due = filter (\<lambda>ev. ev_at ev \<le> cl_now c) (cl_queue c);
          future = filter (\<lambda>ev. \<not> ev_at ev \<le> cl_now c) (cl_queue c)
      in fold (sim_deliver R G) (sort_key (\<lambda>ev. (ev_at ev, ev_seq ev)) due) (c\<lparr>cl_queue := future\<rparr>))"

section \<open>Clients\<close>

definition AddClient :: "ClientConfig \<Rightarrow> ('m, 'r, 'g, 'z) Cluster \<Rightarrow> ('m, 'r, 'g, 'z) Cluster" where
  "AddClient cf c =
     (let cf1 = (if cc_OpTimeout cf = 0 then cf\<lparr>cc_OpTimeout := defaultOpTimeout\<rparr> else cf);
          cf2 = (if cc_Keys cf1 = [] then cf1\<lparr>cc_Keys := [''k0'', ''k1'', ''k2'', ''k3'']\<rparr> else cf1)
      in c\<lparr>cl_clients := cl_clients c @
           [\<lparr>ct_name = CHR ''c'' # dec_of_nat (length (cl_clients c)), ct_cfg = cf2, ct_opsDone = 0, ct_reqID = 0, ct_gen = 0,
             ct_pending = None, ct_target = 0\<rparr>]\<rparr>)"

definition client_Done :: "Client \<Rightarrow> bool" where
  "client_Done cl \<longleftrightarrow> ct_pending cl = None \<and> ct_opsDone cl \<ge> cc_NumOps (ct_cfg cl)"

definition set_client :: "nat \<Rightarrow> Client \<Rightarrow> ('m, 'r, 'g, 'z) Cluster \<Rightarrow> ('m, 'r, 'g, 'z) Cluster" where
  "set_client k cl c = c\<lparr>cl_clients := (cl_clients c)[k := cl]\<rparr>"

definition new_pending :: "int \<Rightarrow> Op \<Rightarrow> bool \<Rightarrow> string \<Rightarrow> pendingOp" where
  "new_pending recID op isRead key =
     \<lparr>po_recID = recID, po_op = op, po_isRead = isRead, po_readKey = key, po_inflight = False, po_deadline = 0\<rparr>"

text \<open>The operation a client starts: its kind by one random number, its key by another.\<close>

definition startNextOp :: "'z rng_ops \<Rightarrow> nat \<Rightarrow> ('m, 'r, 'g, 'z) Cluster \<Rightarrow> ('m, 'r, 'g, 'z) Cluster" where
  "startNextOp Z k c =
     (let cl = cl_clients c ! k; cf = ct_cfg cl;
          (j, z1) = rg_Intn Z (cl_rng c) (length (cc_Keys cf));
          key = cc_Keys cf ! j;
          (r, z2) = rg_Float64 Z z1;
          invoke = (\<lambda>inp c. let (i, rc) = Invoke (cl_now c) (int k) inp (cl_Recorder c) in (i, c\<lparr>cl_Recorder := rc\<rparr>))
      in if r < cc_GetFrac cf then
           (let (i, c1) = invoke \<lparr>in_Op = OpGet, in_Key = key, in_Val = ''''\<rparr> (c\<lparr>cl_rng := z2\<rparr>) in
            set_client k (cl\<lparr>ct_gen := ct_gen cl + 1, ct_pending := Some (new_pending i zero_Op True key)\<rparr>) c1)
         else if r < cc_GetFrac cf + cc_DelFrac cf then
           (let req = ct_reqID cl + 1;
                op = \<lparr>op_Type = OpDelete, op_Key = key, op_Val = '''', op_ClientID = ct_name cl, op_ReqID = req\<rparr>;
                (i, c1) = invoke \<lparr>in_Op = OpDelete, in_Key = key, in_Val = ''''\<rparr> (c\<lparr>cl_rng := z2\<rparr>)
            in set_client k (cl\<lparr>ct_reqID := req, ct_gen := ct_gen cl + 1, ct_pending := Some (new_pending i op False '''')\<rparr>) c1)
         else
           (let req = ct_reqID cl + 1;
                val = ct_name cl @ ''.'' @ format_uint req @ '';'';
                (x, z3) = rg_Float64 Z z2;
                typ = (if x < 1 / 2 then OpAppend else OpPut);
                op = \<lparr>op_Type = typ, op_Key = key, op_Val = val, op_ClientID = ct_name cl, op_ReqID = req\<rparr>;
                (i, c1) = invoke \<lparr>in_Op = typ, in_Key = key, in_Val = val\<rparr> (c\<lparr>cl_rng := z3\<rparr>)
            in set_client k (cl\<lparr>ct_reqID := req, ct_gen := ct_gen cl + 1, ct_pending := Some (new_pending i op False '''')\<rparr>) c1))"

definition fresh_cb :: "callback \<Rightarrow> ('m, 'r, 'g, 'z) Cluster \<Rightarrow> nat \<times> ('m, 'r, 'g, 'z) Cluster" where
  "fresh_cb cb c = (cl_nextcb c, c\<lparr>cl_nextcb := cl_nextcb c + 1, cl_cbs := fmupd (cl_nextcb c) cb (cl_cbs c)\<rparr>)"

text \<open>\<open>attempt\<close>: submit the pending operation \<open>p\<close> of client \<open>k\<close>.\<close>

definition attempt :: "('m, 'r, 'g) raw_ops \<Rightarrow> 'z rng_ops \<Rightarrow> nat \<Rightarrow> pendingOp \<Rightarrow> ('m, 'r, 'g, 'z) Cluster \<Rightarrow> ('m, 'r, 'g, 'z) Cluster" where
  "attempt R Z k p c =
     (let cl = cl_clients c ! k;
          keep = (ct_target cl \<noteq> 0 \<and> (case live c (ct_target cl) of None \<Rightarrow> False | Some e \<Rightarrow> \<not> removed e));
          (target, c1) = (if keep then (ct_target cl, c) else pickAlive Z c);
          cl1 = cl\<lparr>ct_target := target\<rparr>;
          c2 = set_client k cl1 c1
      in case (if target = 0 then None else live c2 target) of
           None \<Rightarrow> c2
         | Some e \<Rightarrow>
             let sent = p\<lparr>po_inflight := True, po_deadline := cl_now c2 + cc_OpTimeout (ct_cfg cl)\<rparr> in
             if po_isRead p then
               (let (cb, c3) = fresh_cb (CbRead k (ct_gen cl) target (po_readKey p) (po_recID p)) c2
                in set_client k (cl1\<lparr>ct_pending := Some sent\<rparr>) (set_eng target (ReadIndex R cb e) c3))
             else
               (let (cb, c3) = fresh_cb (CbWrite k (ct_gen cl) (po_recID p)) c2;
                    (r, e1) = Propose R (po_op p) (Some cb) e;
                    c4 = set_eng target e1 c3
                in case r of
                     Inl x \<Rightarrow>
                       set_client k (cl1\<lparr>ct_target := (case x of ErrNotLeader l \<Rightarrow> l | _ \<Rightarrow> 0),
                         ct_pending := Some (p\<lparr>po_inflight := False\<rparr>)\<rparr>) c4
                   | Inr _ \<Rightarrow> set_client k (cl1\<lparr>ct_pending := Some sent\<rparr>) c4))"

definition client_step :: "('m, 'r, 'g) raw_ops \<Rightarrow> 'z rng_ops \<Rightarrow> nat \<Rightarrow> ('m, 'r, 'g, 'z) Cluster \<Rightarrow> ('m, 'r, 'g, 'z) Cluster" where
  "client_step R Z k c =
     (if client_Done (cl_clients c ! k) then c
      else
        let c1 = (if ct_pending (cl_clients c ! k) = None then startNextOp Z k c else c) in
        case ct_pending (cl_clients c1 ! k) of
          None \<Rightarrow> c1
        | Some p \<Rightarrow>
            if po_inflight p then
              (if cl_now c1 < po_deadline p then c1
               else
                 let p1 = p\<lparr>po_inflight := False\<rparr> in
                 attempt R Z k p1 (set_client k ((cl_clients c1 ! k)\<lparr>ct_target := 0, ct_pending := Some p1\<rparr>) c1))
            else attempt R Z k p c1)"

section \<open>Callbacks\<close>

definition finish_client :: "nat \<Rightarrow> int \<Rightarrow> KVOutput \<Rightarrow> ('m, 'r, 'g, 'z) Cluster \<Rightarrow> ('m, 'r, 'g, 'z) Cluster" where
  "finish_client k recID out c =
     (let cl = cl_clients c ! k in
      set_client k (cl\<lparr>ct_pending := None, ct_opsDone := ct_opsDone cl + 1\<rparr>)
        (c\<lparr>cl_Recorder := Return (cl_now c) recID out (cl_Recorder c)\<rparr>))"

definition waits_for :: "nat \<Rightarrow> int \<Rightarrow> ('m, 'r, 'g, 'z) Cluster \<Rightarrow> bool" where
  "waits_for k gen c \<longleftrightarrow> ct_gen (cl_clients c ! k) = gen \<and> ct_pending (cl_clients c ! k) \<noteq> None"

definition run_callback :: "callback \<Rightarrow> Result \<Rightarrow> ('m, 'r, 'g, 'z) Cluster \<Rightarrow> ('m, 'r, 'g, 'z) Cluster" where
  "run_callback cb res c =
     (case cb of
        CbWrite k gen recID \<Rightarrow>
          if waits_for k gen c then
            finish_client k recID \<lparr>out_Val = res_Val res, out_Found = res_OK res, out_Unknown = False\<rparr> c
          else c
      | CbRead k gen target key recID \<Rightarrow>
          if waits_for k gen c then
            (case live c target of
               None \<Rightarrow> c
             | Some e \<Rightarrow>
                 let (v, ok) = Get (eng_sm e) key in
                 finish_client k recID \<lparr>out_Val = v, out_Found = ok, out_Unknown = False\<rparr> c)
          else c
      | CbDone f \<Rightarrow> c\<lparr>cl_flags := fmupd f ('''', False) (cl_flags c)\<rparr>
      | CbValue f i key \<Rightarrow>
          (case (live c i, fmlookup (cl_flags c) f) of
             (Some e, None) \<Rightarrow> c\<lparr>cl_flags := fmupd f (Get (eng_sm e) key) (cl_flags c)\<rparr>
           | _ \<Rightarrow> c))"

definition call_back :: "nat \<Rightarrow> Result \<Rightarrow> ('m, 'r, 'g, 'z) Cluster \<Rightarrow> ('m, 'r, 'g, 'z) Cluster" where
  "call_back n res c = (case fmlookup (cl_cbs c) n of None \<Rightarrow> c | Some cb \<Rightarrow> run_callback cb res c)"

fun sim_event :: "event \<Rightarrow> ('m, 'r, 'g, 'z) Cluster \<Rightarrow> ('m, 'r, 'g, 'z) Cluster" where
  "sim_event (PropDone n res) c = call_back n res c"
| "sim_event (ReadDone n) c = call_back n zero_Result c"
| "sim_event (ConfDone n) c = call_back n zero_Result c"
| "sim_event (ConfApplied cc) c = c"

section \<open>Steps\<close>

definition drain_node ::
  "'m mem_ops \<Rightarrow> ('m, 'r, 'g) raw_ops \<Rightarrow> 'z rng_ops \<Rightarrow> 'g sim_msg \<Rightarrow> u64 \<Rightarrow> bool \<times> ('m, 'r, 'g, 'z) Cluster \<Rightarrow> bool \<times> ('m, 'r, 'g, 'z) Cluster" where
  "drain_node M R Z G i pc =
     (let (progress, c) = pc in
      case live c i of
        None \<Rightarrow> (progress, c)
      | Some e \<Rightarrow>
          if \<not> rn_HasReady R (rn e) (eng_mem e) then (progress, c)
          else
            let (r, e1) = HandleReady M R e;
                c1 = fold sim_event (drop (length (events e)) (events e1)) (set_eng i e1 c)
            in case r of
                 Inl x \<Rightarrow> (True, if cl_err c1 = None then c1\<lparr>cl_err := Some x\<rparr> else c1)
               | Inr msgs \<Rightarrow> (True, sim_enqueue R Z G i msgs c1))"

partial_function (option) drainReady ::
  "'m mem_ops \<Rightarrow> ('m, 'r, 'g) raw_ops \<Rightarrow> 'z rng_ops \<Rightarrow> 'g sim_msg \<Rightarrow> ('m, 'r, 'g, 'z) Cluster \<Rightarrow> ('m, 'r, 'g, 'z) Cluster option" where
  "drainReady M R Z G c =
     (let pc = fold (drain_node M R Z G) (cl_ids c) (False, c) in
      if fst pc then drainReady M R Z G (snd pc) else Some (snd pc))"

declare drainReady.simps [code]

definition superviseElection :: "('m, 'r, 'g) raw_ops \<Rightarrow> 'z rng_ops \<Rightarrow> ('m, 'r, 'g, 'z) Cluster \<Rightarrow> ('m, 'r, 'g, 'z) Cluster" where
  "superviseElection R Z c =
     (if sim_Leader R c \<noteq> 0 then c\<lparr>cl_noLeaderSince := cl_now c\<rparr>
      else if cl_now c - cl_noLeaderSince c < electionPatience then c
      else
        let eligible = filter (reachesQuorum R c) (AliveIDs c) in
        if eligible = [] then c\<lparr>cl_noLeaderSince := cl_now c\<rparr>
        else
          let (k, z) = rg_Intn Z (cl_rng c) (length eligible)
          in (on_live (eligible ! k) (\<lambda>e. snd (Campaign R e)) (c\<lparr>cl_rng := z\<rparr>))\<lparr>cl_noLeaderSince := cl_now c\<rparr>)"

definition sim_Step ::
  "'m mem_ops \<Rightarrow> ('m, 'r, 'g) raw_ops \<Rightarrow> 'z rng_ops \<Rightarrow> 'g sim_msg \<Rightarrow> ('m, 'r, 'g, 'z) Cluster \<Rightarrow> ('m, 'r, 'g, 'z) Cluster option" where
  "sim_Step M R Z G c0 =
     (let c1 = c0\<lparr>cl_now := cl_now c0 + 1\<rparr>;
          c2 = fold (\<lambda>i. on_live i (Tick R)) (cl_ids c1) c1;
          c3 = superviseElection R Z c2;
          c4 = fold (client_step R Z) [0..<length (cl_clients c3)] c3;
          c5 = deliverDue R G c4
      in drainReady M R Z G c5)"

fun sim_Steps ::
  "'m mem_ops \<Rightarrow> ('m, 'r, 'g) raw_ops \<Rightarrow> 'z rng_ops \<Rightarrow> 'g sim_msg \<Rightarrow> nat \<Rightarrow> ('m, 'r, 'g, 'z) Cluster \<Rightarrow> ('m, 'r, 'g, 'z) Cluster option" where
  "sim_Steps M R Z G 0 c = Some c"
| "sim_Steps M R Z G (Suc n) c = Option.bind (sim_Step M R Z G c) (sim_Steps M R Z G n)"

definition Converged :: "('m, 'r, 'g, 'z) Cluster \<Rightarrow> bool" where
  "Converged c =
     (case List.map_filter (live c) (AliveIDs c) of
        [] \<Rightarrow> False
      | e # es \<Rightarrow> list_all (\<lambda>n. appliedIndex n = appliedIndex e \<and> Hash (eng_sm n) = Hash (eng_sm e)) es)"

fun WaitConverged ::
  "'m mem_ops \<Rightarrow> ('m, 'r, 'g) raw_ops \<Rightarrow> 'z rng_ops \<Rightarrow> 'g sim_msg \<Rightarrow> nat \<Rightarrow> ('m, 'r, 'g, 'z) Cluster \<Rightarrow>
   (err option \<times> ('m, 'r, 'g, 'z) Cluster) option" where
  "WaitConverged M R Z G 0 c = Some (Some (ErrMsg ''no convergence''), c)"
| "WaitConverged M R Z G (Suc n) c =
     Option.bind (sim_Step M R Z G c) (\<lambda>c1.
       if cl_err c1 \<noteq> None then Some (cl_err c1, c1)
       else if sim_Leader R c1 \<noteq> 0 \<and> Converged c1 then Some (None, c1)
       else WaitConverged M R Z G n c1)"

text \<open>
  \<open>writeSync\<close> and \<open>ProposeConfChangeSync\<close>: the loop of both, with the proposal as an argument; \<open>f\<close> names the
  flag their callback sets.
\<close>

fun sync_loop ::
  "'m mem_ops \<Rightarrow> ('m, 'r, 'g) raw_ops \<Rightarrow> 'z rng_ops \<Rightarrow> 'g sim_msg \<Rightarrow> (nat \<Rightarrow> ('m, 'r, unit) ecall) \<Rightarrow> nat \<Rightarrow> nat \<Rightarrow> bool \<Rightarrow> int \<Rightarrow>
   ('m, 'r, 'g, 'z) Cluster \<Rightarrow> (err option \<times> ('m, 'r, 'g, 'z) Cluster) option" where
  "sync_loop M R Z G propose f 0 inflight deadline c =
     Some (if fmlookup (cl_flags c) f \<noteq> None then None else Some (ErrMsg ''not applied''), c)"
| "sync_loop M R Z G propose f (Suc n) inflight deadline c =
     (if fmlookup (cl_flags c) f \<noteq> None then Some (None, c)
      else
        let (inflight1, deadline1, c1) =
          (if \<not> inflight \<or> cl_now c \<ge> deadline then
             (case (if sim_Leader R c = 0 then None else live c (sim_Leader R c)) of
                None \<Rightarrow> (inflight, deadline, c)
              | Some e \<Rightarrow>
                  let (cb, c2) = fresh_cb (CbDone f) c; (r, e1) = propose cb e; c3 = set_eng (sim_Leader R c) e1 c2
                  in (case r of Inl _ \<Rightarrow> (inflight, deadline, c3) | Inr _ \<Rightarrow> (True, cl_now c + defaultOpTimeout, c3)))
           else (inflight, deadline, c))
        in Option.bind (sim_Step M R Z G c1) (\<lambda>c4.
             if cl_err c4 \<noteq> None then Some (cl_err c4, c4) else sync_loop M R Z G propose f n inflight1 deadline1 c4))"

definition writeSync ::
  "'m mem_ops \<Rightarrow> ('m, 'r, 'g) raw_ops \<Rightarrow> 'z rng_ops \<Rightarrow> 'g sim_msg \<Rightarrow> Op \<Rightarrow> nat \<Rightarrow> ('m, 'r, 'g, 'z) Cluster \<Rightarrow>
   (err option \<times> ('m, 'r, 'g, 'z) Cluster) option" where
  "writeSync M R Z G op maxSteps c =
     sync_loop M R Z G (\<lambda>cb. Propose R op (Some cb)) (cl_nextcb c) maxSteps False 0 (c\<lparr>cl_nextcb := cl_nextcb c + 1\<rparr>)"

definition PutSync ::
  "'m mem_ops \<Rightarrow> ('m, 'r, 'g) raw_ops \<Rightarrow> 'z rng_ops \<Rightarrow> 'g sim_msg \<Rightarrow> string \<Rightarrow> u64 \<Rightarrow> string \<Rightarrow> string \<Rightarrow> nat \<Rightarrow> ('m, 'r, 'g, 'z) Cluster \<Rightarrow>
   (err option \<times> ('m, 'r, 'g, 'z) Cluster) option" where
  "PutSync M R Z G clientID reqID key val maxSteps c =
     writeSync M R Z G \<lparr>op_Type = OpPut, op_Key = key, op_Val = val, op_ClientID = clientID, op_ReqID = reqID\<rparr> maxSteps c"

definition AppendSync ::
  "'m mem_ops \<Rightarrow> ('m, 'r, 'g) raw_ops \<Rightarrow> 'z rng_ops \<Rightarrow> 'g sim_msg \<Rightarrow> string \<Rightarrow> u64 \<Rightarrow> string \<Rightarrow> string \<Rightarrow> nat \<Rightarrow> ('m, 'r, 'g, 'z) Cluster \<Rightarrow>
   (err option \<times> ('m, 'r, 'g, 'z) Cluster) option" where
  "AppendSync M R Z G clientID reqID key val maxSteps c =
     writeSync M R Z G \<lparr>op_Type = OpAppend, op_Key = key, op_Val = val, op_ClientID = clientID, op_ReqID = reqID\<rparr> maxSteps c"

definition ProposeConfChangeSync ::
  "'m mem_ops \<Rightarrow> ('m, 'r, 'g) raw_ops \<Rightarrow> 'z rng_ops \<Rightarrow> 'g sim_msg \<Rightarrow> ConfChange \<Rightarrow> nat \<Rightarrow> ('m, 'r, 'g, 'z) Cluster \<Rightarrow>
   (err option \<times> ('m, 'r, 'g, 'z) Cluster) option" where
  "ProposeConfChangeSync M R Z G cc maxSteps c =
     sync_loop M R Z G (\<lambda>cb. ProposeConfChange R cc (Some cb)) (cl_nextcb c) maxSteps False 0 (c\<lparr>cl_nextcb := cl_nextcb c + 1\<rparr>)"

fun read_loop ::
  "'m mem_ops \<Rightarrow> ('m, 'r, 'g) raw_ops \<Rightarrow> 'z rng_ops \<Rightarrow> 'g sim_msg \<Rightarrow> u64 \<Rightarrow> string \<Rightarrow> nat \<Rightarrow> nat \<Rightarrow> bool \<Rightarrow> int \<Rightarrow>
   ('m, 'r, 'g, 'z) Cluster \<Rightarrow> ((string \<times> bool) res \<times> ('m, 'r, 'g, 'z) Cluster) option" where
  "read_loop M R Z G i key f 0 inflight deadline c =
     Some (case fmlookup (cl_flags c) f of Some v \<Rightarrow> Inr v | None \<Rightarrow> Inl (ErrMsg ''timed out''), c)"
| "read_loop M R Z G i key f (Suc n) inflight deadline c =
     (case fmlookup (cl_flags c) f of
        Some v \<Rightarrow> Some (Inr v, c)
      | None \<Rightarrow>
          let (inflight1, deadline1, c1) =
            (case live c i of
               None \<Rightarrow> (inflight, deadline, c)
             | Some e \<Rightarrow>
                 if \<not> inflight \<or> cl_now c \<ge> deadline then
                   (let (cb, c2) = fresh_cb (CbValue f i key) c
                    in (True, cl_now c + defaultOpTimeout, set_eng i (ReadIndex R cb e) c2))
                 else (inflight, deadline, c))
          in Option.bind (sim_Step M R Z G c1) (\<lambda>c3.
               case cl_err c3 of Some x \<Rightarrow> Some (Inl x, c3) | None \<Rightarrow> read_loop M R Z G i key f n inflight1 deadline1 c3))"

definition ReadSync ::
  "'m mem_ops \<Rightarrow> ('m, 'r, 'g) raw_ops \<Rightarrow> 'z rng_ops \<Rightarrow> 'g sim_msg \<Rightarrow> u64 \<Rightarrow> string \<Rightarrow> nat \<Rightarrow> ('m, 'r, 'g, 'z) Cluster \<Rightarrow>
   ((string \<times> bool) res \<times> ('m, 'r, 'g, 'z) Cluster) option" where
  "ReadSync M R Z G i key maxSteps c =
     read_loop M R Z G i key (cl_nextcb c) maxSteps False 0 (c\<lparr>cl_nextcb := cl_nextcb c + 1\<rparr>)"

end
