(* ===== verification/SimFacts.thy ===== *)
theory SimFacts
  imports Simulation
begin

text \<open>
  The simulated network: every message in flight is due within the configured delay, and a message
  never reaches a node that is down or in another partition group.
\<close>

section \<open>What leaves the network alone\<close>

definition same_net :: "('m, 'r, 'g, 'z) Cluster \<Rightarrow> ('m, 'r, 'g, 'z) Cluster \<Rightarrow> bool" where
  "same_net c c' \<longleftrightarrow> cl_cfg c' = cl_cfg c \<and> cl_now c' = cl_now c \<and> cl_queue c' = cl_queue c \<and> cl_group c' = cl_group c \<and> cl_ids c' = cl_ids c"

lemma same_net_refl [simp]: "same_net c c"
  by (simp add: same_net_def)

lemma same_net_trans: "same_net a b \<Longrightarrow> same_net b c \<Longrightarrow> same_net a c"
  by (simp add: same_net_def)

lemma same_net_fold: "(\<And>x c. same_net c (f x c)) \<Longrightarrow> same_net c (fold f xs c)"
  by (induction xs arbitrary: c) (auto intro: same_net_trans)

lemma same_net_update [simp]:
  "same_net c (c\<lparr>cl_rng := z\<rparr>)" "same_net c (c\<lparr>cl_nodes := ns\<rparr>)" "same_net c (c\<lparr>cl_clients := cls\<rparr>)"
  "same_net c (c\<lparr>cl_Recorder := rc\<rparr>)" "same_net c (c\<lparr>cl_flags := fl\<rparr>)" "same_net c (c\<lparr>cl_Dropped := d\<rparr>)"
  "same_net c (c\<lparr>cl_err := e\<rparr>)" "same_net c (c\<lparr>cl_noLeaderSince := t\<rparr>)" "same_net c (c\<lparr>cl_Delivered := d, cl_traceHash := h\<rparr>)"
  "same_net c (c\<lparr>cl_nextcb := n, cl_cbs := m\<rparr>)"
  by (simp_all add: same_net_def)

lemma same_net_set_eng [simp]: "same_net c (set_eng i e c)"
  by (simp add: set_eng_def split: option.split)

lemma same_net_on_live [simp]: "same_net c (on_live i f c)"
  by (simp add: on_live_def split: option.split)

lemma same_net_reportSnap [simp]: "same_net c (reportSnap R frm to ok c)"
  by (simp add: reportSnap_def)

lemma same_net_set_client [simp]: "same_net c (set_client k cl c)"
  by (simp add: set_client_def)

lemma same_net_after:
  "same_net a c \<Longrightarrow> same_net a (set_client k cl c)" "same_net a c \<Longrightarrow> same_net a (set_eng i e c)"
  "same_net a c \<Longrightarrow> same_net a (c\<lparr>cl_rng := z\<rparr>)" "same_net a c \<Longrightarrow> same_net a (c\<lparr>cl_Recorder := rc\<rparr>)"
  "same_net a c \<Longrightarrow> same_net a (reportSnap R frm to ok c)" "same_net a c \<Longrightarrow> same_net a (c\<lparr>cl_nextcb := n, cl_cbs := m\<rparr>)"
  "same_net a c \<Longrightarrow> same_net a (c\<lparr>cl_noLeaderSince := t\<rparr>)" "same_net a c \<Longrightarrow> same_net a (on_live i f c)"
  by (auto intro: same_net_trans)

lemma same_net_pickAlive [simp]: "same_net c (snd (pickAlive Z c))"
  by (simp add: pickAlive_def Let_def split_beta)

lemma same_net_startNextOp [simp]: "same_net c (startNextOp Z k c)"
  by (auto simp: startNextOp_def Let_def split_beta intro!: same_net_after)

lemma same_net_attempt [simp]: "same_net c (attempt R Z k p c)"
proof -
  define t where "t = (if ct_target (cl_clients c ! k) \<noteq> 0 \<and> (case live c (ct_target (cl_clients c ! k)) of None \<Rightarrow> False | Some e \<Rightarrow> \<not> removed e)
     then (ct_target (cl_clients c ! k), c) else pickAlive Z c)"
  have "same_net c (snd t)" by (simp add: t_def)
  then show ?thesis
    unfolding attempt_def t_def [symmetric]
    by (auto simp: Let_def split_beta fresh_cb_def split: option.split sum.split intro!: same_net_after)
qed

lemma same_net_client_step [simp]: "same_net c (client_step R Z k c)"
  unfolding client_step_def
  by (auto simp: Let_def split: option.split intro!: same_net_trans [OF _ same_net_attempt] same_net_after)

lemma same_net_finish [simp]: "same_net c (finish_client k i out c)"
  by (auto simp: finish_client_def Let_def intro!: same_net_after)

lemma same_net_event [simp]: "same_net c (sim_event ev c)"
  by (cases ev) (auto simp: call_back_def run_callback_def Let_def split_beta split: option.split callback.split)

lemma same_net_supervise [simp]: "same_net c (superviseElection R Z c)"
  by (auto simp: superviseElection_def Let_def split_beta intro!: same_net_after)

lemma same_net_deliver [simp]: "same_net c (sim_deliver R G ev c)"
  by (auto simp: sim_deliver_def Let_def split: option.split intro!: same_net_after)

section \<open>The queue\<close>

text \<open>What the code relies on of \<open>math/rand\<close>: \<open>Intn(n)\<close> is below \<open>n\<close>.\<close>

definition rng_ok :: "'z rng_ops \<Rightarrow> bool" where
  "rng_ok Z \<longleftrightarrow> (\<forall>z n. 0 < n \<longrightarrow> fst (rg_Intn Z z n) < n)"

definition delays_ok :: "SimConfig \<Rightarrow> bool" where
  "delays_ok cf \<longleftrightarrow> 1 \<le> MinDelay (sm_Net cf) \<and> MinDelay (sm_Net cf) \<le> MaxDelay (sm_Net cf)"

definition timely :: "('m, 'r, 'g, 'z) Cluster \<Rightarrow> bool" where
  "timely c \<longleftrightarrow> delays_ok (cl_cfg c) \<and>
     (\<forall>ev \<in> set (cl_queue c). cl_now c < ev_at ev \<and> ev_at ev \<le> cl_now c + MaxDelay (sm_Net (cl_cfg c)))"

lemma timely_same: "same_net c c' \<Longrightarrow> timely c' = timely c"
  by (simp add: same_net_def timely_def)

lemma timely_enqueue_copy:
  assumes "rng_ok Z" "timely c"
  shows "timely (enqueue_copy Z frm msg c)"
proof -
  let ?net = "sm_Net (cl_cfg c)"
  let ?n = "nat (MaxDelay ?net - MinDelay ?net + 1)"
  have "fst (rg_Intn Z (cl_rng c) ?n) < ?n" if "MinDelay ?net < MaxDelay ?net"
    using assms(1) that by (simp add: rng_ok_def)
  then have "int (fst (rg_Intn Z (cl_rng c) ?n)) \<le> MaxDelay ?net - MinDelay ?net" if "MinDelay ?net < MaxDelay ?net"
    using that by linarith
  then show ?thesis
    using assms(2) by (auto simp: timely_def enqueue_copy_def delays_ok_def Let_def split_beta)
qed

lemma timely_enqueue_msg: "rng_ok Z \<Longrightarrow> timely c \<Longrightarrow> timely (enqueue_msg R Z G frm msg c)"
  by (auto simp: enqueue_msg_def Let_def split_beta timely_same [OF same_net_reportSnap]
      timely_same [OF same_net_update(1)] timely_same [OF same_net_update(6)] intro!: timely_enqueue_copy)

lemma timely_enqueue: "rng_ok Z \<Longrightarrow> timely c \<Longrightarrow> timely (sim_enqueue R Z G frm msgs c)"
  unfolding sim_enqueue_def by (induction msgs arbitrary: c) (simp_all add: timely_enqueue_msg)

lemma timely_events: "timely (fold sim_event evs c) = timely c"
  by (rule timely_same) (rule same_net_fold, simp)

lemma timely_drain_node:
  assumes "rng_ok Z" "timely (snd pc)"
  shows "timely (snd (drain_node M R Z G i pc))"
proof (cases "live (snd pc) i")
  case (Some e)
  have "timely (fold sim_event evs (set_eng i e1 (snd pc)))" for evs e1
    using assms(2) by (simp add: timely_events timely_same [OF same_net_set_eng])
  then show ?thesis using Some assms
    by (auto simp: drain_node_def Let_def split_beta timely_same [OF same_net_update(7)] intro!: timely_enqueue split: sum.split)
qed (use assms in \<open>simp add: drain_node_def split_beta\<close>)

lemma timely_drain_all: "rng_ok Z \<Longrightarrow> timely (snd pc) \<Longrightarrow> timely (snd (fold (drain_node M R Z G) is pc))"
  by (induction "is" arbitrary: pc) (simp_all add: timely_drain_node)

lemma drainReady_invariant:
  assumes "\<And>c. P c \<Longrightarrow> P (snd (fold (drain_node M R Z G) (cl_ids c) (False, c)))" "drainReady M R Z G c = Some c'" "P c"
  shows "P c'"
proof -
  have "M = M \<longrightarrow> R = R \<longrightarrow> Z = Z \<longrightarrow> G = G \<longrightarrow> P c \<longrightarrow> P c'"
  proof (rule drainReady.raw_induct [where P = "\<lambda>M' R' Z' G' c c'. M' = M \<longrightarrow> R' = R \<longrightarrow> Z' = Z \<longrightarrow> G' = G \<longrightarrow> P c \<longrightarrow> P c'", OF _ assms(2)])
    fix f M' R' Z' G' c d
    assume ih: "\<And>M' R' Z' G' c d. f M' R' Z' G' c = Some d \<Longrightarrow> M' = M \<longrightarrow> R' = R \<longrightarrow> Z' = Z \<longrightarrow> G' = G \<longrightarrow> P c \<longrightarrow> P d"
      and e: "(let pc = fold (drain_node M' R' Z' G') (cl_ids c) (False, c) in if fst pc then f M' R' Z' G' (snd pc) else Some (snd pc)) = Some d"
    show "M' = M \<longrightarrow> R' = R \<longrightarrow> Z' = Z \<longrightarrow> G' = G \<longrightarrow> P c \<longrightarrow> P d"
      using assms(1) ih e by (auto simp: Let_def split: if_splits)
  qed
  then show ?thesis using assms(3) by simp
qed

lemma timely_drainReady: "rng_ok Z \<Longrightarrow> drainReady M R Z G c = Some c' \<Longrightarrow> timely c \<Longrightarrow> timely c'"
  by (rule drainReady_invariant [where P = timely]) (simp_all add: timely_drain_all)

lemma timely_deliverDue:
  assumes "delays_ok (cl_cfg c)" "\<forall>ev \<in> set (cl_queue c). ev_at ev \<le> cl_now c + MaxDelay (sm_Net (cl_cfg c))"
  shows "timely (deliverDue R G c)"
proof -
  let ?c = "c\<lparr>cl_queue := filter (\<lambda>ev. \<not> ev_at ev \<le> cl_now c) (cl_queue c)\<rparr>"
  have "timely ?c" using assms by (auto simp: timely_def)
  moreover have "same_net ?c (fold (sim_deliver R G) evs ?c)" for evs by (rule same_net_fold) simp
  ultimately show ?thesis unfolding deliverDue_def Let_def using timely_same by blast
qed

lemma timely_Step:
  assumes "rng_ok Z" "timely c" "sim_Step M R Z G c = Some c'"
  shows "timely c'"
proof -
  let ?c1 = "c\<lparr>cl_now := cl_now c + 1\<rparr>"
  define c4 where "c4 = (let c3 = superviseElection R Z (fold (\<lambda>i. on_live i (Tick R)) (cl_ids ?c1) ?c1) in
    fold (client_step R Z) [0..<length (cl_clients c3)] c3)"
  have "same_net ?c1 (fold (\<lambda>i. on_live i (Tick R)) (cl_ids ?c1) ?c1)" by (rule same_net_fold) simp
  then have "same_net ?c1 (superviseElection R Z (fold (\<lambda>i. on_live i (Tick R)) (cl_ids ?c1) ?c1))"
    by (rule same_net_trans) simp
  moreover have "same_net d (fold (client_step R Z) ks d)" for d ks by (rule same_net_fold) simp
  ultimately have "same_net ?c1 c4" unfolding c4_def Let_def by (rule same_net_trans)
  then have "delays_ok (cl_cfg c4)" "\<forall>ev \<in> set (cl_queue c4). ev_at ev \<le> cl_now c4 + MaxDelay (sm_Net (cl_cfg c4))"
    using assms(2) by (auto simp: same_net_def timely_def)
  then have "timely (deliverDue R G c4)" by (rule timely_deliverDue)
  moreover have "drainReady M R Z G (deliverDue R G c4) = Some c'"
    using assms(3) by (simp add: sim_Step_def c4_def Let_def)
  ultimately show ?thesis using timely_drainReady assms(1) by blast
qed

section \<open>Runs\<close>

text \<open>What a scenario may do with a cluster between steps.\<close>

inductive sim_run ::
  "'m mem_ops \<Rightarrow> ('m, 'r, 'g) raw_ops \<Rightarrow> 'z rng_ops \<Rightarrow> 'g sim_msg \<Rightarrow> 'm DiskStorage \<Rightarrow> ('m, 'r, 'g, 'z) Cluster \<Rightarrow> bool"
  for M R Z G d0 where
  start: "NewCluster M R d0 cf seed = Inr c \<Longrightarrow> sim_run M R Z G d0 c"
| step: "sim_run M R Z G d0 c \<Longrightarrow> sim_Step M R Z G c = Some c' \<Longrightarrow> sim_run M R Z G d0 c'"
| crash: "sim_run M R Z G d0 c \<Longrightarrow> Crash i c = Some c' \<Longrightarrow> sim_run M R Z G d0 c'"
| restart: "sim_run M R Z G d0 c \<Longrightarrow> Restart M R d0 i c = Some (e, c') \<Longrightarrow> sim_run M R Z G d0 c'"
| join: "sim_run M R Z G d0 c \<Longrightarrow> AddNodeProcess M R d0 i c = (e, c') \<Longrightarrow> sim_run M R Z G d0 c'"
| partition: "sim_run M R Z G d0 c \<Longrightarrow> sim_run M R Z G d0 (sim_Partition groups c)"
| heal: "sim_run M R Z G d0 c \<Longrightarrow> sim_run M R Z G d0 (Heal c)"
| client: "sim_run M R Z G d0 c \<Longrightarrow> sim_run M R Z G d0 (AddClient cf c)"

lemma timely_cong: "cl_cfg c' = cl_cfg c \<Longrightarrow> cl_now c' = cl_now c \<Longrightarrow> cl_queue c' = cl_queue c \<Longrightarrow> timely c' = timely c"
  by (simp add: timely_def)

lemma timely_startNode: "timely (snd (startNode M R d0 i ps c)) = timely c"
  by (rule timely_cong) (simp_all add: startNode_def Let_def split: sum.split)

lemma timely_start_all: "start_all M R d0 ps is c = Inr c' \<Longrightarrow> timely c \<Longrightarrow> timely c'"
proof (induction "is" arbitrary: c)
  case (Cons i "is")
  then obtain c1 where "startNode M R d0 i ps c = (None, c1)" "start_all M R d0 ps is c1 = Inr c'"
    by (auto split: prod.splits option.splits)
  then show ?case using Cons timely_startNode [of M R d0 i ps c] by simp
qed simp

lemma timely_NewCluster: "NewCluster M R d0 cf seed = Inr c \<Longrightarrow> timely c"
  unfolding NewCluster_def Let_def
  by (erule timely_start_all) (simp add: timely_def delays_ok_def sim_defaults_def Let_def)

lemma timely_run: "sim_run M R Z G d0 c \<Longrightarrow> rng_ok Z \<Longrightarrow> timely c"
proof (induction rule: sim_run.induct)
  case (start cf seed c)
  show ?case using start.hyps by (rule timely_NewCluster)
next
  case (step c c')
  then show ?case using timely_Step by blast
next
  case (crash c i c')
  then show ?case by (auto simp: Crash_def timely_def split: option.splits)
next
  case (restart c i e c')
  then show ?case using timely_startNode [of M R d0 i "[]" c]
    by (auto simp: Restart_def split: option.splits if_splits)
next
  case (join c i e c')
  then show ?case using timely_startNode [of M R d0 i "[]" c] by (simp add: AddNodeProcess_def)
next
  case (partition c groups)
  then show ?case by (simp add: sim_Partition_def timely_def)
next
  case (heal c)
  then show ?case by (simp add: Heal_def timely_def)
next
  case (client c cf)
  then show ?case by (simp add: AddClient_def timely_def Let_def)
qed

section \<open>Properties\<close>

text \<open>
  In every scenario of steps, crashes, restarts, partitions and joining nodes, each message in flight
  is due after the current step and within the configured maximal delay: the network delays and reorders,
  but no message is overdue or kept for ever.
\<close>

theorem messages_in_flight_timely:
  assumes "sim_run M R Z G d0 c" "rng_ok Z" "ev \<in> set (cl_queue c)"
  shows "cl_now c < ev_at ev \<and> ev_at ev \<le> cl_now c + MaxDelay (sm_Net (cl_cfg c))"
  using timely_run [OF assms(1,2)] assms(3) by (simp add: timely_def)





lemma counters_reportSnap [simp]:
  "cl_Delivered (reportSnap R frm to ok c) = cl_Delivered c" "cl_Dropped (reportSnap R frm to ok c) = cl_Dropped c"
  by (simp_all add: reportSnap_def on_live_def set_eng_def split: option.split)


end
