(* ===== verification/SimExamples.thy ===== *)
theory SimExamples
  imports SimFacts EngineExamples
begin

text \<open>A concrete simulation: one node on the scripted raft node, one client that writes.\<close>

definition wit_rng :: "nat rng_ops" where
  "wit_rng = \<lparr>rg_Intn = (\<lambda>z n. (z mod n, Suc z)), rg_Float64 = (\<lambda>z. (3 / 4, Suc z))\<rparr>"

definition wit_sim_msg :: "string sim_msg" where
  "wit_sim_msg = \<lparr>gm_To = (\<lambda>_. 2), gm_Type = (\<lambda>_. 3), gm_Index = (\<lambda>_. 1), gm_Term = (\<lambda>_. 1)\<rparr>"

definition wit_sim_cfg :: SimConfig where
  "wit_sim_cfg = \<lparr>sm_NumNodes = 1, sm_Net = DefaultNet, sm_SnapshotThreshold = 0, sm_SnapshotTrailing = 0\<rparr>"

definition wit_client :: ClientConfig where
  "wit_client = \<lparr>cc_NumOps = 1, cc_Keys = [], cc_GetFrac = 0, cc_DelFrac = 0, cc_OpTimeout = 0\<rparr>"

abbreviation wit_new :: "(mem_view, script, string, nat) Cluster res" where
  "wit_new \<equiv> NewCluster ref_mem script_node (wit_fresh []) wit_sim_cfg 5"

definition wit_sim0 :: "(mem_view, script, string, nat) Cluster" where
  "wit_sim0 = AddClient wit_client (projr wit_new)"

definition wit_sim1 :: "(mem_view, script, string, nat) Cluster" where
  "wit_sim1 = the (sim_Step ref_mem script_node wit_rng wit_sim_msg wit_sim0)"

lemma wit_rng_ok: "rng_ok wit_rng"
  by (simp add: rng_ok_def wit_rng_def)

lemma wit_sim0_run: "sim_run ref_mem script_node wit_rng wit_sim_msg (wit_fresh []) wit_sim0"
proof -
  have "\<not> isl wit_new" by code_simp
  then have "wit_new = Inr (projr wit_new)" by (simp add: sum.collapse(2))
  then show ?thesis unfolding wit_sim0_def by (intro sim_run.client sim_run.start)
qed

lemma wit_sim1_run: "sim_run ref_mem script_node wit_rng wit_sim_msg (wit_fresh []) wit_sim1"
proof -
  have "sim_Step ref_mem script_node wit_rng wit_sim_msg wit_sim0 \<noteq> None" by code_simp
  then have "sim_Step ref_mem script_node wit_rng wit_sim_msg wit_sim0 = Some wit_sim1" by (auto simp: wit_sim1_def)
  then show ?thesis using sim_run.step [OF wit_sim0_run] by blast
qed

lemma wit_sim1_queue: "map ev_at (cl_queue wit_sim1) \<noteq> []"
  by code_simp

theorem messages_in_flight_timely_witness:
  "cl_queue wit_sim1 \<noteq> [] \<and> cl_now wit_sim1 < ev_at (hd (cl_queue wit_sim1))"
proof -
  have q: "cl_queue wit_sim1 \<noteq> []" using wit_sim1_queue by simp
  then show ?thesis using messages_in_flight_timely [OF wit_sim1_run wit_rng_ok, of "hd (cl_queue wit_sim1)"] by simp
qed


end
