(* ===== verification/DriverServer.thy ===== *)
theory DriverServer
  imports Faults ServerExamples
begin

text \<open>
  What the multi-host driver and a node promise each other: the status a node reports is the status the driver reads,
  and the request with which the driver isolates a node cuts it off from the peers it names.
\<close>

section \<open>Status\<close>

lemma jdecode_jprint_line:
  assumes "jwf (JObj kvs)" "jdepth (JObj kvs) \<le> max_depth"
  shows "jdecode (jprint (JObj kvs) @ [CHR 0x0A]) = Some (jcoerce (JObj kvs))"
proof -
  have "\<forall>kv \<in> set kvs. scans (snd kv)" using assms(1) scans_wf by auto
  then have "jrun (MValue, []) (jprint (JObj kvs)) = (MDone (jcoerce (JObj kvs)), [])"
    using scan_object [of kvs "[]"] assms(2) by simp
  then have "jparse (jprint (JObj kvs) @ [CHR 0x0A]) = Some (jcoerce (JObj kvs))"
    by (simp add: jparse_def jstep_def jfinish_def is_ws_def del: jprint.simps jcoerce.simps)
  then show ?thesis by (rule jdecode_jparse)
qed

lemma Atoi_dec:
  assumes "int n < 2 ^ 63"
  shows "Atoi (dec_of_nat n) = Some (int n)"
proof -
  have d: "dec_of_nat n \<noteq> []" "list_all is_digit (dec_of_nat n)" by (simp_all add: dec_of_nat_digits)
  then have "hd (dec_of_nat n) \<noteq> CHR ''-''" "hd (dec_of_nat n) \<noteq> CHR ''+''"
    by (cases "dec_of_nat n"; auto simp: is_digit_def)+
  then show ?thesis using d assms by (simp add: Atoi_def Let_def)
qed

lemma decode_handleStatus:
  assumes "int (Len (eng_sm (sv_eng s))) < 2 ^ 63"
  shows "decode_status (hp_Body (handleStatus R s)) = Some
    \<lparr>ns_ID = sc_ID (sv_cfg s), ns_Leader = lead (sv_eng s), ns_IsLeader = IsLeader R (sv_eng s), ns_Applied = appliedIndex (sv_eng s),
     ns_Keys = int (Len (eng_sm (sv_eng s)))\<rparr>"
proof -
  define num where "num = (\<lambda>w. JNum (format_uint w))"
  define kvs where "kvs = [(''id'', num (sc_ID (sv_cfg s))), (''leader'', num (lead (sv_eng s))), (''is_leader'', JBool (IsLeader R (sv_eng s))),
        (''applied'', num (appliedIndex (sv_eng s))), (''snap_index'', num (snapIndex (sv_eng s))), (''voters'', JArr (map num (rn_Voters R (rn (sv_eng s))))),
        (''peers'', jmap JStr (peers_by_name (sv_peers s))), (''keys'', JNum (dec_of_nat (Len (eng_sm (sv_eng s)))))]"
  let ?names = "[''id'', ''leader'', ''is_leader'', ''applied'', ''keys'']"
  have names: "coerce ''id'' = ''id''" "coerce ''leader'' = ''leader''" "coerce ''is_leader'' = ''is_leader''" "coerce ''applied'' = ''applied''"
    "coerce ''snap_index'' = ''snap_index''" "coerce ''voters'' = ''voters''" "coerce ''peers'' = ''peers''" "coerce ''keys'' = ''keys''" by code_simp+
  have skip: "match_field ?names ''snap_index'' = None" "match_field ?names ''voters'' = None" "match_field ?names ''peers'' = None" by code_simp+
  have "jdepth (JArr (map num ws)) \<le> 1" for ws by (induction ws) (simp_all add: num_def)
  moreover have "jdepth (jmap JStr (peers_by_name (sv_peers s))) \<le> 9999" using jdepth_jmap [of JStr 0 "peers_by_name (sv_peers s)"] by simp
  ultimately have "jdepth (JObj kvs) \<le> max_depth" "jwf (JObj kvs)"
    by (simp_all add: kvs_def num_def num_lit_dec jwf_jmap max_depth_def max_def)
  then have "jdecode (hp_Body (handleStatus R s)) = Some (jcoerce (JObj kvs))"
    using jdecode_jprint_line [of kvs] by (simp add: handleStatus_def writeJSON_def Let_def kvs_def num_def del: jprint.simps jcoerce.simps)
  then show ?thesis
    by (simp add: decode_status_def get_struct_def kvs_def names skip num_def set_NodeStatus_def zero_NodeStatus_def get_bool_def get_int_def Atoi_dec [OF assms])
qed

text \<open>
  What the driver reads from the status of a node is what the node is: when the status handler answers, the driver
  gets the id of the node, the leader it knows, whether it leads, its applied index and its number of keys.
\<close>

theorem driver_reads_status:
  assumes "w_get W (RaftURL h @ ''/status'') (dv_world t) = (Reply (hp_Code (handleStatus R s)) loc (hp_Body (handleStatus R s)), w')"
    and "int (Len (eng_sm (sv_eng s))) < 2 ^ 63"
  shows "FetchStatus W h t = Some (Inr
    \<lparr>ns_ID = sc_ID (sv_cfg s), ns_Leader = lead (sv_eng s), ns_IsLeader = IsLeader R (sv_eng s), ns_Applied = appliedIndex (sv_eng s),
     ns_Keys = int (Len (eng_sm (sv_eng s)))\<rparr>, t\<lparr>dv_world := w'\<rparr>)"
proof -
  have "hp_Code (handleStatus R s) = 200" by (simp add: handleStatus_def writeJSON_def Let_def)
  then show ?thesis using assms(1) decode_handleStatus [OF assms(2), of R] by (simp add: FetchStatus_simp read_status_def)
qed

section \<open>Isolation\<close>

lemma isolate_body_json:
  "isolate_body peers = jprint (JObj [(''peers'', JArr (map (\<lambda>w. JNum (format_uint w)) peers)), (''drop_inbound'', JBool True), (''drop_outbound'', JBool True)])"
proof -
  have "sep_concat sep ps = join_with sep ps" for sep ps by (induction ps rule: induct_list012) simp_all
  moreover have "quote ''peers'' = dq ''peers''" "quote ''drop_inbound'' = dq ''drop_inbound''" "quote ''drop_outbound'' = dq ''drop_outbound''"
    by code_simp+
  ultimately show ?thesis by (simp add: isolate_body_def comp_def)
qed

lemma handleChaosIsolate_body:
  assumes "hr_Method r = ''POST''" "hr_Body r = isolate_body peers" "peers \<noteq> []"
  shows "snd (handleChaosIsolate r s) = s\<lparr>sv_chaos := isolate peers True True (sv_chaos s)\<rparr>" "hp_Code (fst (handleChaosIsolate r s)) = 200"
proof -
  let ?kvs = "[(''peers'', JArr (map (\<lambda>w. JNum (format_uint w)) peers)), (''drop_inbound'', JBool True), (''drop_outbound'', JBool True)]"
  have names: "coerce ''peers'' = ''peers''" "coerce ''drop_inbound'' = ''drop_inbound''" "coerce ''drop_outbound'' = ''drop_outbound''" by code_simp+
  have "foldr max (map (\<lambda>_. 0) ws) 0 = (0 :: nat)" for ws :: "u64 list" by (induction ws) simp_all
  then have "jdecode (isolate_body peers) = Some (jcoerce (JObj ?kvs))"
    unfolding isolate_body_json by (subst jdecode_jprint) (simp_all add: max_depth_def comp_def)
  then show "snd (handleChaosIsolate r s) = s\<lparr>sv_chaos := isolate peers True True (sv_chaos s)\<rparr>" "hp_Code (fst (handleChaosIsolate r s)) = 200"
    using assms by (simp_all add: handleChaosIsolate_def get_struct_def names set_chaosIsolateReq_def get_bool_ptr_def get_u64_slice_def
        isolate_directions_def writeJSON_def Let_def comp_def)
qed

text \<open>
  C30: the request with which the driver isolates a host of a valid inventory cuts the node off from the two other hosts
  in both directions, and from no one else; the request that clears the isolation lets all messages pass again.
\<close>

theorem driver_cuts_off_node:
  fixes s :: "('m, 'r, 'g) Server"
  assumes "Validate iv = None" "h \<in> set (iv_Hosts iv)" "hr_Method r = ''POST''"
    and "hr_Body r = isolate_body (HostIDs (OtherHosts (iv_Hosts iv) (ho_ID h)))" "hr_Method d = ''DELETE''"
  shows "hp_Code (fst (handleChaosIsolate r s)) = 200 \<and>
    (let s1 = snd (handleChaosIsolate r s); others = ho_ID ` (set (iv_Hosts iv) - {h}) in
     card others = 2 \<and>
     (\<forall>p. allowInbound p (sv_chaos s1) \<longleftrightarrow> allowInbound p (sv_chaos s) \<and> p \<notin> others) \<and>
     (\<forall>p. allowOutbound p (sv_chaos s1) \<longleftrightarrow> allowOutbound p (sv_chaos s) \<and> p \<notin> others) \<and>
     (\<forall>p. allowInbound p (sv_chaos (snd (handleChaosIsolate d s1))) \<and> allowOutbound p (sv_chaos (snd (handleChaosIsolate d s1)))))"
proof -
  let ?hs = "iv_Hosts iv"
  let ?peers = "HostIDs (OtherHosts ?hs (ho_ID h))"
  have ok: "length ?hs = 3" "distinct (map ho_ID ?hs)" "\<forall>k \<in> set ?hs. ho_ID k \<noteq> 0"
    using assms(1) by (auto simp: Validate_unfold check_hosts_iff host_ok_def)
  have inj: "inj_on ho_ID (set ?hs)" "card (set ?hs) = 3" using ok(1,2) distinct_card [of ?hs] by (auto simp: distinct_map)
  then have others: "set ?peers = ho_ID ` (set ?hs - {h})"
    using assms(2) by (auto simp: HostIDs_def OtherHosts_def inj_on_def)
  have "card (ho_ID ` (set ?hs - {h})) = card (set ?hs - {h})" using inj(1) by (intro card_image) (auto simp: inj_on_def)
  then have two: "card (ho_ID ` (set ?hs - {h})) = 2" using inj(2) assms(2) by simp
  then have "?peers \<noteq> []" using others by (metis card.empty list.set(1) zero_neq_numeral)
  note body = handleChaosIsolate_body [OF assms(3,4) this, of s]
  have "snd (handleChaosIsolate d t) = t\<lparr>sv_chaos := chaos_clear (sv_chaos t)\<rparr>" for t :: "('m, 'r, 'g) Server" using assms(5) by (simp add: handleChaosIsolate_def Let_def)
  moreover have "allowInbound p (chaos_clear c) \<and> allowOutbound p (chaos_clear c)" for p c
    by (simp add: chaos_clear_def allowInbound_def allowOutbound_def)
  moreover have "p \<noteq> 0 \<and> p \<in> ho_ID ` (set ?hs - {h}) \<longleftrightarrow> p \<in> ho_ID ` (set ?hs - {h})" for p using ok(3) by auto
  ultimately show ?thesis using body two by (simp add: Let_def isolate_allow others)
qed

section \<open>Witnesses\<close>

text \<open>A world whose status request reaches the server of \<open>ServerExamples\<close>.\<close>

definition wit_node_world :: "unit world" where
  "wit_node_world =
     \<lparr>w_now = (\<lambda>t. (0, t)), w_after = (\<lambda>d t. (False, t)), w_sleep = (\<lambda>d t. t), w_exec = (\<lambda>_ _ _ t. (('''', None), t)),
      w_copyfile = (\<lambda>_ _ t. (None, t)), w_writefile = (\<lambda>_ _ t. (None, t)), w_mkdir = (\<lambda>_ t. (None, t)),
      w_get = (\<lambda>_ t. (Reply (hp_Code (handleStatus script_node wit_server)) '''' (hp_Body (handleStatus script_node wit_server)), t)),
      w_progress = (\<lambda>t. ((0, True), t))\<rparr>"

definition wit_driver :: "unit drv" where
  "wit_driver = \<lparr>dv_world = (), dv_dep = NewDeployment, dv_run = NewFaultRunner\<rparr>"

theorem driver_reads_status_witness:
  "\<exists>st. FetchStatus wit_node_world (wit_host 1 ''127.0.0.1'' 9101 9201) wit_driver = Some (Inr st, wit_driver) \<and>
     ns_ID st = 1 \<and> ns_IsLeader st = IsLeader script_node (sv_eng wit_server)"
proof -
  have "int (Len (eng_sm (sv_eng wit_server))) < 2 ^ 63" by code_simp
  moreover have "w_get wit_node_world (RaftURL (wit_host 1 ''127.0.0.1'' 9101 9201) @ ''/status'') (dv_world wit_driver) =
      (Reply (hp_Code (handleStatus script_node wit_server)) '''' (hp_Body (handleStatus script_node wit_server)), ())"
    by (simp add: wit_node_world_def)
  moreover have "sc_ID (sv_cfg wit_server) = 1" by code_simp
  ultimately show ?thesis
    using driver_reads_status [of wit_node_world "wit_host 1 ''127.0.0.1'' 9101 9201" wit_driver script_node wit_server "''''" "()"] by simp
qed

definition wit_chaos_req :: "string \<Rightarrow> http_req" where
  "wit_chaos_req method = \<lparr>hr_Method = method, hr_Path = ''/chaos/isolate'', hr_URI = ''/chaos/isolate'', hr_Query = (\<lambda>_. ''''),
     hr_Body = isolate_body (HostIDs (OtherHosts (iv_Hosts wit_inventory) 1))\<rparr>"

theorem driver_cuts_off_node_witness:
  "\<not> allowInbound 2 (sv_chaos (snd (handleChaosIsolate (wit_chaos_req ''POST'') wit_server))) \<and>
   allowInbound 1 (sv_chaos (snd (handleChaosIsolate (wit_chaos_req ''POST'') wit_server)))"
proof -
  let ?h = "wit_host 1 ''127.0.0.1'' 9101 9201"
  have h: "?h \<in> set (iv_Hosts wit_inventory)" by (simp add: wit_inventory_def)
  have "hr_Body (wit_chaos_req ''POST'') = isolate_body (HostIDs (OtherHosts (iv_Hosts wit_inventory) (ho_ID ?h)))"
    by (simp add: wit_chaos_req_def wit_host_def)
  note cut = driver_cuts_off_node [OF wit_inventory_valid h _ this, of "wit_chaos_req ''DELETE''" wit_server]
  have "ho_ID ` (set (iv_Hosts wit_inventory) - {?h}) = {2, 3}" by (auto simp: wit_inventory_def wit_host_def)
  moreover have "allowInbound 1 (sv_chaos wit_server)" by code_simp
  ultimately show ?thesis using cut by (simp add: wit_chaos_req_def Let_def)
qed

end
