(* ===== verification/GateFacts.thy ===== *)
theory GateFacts
  imports Gate TrafficFacts
begin

text \<open>
  What a gate that passes has seen: three machines with different identities, a thousand operations, a linearizable
  history, and every acknowledged write read back after the restart.
\<close>

section \<open>Preflight\<close>

text \<open>An action that can only return a value with \<open>Q\<close>.\<close>

definition gives :: "('w, 'a) act \<Rightarrow> ('a \<Rightarrow> bool) \<Rightarrow> bool" where
  "gives m Q \<longleftrightarrow> (\<forall>s x s'. m s = Some (Inr x, s') \<longrightarrow> Q x)"

lemma givesD: "gives m Q \<Longrightarrow> m s = Some (Inr x, s') \<Longrightarrow> Q x"
  by (auto simp: gives_def)

lemma gives_ret: "Q x \<Longrightarrow> gives (ret x) Q"
  by (simp add: gives_def act_simps)

lemma gives_bnd: "gives m P \<Longrightarrow> (\<And>x. P x \<Longrightarrow> gives (f x) Q) \<Longrightarrow> gives (bnd m f) Q"
  unfolding gives_def by (intro allI impI) (erule bnd_cases, simp, blast)

lemma gives_ask: "gives (ask W F C h script f) (\<lambda>p. hf_ID (snd p) = hf_ID f)"
  unfolding ask_def by (rule gives_bnd [where P = "\<lambda>_. True"]) (auto simp: gives_def act_simps split: sum.splits)

lemma gives_ask_bnd:
  "hf_ID f = i \<Longrightarrow> (\<And>a f'. hf_ID f' = i \<Longrightarrow> gives (k a f') Q) \<Longrightarrow> gives (bnd (ask W F C h script f) (\<lambda>(a, f'). k a f')) Q"
  by (rule gives_bnd [OF gives_ask]) auto

lemma gives_identify: "gives (identify W F C h f) (\<lambda>f'. hf_ID f' = hf_ID f)"
  unfolding identify_def
  by (auto split: option.splits intro!: gives_ask_bnd [where i = "hf_ID f"] gives_ret)

lemma gives_collectHostFacts: "gives (collectHostFacts W F C dir h) (\<lambda>f. hf_ID f = ho_ID h)"
  unfolding collectHostFacts_def
  by (intro gives_ask_bnd [where i = "ho_ID h"] gives_bnd [OF gives_identify] gives_ret) (simp_all add: initial_facts_def)

lemma gives_collect_all: "gives (collect_all W F C dir hs) (\<lambda>fs. map hf_ID fs = map ho_ID hs)"
proof (induction hs)
  case (Cons h hs)
  show ?case unfolding collect_all.simps
    by (rule gives_bnd [OF gives_collectHostFacts], rule gives_bnd [OF Cons], rule gives_ret) simp
qed (simp add: gives_ret)

lemma gives_Preflight:
  "gives (Preflight W F C path dir now) (\<lambda>rep. \<exists>facts. rep = preflight_report F C path now facts \<and> map hf_ID facts = map ho_ID (iv_Hosts (dc_Inv C)))"
  unfolding Preflight_def by (rule gives_bnd [OF gives_collect_all], rule gives_ret) blast

section \<open>Verification after the restart\<close>

lemma verify_acked_result:
  assumes "verify_acked E rc w s = Some (Inr (mms, n, w1), s')"
  shows "VerifyAcked (E (dv_world s)) rc PhaseVerify w = Inr (mms, n, False, w1)" "s' = s"
  using assms by (auto simp: verify_acked_def act_simps split: sum.splits prod.splits if_splits)

text \<open>
  The restart comes first: the verification reads in the world the restart left, and what it finds is what the
  runner reports.
\<close>

definition restart_verified ::
  "'w world \<Rightarrow> drv_cfg \<Rightarrow> ('w \<Rightarrow> verify_env) \<Rightarrow> run_cfg \<Rightarrow> Workload \<Rightarrow> 'w drv \<Rightarrow> Mismatch list \<Rightarrow> Workload \<Rightarrow> bool" where
  "restart_verified W C E rc w s0 mms w1 \<longleftrightarrow>
     (\<exists>s1 n. restart_all W C s0 = Some (Inr (), s1) \<and>
       VerifyAcked (E (dv_world s1)) rc PhaseVerify (w\<lparr>wl_Rec := SetPhase PhaseVerify (wl_Rec w)\<rparr>) = Inr (mms, n, False, w1))"

lemma RestartAllAndVerify_result:
  assumes "RestartAllAndVerify W C E rc w s = Some (Inr w1, s')"
  shows "restart_verified W C E rc w s (fr_restartMismatches (dv_run s')) w1"
proof -
  from assms obtain s1 where r: "restart_all W C s = Some (Inr (), s1)"
    and v: "bnd (verify_acked E rc (w\<lparr>wl_Rec := SetPhase PhaseVerify (wl_Rec w)\<rparr>)) (\<lambda>(mismatches, verified, w1).
     bnd (modify_run (\<lambda>f. f\<lparr>fr_restartMismatches := mismatches, fr_restartVerifiedKeys := verified,
            fr_restartVerified := (mismatches = [])\<rparr>)) (\<lambda>_.
     bnd (fr_event W C ''verify_acknowledged_writes'' (format_int verified @ '' acknowledged writes re-read with linearizable reads; '' @
            dec_of_nat (length mismatches) @ '' missing or changed'') 0 [] 0) (\<lambda>_. ret w1))) s1 = Some (Inr w1, s')"
    unfolding RestartAllAndVerify_def by (elim bnd_cases) simp_all
  from v obtain mms n where "verify_acked E rc (w\<lparr>wl_Rec := SetPhase PhaseVerify (wl_Rec w)\<rparr>) s1 = Some (Inr (mms, n, w1), s1)"
      "fr_restartMismatches (dv_run s') = mms"
    by (elim bnd_cases) (auto simp: fr_event_def act_simps Let_def dest: verify_acked_result(2) split: prod.splits elim!: bnd_cases)
  with r show ?thesis unfolding restart_verified_def using verify_acked_result(1) by blast
qed

section \<open>The run\<close>

text \<open>How the result of a run comes about: the faults, then the restart and the verification, then the verdict.\<close>

definition run_outcome ::
  "'w world \<Rightarrow> gate_ops \<Rightarrow> drv_cfg \<Rightarrow> Options \<Rightarrow> InventoryReport \<Rightarrow> Workload \<Rightarrow> ('w \<Rightarrow> verify_env) \<Rightarrow> run_cfg \<Rightarrow> GateResult \<Rightarrow> bool" where
  "run_outcome W G C opts rep w E rc res \<longleftrightarrow>
     (\<exists>w1 f pids arts sa s0.
        res = gate_result (go_check G) (go_elapsed G) (go_stamp G) C opts rep (wl_completed w) w1 f pids\<lparr>gr_Artifacts := arts\<rparr> \<and>
        fr_Run W (pf_txt (go_pre G)) C sa = Some (Inr (), s0) \<and>
        (fp_RestartAllAfter (iv_Faults (dc_Inv C)) \<longrightarrow> restart_verified W C E rc w s0 (fr_restartMismatches f) w1))"

lemma deferred_result: "deferred t m s = Some (Inr x, s') \<Longrightarrow> \<exists>s1. m s = Some (Inr x, s1)"
  unfolding deferred_def attempted_def bnd_def
  by (auto simp: act_simps split: option.splits sum.splits prod.splits Option.bind_splits)

lemma gives_deferred: "gives m Q \<Longrightarrow> gives (deferred t m) Q"
  unfolding gives_def by (intro allI impI) (drule deferred_result, blast)

lemma gives_weaken: "gives m P \<Longrightarrow> (\<And>x. P x \<Longrightarrow> Q x) \<Longrightarrow> gives m Q"
  unfolding gives_def by blast

lemma gives_any: "gives m (\<lambda>_. True)"
  by (simp add: gives_def)

lemma gives_world_step: "gives m Q \<Longrightarrow> gives (bnd n (\<lambda>_. m)) Q"
  by (rule gives_bnd [OF gives_any]) simp

lemma gives_result:
  assumes "fr_Run W (pf_txt (go_pre G)) C sa = Some (Inr (), s0)"
    "fp_RestartAllAfter (iv_Faults (dc_Inv C)) \<longrightarrow> restart_verified W C E rc w s0 (fr_restartMismatches f) w1"
  shows "gives (bnd get_dep (\<lambda>d.
      let res = gate_result (go_check G) (go_elapsed G) (go_stamp G) C opts rep (wl_completed w) w1 f (dp_pids d) in
      bnd (writeArtifacts W (go_json G) (go_dir G) C opts (ir_Mode rep) res (RenderReport (dc_Inv C) res)) (\<lambda>artifacts.
      ret (res\<lparr>gr_Artifacts := artifacts\<rparr>)))) (run_outcome W G C opts rep w E rc)"
  unfolding Let_def
  by (rule gives_bnd [OF gives_any], rule gives_bnd [OF gives_any], rule gives_ret) (use assms in \<open>unfold run_outcome_def, blast\<close>)

lemma verified_result:
  assumes "bnd (if fp_RestartAllAfter (iv_Faults (dc_Inv C)) then RestartAllAndVerify W C E rc w else ret w) (\<lambda>w1. bnd get_run (\<lambda>f. k w1 f)) s = Some (Inr x, s')"
    "\<And>w1 f. fp_RestartAllAfter (iv_Faults (dc_Inv C)) \<longrightarrow> restart_verified W C E rc w s (fr_restartMismatches f) w1 \<Longrightarrow> gives (k w1 f) Q"
  shows "Q x"
proof -
  from assms(1) obtain w1 s1 where 1: "(if fp_RestartAllAfter (iv_Faults (dc_Inv C)) then RestartAllAndVerify W C E rc w else ret w) s = Some (Inr w1, s1)"
      and 2: "bnd get_run (\<lambda>f. k w1 f) s1 = Some (Inr x, s')"
    by (elim bnd_cases) simp_all
  from 2 have "k w1 (dv_run s1) s1 = Some (Inr x, s')" by (simp add: act_simps)
  moreover have "gives (k w1 (dv_run s1)) Q"
    by (rule assms(2)) (use 1 RestartAllAndVerify_result in \<open>auto split: if_splits\<close>)
  ultimately show ?thesis by (rule givesD [rotated])
qed

lemma gives_after_faults:
  assumes "\<And>sa s0. fr_Run W (pf_txt (go_pre G)) C sa = Some (Inr (), s0) \<Longrightarrow> (\<forall>x s'. k s0 = Some (Inr x, s') \<longrightarrow> Q x)"
  shows "gives (bnd (attempted (fr_Run W (pf_txt (go_pre G)) C)) (\<lambda>r. case r of Inl e \<Rightarrow> failed (EWrap ''fault injection'' e) | Inr _ \<Rightarrow> k)) Q"
  unfolding gives_def
proof (intro allI impI)
  fix s x s'
  assume "bnd (attempted (fr_Run W (pf_txt (go_pre G)) C)) (\<lambda>r. case r of Inl e \<Rightarrow> failed (EWrap ''fault injection'' e) | Inr _ \<Rightarrow> k) s = Some (Inr x, s')"
  then obtain s0 where "fr_Run W (pf_txt (go_pre G)) C s = Some (Inr (), s0)" "k s0 = Some (Inr x, s')"
    by (elim bnd_cases) (auto simp: attempted_def act_simps split: sum.splits)
  with assms show "Q x" by blast
qed

lemma gives_gate_body:
  "gives (gate_body W G C opts scaleNote rep traffic E rc) (\<lambda>res. \<exists>w. traffic = Inr w \<and> run_outcome W G C opts rep w E rc res)"
proof (cases traffic)
  case (Inl e)
  then have "gives (failed e) Q" for Q :: "GateResult \<Rightarrow> bool" by (simp add: gives_def act_simps)
  then show ?thesis unfolding gate_body_def by (intro gives_bnd [OF gives_any]) (simp add: Inl)
next
  case (Inr w)
  have "gives (gate_body W G C opts scaleNote rep traffic E rc) (run_outcome W G C opts rep w E rc)"
    unfolding gate_body_def Inr sum.case
    by (rule gives_world_step, rule gives_world_step, rule gives_world_step, rule gives_world_step, rule gives_after_faults, intro allI impI)
      (erule verified_result, rule gives_result)
  then show ?thesis using Inr by simp
qed

lemma gate_Run_result:
  assumes "gate_Run W G C opts scaleNote traffic E rc s = Some (Inr res, s')"
  shows "\<exists>facts w. traffic = Inr w \<and> map hf_ID facts = map ho_ID (iv_Hosts (dc_Inv C)) \<and>
    run_outcome W G C opts (preflight_report (go_pre G) C (op_InventoryPath opts) (go_stamp G) facts) w E rc res"
proof -
  note body = gives_deferred [OF gives_gate_body]
  have "gives (gate_Run W G C opts scaleNote traffic E rc) (\<lambda>res. \<exists>facts w. traffic = Inr w \<and> map hf_ID facts = map ho_ID (iv_Hosts (dc_Inv C)) \<and>
    run_outcome W G C opts (preflight_report (go_pre G) C (op_InventoryPath opts) (go_stamp G) facts) w E rc res)"
    unfolding gate_Run_def
    by (intro gives_world_step, rule gives_bnd [OF gives_Preflight], intro gives_world_step, rule gives_weaken [OF body]) blast
  with assms show ?thesis by (rule givesD [rotated])
qed

section \<open>The verdict\<close>

definition machines_differ :: "HostFacts list \<Rightarrow> bool" where
  "machines_differ facts \<longleftrightarrow> 3 \<le> length facts \<and>
     (\<forall>f \<in> set facts. hf_MachineID f \<noteq> '''' \<and> hf_Hostname f \<noteq> '''' \<and> hf_BootID f \<noteq> '''') \<and>
     distinct (map hf_MachineID facts) \<and> distinct (map hf_Hostname facts) \<and> distinct (map hf_BootID facts)"

lemma preflight_report_distinct:
  assumes "\<forall>xs. set (pf_ord F xs) = set xs"
  shows "ir_DistinctHosts (preflight_report F C path now facts) \<longleftrightarrow> iv_Mode (dc_Inv C) = ModeMultiHost \<and> machines_differ facts"
  using EvaluateDistinct_iff [OF assms, of facts] by (simp add: preflight_report_def machines_differ_def Let_def split_beta) argo

lemma preflight_report_hosts [simp]: "ir_Hosts (preflight_report F C path now facts) = facts"
  by (simp add: preflight_report_def Let_def split: prod.splits)

text \<open>What a passing result holds, criterion by criterion.\<close>

lemma gate_result_passed:
  assumes "gr_Passed (gate_result chk elapsed now C opts rep n w f pids)"
  defines "hist \<equiv> mh_History now (ir_Mode rep) (ir_Boundary rep) (map RaftURL (iv_Hosts (dc_Inv C))) (wl_Rec w)"
  shows "ir_DistinctHosts rep" "1000 \<le> n" "Check chk (PorcupineOps hist) = Ok"
    "\<exists>m. me_LeaderIsolationWriteOutage (fr_measure f hist) = Some m \<and> om_Complete m"
    "fp_RestartAllAfter (iv_Faults (dc_Inv C)) \<Longrightarrow> fr_restartMismatches f = []"
  using assms(1) unfolding hist_def
  by (auto simp: gate_result_def Let_def evaluateCriteria_def allMet_def criterion_def outage_criterion_def fr_Report_def RunCheck_def
      split: option.splits if_splits)

lemma gate_result_fields [simp]:
  "gr_DistinctHosts (gate_result chk elapsed now C opts rep n w f pids) = ir_DistinctHosts rep"
  "gr_Inventory (gate_result chk elapsed now C opts rep n w f pids) = rep"
  "gr_History (gate_result chk elapsed now C opts rep n w f pids) =
     mh_History now (ir_Mode rep) (ir_Boundary rep) (map RaftURL (iv_Hosts (dc_Inv C))) (wl_Rec w)"
  "frp_Measurements (gr_Faults (gate_result chk elapsed now C opts rep n w f pids)) = fr_measure f
     (mh_History now (ir_Mode rep) (ir_Boundary rep) (map RaftURL (iv_Hosts (dc_Inv C))) (wl_Rec w))"
  by (simp_all add: gate_result_def Let_def fr_Report_def)

lemma mh_History_ops: "mh_Ops (mh_History now mode boundary eps r) = Ops r"
  by (simp add: mh_History_def fold_count_op)

text \<open>A negative control that reports a rejection has one of the two reasons the source names.\<close>

lemma gate_result_rejected:
  assumes "gr_NegativeControl (gate_result chk elapsed now C opts rep n w f pids) = Some nc" "nc_Rejected nc"
  defines "hist \<equiv> mh_History now (ir_Mode rep) (ir_Boundary rep) (map RaftURL (iv_Hosts (dc_Inv C))) (wl_Rec w)"
  shows "Check chk (PorcupineOps hist) = Illegal \<or>
    frp_AckedWriteLoss (gr_Faults (gate_result chk elapsed now C opts rep n w f pids)) \<noteq> []"
  using assms(1,2) unfolding hist_def
  by (cases "Check chk (PorcupineOps (mh_History now (ir_Mode rep) (ir_Boundary rep) (map RaftURL (iv_Hosts (dc_Inv C))) (wl_Rec w)))")
    (auto simp: gate_result_def buildNegativeControl_def Let_def RunCheck_def ResultString_def fr_Report_def split: if_splits)

text \<open>What the gate requires of the history, and what a run with a full restart has read back.\<close>

lemma timed_verdict:
  assumes "porcupine chk" "mh_timed h"
  shows "Check chk (PorcupineOps h) = Ok \<Longrightarrow> linearizable (PorcupineOps h)"
    "Check chk (PorcupineOps h) = Illegal \<Longrightarrow> \<not> linearizable (PorcupineOps h)"
proof -
  have "\<forall>op \<in> set (PorcupineOps h). timed op" using PorcupineOps_wf [OF assms(2)] by (auto simp: wf_history_def timed_def)
  note porcupine.Check_verdict [OF assms(1) this]
  then show "Check chk (PorcupineOps h) = Ok \<Longrightarrow> linearizable (PorcupineOps h)"
    "Check chk (PorcupineOps h) = Illegal \<Longrightarrow> \<not> linearizable (PorcupineOps h)" by blast+
qed

lemma restart_verified_clean:
  assumes "restart_verified W C E rc w s0 [] w1"
  shows "\<exists>s1. restart_all W C s0 = Some (Inr (), s1) \<and>
    (\<forall>p \<in> set (aw_All (wl_Acked w)). \<exists>rd \<in> set (mr_ops (wl_Rec w1)). verified_read (E (dv_world s1)) PhaseVerify p rd)"
  using assms VerifyAcked_clean [where w = "w\<lparr>wl_Rec := SetPhase PhaseVerify (wl_Rec w)\<rparr>"] unfolding restart_verified_def by fastforce

text \<open>
  C10: a gate run whose command exits with success has the evidence it claims, whatever the nodes, the network and the
  fault injection did.  Without \<open>-expect-reject\<close>: the inventory was declared multi-host, the preflight described the
  hosts of the inventory and found at least three with machine identities, hostnames and boot ids all present and all
  different, the traffic phase completed at least 1000 operations, the write outage around the isolation of the leader
  was measured on both sides, the recorded history is linearizable provided its timestamps are sane (no operation
  returns before its call or at the end of the clock's range), and when the plan restarts the cluster, then after the
  fault scenario every node was stopped, started from its disk and agreed on a leader, and in the world that restart
  left, a read of the verification phase returned the value of every acknowledged write and stands in that history.
  With \<open>-expect-reject\<close> success means the opposite: the history (with sane timestamps) is not linearizable, or the
  report names acknowledged writes that were lost.
\<close>

theorem gate_passes_only_with_evidence:
  assumes "porcupine (go_check G)" "\<forall>xs. set (pf_ord (go_pre G) xs) = set xs"
    and "gate_Run W G C opts scaleNote traffic E rc s = Some (r, s')" "runGate_exit opts r = exitOK"
  shows "\<exists>res w. r = Inr res \<and> traffic = Inr w \<and>
    (if op_ExpectReject opts then
       (mh_timed (gr_History res) \<longrightarrow> \<not> linearizable (PorcupineOps (gr_History res))) \<or> frp_AckedWriteLoss (gr_Faults res) \<noteq> []
     else
       iv_Mode (dc_Inv C) = ModeMultiHost \<and>
       map hf_ID (ir_Hosts (gr_Inventory res)) = map ho_ID (iv_Hosts (dc_Inv C)) \<and> machines_differ (ir_Hosts (gr_Inventory res)) \<and>
       1000 \<le> wl_completed w \<and>
       (\<exists>m. me_LeaderIsolationWriteOutage (frp_Measurements (gr_Faults res)) = Some m \<and> om_Complete m) \<and>
       (mh_timed (gr_History res) \<longrightarrow> linearizable (PorcupineOps (gr_History res))) \<and>
       (fp_RestartAllAfter (iv_Faults (dc_Inv C)) \<longrightarrow>
         (\<exists>sa s0 s1. fr_Run W (pf_txt (go_pre G)) C sa = Some (Inr (), s0) \<and> restart_all W C s0 = Some (Inr (), s1) \<and>
           (\<forall>p \<in> set (aw_All (wl_Acked w)). \<exists>rd \<in> set (mh_Ops (gr_History res)).
              verified_read (E (dv_world s1)) PhaseVerify p rd))))"
proof -
  obtain res where res: "r = Inr res" "if op_ExpectReject opts then \<exists>nc. gr_NegativeControl res = Some nc \<and> nc_Rejected nc
      else gr_DistinctHosts res \<and> gr_Passed res"
    using assms(4) by (cases r) (auto simp: runGate_exit_def exitOK_def exitFailure_def exitBlocked_def split: if_splits option.splits)
  from gate_Run_result [OF assms(3) [unfolded res(1)]] obtain facts w where w: "traffic = Inr w"
      "map hf_ID facts = map ho_ID (iv_Hosts (dc_Inv C))"
      "run_outcome W G C opts (preflight_report (go_pre G) C (op_InventoryPath opts) (go_stamp G) facts) w E rc res" by blast
  let ?rep = "preflight_report (go_pre G) C (op_InventoryPath opts) (go_stamp G) facts"
  from w(3) obtain w1 f pids arts sa s0 where g: "res = gate_result (go_check G) (go_elapsed G) (go_stamp G) C opts ?rep (wl_completed w) w1 f pids\<lparr>gr_Artifacts := arts\<rparr>"
    and fr: "fr_Run W (pf_txt (go_pre G)) C sa = Some (Inr (), s0)"
    and v: "fp_RestartAllAfter (iv_Faults (dc_Inv C)) \<Longrightarrow> restart_verified W C E rc w s0 (fr_restartMismatches f) w1"
    unfolding run_outcome_def by blast
  let ?gr = "gate_result (go_check G) (go_elapsed G) (go_stamp G) C opts ?rep (wl_completed w) w1 f pids"
  show ?thesis
  proof (cases "op_ExpectReject opts")
    case True
    then obtain nc where "gr_NegativeControl ?gr = Some nc" "nc_Rejected nc" using res(2) g by auto
    from gate_result_rejected [OF this] timed_verdict(2) [OF assms(1)] show ?thesis using True res(1) w(1) g by auto
  next
    case False
    then have "gr_Passed ?gr" using res(2) g by simp
    note p = gate_result_passed [OF this]
    have "mh_timed (gr_History res) \<longrightarrow> linearizable (PorcupineOps (gr_History res))"
      using timed_verdict(1) [OF assms(1)] p(3) g by simp
    moreover have "\<exists>s1. restart_all W C s0 = Some (Inr (), s1) \<and>
        (\<forall>q \<in> set (aw_All (wl_Acked w)). \<exists>rd \<in> set (mh_Ops (gr_History res)). verified_read (E (dv_world s1)) PhaseVerify q rd)"
      if "fp_RestartAllAfter (iv_Faults (dc_Inv C))"
      using restart_verified_clean v [OF that] p(5) [OF that] g by (simp add: mh_History_ops)
    ultimately show ?thesis using False res w p(1,2,4) fr preflight_report_distinct [OF assms(2)] g by auto
  qed
qed

section \<open>The plan of a shortened run\<close>

lemma scale_op_value:
  assumes "0 < v" "v \<le> old" "0 < new" "new * old < 2 ^ 63"
  shows "scale_op old new v = max 1 (v * new div old)"
proof -
  have "v * new \<le> new * old" using assms by (simp add: mult.commute mult_left_mono)
  moreover have "0 \<le> v * new" using assms by simp
  ultimately have "wrap64 (v * new) = v * new" using assms(4) by (intro wrap64_id) auto
  then show ?thesis using assms \<open>0 \<le> v * new\<close>
    by (auto simp: scale_op_def Let_def signed_divide_int_def max_def zero_less_mult_iff)
qed

text \<open>
  Overriding the number of operations keeps the fault plan inside the run and in order: when the four points of the
  plan lie in order within the planned number of operations, the scaled points lie in the same order within the new
  number, and none of them is dropped to zero, which would skip its fault.
\<close>

theorem scaled_plan_in_order:
  assumes "0 < fp_KillLeaderAtOp p" "fp_KillLeaderAtOp p \<le> fp_IsolateFollowerAtOp p" "fp_IsolateFollowerAtOp p \<le> fp_IsolateLeaderAtOp p"
    "fp_IsolateLeaderAtOp p \<le> fp_RestoreAtOp p" "fp_RestoreAtOp p \<le> cp_Ops (iv_Client iv)" "iv_Faults iv = p"
    and "0 < op_OpsOverride opts" "op_OpsOverride opts * cp_Ops (iv_Client iv) < 2 ^ 63" "iv_Mode iv \<in> {ModeMultiHost, ModeLocalDryRun}"
  shows "\<exists>iv' t ex. prepare (Inr iv) opts = Inr (iv', t, ex) \<and> cp_Ops (iv_Client iv') = op_OpsOverride opts \<and>
    (let q = iv_Faults iv' in 1 \<le> fp_KillLeaderAtOp q \<and> fp_KillLeaderAtOp q \<le> fp_IsolateFollowerAtOp q \<and>
       fp_IsolateFollowerAtOp q \<le> fp_IsolateLeaderAtOp q \<and> fp_IsolateLeaderAtOp q \<le> fp_RestoreAtOp q \<and> fp_RestoreAtOp q \<le> op_OpsOverride opts)"
proof -
  let ?old = "cp_Ops (iv_Client iv)" and ?new = "op_OpsOverride opts"
  have pos: "0 < ?old" using assms(1-5) by linarith
  have mono: "v * ?new div ?old \<le> w * ?new div ?old" if "v \<le> w" for v w
    using that assms(7) pos by (intro zdiv_mono1) (auto simp: mult_right_mono)
  have top: "fp_RestoreAtOp p * ?new div ?old \<le> ?new" using mono [OF assms(5)] pos by simp
  note val = scale_op_value [OF _ _ assms(7,8)]
  have f: "1 \<le> scale_op ?old ?new v \<and> scale_op ?old ?new v \<le> scale_op ?old ?new w" if "0 < v" "v \<le> w" "w \<le> ?old" for v w
    using that mono [OF that(2)] by (simp add: val)
  have "scale_op ?old ?new (fp_RestoreAtOp p) \<le> ?new" using top assms(1-5,7) by (simp add: val)
  note scaled = this f [OF assms(1,2)] f [OF _ assms(3)] f [OF _ assms(4,5)]
  obtain ex where ex: "NewExecutor iv' = Inr ex" if "iv_Mode iv' = iv_Mode iv" for iv' using assms(9) by (auto simp: NewExecutor_def ModeLocalDryRun_def ModeMultiHost_def)
  show ?thesis
  proof (cases "?new = ?old")
    case True
    then show ?thesis using assms(1-6) by (simp add: prepare_def ex)
  next
    case False
    then show ?thesis using assms(1-7) pos scaled by (simp add: prepare_def scaleFaultPlan_def Let_def ex)
  qed
qed

definition wit_options :: Options where
  "wit_options = \<lparr>op_InventoryPath = ''inventory.json'', op_OutDir = ''out'', op_ScratchDir = ''scratch'', op_RepoRoot = ''.'', op_BuildTags = [],
     op_Scenario = ScenarioFull, op_OpsOverride = 5, op_ExpectReject = False\<rparr>"

theorem scaled_plan_in_order_witness:
  "\<exists>iv' t ex. prepare (Inr wit_inventory) wit_options = Inr (iv', t, ex) \<and> 1 \<le> fp_KillLeaderAtOp (iv_Faults iv') \<and> fp_RestoreAtOp (iv_Faults iv') \<le> 5"
proof -
  have "op_OpsOverride wit_options * cp_Ops (iv_Client wit_inventory) < 2 ^ 63" "0 < op_OpsOverride wit_options" "op_OpsOverride wit_options = 5"
    "iv_Mode wit_inventory \<in> {ModeMultiHost, ModeLocalDryRun}"
    by (simp_all add: wit_options_def wit_inventory_def)
  with scaled_plan_in_order [of "iv_Faults wit_inventory" wit_inventory wit_options] show ?thesis by (auto simp: wit_inventory_def Let_def)
qed

end
