(* ===== verification/FaultFacts.thy ===== *)
theory FaultFacts
  imports Faults
begin

text \<open>
  Facts on the fault scenarios: the order of the faults in every run, whatever the world does, and what the
  measurements of an outage mean.
\<close>

section \<open>Actions that leave the fault runner alone\<close>

definition quiet :: "('w drv \<Rightarrow> ((drv_error + 'a) \<times> 'w drv) option) \<Rightarrow> bool" where
  "quiet m \<longleftrightarrow> (\<forall>s r s1. m s = Some (r, s1) \<longrightarrow> dv_run s1 = dv_run s)"

named_theorems quiet_intros \<open>actions that do not change the fault runner\<close>

lemma quiet_simple [quiet_intros]: "quiet (ret x)" "quiet (failed e)" "quiet (world f)" "quiet (modify_dep h)" "quiet get_run" "quiet get_dep"
  by (auto simp: quiet_def act_simps)

lemma quiet_bnd [quiet_intros]: "quiet m \<Longrightarrow> (\<And>x. quiet (f x)) \<Longrightarrow> quiet (bnd m f)"
  unfolding quiet_def by (metis bnd_cases)

lemma quiet_attempted [quiet_intros]: "quiet m \<Longrightarrow> quiet (attempted m)"
  by (auto simp: quiet_def attempted_def)

lemma quiet_wrapped [quiet_intros]: "quiet m \<Longrightarrow> quiet (wrapped t m)"
  by (auto simp: quiet_def wrapped_def)

lemma quiet_each [quiet_intros]: "(\<And>h. quiet (f h)) \<Longrightarrow> quiet (each f hs)"
  by (induction hs) (auto intro!: quiet_intros)

lemma quiet_combined [quiet_intros]: "quiet (combined err r)"
  by (auto simp: combined_def intro!: quiet_intros split: prod.split option.split)

lemma quiet_ex_Run [quiet_intros]: "quiet (ex_Run W ex h script)"
  by (auto simp: ex_Run_def intro!: quiet_intros split: Executor.split)

lemma quiet_FetchStatus [quiet_intros]: "quiet (FetchStatus W h)"
  by (auto simp: FetchStatus_def intro!: quiet_intros split: sum.split)

lemma quiet_FindLeader [quiet_intros]: "quiet (FindLeader W hosts)"
proof (induction hosts)
  case (Cons h hs)
  then show ?case unfolding FindLeader.simps
    by (intro quiet_bnd quiet_attempted quiet_FetchStatus) (simp add: quiet_simple split: sum.split)
qed (simp add: quiet_simple)

lemma quiet_poll [quiet_intros]:
  assumes "quiet check"
  shows "quiet (poll W check deadline delay late)"
  unfolding quiet_def
proof (intro allI impI)
  fix s r s1
  assume p: "poll W check deadline delay late s = Some (r, s1)"
  have keeps: "dv_run t1 = dv_run s" if "dv_run t = dv_run s" "check t = Some (q, t1)" for t q t1
    using that assms by (simp add: quiet_def)
  show "dv_run s1 = dv_run s"
    by (rule conjunct1 [OF poll_invariant [where I = "\<lambda>t. dv_run t = dv_run s", OF _ _ p]]) (erule (1) keeps, simp_all)
qed

lemma quiet_since [quiet_intros]: "quiet (since W t)"
  by (auto simp: since_def intro!: quiet_intros)

lemma quiet_WaitLeader [quiet_intros]: "quiet (WaitLeader W hosts i t)"
  by (auto simp: WaitLeader_def new_leader_def intro!: quiet_intros)

lemma quiet_WaitReady [quiet_intros]: "quiet (WaitReady W hosts t)"
proof -
  have "quiet (all_ready W hosts)" by (induction hosts) (auto simp: statusOK_def intro!: quiet_intros)
  then show ?thesis by (auto simp: WaitReady_def intro!: quiet_intros)
qed

lemma quiet_waitAll [quiet_intros]: "quiet (waitAllAgreeOnLeader W C t)"
proof -
  have "quiet (reported_leaders W hosts)" for hosts by (induction hosts) (auto intro!: quiet_intros split: sum.split)
  then show ?thesis by (auto simp: waitAllAgreeOnLeader_def intro!: quiet_intros)
qed

lemma quiet_waitOp [quiet_intros]: "quiet (waitOp W n)"
  unfolding quiet_def
proof (intro allI impI)
  fix s r s1
  assume w: "waitOp W n s = Some (r, s1)"
  have "dv_run (snd (r, s1)) = dv_run s"
  proof (rule waitOp.raw_induct [where P = "\<lambda>_ _ s y. dv_run (snd y) = dv_run s", OF _ w])
    fix f :: "'a world \<Rightarrow> int \<Rightarrow> 'a drv \<Rightarrow> ((drv_error + unit) \<times> 'a drv) option" and W n s y
    assume ih: "\<And>W n s y. f W n s = Some y \<Longrightarrow> dv_run (snd y) = dv_run s"
      and e: "(let p1 = w_progress W (dv_world s) in
      if fst (fst p1) \<ge> n then Some (Inr (), s\<lparr>dv_world := snd p1\<rparr>)
      else let p2 = w_progress W (snd p1) in
      if snd (fst p2) then
        (let p3 = w_progress W (snd p2) in Some (Inl (ETrafficStopped (fst (fst p3)) n), s\<lparr>dv_world := snd p3\<rparr>))
      else let a = w_after W (ms 20) (snd p2) in
      if fst a then Some (Inl ECtx, s\<lparr>dv_world := snd a\<rparr>)
      else f W n (s\<lparr>dv_world := snd a\<rparr>)) = Some y"
    show "dv_run (snd y) = dv_run s" using e ih by (auto simp: Let_def split: if_splits)
  qed
  then show "dv_run s1 = dv_run s" by simp
qed

lemma quiet_node_actions [quiet_intros]:
  "quiet (dp_Kill W C h)" "quiet (dp_Start W C h)" "quiet (fr_isolate W C h ps)" "quiet (clearIsolation W C h)" "quiet (fr_chaosState W text C h)"
  by (auto simp: dp_Kill_def dp_Start_def fr_isolate_def clearIsolation_def fr_chaosState_def intro!: quiet_intros split: option.split)

section \<open>The order of the faults\<close>

text \<open>
  What a run keeps of the names of its events and of the isolated follower: \<open>P\<close> before, \<open>Q\<close> after a result, \<open>E\<close>
  after an error.
\<close>

type_synonym view = "string list \<Rightarrow> u64 \<Rightarrow> bool"

definition seen :: "view \<Rightarrow> FaultRunner \<Rightarrow> bool" where
  "seen P f \<longleftrightarrow> P (map fe_Name (fr_events f)) (fr_isolatedFollowerID f)"

definition during :: "view \<Rightarrow> view \<Rightarrow> ('w drv \<Rightarrow> ((drv_error + 'a) \<times> 'w drv) option) \<Rightarrow> ('a \<Rightarrow> view) \<Rightarrow> bool" where
  "during E P m Q \<longleftrightarrow>
     (\<forall>s r s1. seen P (dv_run s) \<longrightarrow> m s = Some (r, s1) \<longrightarrow> (case r of Inl _ \<Rightarrow> seen E (dv_run s1) | Inr x \<Rightarrow> seen (Q x) (dv_run s1)))"

lemma during_bnd:
  assumes "during E P m Q" "\<And>x. during E (Q x) (f x) R"
  shows "during E P (bnd m f) R"
  unfolding during_def
proof (intro allI impI)
  fix s r s'
  assume s: "seen P (dv_run s)" and b: "bnd m f s = Some (r, s')"
  from b show "case r of Inl _ \<Rightarrow> seen E (dv_run s') | Inr x \<Rightarrow> seen (R x) (dv_run s')"
  proof (cases rule: bnd_cases)
    case (err e)
    then show ?thesis using assms(1) s by (fastforce simp: during_def)
  next
    case (ok x s1)
    then have "seen (Q x) (dv_run s1)" using assms(1) s by (fastforce simp: during_def)
    then show ?thesis using assms(2) ok(2) by (auto simp: during_def)
  qed
qed

lemma during_quiet: "quiet m \<Longrightarrow> (\<And>ns i. P ns i \<Longrightarrow> E ns i) \<Longrightarrow> (\<And>x ns i. P ns i \<Longrightarrow> Q x ns i) \<Longrightarrow> during E P m Q"
  by (auto simp: during_def quiet_def seen_def split: sum.split)

lemma during_modify:
  "(\<And>f. seen P f \<Longrightarrow> seen (Q ()) (g f)) \<Longrightarrow> during E P (modify_run g) Q"
  by (auto simp: during_def act_simps)

lemma during_event:
  "(\<And>t ns i. P ns i \<Longrightarrow> Q t (ns @ [name]) i) \<Longrightarrow> during E P (fr_event W C name detail n ps dur) Q"
  by (auto simp: during_def fr_event_def Let_def act_simps seen_def)

lemma during_pre: "during E P m Q \<Longrightarrow> (\<And>ns i. P' ns i \<Longrightarrow> P ns i) \<Longrightarrow> during E P' m Q"
  by (auto simp: during_def seen_def)

lemma during_post: "during E P m Q \<Longrightarrow> (\<And>x ns i. Q x ns i \<Longrightarrow> Q' x ns i) \<Longrightarrow> during E P m Q'"
  by (fastforce simp: during_def seen_def split: sum.splits)

text \<open>The steps of a scenario that are not about the follower keep what they find.\<close>

definition fault_names :: "string set" where
  "fault_names = {''isolate_follower'', ''clear_follower_isolation'', ''isolate_leader''}"

definition tame :: "view \<Rightarrow> view \<Rightarrow> bool" where
  "tame E P \<longleftrightarrow> (\<forall>ns i. P ns i \<longrightarrow> E ns i) \<and> (\<forall>ns i n. P ns i \<longrightarrow> n \<notin> fault_names \<longrightarrow> P (ns @ [n]) i)"

lemma tame_quiet: "tame E P \<Longrightarrow> quiet m \<Longrightarrow> during E P m (\<lambda>_. P)"
  by (rule during_quiet) (auto simp: tame_def)

lemma tame_event: "tame E P \<Longrightarrow> name \<notin> fault_names \<Longrightarrow> during E P (fr_event W C name detail n ps dur) (\<lambda>_. P)"
  by (rule during_event) (auto simp: tame_def)

lemma tame_modify: "(\<And>f. fr_events (g f) = fr_events f \<and> fr_isolatedFollowerID (g f) = fr_isolatedFollowerID f) \<Longrightarrow> during E P (modify_run g) (\<lambda>_. P)"
  by (rule during_modify) (simp add: seen_def)

lemma during_split: "(\<And>a b. during E P (f a b) Q) \<Longrightarrow> during E P (case p of (a, b) \<Rightarrow> f a b) Q"
  by (simp split: prod.split)

lemma tame_bnd:
  "during E P m (\<lambda>_. P) \<Longrightarrow> (\<And>x. during E P (f x) (\<lambda>_. P)) \<Longrightarrow> during E P (bnd m f) (\<lambda>_. P)"
  by (rule during_bnd)

lemmas tame_steps = tame_bnd during_split tame_event tame_modify tame_quiet [OF _ quiet_simple(1)] tame_quiet [OF _ quiet_wrapped]
  tame_quiet [OF _ quiet_each] tame_quiet [OF _ quiet_node_actions(5)] quiet_intros

lemma not_fault_names [simp]:
  "''kill_leader'' \<notin> fault_names" "''new_leader_elected'' \<notin> fault_names" "''restart_killed_node'' \<notin> fault_names"
  "''cluster_settled'' \<notin> fault_names" "''restore_network'' \<notin> fault_names" "''cluster_healed'' \<notin> fault_names"
  by (simp_all add: fault_names_def)

lemma tame_settled: "tame E P \<Longrightarrow> during E P (settled W C what) (\<lambda>_. P)"
  unfolding settled_def by (intro tame_steps) auto

lemma tame_kill_leader: "tame E P \<Longrightarrow> during E P (kill_leader W C) (\<lambda>_. P)"
  unfolding kill_leader_def Let_def by (intro tame_steps tame_settled) auto

lemma tame_restoreAll: "tame E P \<Longrightarrow> during E P (restoreAll W C) (\<lambda>_. P)"
  unfolding restoreAll_def by (intro tame_steps) auto

text \<open>The property: between isolating a follower and isolating the leader, the follower is reconnected.\<close>

definition follower_back_first :: "string list \<Rightarrow> bool" where
  "follower_back_first ns \<longleftrightarrow>
     (\<forall>i j. i < j \<and> j < length ns \<and> ns ! i = ''isolate_follower'' \<and> ns ! j = ''isolate_leader'' \<longrightarrow>
        (\<exists>k. i < k \<and> k < j \<and> ns ! k = ''clear_follower_isolation''))"

definition all_back :: "string list \<Rightarrow> bool" where
  "all_back ns \<longleftrightarrow>
     (\<forall>i < length ns. ns ! i = ''isolate_follower'' \<longrightarrow> (\<exists>k. i < k \<and> k < length ns \<and> ns ! k = ''clear_follower_isolation''))"

lemma follower_back_first_snoc:
  "follower_back_first ns \<Longrightarrow> (n = ''isolate_leader'' \<Longrightarrow> all_back ns) \<Longrightarrow> follower_back_first (ns @ [n])"
proof -
  assume a: "follower_back_first ns" "n = ''isolate_leader'' \<Longrightarrow> all_back ns"
  have "\<exists>k. i < k \<and> k < j \<and> (ns @ [n]) ! k = ''clear_follower_isolation''"
    if h: "i < j" "j < length (ns @ [n])" "(ns @ [n]) ! i = ''isolate_follower''" "(ns @ [n]) ! j = ''isolate_leader''" for i j
  proof (cases "j < length ns")
    case True
    then obtain k where "i < k" "k < j" "ns ! k = ''clear_follower_isolation''"
      using a(1) h by (auto simp: follower_back_first_def nth_append)
    then show ?thesis using True by (auto simp: nth_append intro!: exI [of _ k])
  next
    case False
    then have j: "j = length ns" "i < length ns" using h by auto
    then have "n = ''isolate_leader''" using h(4) by simp
    then obtain k where "i < k" "k < length ns" "ns ! k = ''clear_follower_isolation''"
      using a(2) h(3) j by (auto simp: all_back_def nth_append)
    then show ?thesis using j by (auto simp: nth_append intro!: exI [of _ k])
  qed
  then show ?thesis by (simp add: follower_back_first_def)
qed

lemma all_back_snoc: "all_back ns \<Longrightarrow> n \<noteq> ''isolate_follower'' \<Longrightarrow> all_back (ns @ [n])"
proof -
  assume a: "all_back ns" "n \<noteq> ''isolate_follower''"
  have "\<exists>k. i < k \<and> k < length (ns @ [n]) \<and> (ns @ [n]) ! k = ''clear_follower_isolation''"
    if h: "i < length (ns @ [n])" "(ns @ [n]) ! i = ''isolate_follower''" for i
  proof -
    have i: "i < length ns" using h a(2) by (cases "i < length ns") (auto simp: nth_append less_Suc_eq)
    then obtain k where "i < k" "k < length ns" "ns ! k = ''clear_follower_isolation''"
      using a(1) h(2) by (auto simp: all_back_def nth_append)
    then show ?thesis by (auto simp: nth_append intro!: exI [of _ k])
  qed
  then show ?thesis by (simp add: all_back_def)
qed

lemma all_back_clear: "all_back (ns @ [''clear_follower_isolation''])"
proof -
  have "i < length ns" if "i < Suc (length ns)" "(ns @ [''clear_follower_isolation'']) ! i = ''isolate_follower''" for i
    using that by (cases "i = length ns") auto
  moreover have "(ns @ [''clear_follower_isolation'']) ! length ns = ''clear_follower_isolation''" by simp
  ultimately show ?thesis unfolding all_back_def by (metis length_append_singleton lessI)
qed

definition ordered :: view where
  "ordered ns i \<longleftrightarrow> follower_back_first ns"

definition reconnected :: view where
  "reconnected ns i \<longleftrightarrow> follower_back_first ns \<and> all_back ns"

definition known :: view where
  "known ns i \<longleftrightarrow> follower_back_first ns \<and> (i = 0 \<longrightarrow> all_back ns)"

lemmas view_defs = ordered_def reconnected_def known_def fault_names_def

lemma tame_views: "tame ordered ordered" "tame ordered reconnected" "tame ordered known"
  by (auto simp: tame_def view_defs intro: follower_back_first_snoc all_back_snoc)

lemma during_isolateLeader: "during ordered reconnected (isolateLeaderFromMajority W text C) (\<lambda>_. reconnected)"
proof -
  have iso: "during ordered reconnected (fr_event W C ''isolate_leader'' d n ps dur) (\<lambda>_. reconnected)" for d n ps dur
    by (rule during_event) (auto simp: view_defs intro: follower_back_first_snoc all_back_snoc)
  show ?thesis unfolding isolateLeaderFromMajority_def Let_def
    by (intro iso tame_steps tame_views) auto
qed

lemma during_clear: "during ordered known (clear_follower W C i) (\<lambda>_. reconnected)"
proof -
  have c1: "during ordered known (fr_event W C ''clear_follower_isolation'' d n ps dur) (\<lambda>_. reconnected)" for d n ps dur
    by (rule during_event) (auto simp: view_defs intro: follower_back_first_snoc all_back_clear)
  have c2: "during ordered known (wrapped t (clearIsolation W C h)) (\<lambda>_. known)" for t h
    by (intro tame_steps tame_views)
  have c3: "during ordered reconnected (bnd (modify_run (\<lambda>f. f\<lparr>fr_clearFollowerNanos := t\<rparr>)) (\<lambda>_. settled W C what)) (\<lambda>_. reconnected)"
    for t what by (intro tame_steps tame_views tame_settled) simp
  show ?thesis unfolding clear_follower_def Let_def by (rule during_bnd [OF c2], rule during_bnd [OF c1], rule c3)
qed

lemma during_isolate_follower:
  assumes "\<forall>h \<in> set (iv_Hosts (dc_Inv C)). ho_ID h \<noteq> 0"
  shows "during ordered reconnected (isolate_follower W text C) (\<lambda>_. known)"
proof -
  have follower: "during ordered known
      (bnd (modify_run (\<lambda>f. f\<lparr>fr_isolatedFollowerID := i\<rparr>)) (\<lambda>_. bnd (fr_chaosState W text C h) (\<lambda>cs.
       bnd (fr_event W C ''isolate_follower'' (d cs) n ps 0) (\<lambda>t. modify_run (\<lambda>f. f\<lparr>fr_isolateFollowerNanos := t\<rparr>))))) (\<lambda>_. known)"
    if "i \<noteq> 0" for i h d n ps
  proof -
    let ?Q = "\<lambda>ns j. follower_back_first ns \<and> j \<noteq> (0 :: u64)"
    have "during ordered known (modify_run (\<lambda>f. f\<lparr>fr_isolatedFollowerID := i\<rparr>)) (\<lambda>_. ?Q)"
      using that by (intro during_modify) (simp add: seen_def known_def)
    moreover have "during ordered ?Q (fr_chaosState W text C h) (\<lambda>_. ?Q)"
      by (rule during_quiet) (auto simp: ordered_def quiet_node_actions)
    moreover have "during ordered ?Q (fr_event W C ''isolate_follower'' (d cs) n ps 0) (\<lambda>_. known)" for cs
      by (rule during_event) (auto simp: known_def intro: follower_back_first_snoc)
    moreover have "during ordered known (modify_run (\<lambda>f. f\<lparr>fr_isolateFollowerNanos := t\<rparr>)) (\<lambda>_. known)" for t
      by (rule tame_modify) simp
    ultimately show ?thesis by (intro during_bnd) blast+
  qed
  have "during ordered known (case OtherHosts (iv_Hosts (dc_Inv C)) (ho_ID leader) of [] \<Rightarrow> failed EPanic
      | follower # _ \<Rightarrow> bnd (wrapped (t follower) (fr_isolate W C follower (ps follower))) (\<lambda>_.
          bnd (modify_run (\<lambda>f. f\<lparr>fr_isolatedFollowerID := ho_ID follower\<rparr>)) (\<lambda>_. bnd (fr_chaosState W text C follower) (\<lambda>cs.
          bnd (fr_event W C ''isolate_follower'' (d follower cs) (ho_ID follower) (ps follower) 0) (\<lambda>t.
            modify_run (\<lambda>f. f\<lparr>fr_isolateFollowerNanos := t\<rparr>)))))) (\<lambda>_. known)" for leader t ps d
  proof (cases "OtherHosts (iv_Hosts (dc_Inv C)) (ho_ID leader)")
    case Nil
    have "during ordered known (failed EPanic) (\<lambda>_. known)"
      by (rule during_quiet) (auto simp: known_def ordered_def intro: quiet_simple)
    with Nil show ?thesis by simp
  next
    case (Cons h hs)
    then have "h \<in> set (iv_Hosts (dc_Inv C))" by (auto simp: OtherHosts_def filter_eq_Cons_iff)
    then have "ho_ID h \<noteq> 0" using assms by blast
    moreover have "during ordered known (wrapped (t h) (fr_isolate W C h (ps h))) (\<lambda>_. known)" by (intro tame_steps tame_views)
    ultimately show ?thesis using Cons follower by (auto intro: during_bnd)
  qed
  moreover have "during ordered known (wrapped t (FindLeader W hosts)) (\<lambda>_. known)" for t hosts by (intro tame_steps tame_views)
  ultimately have "during ordered known (isolate_follower W text C) (\<lambda>_. known)"
    unfolding isolate_follower_def Let_def by (intro during_bnd during_split) auto
  then show ?thesis by (rule during_pre) (simp add: view_defs)
qed

lemma during_at_op:
  assumes "during ordered P step (\<lambda>_. Q)" "\<And>ns i. P ns i \<Longrightarrow> ordered ns i" "\<And>ns i. P ns i \<Longrightarrow> Q ns i"
  shows "during ordered P (at_op W n step) (\<lambda>_. Q)"
proof (cases "n > 0")
  case True
  have "during ordered P (waitOp W n) (\<lambda>_. P)" using assms(2) by (intro during_quiet quiet_intros)
  then show ?thesis using True assms(1) unfolding at_op_def by (auto intro: during_bnd)
next
  case False
  then show ?thesis using assms(2,3) by (auto simp: at_op_def intro!: during_quiet quiet_intros)
qed

lemma during_third:
  "during ordered known
     (bnd get_run (\<lambda>f. bnd (if fr_isolatedFollowerID f \<noteq> 0 then clear_follower W C (fr_isolatedFollowerID f) else ret ()) (\<lambda>_.
        isolateLeaderFromMajority W text C))) (\<lambda>_. reconnected)"
  unfolding during_def
proof (intro allI impI)
  fix s r s'
  assume s: "seen known (dv_run s)" and run: "bnd get_run (\<lambda>f. bnd (if fr_isolatedFollowerID f \<noteq> 0 then clear_follower W C (fr_isolatedFollowerID f)
    else ret ()) (\<lambda>_. isolateLeaderFromMajority W text C)) s = Some (r, s')"
  let ?f = "dv_run s"
  let ?m = "bnd (if fr_isolatedFollowerID ?f \<noteq> 0 then clear_follower W C (fr_isolatedFollowerID ?f) else ret ()) (\<lambda>_. isolateLeaderFromMajority W text C)"
  have r: "?m s = Some (r, s')" using run by (simp add: act_simps)
  show "case r of Inl _ \<Rightarrow> seen ordered (dv_run s') | Inr x \<Rightarrow> seen reconnected (dv_run s')"
  proof (cases "fr_isolatedFollowerID ?f = 0")
    case True
    then have "seen reconnected ?f" using s by (simp add: seen_def known_def reconnected_def)
    moreover have "isolateLeaderFromMajority W text C s = Some (r, s')" using r True by simp
    ultimately show ?thesis using during_isolateLeader unfolding during_def by blast
  next
    case False
    have "during ordered known ?m (\<lambda>_. reconnected)"
      using False by (auto intro: during_bnd [OF during_clear during_isolateLeader])
    then show ?thesis using r s unfolding during_def by blast
  qed
qed

lemma during_runFull:
  assumes "\<forall>h \<in> set (iv_Hosts (dc_Inv C)). ho_ID h \<noteq> 0"
  shows "during ordered reconnected (runFull W text C) (\<lambda>_. ordered)"
proof -
  have "during ordered reconnected (at_op W n (kill_leader W C)) (\<lambda>_. reconnected)" for n
    by (rule during_at_op [OF tame_kill_leader [OF tame_views(2)]]) (simp_all add: view_defs)
  moreover have "during ordered reconnected (at_op W n (isolate_follower W text C)) (\<lambda>_. known)" for n
    by (rule during_at_op [OF during_isolate_follower [OF assms]]) (simp_all add: view_defs)
  moreover have "during ordered known (at_op W n (bnd get_run (\<lambda>f.
      bnd (if fr_isolatedFollowerID f \<noteq> 0 then clear_follower W C (fr_isolatedFollowerID f) else ret ()) (\<lambda>_.
      isolateLeaderFromMajority W text C)))) (\<lambda>_. ordered)" for n
    by (rule during_at_op [OF during_post [OF during_third]]) (simp_all add: view_defs)
  moreover have "during ordered ordered (at_op W n (restoreAll W C)) (\<lambda>_. ordered)" for n
    by (rule during_at_op [OF tame_restoreAll [OF tame_views(1)]])
  ultimately show ?thesis unfolding runFull_def Let_def by (intro during_bnd)
qed

lemma during_runLeaderIsolationOnly: "during ordered reconnected (runLeaderIsolationOnly W text C) (\<lambda>_. reconnected)"
proof -
  have "during ordered reconnected (Note t) (\<lambda>_. reconnected)" for t unfolding Note_def by (rule tame_modify) simp
  moreover have "during ordered reconnected (waitOp W n) (\<lambda>_. reconnected)" for n by (intro tame_quiet tame_views quiet_intros)
  ultimately show ?thesis unfolding runLeaderIsolationOnly_def Let_def
    by (intro tame_bnd during_split during_isolateLeader tame_restoreAll tame_views)
qed

text \<open>
  C12: the driver never isolates the leader while a follower is cut off.  Whatever the nodes, the network and the workers
  do, and whether the scenario completes or ends with an error at any point, in the timeline of a run that starts with
  no events every isolation of a follower is followed by its reconnection before the leader is isolated.
\<close>

theorem faults_do_not_overlap:
  assumes "Validate (dc_Inv C) = None" "fr_events (dv_run s) = []" "fr_Run W text C s = Some (r, s')"
  shows "follower_back_first (map fe_Name (fr_events (dv_run s')))"
proof -
  have ids: "\<forall>h \<in> set (iv_Hosts (dc_Inv C)). ho_ID h \<noteq> 0"
    using assms(1) by (simp add: Validate_unfold check_hosts_iff host_ok_def)
  have "seen reconnected (dv_run s)" using assms(2) by (simp add: seen_def reconnected_def follower_back_first_def all_back_def)
  moreover have "during ordered reconnected (runLeaderIsolationOnly W text C) (\<lambda>_. ordered)"
    by (rule during_post [OF during_runLeaderIsolationOnly]) (simp add: view_defs)
  moreover have "during ordered reconnected (runFull W text C) (\<lambda>_. ordered)" by (rule during_runFull [OF ids])
  ultimately have "seen reconnected (dv_run s)" "during ordered reconnected (fr_Run W text C) (\<lambda>_. ordered)"
    by (simp_all add: fr_Run_def)
  then have "seen ordered (dv_run s')" using assms(3) by (cases r) (fastforce simp: during_def)+
  then show ?thesis by (simp add: seen_def ordered_def)
qed

end
