(* ===== verification/DriverExamples.thy ===== *)
theory DriverExamples
  imports FaultFacts
begin

text \<open>
  A concrete world for the driver: three machines reached over ssh whose nodes change their leader from node 2 to node 3
  at a given instant; a command takes 100 ms and a request 1 ms.  It meets the contracts of \<open>DriverFacts\<close>, and whole
  scenarios run in it.
\<close>

section \<open>The world\<close>

definition ex_leader :: "int \<Rightarrow> int \<Rightarrow> u64" where
  "ex_leader T t = (if t < T then 2 else 3)"

definition ex_body :: "u64 \<Rightarrow> u64 \<Rightarrow> string" where
  "ex_body i l = jprint (JObj [(''id'', JNum (format_uint i)), (''leader'', JNum (format_uint l)), (''is_leader'', JBool (i = l)),
     (''applied'', JNum ''7''), (''keys'', JNum ''3'')])"

definition ex_get :: "Host list \<Rightarrow> int \<Rightarrow> string \<Rightarrow> int \<Rightarrow> http_reply \<times> int" where
  "ex_get hosts T url t =
     (case find (\<lambda>h. RaftURL h @ ''/status'' = url) hosts of
        None \<Rightarrow> TransportError ''connection refused''
      | Some h \<Rightarrow> Reply 200 '''' (ex_body (ho_ID h) (ex_leader T t)), t + ms 1)"

text \<open>A command over ssh prints the kind of the system, or the target and a process id.\<close>

definition ex_says :: "string \<Rightarrow> string \<Rightarrow> string" where
  "ex_says target quoted = (if prefix (CHR 0x27 # ''uname -s'') quoted then ''Linux'' else target @ '' 4711'')"

definition ex_exec :: "string \<Rightarrow> string list \<Rightarrow> string list \<Rightarrow> int \<Rightarrow> (string \<times> string option) \<times> int" where
  "ex_exec cmd args env t = ((if cmd = ''ssh'' then ex_says (args ! 6) (last args) else '''', None), t + ms 100)"

definition ex_world :: "Host list \<Rightarrow> int \<Rightarrow> int \<Rightarrow> int world" where
  "ex_world hosts T n =
     \<lparr>w_now = (\<lambda>t. (t, t)), w_after = (\<lambda>d t. (False, t + max 0 d)), w_sleep = (\<lambda>d t. t + max 0 d), w_exec = ex_exec,
      w_copyfile = (\<lambda>_ _ t. (None, t)), w_writefile = (\<lambda>_ _ t. (None, t)), w_mkdir = (\<lambda>_ t. (None, t)),
      w_get = ex_get hosts T, w_progress = (\<lambda>t. ((n, True), t))\<rparr>"

lemma ex_world_simps [simp]:
  "w_now (ex_world hosts T n) = (\<lambda>t. (t, t))" "w_after (ex_world hosts T n) d t = (False, t + max 0 d)"
  "w_get (ex_world hosts T n) = ex_get hosts T" "w_sleep (ex_world hosts T n) d t = t + max 0 d"
  "w_exec (ex_world hosts T n) = ex_exec" "w_writefile (ex_world hosts T n) p c = (\<lambda>t. (None, t))"
  "w_mkdir (ex_world hosts T n) p = (\<lambda>t. (None, t))"
  by (simp_all add: ex_world_def)

interpretation ex: responsive "ex_world hosts T n" "\<lambda>t. t" "ms 1" for hosts T n
  by unfold_locales (simp_all add: ex_get_def ex_exec_def ms_def)

definition ex_host :: "u64 \<Rightarrow> string \<Rightarrow> Host" where
  "ex_host i addr = \<lparr>ho_ID = i, ho_Name = addr, ho_SSH = addr, ho_Advertise = addr, ho_RaftPort = 9101, ho_ChaosPort = 9201,
     ho_DataDir = ''/data'', ho_GOOS = '''', ho_GOARCH = ''''\<rparr>"

definition ex_h1 :: Host where "ex_h1 = ex_host 1 ''10.0.0.1''"
definition ex_h2 :: Host where "ex_h2 = ex_host 2 ''10.0.0.2''"
definition ex_h3 :: Host where "ex_h3 = ex_host 3 ''10.0.0.3''"

definition ex_hosts :: "Host list" where "ex_hosts = [ex_h1, ex_h2, ex_h3]"

lemma ex_hosts_simps [simp]: "ho_ID ex_h1 = 1" "ho_ID ex_h2 = 2" "ho_ID ex_h3 = 3" "set ex_hosts = {ex_h1, ex_h2, ex_h3}"
  "ho_SSH ex_h1 = ''10.0.0.1''" "ho_SSH ex_h2 = ''10.0.0.2''" "ho_SSH ex_h3 = ''10.0.0.3''"
  by (simp_all add: ex_h1_def ex_h2_def ex_h3_def ex_host_def ex_hosts_def)

definition ex_drv :: "int drv" where
  "ex_drv = \<lparr>dv_world = 0, dv_dep = NewDeployment, dv_run = NewFaultRunner\<rparr>"

definition ex_inventory :: Inventory where
  "ex_inventory = \<lparr>iv_Mode = ModeMultiHost, iv_Hosts = ex_hosts,
     iv_Client = \<lparr>cp_Ops = 1200, cp_ReadFraction = 1 / 2, cp_Concurrency = 4, cp_Seed = 1\<rparr>,
     iv_Faults = \<lparr>fp_KillLeaderAtOp = 0, fp_IsolateFollowerAtOp = 400, fp_IsolateLeaderAtOp = 700, fp_RestoreAtOp = 900, fp_RestartAllAfter = True\<rparr>\<rparr>"

definition ex_cfg :: "string \<Rightarrow> drv_cfg" where
  "ex_cfg scenario = \<lparr>dc_Inv = ex_inventory, dc_Ex = OverSSH NewSSHExec, dc_Scratch = ''scratch'', dc_BuildTags = '''', dc_RepoRoot = ''.'',
     dc_GOOS = ''linux'', dc_GOARCH = ''amd64'', dc_Environ = [], dc_Join = (\<lambda>a b. a @ ''/'' @ b), dc_Rec = mh_NewRecorder 0,
     dc_Scenario = scenario\<rparr>"

lemma ex_inventory_valid: "Validate ex_inventory = None"
  by code_simp

lemma ex_cfg_simps [simp]:
  "dc_Inv (ex_cfg sc) = ex_inventory" "dc_Ex (ex_cfg sc) = OverSSH NewSSHExec" "dc_Scenario (ex_cfg sc) = sc" "dc_Rec (ex_cfg sc) = mh_NewRecorder 0"
  "iv_Hosts ex_inventory = ex_hosts" "fp_KillLeaderAtOp (iv_Faults ex_inventory) = 0" "fp_IsolateFollowerAtOp (iv_Faults ex_inventory) = 400"
  "fp_IsolateLeaderAtOp (iv_Faults ex_inventory) = 700" "fp_RestoreAtOp (iv_Faults ex_inventory) = 900"
  "fp_RestartAllAfter (iv_Faults ex_inventory)" "cp_Ops (iv_Client ex_inventory) = 1200" "iv_Mode ex_inventory = ModeMultiHost"
  by (simp_all add: ex_cfg_def ex_inventory_def)

section \<open>One step\<close>

definition ex_node :: "u64 \<Rightarrow> u64 \<Rightarrow> NodeStatus" where
  "ex_node i l = \<lparr>ns_ID = i, ns_Leader = l, ns_IsLeader = (i = l), ns_Applied = 7, ns_Keys = 3\<rparr>"

lemma ex_node_simps [simp]: "ns_ID (ex_node i l) = i" "ns_Leader (ex_node i l) = l" "ns_IsLeader (ex_node i l) \<longleftrightarrow> i = l"
  by (simp_all add: ex_node_def)

lemma ex_status: "decode_status (ex_body i l) = Some (ex_node i l)" if "i \<in> {1, 2, 3}" "l \<in> {2, 3}"
proof -
  have "decode_status (ex_body 1 2) = Some (ex_node 1 2)" "decode_status (ex_body 2 2) = Some (ex_node 2 2)"
    "decode_status (ex_body 3 2) = Some (ex_node 3 2)" "decode_status (ex_body 1 3) = Some (ex_node 1 3)"
    "decode_status (ex_body 2 3) = Some (ex_node 2 3)" "decode_status (ex_body 3 3) = Some (ex_node 3 3)" by code_simp+
  then show ?thesis using that by auto
qed

lemma ex_get_hosts:
  "h \<in> set ex_hosts \<Longrightarrow> ex_get ex_hosts T (RaftURL h @ ''/status'') t = (Reply 200 '''' (ex_body (ho_ID h) (ex_leader T t)), t + ms 1)"
proof -
  have "list_all (\<lambda>h. find (\<lambda>h'. RaftURL h' @ ''/status'' = RaftURL h @ ''/status'') ex_hosts = Some h) ex_hosts" by code_simp
  then show "h \<in> set ex_hosts \<Longrightarrow> ?thesis" by (simp only: list_all_iff ex_get_def) simp
qed

lemma ex_read_status:
  assumes "h \<in> set ex_hosts"
  shows "read_status h (Reply 200 '''' (ex_body (ho_ID h) (ex_leader T t))) = Inr (ex_node (ho_ID h) (ex_leader T t))"
proof -
  have "ho_ID h \<in> {1, 2, 3}" "ex_leader T t \<in> {2, 3}" using assms by (auto simp: ex_leader_def)
  then have "decode_status (ex_body (ho_ID h) (ex_leader T t)) = Some (ex_node (ho_ID h) (ex_leader T t))" by (rule ex_status)
  then show ?thesis by (simp add: read_status_def)
qed

lemma ex_FetchStatus [simp]:
  "h \<in> set ex_hosts \<Longrightarrow> FetchStatus (ex_world ex_hosts T n) h s =
     Some (Inr (ex_node (ho_ID h) (ex_leader T (dv_world s))), s\<lparr>dv_world := dv_world s + ms 1\<rparr>)"
  by (simp only: FetchStatus_simp ex_get_hosts ex_world_simps ex_read_status Let_def fst_conv snd_conv)

lemma ex_Run_ssh [simp]:
  "ho_SSH h \<noteq> '''' \<Longrightarrow> ex_Run (ex_world hosts T n) (OverSSH NewSSHExec) h script s =
     Some (Inr (ex_says (ho_SSH h) (ShellQuote script)), s\<lparr>dv_world := dv_world s + ms 100\<rparr>)"
  by (simp add: ex_Run_def act_simps ex_exec_def combined_def NewSSHExec_def RunArgs_def)

lemma ex_Copy_ssh [simp]:
  "ho_SSH h \<noteq> '''' \<Longrightarrow> ex_Copy (ex_world hosts T n) (OverSSH NewSSHExec) h a b s = Some (Inr (), s\<lparr>dv_world := dv_world s + ms 100\<rparr>)"
  by (simp add: ex_Copy_def act_simps ex_exec_def combined_def NewSSHExec_def)

lemma poll_hit [simp]: "check s = Some (Inr (Inr x), s1) \<Longrightarrow> poll W check deadline delay late s = Some (Inr x, s1)"
  by (subst poll.simps) simp

lemma ex_waitOp [simp]: "k \<le> n \<Longrightarrow> waitOp (ex_world hosts T n) k s = Some (Inr (), s)"
  by (subst waitOp.simps) (simp add: ex_world_def)

lemma ex_event [simp]:
  "fr_event (ex_world hosts T n) C name detail i peers dur s =
     (let t = Since (dc_Rec C) (dv_world s);
          ev = \<lparr>fe_Name = name, fe_Detail = detail, fe_AtOp = n, fe_AtNanos = t,
                 fe_DurationMicros = (if dur > 0 then dur div 1000 else 0), fe_NodeID = i, fe_Peers = peers\<rparr>
      in Some (Inr t, s\<lparr>dv_run := (dv_run s)\<lparr>fr_events := fr_events (dv_run s) @ [ev]\<rparr>\<rparr>))"
  by (simp add: fr_event_def act_simps Let_def ex_world_def)

lemma wrapped_Some [simp]: "m s = Some (r, s1) \<Longrightarrow> wrapped what m s = Some (map_sum (EWrap what) id r, s1)"
  by (simp add: wrapped_def)

section \<open>A new leader\<close>

lemma ex_leads:
  assumes "h \<in> set ex_hosts" "T \<le> t"
  shows "leads (ex_world ex_hosts T n) h st t \<longleftrightarrow> ho_ID h = 3 \<and> st = ex_node 3 3"
  using ex_read_status [OF assms(1), of T t] assms(2)
  by (auto simp: leads_def ex_leader_def ex_get_hosts [OF assms(1)] simp del: ex_hosts_simps)

theorem WaitLeader_returns_leader_witness:
  "\<exists>h d s'. WaitLeader (ex_world ex_hosts (ms 350) 1000) ex_hosts 2 (seconds 30) ex_drv = Some (Inr (h, d), s') \<and> h \<in> set ex_hosts"
proof -
  let ?W = "ex_world ex_hosts (ms 350) 1000"
  have l: "ex_h3 \<in> set ex_hosts" by simp
  have "\<forall>w. ms 350 \<le> w \<longrightarrow> (\<exists>st. leads ?W ex_h3 st w)" using ex_leads [OF l] by simp
  moreover have "\<forall>w h st. ms 350 \<le> w \<and> h \<in> set ex_hosts \<and> leads ?W h st w \<longrightarrow> ns_ID st \<noteq> 2"
    using ex_leads by fastforce
  moreover have "ms 350 + (int (length ex_hosts) + 1) * ms 1 \<le> fst (w_now ?W (dv_world ex_drv)) + seconds 30"
    by (simp add: ex_hosts_def ms_def seconds_def ex_drv_def)
  ultimately show ?thesis using WaitLeader_returns_leader [OF ex.responsive_axioms l] by blast
qed

section \<open>A whole scenario\<close>

lemma ex_followers [simp]: "OtherHosts ex_hosts 2 = [ex_h1, ex_h3]" "OtherHosts ex_hosts 1 = [ex_h2, ex_h3]"
  by (simp_all add: OtherHosts_def ex_hosts_def)

lemma ex_by_id [simp]: "HostByID 1 ex_inventory = Some ex_h1"
  by code_simp

lemma ex_reported [simp]:
  "reported_leaders (ex_world ex_hosts T n) ex_hosts s =
     (let l = (\<lambda>k. ex_leader T (dv_world s + k * ms 1)) in Some (Inr (Some [l 0, l 1, l 2]), s\<lparr>dv_world := dv_world s + 3 * ms 1\<rparr>))"
proof -
  let ?W = "ex_world ex_hosts T n"
  have step: "reported_leaders ?W (h # hs) s = bnd (reported_leaders ?W hs) (\<lambda>ls. ret (map_option (\<lambda>l. ex_leader T (dv_world s) # l) ls)) (s\<lparr>dv_world := dv_world s + ms 1\<rparr>)"
    if "h \<in> set ex_hosts" for h hs s using that by (simp add: ex_leader_def del: ex_hosts_simps(4))
  have "reported_leaders ?W [ex_h1, ex_h2, ex_h3] s =
     (let l = (\<lambda>k. ex_leader T (dv_world s + k * ms 1)) in Some (Inr (Some [l 0, l 1, l 2]), s\<lparr>dv_world := dv_world s + 3 * ms 1\<rparr>))"
    by (simp add: step act_simps Let_def algebra_simps del: reported_leaders.simps(2))
  then show ?thesis by (simp add: ex_hosts_def)
qed

lemma ex_FindLeader:
  assumes "dv_world s + ms 1 < T"
  shows "FindLeader (ex_world ex_hosts T n) ex_hosts s = Some (Inr (ex_h2, ex_node 2 2), s\<lparr>dv_world := dv_world s + 2 * ms 1\<rparr>)"
proof -
  have "dv_world s < T" using assms by (simp add: ms_def)
  then have "FindLeader (ex_world ex_hosts T n) [ex_h1, ex_h2, ex_h3] s = Some (Inr (ex_h2, ex_node 2 2), s\<lparr>dv_world := dv_world s + 2 * ms 1\<rparr>)"
    using assms by (simp add: act_simps ex_leader_def)
  then show ?thesis by (simp add: ex_hosts_def)
qed

lemma ex_WaitLeader:
  assumes "T \<le> dv_world s"
  shows "WaitLeader (ex_world ex_hosts T n) [ex_h1, ex_h3] 2 timeout s =
     Some (Inr (ex_h3, sat64 (2 * ms 1)), s\<lparr>dv_world := dv_world s + 2 * ms 1\<rparr>)"
proof -
  have "new_leader (ex_world ex_hosts T n) [ex_h1, ex_h3] 2 s = Some (Inr (Inr ex_h3), s\<lparr>dv_world := dv_world s + 2 * ms 1\<rparr>)"
    using assms by (simp add: new_leader_def act_simps ex_leader_def ms_def)
  then show ?thesis by (simp add: WaitLeader_def since_def act_simps)
qed

lemma ex_agree:
  assumes "dv_world s + 2 * ms 1 < T \<and> l = 2 \<or> T \<le> dv_world s \<and> l = 3"
  shows "waitAllAgreeOnLeader (ex_world ex_hosts T n) (ex_cfg sc) timeout s = Some (Inr (l, sat64 (3 * ms 1)), s\<lparr>dv_world := dv_world s + 3 * ms 1\<rparr>)"
proof -
  have "ex_leader T (dv_world s + k * ms 1) = l" if "0 \<le> k" "k \<le> 2" for k
    using assms that by (auto simp: ex_leader_def ms_def)
  then have "ex_leader T (dv_world s) = l" "ex_leader T (dv_world s + ms 1) = l" "ex_leader T (dv_world s + 2 * ms 1) = l"
    by (metis (no_types) mult_zero_left add_0_right order_refl zero_le_numeral, metis mult_1 one_le_numeral zero_le_one, metis order_refl zero_le_numeral)
  then show ?thesis by (simp add: waitAllAgreeOnLeader_def since_def act_simps agreed_def Let_def)
qed

text \<open>\<open>m\<close> returns from \<open>s\<close> in \<open>s'\<close> after \<open>d\<close>, with events named \<open>ns\<close>.\<close>

definition goes :: "(int, unit) act \<Rightarrow> int drv \<Rightarrow> int \<Rightarrow> string list \<Rightarrow> int drv \<Rightarrow> bool" where
  "goes m s d ns s' \<longleftrightarrow> m s = Some (Inr (), s') \<and> dv_world s' = dv_world s + d \<and>
     map fe_Name (fr_events (dv_run s')) = map fe_Name (fr_events (dv_run s)) @ ns"

lemma ex_isolate_follower:
  assumes "dv_world s + ms 1 < T"
  shows "\<exists>s'. goes (isolate_follower (ex_world ex_hosts T n) tx (ex_cfg sc)) s (2 * ms 1 + 2 * ms 100) [''isolate_follower''] s' \<and> fr_isolatedFollowerID (dv_run s') = 1"
  using assms by (simp add: goes_def isolate_follower_def ex_FindLeader fr_isolate_def fr_chaosState_def act_simps Let_def)

lemma ex_clear_follower:
  assumes "dv_world s + ms 100 + 2 * ms 1 < T"
  shows "\<exists>s'. goes (clear_follower (ex_world ex_hosts T n) (ex_cfg sc) 1) s (ms 100 + 3 * ms 1) [''clear_follower_isolation'', ''cluster_settled''] s'"
  using assms by (simp add: goes_def clear_follower_def clearIsolation_def settled_def ex_agree [where l = 2] act_simps Let_def)

lemma ex_isolate_leader:
  assumes "dv_world s + ms 1 < T" "T \<le> dv_world s + 2 * ms 1 + 2 * ms 100"
  shows "\<exists>s'. goes (isolateLeaderFromMajority (ex_world ex_hosts T n) tx (ex_cfg sc)) s (4 * ms 1 + 2 * ms 100) [''isolate_leader'', ''new_leader_elected''] s' \<and>
    dv_dep s' = dv_dep s \<and> fr_isolateLeaderNanos (dv_run s') = Since (mh_NewRecorder 0) (2 * ms 100 + (dv_world s + 2 * ms 1)) \<and>
    fr_isolationElectionMicros (dv_run s') = sat64 (2 * ms 1) div 1000"
  using assms by (simp add: goes_def isolateLeaderFromMajority_def ex_FindLeader ex_WaitLeader fr_isolate_def fr_chaosState_def act_simps Let_def)

lemma ex_clear_all:
  "each (\<lambda>h. wrapped (what h) (clearIsolation (ex_world hosts T n) (ex_cfg sc) h)) ex_hosts s = Some (Inr (), s\<lparr>dv_world := dv_world s + 3 * ms 100\<rparr>)"
  by (simp add: ex_hosts_def clearIsolation_def act_simps)

lemma ex_restore:
  assumes "T \<le> dv_world s + 3 * ms 100"
  shows "\<exists>s'. goes (restoreAll (ex_world ex_hosts T n) (ex_cfg sc)) s (3 * ms 100 + 3 * ms 1) [''restore_network'', ''cluster_healed''] s' \<and>
    dv_dep s' = dv_dep s \<and> fr_isolateLeaderNanos (dv_run s') = fr_isolateLeaderNanos (dv_run s) \<and>
    fr_isolationElectionMicros (dv_run s') = fr_isolationElectionMicros (dv_run s)"
  using assms by (simp add: goes_def restoreAll_def ex_clear_all ex_agree [where l = 3] act_simps Let_def)

lemma ex_scenario:
  "\<exists>s'. fr_Run (ex_world ex_hosts (ms 350) 1000) tx (ex_cfg ScenarioFull) ex_drv = Some (Inr (), s') \<and>
     map fe_Name (fr_events (dv_run s')) =
       [''isolate_follower'', ''clear_follower_isolation'', ''cluster_settled'', ''isolate_leader'', ''new_leader_elected'',
        ''restore_network'', ''cluster_healed'']"
proof -
  let ?W = "ex_world ex_hosts (ms 350) 1000"
  let ?C = "ex_cfg ScenarioFull"
  note times = ms_def ex_drv_def goes_def
  obtain s1 where s1: "goes (isolate_follower ?W tx ?C) ex_drv (2 * ms 1 + 2 * ms 100) [''isolate_follower''] s1"
      "fr_isolatedFollowerID (dv_run s1) = 1"
    using ex_isolate_follower [of ex_drv "ms 350" 1000 tx] by (auto simp: ms_def ex_drv_def)
  then obtain s2 where s2: "goes (clear_follower ?W ?C 1) s1 (ms 100 + 3 * ms 1) [''clear_follower_isolation'', ''cluster_settled''] s2"
    using ex_clear_follower [of s1 "ms 350" 1000] by (auto simp: times)
  then obtain s3 where s3: "goes (isolateLeaderFromMajority ?W tx ?C) s2 (4 * ms 1 + 2 * ms 100) [''isolate_leader'', ''new_leader_elected''] s3"
    using s1 ex_isolate_leader [of s2 "ms 350" 1000 tx] by (auto simp: times)
  then obtain s4 where s4: "goes (restoreAll ?W ?C) s3 (3 * ms 100 + 3 * ms 1) [''restore_network'', ''cluster_healed''] s4"
    using s1 s2 ex_restore [of "ms 350" s3 1000] by (auto simp: times)
  have "fr_Run ?W tx ?C ex_drv = Some (Inr (), s4)"
    using s1 s2 s3 s4 by (simp add: fr_Run_def runFull_def ScenarioFull_def ScenarioLeaderIsolation_def at_op_def goes_def act_simps Let_def)
  moreover have "fr_events (dv_run ex_drv) = []" by (simp add: ex_drv_def NewFaultRunner_def)
  ultimately show ?thesis using s1 s2 s3 s4 by (auto simp: goes_def)
qed

theorem faults_do_not_overlap_witness:
  "\<exists>s'. fr_Run (ex_world ex_hosts (ms 350) 1000) (\<lambda>_. '''') (ex_cfg ScenarioFull) ex_drv = Some (Inr (), s') \<and>
     [''isolate_follower'', ''isolate_leader''] = filter (\<lambda>n. n \<in> {''isolate_follower'', ''isolate_leader''}) (map fe_Name (fr_events (dv_run s'))) \<and>
     follower_back_first (map fe_Name (fr_events (dv_run s')))"
proof -
  from ex_scenario [of "\<lambda>_. ''''"] obtain s' where ran: "fr_Run (ex_world ex_hosts (ms 350) 1000) (\<lambda>_. '''') (ex_cfg ScenarioFull) ex_drv = Some (Inr (), s') \<and>
      map fe_Name (fr_events (dv_run s')) = [''isolate_follower'', ''clear_follower_isolation'', ''cluster_settled'', ''isolate_leader'',
        ''new_leader_elected'', ''restore_network'', ''cluster_healed'']" ..
  note s' = conjunct1 [OF ran] conjunct2 [OF ran]
  moreover have "fr_events (dv_run ex_drv) = []" by (simp add: ex_drv_def NewFaultRunner_def)
  ultimately have "follower_back_first (map fe_Name (fr_events (dv_run s')))"
    using faults_do_not_overlap [OF _ _ s'(1)] ex_inventory_valid by simp
  then show ?thesis using s' by simp
qed

end
