(* ===== verification/GateExamples.thy ===== *)
theory GateExamples
  imports GateFacts DriverExamples
begin

text \<open>
  A whole gate run in the world of \<open>DriverExamples\<close>: three machines, the leader isolated and the cluster restarted,
  with two acknowledged writes around the isolation; the gate passes.
\<close>

section \<open>Commands\<close>

lemma ex_says_script [simp]: "c \<noteq> CHR ''u'' \<Longrightarrow> c \<noteq> CHR 0x27 \<Longrightarrow> ex_says target (ShellQuote (c # cs)) = target @ '' 4711''"
  by (simp add: ex_says_def ShellQuote_def replace_char_def)

lemma ex_says_uname [simp]:
  "ex_says target (ShellQuote ''uname -s'') = ''Linux''" "ex_says target (ShellQuote ''uname -n'') = target @ '' 4711''"
  "ex_says target (ShellQuote ''uname -a'') = target @ '' 4711''"
  by (simp_all add: ex_says_def ShellQuote_def replace_char_def)

abbreviation ex_out :: "Host \<Rightarrow> string" where
  "ex_out h \<equiv> ho_SSH h @ '' 4711''"

lemma ex_out_facts:
  assumes "h \<in> set ex_hosts"
  shows "TrimSpace (ex_out h) = ex_out h" "lastIntLine (ex_out h) = Some 4711" "\<not> contains_str (ex_out h) ''quorumlogd''"
    "parseDF (ex_out h) = ('''', '''')" "ho_SSH h \<noteq> ''''" "ex_out h \<noteq> ''''" "build_target (ex_cfg sc) h = ''linux/amd64''"
proof -
  have "list_all (\<lambda>h. TrimSpace (ex_out h) = ex_out h \<and> lastIntLine (ex_out h) = Some 4711 \<and> \<not> contains_str (ex_out h) ''quorumlogd'' \<and>
      parseDF (ex_out h) = ('''', '''')) ex_hosts" by code_simp
  then show "TrimSpace (ex_out h) = ex_out h" "lastIntLine (ex_out h) = Some 4711" "\<not> contains_str (ex_out h) ''quorumlogd''"
    "parseDF (ex_out h) = ('''', '''')"
    using assms by (auto simp only: list_all_iff)
qed (use assms in \<open>auto simp: build_target_def BuildOS_def BuildArch_def ex_cfg_def ex_h1_def ex_h2_def ex_h3_def ex_host_def\<close>)

section \<open>Preflight\<close>

definition gx_pre :: pre_ops where
  "gx_pre = \<lparr>pf_sha = rev, pf_Abs = Inr, pf_Rel = (\<lambda>_. Inr), pf_txt = (\<lambda>_. ''''), pf_quote = (\<lambda>s. s), pf_ord = (\<lambda>xs. xs)\<rparr>"

lemma gx_ask:
  assumes "ho_SSH h \<noteq> ''''"
  shows "ask (ex_world hosts T n) gx_pre (ex_cfg sc) h script f s =
    Some (Inr (TrimSpace (ex_says (ho_SSH h) (ShellQuote script)), f), s\<lparr>dv_world := dv_world s + ms 100\<rparr>)"
  using assms by (simp add: ask_def act_simps)

definition gx_facts :: "string \<Rightarrow> Host \<Rightarrow> HostFacts" where
  "gx_facts sc h = (initial_facts gx_pre (ex_cfg sc) h '''')\<lparr>hf_OSKind := ''Linux'', hf_Hostname := ex_out h, hf_Kernel := ex_out h,
     hf_MachineIDSource := ''/etc/machine-id or /var/lib/dbus/machine-id'', hf_MachineID := fingerprint gx_pre (ex_out h),
     hf_BootIDSource := ''/proc/sys/kernel/random/boot_id'', hf_BootID := fingerprint gx_pre (ex_out h), hf_PrimaryAddress := ex_out h\<rparr>"

lemma trim_Linux: "TrimSpace ''Linux'' = ''Linux''"
  by code_simp

lemma gx_collect:
  assumes "h \<in> set ex_hosts"
  shows "collectHostFacts (ex_world hosts T n) gx_pre (ex_cfg sc) '''' h s = Some (Inr (gx_facts sc h), s\<lparr>dv_world := dv_world s + 7 * ms 100\<rparr>)"
  using ex_out_facts [OF assms]
  by (simp add: collectHostFacts_def gx_ask identify_def identity_scripts_def trim_Linux act_simps gx_facts_def initial_facts_def)

lemma gx_collect_all:
  "set hs \<subseteq> set ex_hosts \<Longrightarrow> collect_all (ex_world hosts T n) gx_pre (ex_cfg sc) '''' hs s =
     Some (Inr (map (gx_facts sc) hs), s\<lparr>dv_world := dv_world s + int (length hs) * (7 * ms 100)\<rparr>)"
  by (induction hs arbitrary: s) (simp_all add: gx_collect act_simps algebra_simps del: ex_hosts_simps(4))

section \<open>Deployment\<close>

text \<open>An action without a result and without events that takes \<open>d\<close>.\<close>

definition takes :: "(int, unit) act \<Rightarrow> int \<Rightarrow> bool" where
  "takes m d \<longleftrightarrow> (\<forall>s. m s = Some (Inr (), s\<lparr>dv_world := dv_world s + d\<rparr>))"

lemma takes_each: "\<forall>h \<in> set hs. takes (f h) d \<Longrightarrow> takes (each f hs) (int (length hs) * d)"
  by (induction hs) (simp_all add: takes_def act_simps algebra_simps)

lemma takes_hosts: "\<forall>h \<in> set ex_hosts. takes (f h) d \<Longrightarrow> takes (each f ex_hosts) (3 * d)"
  using takes_each [of ex_hosts f d] by (simp add: ex_hosts_def)

lemma gx_requireCurl: "takes (requireCurl (ex_world hosts T n) (ex_cfg sc)) (3 * ms 100)"
  unfolding requireCurl_def ex_cfg_simps
  by (rule takes_hosts) (simp add: takes_def act_simps ex_out_facts del: ex_hosts_simps(4))

definition gx_built :: Deployment where
  "gx_built = \<lparr>dp_binaries = fmupd ''linux/amd64'' ''scratch/quorumlogd-linux-amd64'' fmempty, dp_pids = fmempty\<rparr>"

lemma gx_binary: "dc_Join (ex_cfg sc) (dc_Scratch (ex_cfg sc)) (binary_name (ex_cfg sc) ex_h1) = ''scratch/quorumlogd-linux-amd64''"
  by (simp add: ex_cfg_def binary_name_def BuildOS_def BuildArch_def ex_h1_def ex_host_def)

lemma gx_Build:
  assumes "dv_dep s = NewDeployment"
  shows "dp_Build (ex_world hosts T n) (ex_cfg sc) s = Some (Inr (), s\<lparr>dv_world := dv_world s + ms 100, dv_dep := gx_built\<rparr>)"
proof -
  note bt = ex_out_facts(7) [of _ sc]
  have "build_host (ex_world hosts T n) (ex_cfg sc) ex_h1 s = Some (Inr (), s\<lparr>dv_world := dv_world s + ms 100, dv_dep := gx_built\<rparr>)"
    using assms bt [of ex_h1] gx_binary [of sc]
    by (simp add: build_host_def act_simps NewDeployment_def gx_built_def Let_def ex_exec_def combined_def)
  moreover have "build_host (ex_world hosts T n) (ex_cfg sc) h t = Some (Inr (), t)" if "h \<in> {ex_h2, ex_h3}" "dv_dep t = gx_built" for h t
    using that bt [of h] by (auto simp: build_host_def act_simps gx_built_def)
  ultimately show ?thesis by (simp add: dp_Build_def ex_hosts_def act_simps)
qed

lemma gx_deploy:
  assumes "h \<in> set ex_hosts" "dv_dep s = gx_built"
  shows "bnd (cleanNodeState (ex_world hosts T n) (ex_cfg sc) h) (\<lambda>_. dp_Deploy (ex_world hosts T n) (ex_cfg sc) h) s =
    Some (Inr (), s\<lparr>dv_world := dv_world s + 6 * ms 100\<rparr>)"
  using assms(2) ex_out_facts(5,7) [OF assms(1)]
  by (simp add: cleanNodeState_def dp_Deploy_def BinaryFor_def gx_built_def act_simps file_error_def Let_def)

lemma gx_deploy_all:
  assumes "dv_dep s = gx_built"
  shows "each (\<lambda>h. bnd (cleanNodeState (ex_world hosts T n) (ex_cfg sc) h) (\<lambda>_. dp_Deploy (ex_world hosts T n) (ex_cfg sc) h)) ex_hosts s =
    Some (Inr (), s\<lparr>dv_world := dv_world s + 3 * (6 * ms 100)\<rparr>)"
proof -
  have "each (\<lambda>h. bnd (cleanNodeState (ex_world hosts T n) (ex_cfg sc) h) (\<lambda>_. dp_Deploy (ex_world hosts T n) (ex_cfg sc) h)) [ex_h1, ex_h2, ex_h3] s =
    Some (Inr (), s\<lparr>dv_world := dv_world s + 3 * (6 * ms 100)\<rparr>)"
    using assms by (simp add: gx_deploy act_simps)
  then show ?thesis by (simp add: ex_hosts_def)
qed

section \<open>Starting and stopping\<close>

definition gx_running :: "Deployment \<Rightarrow> Deployment" where
  "gx_running d = d\<lparr>dp_pids := fmupd 3 4711 (fmupd 2 4711 (fmupd 1 4711 (dp_pids d)))\<rparr>"

lemma gx_statusOK: "h \<in> set ex_hosts \<Longrightarrow> statusOK (ex_world ex_hosts T n) h s = Some (Inr True, s\<lparr>dv_world := dv_world s + ms 1\<rparr>)"
  by (simp add: statusOK_def act_simps ex_get_hosts del: ex_hosts_simps(4))

lemma gx_Start:
  "h \<in> set ex_hosts \<Longrightarrow> dp_Start (ex_world hosts T n) (ex_cfg sc) h s =
     Some (Inr 4711, s\<lparr>dv_world := dv_world s + ms 100, dv_dep := (dv_dep s)\<lparr>dp_pids := fmupd (ho_ID h) 4711 (dp_pids (dv_dep s))\<rparr>\<rparr>)"
  using ex_out_facts [of h] by (simp add: dp_Start_def act_simps del: ex_hosts_simps(4))

lemma gx_StartAll:
  "dp_StartAll (ex_world ex_hosts T n) (ex_cfg sc) s =
     Some (Inr (), s\<lparr>dv_world := dv_world s + 3 * ms 100 + 3 * ms 1, dv_dep := gx_running (dv_dep s)\<rparr>)"
proof -
  have "each (\<lambda>h. bnd (dp_Start (ex_world ex_hosts T n) (ex_cfg sc) h) (\<lambda>_. ret ())) [ex_h1, ex_h2, ex_h3] s =
      Some (Inr (), s\<lparr>dv_world := dv_world s + 3 * ms 100, dv_dep := gx_running (dv_dep s)\<rparr>)"
    by (simp add: gx_Start act_simps gx_running_def)
  moreover have "all_ready (ex_world ex_hosts T n) [ex_h1, ex_h2, ex_h3] t = Some (Inr (Inr ()), t\<lparr>dv_world := dv_world t + 3 * ms 1\<rparr>)" for t
    by (simp add: gx_statusOK act_simps)
  ultimately show ?thesis
    using ex_hosts_def by (simp add: dp_StartAll_def WaitReady_def act_simps)
qed

lemma gx_Stop: "h \<in> set ex_hosts \<Longrightarrow> takes (dp_Stop (ex_world hosts T n) (ex_cfg sc) h) (2 * ms 100)"
  using ex_out_facts [of h]
  by (auto simp: takes_def dp_Stop_def signalScript_def act_simps stop_loop.simps still_there_def seconds_def simp del: ex_hosts_simps(4))

lemma gx_StopAll: "dp_StopAll (ex_world hosts T n) (ex_cfg sc) s = Some (Inr [], s\<lparr>dv_world := dv_world s + 3 * (2 * ms 100)\<rparr>)"
proof -
  have "dp_Stop (ex_world hosts T n) (ex_cfg sc) h t = Some (Inr (), t\<lparr>dv_world := dv_world t + 2 * ms 100\<rparr>)" if "h \<in> set ex_hosts" for h t
    using gx_Stop [OF that] by (simp add: takes_def)
  then have "stop_hosts (ex_world hosts T n) (ex_cfg sc) [ex_h1, ex_h2, ex_h3] s = Some (Inr [], s\<lparr>dv_world := dv_world s + 3 * (2 * ms 100)\<rparr>)"
    by (simp add: act_simps)
  then show ?thesis by (simp add: dp_StopAll_def ex_hosts_def)
qed

lemma gx_first_leader:
  assumes "dv_world s + ms 1 < T"
  shows "WaitLeader (ex_world ex_hosts T n) ex_hosts 0 timeout s = Some (Inr (ex_h2, sat64 (2 * ms 1)), s\<lparr>dv_world := dv_world s + 2 * ms 1\<rparr>)"
  using assms by (simp add: WaitLeader_def new_leader_def since_def act_simps ex_FindLeader)

lemma gx_save_log: "h \<in> set ex_hosts \<Longrightarrow> takes (save_log (ex_world hosts T n) (ex_cfg sc) opts h) (ms 100)"
  using ex_out_facts(5,6) [of h] by (simp add: takes_def save_log_def TailLog_def act_simps del: ex_hosts_simps(4))

lemma gx_teardown: "takes (teardown (ex_world hosts T n) (ex_cfg sc) opts) (3 * ms 100 + 3 * (2 * ms 100))"
  using takes_hosts [of "save_log (ex_world hosts T n) (ex_cfg sc) opts" "ms 100"] gx_save_log
  by (simp add: takes_def teardown_def collectNodeLogs_def gx_StopAll act_simps)

section \<open>The scenario\<close>

abbreviation gx_cfg :: drv_cfg where
  "gx_cfg \<equiv> ex_cfg ScenarioLeaderIsolation"

lemma gx_Run:
  assumes "dv_world s + ms 1 < T" "T \<le> dv_world s + 2 * ms 1 + 2 * ms 100"
  shows "\<exists>s'. fr_Run (ex_world ex_hosts T 1200) tx gx_cfg s = Some (Inr (), s') \<and> dv_dep s' = dv_dep s \<and>
    dv_world s' = dv_world s + 7 * ms 1 + 5 * ms 100 \<and>
    fr_isolateLeaderNanos (dv_run s') = Since (mh_NewRecorder 0) (2 * ms 100 + (dv_world s + 2 * ms 1)) \<and>
    fr_isolationElectionMicros (dv_run s') = sat64 (2 * ms 1) div 1000"
proof -
  let ?W = "ex_world ex_hosts T 1200"
  have ops: "isolation_ops 1200 = (360, 900)" by code_simp
  obtain nt where "fr_Run ?W tx gx_cfg = bnd (Note nt) (\<lambda>_. bnd (waitOp ?W 360) (\<lambda>_. bnd (isolateLeaderFromMajority ?W tx gx_cfg) (\<lambda>_.
      bnd (waitOp ?W 900) (\<lambda>_. restoreAll ?W gx_cfg))))"
    by (simp add: fr_Run_def runLeaderIsolationOnly_def ops)
  moreover define s0 where "s0 = s\<lparr>dv_run := (dv_run s)\<lparr>fr_notes := fr_notes (dv_run s) @ [nt]\<rparr>\<rparr>"
  moreover obtain s1 where s1: "goes (isolateLeaderFromMajority ?W tx gx_cfg) s0 (4 * ms 1 + 2 * ms 100) [''isolate_leader'', ''new_leader_elected''] s1"
      "dv_dep s1 = dv_dep s0" "fr_isolateLeaderNanos (dv_run s1) = Since (mh_NewRecorder 0) (2 * ms 100 + (dv_world s0 + 2 * ms 1))"
      "fr_isolationElectionMicros (dv_run s1) = sat64 (2 * ms 1) div 1000"
    using ex_isolate_leader [of s0 T 1200 tx ScenarioLeaderIsolation] assms by (auto simp: s0_def)
  moreover obtain s2 where s2: "goes (restoreAll ?W gx_cfg) s1 (3 * ms 100 + 3 * ms 1) [''restore_network'', ''cluster_healed''] s2"
      "dv_dep s2 = dv_dep s1" "fr_isolateLeaderNanos (dv_run s2) = fr_isolateLeaderNanos (dv_run s1)"
      "fr_isolationElectionMicros (dv_run s2) = fr_isolationElectionMicros (dv_run s1)"
    using ex_restore [of T s1 1200 ScenarioLeaderIsolation] assms s1(1) by (auto simp: goes_def s0_def ms_def)
  ultimately show ?thesis by (intro exI [of _ s2]) (simp add: goes_def Note_def act_simps)
qed

section \<open>The writes\<close>

definition gx_put :: "string \<Rightarrow> int \<Rightarrow> OpRecord" where
  "gx_put key call = \<lparr>or_Index = 0, or_ClientID = 0, or_ClientSession = ''s'', or_ReqID = 1, or_Op = ''put'', or_Key = key, or_Value = ''v'',
     or_CallNanos = call, or_ReturnNanos = call + 10, or_Status = StatusOK, or_HTTPCode = 200, or_Attempts = 1, or_Redirects = 0,
     or_Endpoint = ''e'', or_ObservedVal = '''', or_ObservedFound = False, or_Error = '''', or_Phase = PhaseTraffic\<rparr>"

definition gx_work :: Workload where
  "gx_work = \<lparr>wl_Rec = Add (gx_put ''b'' (seconds 10)) (Add (gx_put ''a'' (seconds 1)) (mh_NewRecorder 0)),
     wl_Acked = aw_Record ''b'' ''v'' (aw_Record ''a'' ''v'' NewAckedWrites), wl_completed = 1200, wl_writes = 600, wl_reads = 600, wl_lost = 0,
     wl_finished = True, wl_workers = []\<rparr>"

definition gx_verify :: verify_env where
  "gx_verify = \<lparr>ve_ctxErr = (\<lambda>_. False),
     ve_net = (\<lambda>_. \<lparr>ae_Intn = (\<lambda>_. 0), ae_NewRequest = (\<lambda>_. None),
       ae_Do = (\<lambda>_ _. Reply 200 '''' (jprint (JObj [(''value'', JStr ''v''), (''found'', JBool True)]))), ae_CtxErr = (\<lambda>_. False)\<rparr>),
     ve_start = (\<lambda>n. seconds 20 + int n * 10), ve_now = (\<lambda>n. seconds 20 + int n * 10 + 5)\<rparr>"

definition gx_rc :: run_cfg where
  "gx_rc = \<lparr>rc_Ops = 1200, rc_Concurrency = 4, rc_Endpoints = [''http://10.0.0.1:9101'']\<rparr>"

definition gx_verified :: Workload where
  "gx_verified = (case VerifyAcked gx_verify gx_rc PhaseVerify (gx_work\<lparr>wl_Rec := SetPhase PhaseVerify (wl_Rec gx_work)\<rparr>) of
     Inr (_, _, _, w) \<Rightarrow> w | Inl _ \<Rightarrow> gx_work)"

lemma gx_verify_clean:
  "VerifyAcked gx_verify gx_rc PhaseVerify (gx_work\<lparr>wl_Rec := SetPhase PhaseVerify (wl_Rec gx_work)\<rparr>) = Inr ([], 2, False, gx_verified)"
proof -
  have "(case VerifyAcked gx_verify gx_rc PhaseVerify (gx_work\<lparr>wl_Rec := SetPhase PhaseVerify (wl_Rec gx_work)\<rparr>) of
     Inr (mms, n, b, _) \<Rightarrow> mms = [] \<and> n = 2 \<and> \<not> b | Inl _ \<Rightarrow> False)" by code_simp
  then show ?thesis by (auto simp: gx_verified_def split: sum.splits prod.splits)
qed

lemma gx_restart:
  assumes "T \<le> dv_world s"
  shows "\<exists>s'. RestartAllAndVerify (ex_world ex_hosts T n) gx_cfg (\<lambda>_. gx_verify) gx_rc gx_work s = Some (Inr gx_verified, s') \<and>
    fr_isolateLeaderNanos (dv_run s') = fr_isolateLeaderNanos (dv_run s) \<and>
    fr_isolationElectionMicros (dv_run s') = fr_isolationElectionMicros (dv_run s) \<and>
    fr_restartMismatches (dv_run s') = [] \<and> fr_restartVerified (dv_run s') \<and> fr_restartVerifiedKeys (dv_run s') = 2 \<and>
    fr_restartReadyNanos (dv_run s') = Since (mh_NewRecorder 0) (dv_world s + 9 * ms 100 + 6 * ms 1)"
proof -
  have "T \<le> dv_world s + 3 * (2 * ms 100) + (3 * ms 100 + 3 * ms 1)" using assms by (simp add: ms_def)
  then show ?thesis
    using gx_verify_clean
    by (simp add: RestartAllAndVerify_def restart_all_def verify_acked_def gx_StopAll gx_StartAll ex_agree [where l = 3] since_def act_simps Let_def algebra_simps)
qed

section \<open>The verdict\<close>

definition gx_opts :: Options where
  "gx_opts = \<lparr>op_InventoryPath = ''inventory.json'', op_OutDir = ''out'', op_ScratchDir = ''scratch'', op_RepoRoot = '''', op_BuildTags = '''',
     op_Scenario = ScenarioLeaderIsolation, op_OpsOverride = 0, op_ExpectReject = False\<rparr>"

definition gx_gate :: gate_ops where
  "gx_gate = \<lparr>go_pre = gx_pre, go_check = search_check, go_json = (\<lambda>_. ''{}''), go_dir = (\<lambda>p. p), go_stamp = ''now'', go_elapsed = 7\<rparr>"

abbreviation gx_rep :: InventoryReport where
  "gx_rep \<equiv> preflight_report gx_pre gx_cfg ''inventory.json'' ''now'' (map (gx_facts ScenarioLeaderIsolation) ex_hosts)"

lemma gx_distinct: "ir_DistinctHosts gx_rep"
proof -
  have "machines_differ (map (gx_facts ScenarioLeaderIsolation) ex_hosts)" by code_simp
  then show ?thesis by (simp add: preflight_report_distinct gx_pre_def)
qed

lemma gx_linearizable: "Check search_check (PorcupineOps (mh_History now mode boundary eps (wl_Rec gx_verified))) = Ok"
proof -
  have "Check search_check (map (porcupine_op (wrap64 (max_return (Ops (wl_Rec gx_verified)) + 1))) (Ops (wl_Rec gx_verified))) = Ok" by code_simp
  then show ?thesis by (simp add: PorcupineOps_def mh_History_ops Let_def)
qed

lemma gx_outage: "om_Complete (measureOutage (Ops (wl_Rec gx_verified)) ''isolate_leader'' (ms 4807))"
  by code_simp

lemma gx_passed:
  assumes "fr_isolateLeaderNanos f = ms 4807" "fr_isolationElectionMicros f = 2000" "fr_restartMismatches f = []" "fr_restartVerified f"
    "fr_restartReadyNanos f > 0"
  shows "gr_Passed (gate_result search_check 7 ''now'' gx_cfg gx_opts gx_rep 1200 gx_verified f pids)"
proof -
  have "0 < ms 4807" "0 < micros_ms 2000" by (simp_all add: ms_def micros_ms_def)
  then show ?thesis using assms gx_distinct gx_linearizable gx_outage
    by (simp add: gate_result_def Let_def evaluateCriteria_def allMet_def criterion_def outage_criterion_def fr_Report_def RunCheck_def
        fr_measure_def mh_History_ops ScenarioFull_def ScenarioLeaderIsolation_def)
qed

lemma gx_writes: "\<exists>arts. writeArtifacts (ex_world hosts T n) (go_json gx_gate) (go_dir gx_gate) gx_cfg gx_opts mode res md s = Some (Inr arts, s)"
  if "gr_NegativeControl res = None"
  using that by (simp add: writeArtifacts_def writeJSONFile_def gx_opts_def act_simps file_error_def Let_def)

abbreviation gx_world :: "int world" where
  "gx_world \<equiv> ex_world ex_hosts (ms 4700) 1200"

lemma gx_notes:
  "\<exists>s'. run_notes gx_gate gx_opts '''' s = Some (Inr (), s') \<and> dv_world s' = dv_world s \<and> dv_dep s' = dv_dep s"
  by (simp add: run_notes_def gx_opts_def Note_def act_simps)

lemma gx_body:
  assumes "dv_world s = ms 4300"
  shows "\<exists>res s'. gate_body gx_world gx_gate gx_cfg gx_opts '''' gx_rep (Inr gx_work) (\<lambda>_. gx_verify) gx_rc s = Some (Inr res, s') \<and>
    gr_Passed res \<and> gr_DistinctHosts res"
proof -
  let ?s1 = "s\<lparr>dv_world := ms 4605, dv_dep := gx_running (dv_dep s), dv_run := NewFaultRunner\<rparr>"
  obtain s2 where s2: "run_notes gx_gate gx_opts '''' ?s1 = Some (Inr (), s2)" "dv_world s2 = ms 4605" using gx_notes [of ?s1] by auto
  obtain s3 where s3: "fr_Run gx_world (pf_txt (go_pre gx_gate)) gx_cfg s2 = Some (Inr (), s3)" "dv_world s3 = ms 5112"
      "fr_isolateLeaderNanos (dv_run s3) = Since (mh_NewRecorder 0) (ms 4807)" "fr_isolationElectionMicros (dv_run s3) = sat64 (2 * ms 1) div 1000"
    using gx_Run [of s2 "ms 4700" "pf_txt (go_pre gx_gate)"] s2(2) by (auto simp: ms_def)
  obtain s4 where s4: "RestartAllAndVerify gx_world gx_cfg (\<lambda>_. gx_verify) gx_rc gx_work s3 = Some (Inr gx_verified, s4)"
      "fr_isolateLeaderNanos (dv_run s4) = fr_isolateLeaderNanos (dv_run s3)"
      "fr_isolationElectionMicros (dv_run s4) = fr_isolationElectionMicros (dv_run s3)"
      "fr_restartMismatches (dv_run s4) = []" "fr_restartVerified (dv_run s4)" "fr_restartReadyNanos (dv_run s4) = Since (mh_NewRecorder 0) (ms 6018)"
    using gx_restart [of "ms 4700" s3 1200] s3(2) by (auto simp: ms_def)
  have num: "Since (mh_NewRecorder 0) (ms 4807) = ms 4807" "sat64 (2 * ms 1) div 1000 = 2000" "0 < Since (mh_NewRecorder 0) (ms 6018)" by code_simp+
  define res where "res = gate_result search_check 7 ''now'' gx_cfg gx_opts gx_rep 1200 gx_verified (dv_run s4) (dp_pids (dv_dep s4))"
  have passed: "gr_Passed res" unfolding res_def using s3 s4 num by (intro gx_passed) simp_all
  have "gr_NegativeControl res = None" by (simp add: res_def gate_result_def gx_opts_def Let_def)
  then obtain arts where arts: "writeArtifacts gx_world (go_json gx_gate) (go_dir gx_gate) gx_cfg gx_opts (ir_Mode gx_rep) res (RenderReport ex_inventory res) s4 = Some (Inr arts, s4)"
    using gx_writes by blast
  have start: "dp_StartAll gx_world gx_cfg s = Some (Inr (), s\<lparr>dv_world := ms 4603, dv_dep := gx_running (dv_dep s)\<rparr>)"
    using gx_StartAll [of "ms 4700" 1200 _ s] assms by (simp add: ms_def)
  have leader: "WaitLeader gx_world ex_hosts 0 (seconds 60) (s\<lparr>dv_world := ms 4603, dv_dep := gx_running (dv_dep s)\<rparr>) =
      Some (Inr (ex_h2, sat64 (2 * ms 1)), s\<lparr>dv_world := ms 4605, dv_dep := gx_running (dv_dep s)\<rparr>)"
    using gx_first_leader [of "s\<lparr>dv_world := ms 4603, dv_dep := gx_running (dv_dep s)\<rparr>" "ms 4700"] by (simp add: ms_def)
  have "gate_body gx_world gx_gate gx_cfg gx_opts '''' gx_rep (Inr gx_work) (\<lambda>_. gx_verify) gx_rc s = Some (Inr (res\<lparr>gr_Artifacts := arts\<rparr>), s4)"
    unfolding gate_body_def
    using start leader s2(1) s3(1) s4(1) arts
    by (simp add: act_simps Let_def gx_gate_def res_def gx_work_def)
  then show ?thesis using passed gx_distinct by (auto simp: res_def)
qed

lemma gx_gate_Run:
  "\<exists>res s'. gate_Run gx_world gx_gate gx_cfg gx_opts '''' (Inr gx_work) (\<lambda>_. gx_verify) gx_rc ex_drv = Some (Inr res, s') \<and>
    gr_Passed res \<and> gr_DistinctHosts res"
proof -
  let ?s = "\<lambda>n d. ex_drv\<lparr>dv_world := ms n, dv_dep := d\<rparr>"
  obtain res s' where body: "gate_body gx_world gx_gate gx_cfg gx_opts '''' gx_rep (Inr gx_work) (\<lambda>_. gx_verify) gx_rc (?s 4300 gx_built) = Some (Inr res, s')"
      "gr_Passed res" "gr_DistinctHosts res"
    using gx_body [of "?s 4300 gx_built"] by auto
  then have def: "deferred (teardown gx_world gx_cfg gx_opts) (gate_body gx_world gx_gate gx_cfg gx_opts '''' gx_rep (Inr gx_work) (\<lambda>_. gx_verify) gx_rc) (?s 4300 gx_built) =
      Some (Inr res, s'\<lparr>dv_world := dv_world s' + (3 * ms 100 + 3 * (2 * ms 100))\<rparr>)"
    using gx_teardown [of ex_hosts "ms 4700" 1200 ScenarioLeaderIsolation gx_opts] by (simp add: deferred_def takes_def act_simps)
  have pre: "Preflight gx_world gx_pre gx_cfg ''inventory.json'' '''' ''now'' ex_drv = Some (Inr gx_rep, ?s 2100 NewDeployment)"
    using gx_collect_all [of ex_hosts ex_hosts "ms 4700" 1200 ScenarioLeaderIsolation ex_drv]
    by (simp add: Preflight_def act_simps ex_hosts_def ms_def ex_drv_def)
  have curl: "requireCurl gx_world gx_cfg (?s 2100 NewDeployment) = Some (Inr (), ?s 2400 NewDeployment)"
    using gx_requireCurl [of ex_hosts "ms 4700" 1200 ScenarioLeaderIsolation] by (simp add: takes_def ms_def)
  have build: "dp_Build gx_world gx_cfg (?s 2400 NewDeployment) = Some (Inr (), ?s 2500 gx_built)"
    using gx_Build [of "?s 2400 NewDeployment" ex_hosts "ms 4700" 1200] by (simp add: ms_def)
  have deploy: "each (\<lambda>h. bnd (cleanNodeState gx_world gx_cfg h) (\<lambda>_. dp_Deploy gx_world gx_cfg h)) ex_hosts (?s 2500 gx_built) = Some (Inr (), ?s 4300 gx_built)"
    using gx_deploy_all [of "?s 2500 gx_built" ex_hosts "ms 4700" 1200 ScenarioLeaderIsolation] by (simp add: ms_def)
  have "gate_Run gx_world gx_gate gx_cfg gx_opts '''' (Inr gx_work) (\<lambda>_. gx_verify) gx_rc ex_drv =
      Some (Inr res, s'\<lparr>dv_world := dv_world s' + (3 * ms 100 + 3 * (2 * ms 100))\<rparr>)"
    unfolding gate_Run_def using pre curl build deploy def by (simp add: act_simps file_error_def gx_gate_def gx_opts_def)
  then show ?thesis using body(2,3) by blast
qed

theorem gate_passes_only_with_evidence_witness:
  "\<exists>res s'. gate_Run gx_world gx_gate gx_cfg gx_opts '''' (Inr gx_work) (\<lambda>_. gx_verify) gx_rc ex_drv = Some (Inr res, s') \<and>
     runGate_exit gx_opts (Inr res) = exitOK \<and> machines_differ (ir_Hosts (gr_Inventory res)) \<and>
     aw_All (wl_Acked gx_work) \<noteq> [] \<and>
     (\<forall>p \<in> set (aw_All (wl_Acked gx_work)). \<exists>rd \<in> set (mh_Ops (gr_History res)). verified_read gx_verify PhaseVerify p rd)"
proof -
  obtain res s' where run: "gate_Run gx_world gx_gate gx_cfg gx_opts '''' (Inr gx_work) (\<lambda>_. gx_verify) gx_rc ex_drv = Some (Inr res, s')"
      "gr_Passed res" "gr_DistinctHosts res"
    using gx_gate_Run by blast
  have ok: "runGate_exit gx_opts (Inr res) = exitOK" "\<not> op_ExpectReject gx_opts" using run(2,3) by (simp_all add: runGate_exit_def gx_opts_def)
  have "porcupine (go_check gx_gate)" "\<forall>xs. set (pf_ord (go_pre gx_gate) xs) = set xs"
    using exhaustive.porcupine_axioms by (simp_all add: gx_gate_def gx_pre_def)
  from gate_passes_only_with_evidence [OF this run(1) ok(1)] ok(2)
  have "machines_differ (ir_Hosts (gr_Inventory res))" "\<forall>p \<in> set (aw_All (wl_Acked gx_work)). \<exists>rd \<in> set (mh_Ops (gr_History res)). verified_read gx_verify PhaseVerify p rd"
    by (auto simp: ex_inventory_def)
  moreover have "aw_All (wl_Acked gx_work) \<noteq> []" by code_simp
  ultimately show ?thesis using run(1) ok(1) by blast
qed

end
