(* ===== verification/OutageFacts.thy ===== *)
theory OutageFacts
  imports Faults
begin

text \<open>What the write outage of a fault means, and that the window of a fault counts what happened inside it.\<close>

section \<open>Outages\<close>

definition ack_times :: "OpRecord list \<Rightarrow> int set" where
  "ack_times ops = or_ReturnNanos ` {op \<in> set ops. is_ack_put op}"

lemma ack_times_simps [simp]:
  "ack_times [] = {}"
  "is_ack_put op \<Longrightarrow> ack_times (op # ops) = insert (or_ReturnNanos op) (ack_times ops)"
  "\<not> is_ack_put op \<Longrightarrow> ack_times (op # ops) = ack_times ops"
  by (auto simp: ack_times_def)

lemma fold_outage_before:
  "b \<le> fst (fold (outage_step t) ops (b, a)) \<and> (\<forall>r \<in> ack_times ops. r \<le> t \<longrightarrow> r \<le> fst (fold (outage_step t) ops (b, a))) \<and>
   (fst (fold (outage_step t) ops (b, a)) = b \<or> fst (fold (outage_step t) ops (b, a)) \<in> {r \<in> ack_times ops. r \<le> t})"
proof (induction ops arbitrary: b a)
  case (Cons op ops)
  obtain b1 a1 where s: "outage_step t op (b, a) = (b1, a1)" by (cases "outage_step t op (b, a)")
  then have "b \<le> b1" "is_ack_put op \<Longrightarrow> or_ReturnNanos op \<le> t \<Longrightarrow> or_ReturnNanos op \<le> b1"
      "b1 = b \<or> is_ack_put op \<and> or_ReturnNanos op \<le> t \<and> b1 = or_ReturnNanos op"
    by (auto simp: outage_step_def Let_def split: if_splits)
  then show ?case using Cons [of b1 a1] s by (cases "is_ack_put op") auto
qed simp

lemma fold_outage_after:
  assumes "\<forall>r \<in> ack_times ops. 0 < r"
  shows "(snd (fold (outage_step t) ops (b, a)) < 0 \<longleftrightarrow> a < 0 \<and> (\<forall>r \<in> ack_times ops. r \<le> t)) \<and>
   (\<forall>r \<in> ack_times ops. t < r \<longrightarrow> snd (fold (outage_step t) ops (b, a)) \<le> r) \<and>
   (0 \<le> a \<longrightarrow> snd (fold (outage_step t) ops (b, a)) \<le> a) \<and>
   (snd (fold (outage_step t) ops (b, a)) = a \<or> snd (fold (outage_step t) ops (b, a)) \<in> {r \<in> ack_times ops. t < r})"
  using assms
proof (induction ops arbitrary: b a)
  case (Cons op ops)
  obtain b1 a1 where s: "outage_step t op (b, a) = (b1, a1)" by (cases "outage_step t op (b, a)")
  have pos: "\<forall>r \<in> ack_times ops. 0 < r" "is_ack_put op \<Longrightarrow> 0 < or_ReturnNanos op"
    using Cons.prems by (cases "is_ack_put op"; simp)+
  show ?case
  proof (cases "is_ack_put op \<and> t < or_ReturnNanos op")
    case True
    then have "a1 = (if a < 0 \<or> or_ReturnNanos op < a then or_ReturnNanos op else a)" using s by (auto simp: outage_step_def)
    then show ?thesis using Cons.IH [OF pos(1), of b1 a1] s True pos(2) by (auto split: if_splits)
  next
    case False
    then have "a1 = a" using s by (auto simp: outage_step_def Let_def split: if_splits)
    then show ?thesis using Cons.IH [OF pos(1), of b1 a1] s False by (cases "is_ack_put op") auto
  qed
qed simp

text \<open>
  C31: the write outage of a fault is the gap around it in which no write was acknowledged.  With positive return times,
  the measurement is complete exactly when a write was acknowledged on either side of the event; then both ends are
  return times of acknowledged writes, the event lies in between, no acknowledged write returned inside, and the outage
  is the distance of the ends.
\<close>

theorem outage_is_the_gap:
  assumes "\<forall>r \<in> ack_times ops. 0 < r \<and> r < 2 ^ 63"
  shows "(om_Complete (measureOutage ops event t) \<longleftrightarrow> (\<exists>r \<in> ack_times ops. r \<le> t) \<and> (\<exists>r \<in> ack_times ops. t < r)) \<and>
    (om_Complete (measureOutage ops event t) \<longrightarrow>
       (let b = om_LastAckBeforeNanos (measureOutage ops event t); a = om_FirstAckAfterNanos (measureOutage ops event t) in
        b \<in> ack_times ops \<and> a \<in> ack_times ops \<and> b \<le> t \<and> t < a \<and> (\<forall>r \<in> ack_times ops. \<not> (b < r \<and> r < a)) \<and>
        om_OutageMs (measureOutage ops event t) = of_int (a - b) / 1000000))"
proof -
  obtain b a where f: "fold (outage_step t) ops (0, -1) = (b, a)" by (cases "fold (outage_step t) ops (0, -1)")
  have before: "0 \<le> b" "\<forall>r \<in> ack_times ops. r \<le> t \<longrightarrow> r \<le> b" "b = 0 \<or> b \<in> ack_times ops \<and> b \<le> t"
    using fold_outage_before [of 0 t ops "-1"] f by auto
  have after: "a < 0 \<longleftrightarrow> (\<forall>r \<in> ack_times ops. r \<le> t)" "\<forall>r \<in> ack_times ops. t < r \<longrightarrow> a \<le> r"
      "a = -1 \<or> a \<in> ack_times ops \<and> t < a"
    using fold_outage_after [of ops t 0 "-1"] f assms by auto
  have complete: "om_Complete (measureOutage ops event t) \<longleftrightarrow> \<not> a < 0 \<and> 0 < b" by (simp add: measureOutage_def f Let_def)
  have ends: "om_LastAckBeforeNanos (measureOutage ops event t) = b" by (simp add: measureOutage_def f Let_def)
  have "0 < b \<longleftrightarrow> (\<exists>r \<in> ack_times ops. r \<le> t)" using before assms by force
  moreover have "\<not> a < 0 \<longleftrightarrow> (\<exists>r \<in> ack_times ops. t < r)" using after(1) by force
  moreover have "\<not> (b < r \<and> r < a)" if "r \<in> ack_times ops" for r using before(2) after(2) that by force
  moreover have "om_OutageMs (measureOutage ops event t) = of_int (a - b) / 1000000 \<and> om_FirstAckAfterNanos (measureOutage ops event t) = a \<and>
      b \<in> ack_times ops \<and> a \<in> ack_times ops \<and> b \<le> t \<and> t < a" if "\<not> a < 0" "0 < b"
  proof -
    have "a \<in> ack_times ops" "t < a" "b \<in> ack_times ops" "b \<le> t" using that before(3) after(3) by auto
    moreover from this have "0 < a \<and> a < 2 ^ 63" "0 < b \<and> b < 2 ^ 63" using assms by blast+
    then have "wrap64 (a - b) = a - b" by (intro wrap64_id) auto
    ultimately show ?thesis using that by (simp add: measureOutage_def f nanos_ms_def Let_def)
  qed
  ultimately show ?thesis unfolding complete ends Let_def by auto
qed

definition wit_ack :: "string \<Rightarrow> int \<Rightarrow> OpRecord" where
  "wit_ack op t = \<lparr>or_Index = 0, or_ClientID = 0, or_ClientSession = '''', or_ReqID = 0, or_Op = op, or_Key = ''k'', or_Value = ''v'',
     or_CallNanos = 0, or_ReturnNanos = t, or_Status = StatusOK, or_HTTPCode = 200, or_Attempts = 1, or_Redirects = 0, or_Endpoint = '''',
     or_ObservedVal = '''', or_ObservedFound = False, or_Error = '''', or_Phase = PhaseTraffic\<rparr>"

theorem outage_is_the_gap_witness:
  "om_Complete (measureOutage [wit_ack ''put'' 9000000, wit_ack ''get'' 5000000, wit_ack ''put'' 2000000] ''kill_leader'' 4000000) \<and>
   om_OutageMs (measureOutage [wit_ack ''put'' 9000000, wit_ack ''get'' 5000000, wit_ack ''put'' 2000000] ''kill_leader'' 4000000) = 7"
proof -
  let ?ops = "[wit_ack ''put'' 9000000, wit_ack ''get'' 5000000, wit_ack ''put'' 2000000]"
  have "is_ack_put (wit_ack ''put'' r)" "\<not> is_ack_put (wit_ack ''get'' r)" "or_ReturnNanos (wit_ack op r) = r" for op r
    by (simp_all add: is_ack_put_def wit_ack_def)
  then have t: "ack_times ?ops = {9000000, 2000000}" by simp
  then have "\<forall>r \<in> ack_times ?ops. 0 < r \<and> r < 2 ^ 63" by simp
  from outage_is_the_gap [OF this, of "''kill_leader''" 4000000]
  show ?thesis unfolding t by (auto simp: Let_def)
qed

end
