(* ===== verification/Bench.thy ===== *)
theory Bench
  imports Traffic GoNet
begin

text \<open>
  \<open>cmd/qlbench/main.go\<close>: the benchmark client with its redirects and retries, the load mode with its workers
  and percentiles, the failover mode with its outage measurement.

  The network, the random draws and the clock are arguments, as for the driver's clients.  What the modes
  print is the value they return: the figures of a report, not their formatting.  \<open>os.Exit\<close> and a panic are
  error values.
\<close>

section \<open>The client\<close>

record benchClient =
  bc_endpoints :: "string list"
  bc_leader :: string

definition bench_newClient :: "string list \<Rightarrow> benchClient" where
  "bench_newClient endpoints = \<lparr>bc_endpoints = endpoints, bc_leader = ''''\<rparr>"

definition bc_base :: "nat \<Rightarrow> benchClient \<Rightarrow> string res" where
  "bc_base rnd c =
     (if bc_leader c \<noteq> '''' then Inr (bc_leader c)
      else if bc_endpoints c = [] then Inl ErrPanic
      else Inr (bc_endpoints c ! (rnd mod length (bc_endpoints c))))"

definition bench_body :: "string \<Rightarrow> string \<Rightarrow> string \<Rightarrow> u64 \<Rightarrow> string" where
  "bench_body op val clientID reqID =
     jprint (JObj [(''client_id'', JStr clientID), (''op'', JStr op), (''req_id'', JNum (format_uint reqID)), (''value'', JStr val)])"

type_synonym bench_result = "(bool \<times> benchClient \<times> http_request list) res"

definition bench_sent :: "http_request \<Rightarrow> bench_result \<Rightarrow> bench_result" where
  "bench_sent rq r = map_sum id (\<lambda>(ok, c, rqs). (ok, c, rq # rqs)) r"

definition bench_redirect :: "int \<Rightarrow> string \<Rightarrow> bool" where
  "bench_redirect sc location \<longleftrightarrow> sc = 307 \<and> contains_str location ''/kv/''"

text \<open>
  The error of \<open>http.NewRequest\<close> is dropped, and \<open>Do\<close> of the nil request it leaves panics.
\<close>

fun write_loop :: "attempt_env \<Rightarrow> string \<Rightarrow> string \<Rightarrow> nat \<Rightarrow> nat \<Rightarrow> benchClient \<Rightarrow> bench_result" where
  "write_loop env key body 0 i c = Inr (False, c, [])"
| "write_loop env key body (Suc n) i c =
     rbind (bc_base (ae_Intn env i) c) (\<lambda>endpoint.
     let rq = put_request endpoint key body in
     case ae_NewRequest env (rq_URL rq) of
       Some _ \<Rightarrow> Inl ErrPanic
     | None \<Rightarrow> bench_sent rq
         (case ae_Do env i rq of
            TransportError _ \<Rightarrow> write_loop env key body n (Suc i) (c\<lparr>bc_leader := ''''\<rparr>)
          | Reply sc location _ \<Rightarrow>
              if sc = 200 then Inr (True, c, [])
              else if bench_redirect sc location then
                write_loop env key body n (Suc i) (c\<lparr>bc_leader := leaderFromLocation location\<rparr>)
              else write_loop env key body n (Suc i) (c\<lparr>bc_leader := ''''\<rparr>)))"

definition bench_write :: "attempt_env \<Rightarrow> string \<Rightarrow> string \<Rightarrow> string \<Rightarrow> string \<Rightarrow> u64 \<Rightarrow> benchClient \<Rightarrow> bench_result" where
  "bench_write env op key val clientID reqID c = write_loop env key (bench_body op val clientID reqID) 8 0 c"

definition bench_get :: "string \<Rightarrow> string \<Rightarrow> string \<Rightarrow> http_request" where
  "bench_get endpoint key consistency =
     \<lparr>rq_Method = ''GET'', rq_URL = endpoint @ ''/kv/'' @ key @ ''?consistency='' @ consistency, rq_Body = ''''\<rparr>"

text \<open>Here the error of the request is an error of \<open>Get\<close>, which is retried like one of the transport.\<close>

fun bench_read_loop :: "attempt_env \<Rightarrow> string \<Rightarrow> string \<Rightarrow> nat \<Rightarrow> nat \<Rightarrow> benchClient \<Rightarrow> bench_result" where
  "bench_read_loop env key consistency 0 i c = Inr (False, c, [])"
| "bench_read_loop env key consistency (Suc n) i c =
     rbind (bc_base (ae_Intn env i) c) (\<lambda>endpoint.
     let rq = bench_get endpoint key consistency in
     case ae_NewRequest env (rq_URL rq) of
       Some _ \<Rightarrow> bench_read_loop env key consistency n (Suc i) c
     | None \<Rightarrow> bench_sent rq
         (case ae_Do env i rq of
            TransportError _ \<Rightarrow> bench_read_loop env key consistency n (Suc i) c
          | Reply sc _ _ \<Rightarrow>
              if sc = 200 then Inr (True, c, []) else bench_read_loop env key consistency n (Suc i) c))"

definition bench_read :: "attempt_env \<Rightarrow> string \<Rightarrow> string \<Rightarrow> benchClient \<Rightarrow> bench_result" where
  "bench_read env key consistency c = bench_read_loop env key consistency 8 0 c"

fun once_loop :: "attempt_env \<Rightarrow> string \<Rightarrow> string \<Rightarrow> nat \<Rightarrow> nat \<Rightarrow> benchClient \<Rightarrow> bench_result" where
  "once_loop env key body 0 i c = Inr (False, c, [])"
| "once_loop env key body (Suc n) i c =
     rbind (bc_base (ae_Intn env i) c) (\<lambda>endpoint.
     let rq = put_request endpoint key body in
     case ae_NewRequest env (rq_URL rq) of
       Some _ \<Rightarrow> Inl ErrPanic
     | None \<Rightarrow> bench_sent rq
         (case ae_Do env i rq of
            TransportError _ \<Rightarrow> Inr (False, c\<lparr>bc_leader := ''''\<rparr>, [])
          | Reply sc location _ \<Rightarrow>
              if sc = 200 then Inr (True, c, [])
              else if sc = 307 \<and> location \<noteq> '''' \<and> contains_str location ''/kv/'' then
                once_loop env key body n (Suc i) (c\<lparr>bc_leader := leaderFromLocation location\<rparr>)
              else Inr (False, c\<lparr>bc_leader := ''''\<rparr>, [])))"

definition writeOnce :: "attempt_env \<Rightarrow> string \<Rightarrow> string \<Rightarrow> string \<Rightarrow> string \<Rightarrow> u64 \<Rightarrow> benchClient \<Rightarrow> bench_result" where
  "writeOnce env op key val clientID reqID c = once_loop env key (bench_body op val clientID reqID) 2 0 c"

section \<open>Load mode\<close>

definition ErrExit :: "nat \<Rightarrow> err" where
  "ErrExit n = ErrMsg (''exit '' @ dec_of_nat n)"

definition bench_key :: "nat \<Rightarrow> string" where
  "bench_key i = ''bench-'' @ dec_of_nat i"

record load_cfg =
  lc_endpoints :: string
  lc_op :: string
  lc_clients :: nat
  lc_duration :: int
  lc_keys :: nat
  lc_pid :: nat

fun seed_loop :: "(nat \<Rightarrow> attempt_env) \<Rightarrow> nat \<Rightarrow> nat \<Rightarrow> benchClient \<Rightarrow> benchClient res" where
  "seed_loop net 0 i c = Inr c"
| "seed_loop net (Suc n) i c =
     rbind (bench_write (net i) ''put'' (bench_key i) ''seed'' ''qlbench-seed'' (of_nat (i + 1)) c) (\<lambda>(ok, c1, _).
     if ok then seed_loop net n (Suc i) c1 else Inl (ErrExit 1))"

text \<open>What one round of a worker reads from outside: the clock of the loop's test, the key drawn, the network, the time the call took.\<close>

record load_iter =
  li_now :: int
  li_key :: nat
  li_net :: attempt_env
  li_took :: int

record load_worker =
  lw_client :: benchClient
  lw_reqID :: u64
  lw_local :: "int list"
  lw_errs :: nat

definition load_id :: "load_cfg \<Rightarrow> nat \<Rightarrow> string" where
  "load_id cf w = ''qlbench-'' @ dec_of_nat (lc_pid cf) @ ''-'' @ dec_of_nat w"

definition load_op :: "load_cfg \<Rightarrow> nat \<Rightarrow> string \<Rightarrow> load_iter \<Rightarrow> load_worker \<Rightarrow> (bool \<times> load_worker) res" where
  "load_op cf w key it k =
     (if lc_op cf = ''put'' \<or> lc_op cf = ''append'' then
        (let reqID = lw_reqID k + 1 in
         rbind (bench_write (li_net it) (lc_op cf) key (''v'' @ format_uint reqID) (load_id cf w) reqID (lw_client k)) (\<lambda>(ok, c, _).
         Inr (ok, k\<lparr>lw_reqID := reqID, lw_client := c\<rparr>)))
      else if lc_op cf = ''linread'' then
        rbind (bench_read (li_net it) key ''linearizable'' (lw_client k)) (\<lambda>(ok, c, _). Inr (ok, k\<lparr>lw_client := c\<rparr>))
      else if lc_op cf = ''localread'' then
        rbind (bench_read (li_net it) key ''local'' (lw_client k)) (\<lambda>(ok, c, _). Inr (ok, k\<lparr>lw_client := c\<rparr>))
      else Inl (ErrExit 2))"

text \<open>\<open>Intn\<close> of an empty key space panics.\<close>

definition load_round :: "load_cfg \<Rightarrow> nat \<Rightarrow> load_iter \<Rightarrow> load_worker \<Rightarrow> load_worker res" where
  "load_round cf w it k =
     (if lc_keys cf = 0 then Inl ErrPanic
      else
        rbind (load_op cf w (bench_key (li_key it mod lc_keys cf)) it k) (\<lambda>(ok, k1).
        Inr (if ok then k1\<lparr>lw_local := lw_local k1 @ [li_took it]\<rparr> else k1\<lparr>lw_errs := lw_errs k1 + 1\<rparr>)))"

partial_function (option) load_loop ::
  "load_cfg \<Rightarrow> nat \<Rightarrow> int \<Rightarrow> (nat \<Rightarrow> load_iter) \<Rightarrow> nat \<Rightarrow> load_worker \<Rightarrow> load_worker res option" where
  "load_loop cf w deadline its i k =
     (if li_now (its i) < deadline then
        (case load_round cf w (its i) k of
           Inl e \<Rightarrow> Some (Inl e)
         | Inr k1 \<Rightarrow> load_loop cf w deadline its (Suc i) k1)
      else Some (Inr k))"

definition load_start :: "load_cfg \<Rightarrow> load_worker" where
  "load_start cf =
     \<lparr>lw_client = bench_newClient (split_char CHR '','' (lc_endpoints cf)), lw_reqID = 0, lw_local = [], lw_errs = 0\<rparr>"

text \<open>
  The workers add what they measured under the mutex, in the order in which they end.
\<close>

fun load_join ::
  "load_cfg \<Rightarrow> int \<Rightarrow> (nat \<Rightarrow> nat \<Rightarrow> load_iter) \<Rightarrow> nat list \<Rightarrow> int list \<Rightarrow> nat \<Rightarrow> (int list \<times> nat) res option" where
  "load_join cf deadline its [] lats errs = Some (Inr (lats, errs))"
| "load_join cf deadline its (w # ws) lats errs =
     (case load_loop cf w deadline (its w) 0 (load_start cf) of
        None \<Rightarrow> None
      | Some (Inl e) \<Rightarrow> Some (Inl e)
      | Some (Inr k) \<Rightarrow> load_join cf deadline its ws (lats @ lw_local k) (errs + lw_errs k))"

subsection \<open>Percentiles\<close>

text \<open>
  \<open>float64\<close> has 53 significant bits and rounds to nearest, ties to even.  \<open>round53 x\<close> is the number a product
  with the exact value \<open>x\<close> is rounded to, for a natural number \<open>x\<close>; a positive fraction below one is given by its numerator over
  \<open>2 ^ 53\<close>, so that \<open>int(float64(n) * p)\<close> is the rounded product divided by \<open>2 ^ 53\<close>.  \<open>float64(n)\<close> is \<open>n\<close> below
  \<open>2 ^ 53\<close>.
\<close>

fun bit_len :: "nat \<Rightarrow> nat" where
  "bit_len n = (if n = 0 then 0 else Suc (bit_len (n div 2)))"

declare bit_len.simps [simp del]

definition round_at :: "nat \<Rightarrow> nat \<Rightarrow> nat" where
  "round_at s x =
     (let q = x div 2 ^ s; r = x mod 2 ^ s in
      (if 2 * r > 2 ^ s \<or> (2 * r = 2 ^ s \<and> odd q) then q + 1 else q) * 2 ^ s)"

definition round53 :: "nat \<Rightarrow> nat" where
  "round53 x = round_at (bit_len x - 53) x"

definition pct_index :: "nat \<Rightarrow> nat \<Rightarrow> nat" where
  "pct_index p n = round53 ((n - 1) * p) div 2 ^ 53"

text \<open>The nearest \<open>float64\<close> of 0.50, 0.95 and 0.99, over \<open>2 ^ 53\<close>.\<close>

definition p50 :: nat where "p50 = 4503599627370496"
definition p95 :: nat where "p95 = 8556839292003942"
definition p99 :: nat where "p99 = 8917127262193582"

record LoadReport =
  lr_ops :: nat
  lr_errs :: nat
  lr_p50 :: int
  lr_p95 :: int
  lr_p99 :: int
  lr_max :: int

definition load_report :: "int list \<Rightarrow> nat \<Rightarrow> LoadReport res" where
  "load_report lats errs =
     (if lats = [] then Inl (ErrExit 1)
      else
        let s = sort lats; n = length s in
        Inr \<lparr>lr_ops = n, lr_errs = errs, lr_p50 = s ! pct_index p50 n, lr_p95 = s ! pct_index p95 n,
             lr_p99 = s ! pct_index p99 n, lr_max = s ! (n - 1)\<rparr>)"

text \<open>\<open>ends\<close> gives the instants at which the workers take the mutex; the throughput, a quotient of the report and the flag, is left out.\<close>

definition runLoad ::
  "load_cfg \<Rightarrow> (nat \<Rightarrow> attempt_env) \<Rightarrow> int \<Rightarrow> (nat \<Rightarrow> nat \<Rightarrow> load_iter) \<Rightarrow> (nat \<Rightarrow> int) \<Rightarrow> LoadReport res option" where
  "runLoad cf seedNet now its ends =
     (case seed_loop seedNet (lc_keys cf) 0 (bench_newClient (split_char CHR '','' (lc_endpoints cf))) of
        Inl e \<Rightarrow> Some (Inl e)
      | Inr _ \<Rightarrow>
          map_option (\<lambda>r. rbind r (\<lambda>(lats, errs). load_report lats errs)) 
            (load_join cf (now + lc_duration cf) its (sort_key ends [0..<lc_clients cf]) [] 0))"

section \<open>Failover mode\<close>

record fo_cfg =
  fc_endpoints :: string
  fc_duration :: int
  fc_pid :: nat

text \<open>A round reads the clock before the test, the network of the write and the clock after it.\<close>

record fo_iter =
  fi_test :: int
  fi_net :: attempt_env
  fi_now :: int

record fo_state =
  fo_client :: benchClient
  fo_reqID :: u64
  fo_lastOK :: "int option"
  fo_inOutage :: bool
  fo_outageStart :: int
  fo_maxGap :: int
  fo_printed :: "int list"

definition fo_start :: "fo_cfg \<Rightarrow> fo_state" where
  "fo_start cf =
     \<lparr>fo_client = bench_newClient (split_char CHR '','' (fc_endpoints cf)), fo_reqID = 0, fo_lastOK = None, fo_inOutage = False,
      fo_outageStart = 0, fo_maxGap = 0, fo_printed = []\<rparr>"

definition fo_id :: "fo_cfg \<Rightarrow> string" where
  "fo_id cf = ''qlbench-failover-'' @ dec_of_nat (fc_pid cf)"

definition fo_write :: "fo_cfg \<Rightarrow> fo_iter \<Rightarrow> fo_state \<Rightarrow> (bool \<times> fo_state) res" where
  "fo_write cf it s =
     (let reqID = fo_reqID s + 1 in
      rbind (writeOnce (fi_net it) ''put'' ''failover-key'' (''v'' @ format_uint reqID) (fo_id cf) reqID (fo_client s)) (\<lambda>(ok, c, _).
      Inr (ok, s\<lparr>fo_reqID := reqID, fo_client := c\<rparr>)))"

definition fo_observe :: "bool \<Rightarrow> int \<Rightarrow> fo_state \<Rightarrow> fo_state" where
  "fo_observe ok now s =
     (if ok then
        (let s1 = (if fo_inOutage s then
                     (let gap = now - fo_outageStart s in
                      s\<lparr>fo_printed := fo_printed s @ [gap], fo_maxGap := (if gap > fo_maxGap s then gap else fo_maxGap s),
                        fo_inOutage := False\<rparr>)
                   else s)
         in s1\<lparr>fo_lastOK := Some now\<rparr>)
      else if \<not> fo_inOutage s then
        s\<lparr>fo_inOutage := True, fo_outageStart := (case fo_lastOK s of None \<Rightarrow> now | Some t \<Rightarrow> t)\<rparr>
      else s)"

partial_function (option) fo_loop :: "fo_cfg \<Rightarrow> int \<Rightarrow> (nat \<Rightarrow> fo_iter) \<Rightarrow> nat \<Rightarrow> fo_state \<Rightarrow> fo_state res option" where
  "fo_loop cf deadline its i s =
     (if fi_test (its i) < deadline then
        (case fo_write cf (its i) s of
           Inl e \<Rightarrow> Some (Inl e)
         | Inr (ok, s1) \<Rightarrow> fo_loop cf deadline its (Suc i) (fo_observe ok (fi_now (its i)) s1))
      else Some (Inr s))"

text \<open>The outages printed, in order, and the largest of them.\<close>

definition runFailover :: "fo_cfg \<Rightarrow> int \<Rightarrow> (nat \<Rightarrow> fo_iter) \<Rightarrow> (int list \<times> int) res option" where
  "runFailover cf now its =
     map_option (map_sum id (\<lambda>s. (fo_printed s, fo_maxGap s))) (fo_loop cf (now + fc_duration cf) its 0 (fo_start cf))"

section \<open>The command\<close>

datatype bench_mode = BenchLoad "string list" | BenchFailover "string list"

definition bench_main :: "string list \<Rightarrow> bench_mode res" where
  "bench_main args =
     (case args of
        prog # mode # rest \<Rightarrow>
          if mode = ''load'' then Inr (BenchLoad rest)
          else if mode = ''failover'' then Inr (BenchFailover rest)
          else Inl (ErrExit 2)
      | _ \<Rightarrow> Inl (ErrExit 2))"

end
