(* ===== verification/BenchFacts.thy ===== *)
theory BenchFacts
  imports Bench TrafficFacts
begin

text \<open>
  A write of the benchmark is one command however often it is sent; the percentiles of the load mode are
  in range and in order; the failover mode measures the outages its observations have.
\<close>

section \<open>Writes\<close>

definition no_bad_url :: "attempt_env \<Rightarrow> bool" where
  "no_bad_url env \<longleftrightarrow> ae_NewRequest env = (\<lambda>_. None)"

lemma bc_base_ok: "bc_endpoints c \<noteq> [] \<Longrightarrow> \<exists>e. bc_base rnd c = Inr e"
  by (cases "bc_leader c = []") (simp_all add: bc_base_def)

definition bench_post ::
  "attempt_env \<Rightarrow> string \<Rightarrow> string \<Rightarrow> nat \<Rightarrow> nat \<Rightarrow> benchClient \<Rightarrow> bool \<times> benchClient \<times> http_request list \<Rightarrow> bool" where
  "bench_post env key body n i c r \<longleftrightarrow>
     (case r of (ok, c1, rqs) \<Rightarrow>
        length rqs \<le> n \<and> bc_endpoints c1 = bc_endpoints c \<and>
        (\<forall>rq \<in> set rqs. rq_Method rq = ''PUT'' \<and> rq_Body rq = body \<and> suffix (''/kv/'' @ key) (rq_URL rq)) \<and>
        (ok \<longleftrightarrow> answered env i rqs) \<and> (ok \<longrightarrow> \<not> answered env i (butlast rqs)))"

lemma bench_post_0 [simp]: "bench_post env key body n i c (False, c, [])"
  by (simp add: bench_post_def)

text \<open>One attempt: the loop ends with it, or the rest of the loop follows a request that was not answered.\<close>

definition bench_call :: "attempt_env \<Rightarrow> string \<Rightarrow> string \<Rightarrow> nat \<Rightarrow> nat \<Rightarrow> benchClient \<Rightarrow> bench_result \<Rightarrow> bool" where
  "bench_call env key body n i c x \<longleftrightarrow> (\<exists>r. x = Inr r \<and> bench_post env key body n i c r)"

lemma bench_call_sent:
  assumes "rq = put_request endpoint key body" "bench_call env key body n (Suc i) c1 x" "bc_endpoints c1 = bc_endpoints c"
    "\<nexists>loc b. ae_Do env i rq = Reply 200 loc b"
  shows "bench_call env key body (Suc n) i c (bench_sent rq x)"
proof -
  obtain ok c2 rqs where x: "x = Inr (ok, c2, rqs)" and post: "bench_post env key body n (Suc i) c1 (ok, c2, rqs)"
    using assms(2) by (auto simp: bench_call_def)
  have "answered env i (butlast (rq # rqs)) \<longleftrightarrow> answered env (Suc i) (butlast rqs)" using assms(4) by auto
  then have "bench_post env key body (Suc n) i c (ok, c2, rq # rqs)"
    using post assms(3,4) by (auto simp: bench_post_def assms(1) put_request_def suffix_def)
  then show ?thesis by (simp add: bench_call_def bench_sent_def x)
qed

lemma bench_call_ok:
  assumes "rq = put_request endpoint key body" "ae_Do env i rq = Reply 200 loc b"
  shows "bench_call env key body (Suc n) i c (bench_sent rq (Inr (True, c, [])))"
  using assms(2) by (auto simp: bench_call_def bench_sent_def bench_post_def assms(1) put_request_def suffix_def)

lemma bench_call_end: "bc_endpoints c1 = bc_endpoints c \<Longrightarrow> bench_call env key body n i c (Inr (False, c1, []))"
  by (simp add: bench_call_def bench_post_def)

lemma write_loop_call:
  assumes "no_bad_url env" "bc_endpoints c \<noteq> []"
  shows "bench_call env key body n i c (write_loop env key body n i c)"
  using assms(2)
proof (induction n arbitrary: i c)
  case (Suc n)
  obtain endpoint where e: "bc_base (ae_Intn env i) c = Inr endpoint" using bc_base_ok Suc.prems by blast
  define rq where "rq = put_request endpoint key body"
  show ?case
  proof (cases "ae_Do env i rq")
    case (TransportError x)
    then show ?thesis
      using bench_call_sent [OF rq_def Suc.IH [of "c\<lparr>bc_leader := ''''\<rparr>" "Suc i"]] e assms(1) Suc.prems
      by (simp add: no_bad_url_def rq_def [symmetric] Let_def)
  next
    case (Reply sc loc b)
    show ?thesis
    proof (cases "sc = 200")
      case True
      then show ?thesis
        using bench_call_ok [OF rq_def] Reply e assms(1) by (simp add: no_bad_url_def rq_def [symmetric] Let_def)
    next
      case False
      then show ?thesis
        using bench_call_sent [OF rq_def Suc.IH [of "c\<lparr>bc_leader := ''''\<rparr>" "Suc i"]]
          bench_call_sent [OF rq_def Suc.IH [of "c\<lparr>bc_leader := leaderFromLocation loc\<rparr>" "Suc i"]] Reply e assms(1) Suc.prems
        by (simp add: no_bad_url_def rq_def [symmetric] Let_def)
    qed
  qed
qed (simp add: bench_call_def)

lemma once_loop_call:
  assumes "no_bad_url env" "bc_endpoints c \<noteq> []"
  shows "bench_call env key body n i c (once_loop env key body n i c)"
  using assms(2)
proof (induction n arbitrary: i c)
  case (Suc n)
  obtain endpoint where e: "bc_base (ae_Intn env i) c = Inr endpoint" using bc_base_ok Suc.prems by blast
  define rq where "rq = put_request endpoint key body"
  have fin: "bench_call env key body (Suc n) i c (bench_sent rq (Inr (False, c\<lparr>bc_leader := ''''\<rparr>, [])))"
    if "\<nexists>loc b. ae_Do env i rq = Reply 200 loc b"
    using bench_call_sent [OF rq_def bench_call_end [OF refl] _ that] by simp
  show ?case
  proof (cases "ae_Do env i rq")
    case (TransportError x)
    then show ?thesis using fin e assms(1) by (simp add: no_bad_url_def rq_def [symmetric] Let_def)
  next
    case (Reply sc loc b)
    show ?thesis
    proof (cases "sc = 200")
      case True
      then show ?thesis
        using bench_call_ok [OF rq_def] Reply e assms(1) by (simp add: no_bad_url_def rq_def [symmetric] Let_def)
    next
      case False
      then show ?thesis
        using fin bench_call_sent [OF rq_def Suc.IH [of "c\<lparr>bc_leader := leaderFromLocation loc\<rparr>" "Suc i"]] Reply e assms(1) Suc.prems
        by (simp add: no_bad_url_def rq_def [symmetric] Let_def)
    qed
  qed
qed (simp add: bench_call_def)

section \<open>Rounding\<close>

lemma bit_len_0 [simp]: "bit_len 0 = 0"
  by (subst bit_len.simps) simp

lemma bit_len_less: "x < 2 ^ bit_len x"
proof (induction x rule: bit_len.induct)
  case (1 n)
  show ?case
  proof (cases "n = 0")
    case False
    then have "n div 2 < 2 ^ bit_len (n div 2)" using 1 by simp
    then have "n < 2 * 2 ^ bit_len (n div 2)" by linarith
    then show ?thesis using False by (subst bit_len.simps) simp
  qed simp
qed

lemma bit_len_le_iff: "bit_len x \<le> k \<longleftrightarrow> x < 2 ^ k"
proof
  assume "bit_len x \<le> k"
  then have "(2::nat) ^ bit_len x \<le> 2 ^ k" by simp
  then show "x < 2 ^ k" using bit_len_less [of x] by linarith
next
  show "x < 2 ^ k \<Longrightarrow> bit_len x \<le> k"
  proof (induction x arbitrary: k rule: bit_len.induct)
    case (1 n)
    show ?case
    proof (cases "n = 0")
      case False
      with 1 obtain k' where k: "k = Suc k'" by (cases k) auto
      then have "bit_len (n div 2) \<le> k'" using 1 False by (simp add: less_mult_imp_div_less mult.commute)
      then show ?thesis using False k by (subst bit_len.simps) simp
    qed simp
  qed
qed

lemma round_at_le_Suc: "round_at s x \<le> Suc (x div 2 ^ s) * 2 ^ s"
  by (simp add: round_at_def Let_def)

lemma round_at_le:
  assumes "x \<le> m * 2 ^ s"
  shows "round_at s x \<le> m * 2 ^ s"
proof (cases "x mod 2 ^ s = 0")
  case True
  then have "round_at s x = x div 2 ^ s * 2 ^ s" by (simp add: round_at_def)
  then show ?thesis using assms by (metis div_times_less_eq_dividend le_trans)
next
  case False
  have "x div 2 ^ s < m"
  proof (rule ccontr)
    assume "\<not> x div 2 ^ s < m"
    then have "m * 2 ^ s \<le> x div 2 ^ s * 2 ^ s" by simp
    moreover have "x div 2 ^ s * 2 ^ s + x mod 2 ^ s = x" by (rule div_mult_mod_eq)
    ultimately show False using assms False by linarith
  qed
  then have "Suc (x div 2 ^ s) * 2 ^ s \<le> m * 2 ^ s" by (intro mult_le_mono1) simp
  then show ?thesis by (rule le_trans [OF round_at_le_Suc])
qed

lemma round_at_ge: "m * 2 ^ s \<le> x \<Longrightarrow> m * 2 ^ s \<le> round_at s x"
proof -
  assume "m * 2 ^ s \<le> x"
  then have "m \<le> x div 2 ^ s" by (simp add: less_eq_div_iff_mult_less_eq)
  then have "m * 2 ^ s \<le> x div 2 ^ s * 2 ^ s" by simp
  then show ?thesis by (auto simp: round_at_def Let_def)
qed

lemma round_at_mono: "x \<le> y \<Longrightarrow> round_at s x \<le> round_at s y"
proof -
  assume le: "x \<le> y"
  have q: "x div 2 ^ s \<le> y div 2 ^ s" using le by (rule div_le_mono)
  show ?thesis
  proof (cases "x div 2 ^ s = y div 2 ^ s")
    case True
    have "x div 2 ^ s * 2 ^ s + x mod 2 ^ s = x" "x div 2 ^ s * 2 ^ s + y mod 2 ^ s = y"
      unfolding True by (metis True div_mult_mod_eq)+
    then have "x mod 2 ^ s \<le> y mod 2 ^ s" using le by linarith
    then show ?thesis using True by (auto simp: round_at_def Let_def)
  next
    case False
    then have "Suc (x div 2 ^ s) * 2 ^ s \<le> y div 2 ^ s * 2 ^ s" using q by (intro mult_le_mono1) simp
    also have "\<dots> \<le> round_at s y" by (intro round_at_ge) simp
    finally show ?thesis by (rule le_trans [OF round_at_le_Suc])
  qed
qed

lemma round53_le:
  assumes "x \<le> m * 2 ^ e" "bit_len x \<le> 53 + e"
  shows "round53 x \<le> m * 2 ^ e"
proof -
  have s: "bit_len x - 53 \<le> e" using assms(2) by simp
  then have "m * 2 ^ e = m * 2 ^ (e - (bit_len x - 53)) * 2 ^ (bit_len x - 53)"
    by (simp add: mult.assoc flip: power_add)
  then show ?thesis using round_at_le assms(1) by (metis round53_def)
qed

lemma round53_mono: "x \<le> y \<Longrightarrow> round53 x \<le> round53 y"
proof -
  assume le: "x \<le> y"
  have lens: "bit_len x \<le> bit_len y" using le bit_len_less [of y] by (simp add: bit_len_le_iff)
  show ?thesis
  proof (cases "bit_len x - 53 = bit_len y - 53")
    case True
    then show ?thesis using round_at_mono [OF le] by (simp add: round53_def)
  next
    case False
    then have bits: "bit_len x < bit_len y" "53 < bit_len y" using lens by auto
    define k where "k = bit_len y - 1"
    have k: "bit_len x \<le> k" "\<not> bit_len y \<le> k" "k \<ge> 53" using bits by (auto simp: k_def)
    have x: "x \<le> 1 * 2 ^ k" and y: "1 * 2 ^ k \<le> y" using k by (auto simp: bit_len_le_iff)
    have exp: "(2 :: nat) ^ 52 * 2 ^ (bit_len y - 53) = 1 * 2 ^ k"
    proof -
      have "52 + (bit_len y - 53) = k" using bits by (simp add: k_def)
      then show ?thesis by (metis mult_1 power_add)
    qed
    have "round53 x \<le> 1 * 2 ^ k" by (rule round53_le [OF x]) (use k in simp)
    also have "1 * 2 ^ k \<le> round53 y" unfolding round53_def exp [symmetric]
      by (rule round_at_ge) (use y exp in simp)
    finally show ?thesis .
  qed
qed

lemma pct_index_le:
  assumes "p \<le> 2 ^ 53" "n \<le> 2 ^ 53"
  shows "pct_index p n \<le> n - 1"
proof -
  have "(n - 1) * p \<le> (n - 1) * 2 ^ 53" using assms(1) by (rule mult_le_mono2)
  moreover have "bit_len ((n - 1) * p) \<le> 53 + 53"
  proof -
    have "(n - 1) * p \<le> (2 ^ 53 - 1) * 2 ^ 53" using assms by (intro mult_le_mono) simp_all
    also have "\<dots> < (2 ^ (53 + 53) :: nat)" by simp
    finally show ?thesis by (simp add: bit_len_le_iff)
  qed
  ultimately have "round53 ((n - 1) * p) \<le> (n - 1) * 2 ^ 53" by (rule round53_le)
  then have "pct_index p n \<le> (n - 1) * 2 ^ 53 div 2 ^ 53" unfolding pct_index_def by (rule div_le_mono)
  then show ?thesis by simp
qed

lemma pct_index_mono: "p \<le> q \<Longrightarrow> pct_index p n \<le> pct_index q n"
  by (simp add: pct_index_def div_le_mono round53_mono)

section \<open>Reports\<close>

lemma load_report_figures:
  assumes "lats \<noteq> []" "length lats \<le> 2 ^ 53"
  shows "\<exists>rep. load_report lats errs = Inr rep \<and> lr_ops rep = length lats \<and> lr_errs rep = errs \<and>
    {lr_p50 rep, lr_p95 rep, lr_p99 rep, lr_max rep} \<subseteq> set lats \<and>
    lr_p50 rep \<le> lr_p95 rep \<and> lr_p95 rep \<le> lr_p99 rep \<and> lr_p99 rep \<le> lr_max rep \<and> (\<forall>t \<in> set lats. t \<le> lr_max rep)"
proof -
  define s where "s = sort lats"
  define n where "n = length s"
  have n: "0 < n" "n \<le> 2 ^ 53" "n = length lats" and s: "sorted s" "set s = set lats" using assms by (simp_all add: n_def s_def)
  have idx: "pct_index p n \<le> n - 1" if "p \<in> {p50, p95, p99}" for p
    by (rule pct_index_le) (use that n in \<open>auto simp: p50_def p95_def p99_def\<close>)
  have ord: "pct_index p50 n \<le> pct_index p95 n" "pct_index p95 n \<le> pct_index p99 n"
    by (simp_all add: pct_index_mono p50_def p95_def p99_def)
  have nth: "s ! i \<le> s ! j" if "i \<le> j" "j \<le> n - 1" for i j
  proof -
    have "j < length s" using that(2) n(1) unfolding n_def by linarith
    then show ?thesis using sorted_nth_mono [OF s(1) that(1)] by simp
  qed
  have mem: "s ! i \<in> set lats" if "i \<le> n - 1" for i
  proof -
    have "i < length s" using that n(1) unfolding n_def by linarith
    then show ?thesis using s(2) nth_mem by blast
  qed
  have top: "t \<le> s ! (n - 1)" if "t \<in> set lats" for t
  proof -
    obtain i where "i < n" "t = s ! i" using \<open>t \<in> set lats\<close> s by (metis in_set_conv_nth n_def)
    moreover have "i \<le> n - 1" using \<open>i < n\<close> by linarith
    ultimately show ?thesis using nth by blast
  qed
  have rep: "load_report lats errs = Inr \<lparr>lr_ops = n, lr_errs = errs, lr_p50 = s ! pct_index p50 n, lr_p95 = s ! pct_index p95 n,
      lr_p99 = s ! pct_index p99 n, lr_max = s ! (n - 1)\<rparr>"
    using assms(1) by (simp add: load_report_def Let_def s_def n_def)
  show ?thesis
    unfolding rep using n idx ord mem nth top by simp
qed

lemma load_report_mset:
  assumes "mset lats' = mset lats"
  shows "load_report lats' errs = load_report lats errs"
proof -
  have "sort lats' = sort lats" using assms by (metis mset_sort properties_for_sort sorted_sort)
  moreover have "lats' = [] \<longleftrightarrow> lats = []" using assms by (metis mset_zero_iff)
  ultimately show ?thesis by (simp only: load_report_def)
qed

lemma sum_list_perm: "mset xs = mset ys \<Longrightarrow> (\<Sum>x\<leftarrow>xs. f x) = (\<Sum>y\<leftarrow>ys. (f y :: 'b :: comm_monoid_add))"
  by (metis mset_map sum_mset_sum_list)

text \<open>What a worker measures: one entry for each successful call.  The order in which the workers end does not matter.\<close>

lemma load_join_Cons_iff:
  "load_join cf deadline its (w # ws) lats errs = Some (Inr (l, e)) \<longleftrightarrow>
   (\<exists>k. load_loop cf w deadline (its w) 0 (load_start cf) = Some (Inr k) \<and>
      load_join cf deadline its ws (lats @ lw_local k) (errs + lw_errs k) = Some (Inr (l, e)))"
  by (auto split: option.split sum.split)

lemma load_join_facts:
  "load_join cf deadline its ws lats errs = Some (Inr (l, e)) \<longleftrightarrow>
   (\<exists>ks. list_all2 (\<lambda>w k. load_loop cf w deadline (its w) 0 (load_start cf) = Some (Inr k)) ws ks \<and>
      l = lats @ concat (map lw_local ks) \<and> e = errs + sum_list (map lw_errs ks))"
proof (induction ws arbitrary: lats errs)
  case (Cons w ws)
  have ex: "(\<exists>ks. list_all2 R (w # ws) ks \<and> P ks) \<longleftrightarrow> (\<exists>k ks. R w k \<and> list_all2 R ws ks \<and> P (k # ks))"
    for R :: "nat \<Rightarrow> load_worker \<Rightarrow> bool" and P
    by (auto simp: list_all2_Cons1)
  show ?case unfolding load_join_Cons_iff Cons.IH ex by (simp add: add.assoc)
qed auto

section \<open>Outages\<close>

text \<open>
  The reference: a write that succeeds right after one that failed ends an outage, which began with the last
  success before it or, when there is none, with the first observation.
\<close>

definition recovers_at :: "(bool \<times> int) list \<Rightarrow> nat \<Rightarrow> bool" where
  "recovers_at obs j \<longleftrightarrow> 0 < j \<and> fst (obs ! j) \<and> \<not> fst (obs ! (j - 1))"

definition outage_from :: "(bool \<times> int) list \<Rightarrow> nat \<Rightarrow> int" where
  "outage_from obs j =
     (let oks = filter (\<lambda>i. fst (obs ! i)) [0..<j] in snd (obs ! (if oks = [] then 0 else last oks)))"

definition outage_gaps :: "(bool \<times> int) list \<Rightarrow> int list" where
  "outage_gaps obs = map (\<lambda>j. snd (obs ! j) - outage_from obs j) (filter (recovers_at obs) [0..<length obs])"

lemma outage_from_append: "0 < j \<Longrightarrow> j \<le> length obs \<Longrightarrow> outage_from (obs @ xs) j = outage_from obs j"
proof -
  assume j: "0 < j" "j \<le> length obs"
  have "filter (\<lambda>i. fst ((obs @ xs) ! i)) [0..<j] = filter (\<lambda>i. fst (obs ! i)) [0..<j]"
    using j by (intro filter_cong) (auto simp: nth_append)
  moreover have "last (filter (\<lambda>i. fst (obs ! i)) [0..<j]) < j" if "filter (\<lambda>i. fst (obs ! i)) [0..<j] \<noteq> []"
    using last_in_set [OF that] by auto
  ultimately show ?thesis using j by (auto simp: outage_from_def Let_def nth_append)
qed

lemma outage_gaps_snoc:
  "outage_gaps (obs @ [x]) =
   outage_gaps obs @ (if obs \<noteq> [] \<and> fst x \<and> \<not> fst (last obs) then [snd x - outage_from obs (length obs)] else [])"
proof -
  have "filter (recovers_at (obs @ [x])) [0..<length obs] = filter (recovers_at obs) [0..<length obs]"
    by (intro filter_cong) (auto simp: recovers_at_def nth_append)
  moreover have "map (\<lambda>j. snd ((obs @ [x]) ! j) - outage_from (obs @ [x]) j) (filter (recovers_at obs) [0..<length obs]) = outage_gaps obs"
    by (auto simp: outage_gaps_def nth_append outage_from_append recovers_at_def)
  moreover have "recovers_at (obs @ [x]) (length obs) \<longleftrightarrow> obs \<noteq> [] \<and> fst x \<and> \<not> fst (last obs)"
    by (cases "obs = []") (simp_all add: recovers_at_def nth_append last_conv_nth)
  ultimately show ?thesis by (auto simp: outage_gaps_def outage_from_append)
qed

lemma outage_from_snoc:
  "outage_from (obs @ [x]) (Suc (length obs)) =
   (if fst x \<or> obs = [] then snd x else outage_from obs (length obs))"
proof (cases "obs = []")
  case False
  define oks where "oks = filter (\<lambda>i. fst (obs ! i)) [0..<length obs]"
  have "filter (\<lambda>i. fst ((obs @ [x]) ! i)) [0..<length obs] = oks" unfolding oks_def
    by (intro filter_cong) (auto simp: nth_append)
  then have eq: "filter (\<lambda>i. fst ((obs @ [x]) ! i)) [0..<Suc (length obs)] = oks @ (if fst x then [length obs] else [])" by simp
  have "last oks < length obs" if "oks \<noteq> []" using last_in_set [OF that] by (auto simp: oks_def)
  then show ?thesis using False unfolding outage_from_def eq oks_def [symmetric] Let_def by (auto simp: nth_append)
qed (simp add: outage_from_def)

definition largest :: "int list \<Rightarrow> int" where
  "largest gs = Max (insert 0 (set gs))"

lemma largest_snoc [simp]: "largest (gs @ [g]) = (if g > largest gs then g else largest gs)"
proof -
  have "insert 0 (set (gs @ [g])) = insert g (insert 0 (set gs))" by auto
  then have "largest (gs @ [g]) = max g (largest gs)" unfolding largest_def by (simp only:) (rule Max_insert, simp_all)
  then show ?thesis by simp
qed

definition fo_inv :: "(bool \<times> int) list \<Rightarrow> fo_state \<Rightarrow> bool" where
  "fo_inv obs s \<longleftrightarrow>
     fo_printed s = outage_gaps obs \<and> fo_maxGap s = largest (outage_gaps obs) \<and>
     (fo_inOutage s \<longleftrightarrow> obs \<noteq> [] \<and> \<not> fst (last obs)) \<and>
     (fo_inOutage s \<longrightarrow> fo_outageStart s = outage_from obs (length obs)) \<and>
     (fo_lastOK s = None \<longleftrightarrow> (\<forall>p \<in> set obs. \<not> fst p)) \<and>
     (\<forall>t. fo_lastOK s = Some t \<longrightarrow> t = outage_from obs (length obs))"

lemma fo_inv_ok:
  assumes "fo_inv obs s"
  shows "fo_inv (obs @ [(True, now)]) (fo_observe True now s)"
proof (cases "fo_inOutage s")
  case True
  then have "outage_gaps (obs @ [(True, now)]) = outage_gaps obs @ [now - fo_outageStart s]"
    using assms by (simp add: fo_inv_def outage_gaps_snoc)
  then show ?thesis using assms True
    by (simp add: fo_inv_def fo_observe_def Let_def outage_from_snoc largest_snoc)
next
  case False
  then have "outage_gaps (obs @ [(True, now)]) = outage_gaps obs"
    using assms by (auto simp: fo_inv_def outage_gaps_snoc)
  then show ?thesis using assms False by (simp add: fo_inv_def fo_observe_def outage_from_snoc)
qed

lemma fo_inv_fail:
  assumes "fo_inv obs s"
  shows "fo_inv (obs @ [(False, now)]) (fo_observe False now s)"
proof -
  have gaps: "outage_gaps (obs @ [(False, now)]) = outage_gaps obs" by (simp add: outage_gaps_snoc)
  have none: "fo_lastOK s = None \<Longrightarrow> \<not> fo_inOutage s \<Longrightarrow> obs = []"
    using assms by (cases obs rule: rev_cases) (auto simp: fo_inv_def)
  have empty: "fo_lastOK s \<noteq> None \<or> fo_inOutage s \<Longrightarrow> obs \<noteq> []"
    using assms by (auto simp: fo_inv_def)
  show ?thesis
  proof (cases "fo_inOutage s")
    case True
    then show ?thesis using assms empty by (simp add: fo_inv_def gaps fo_observe_def outage_from_snoc)
  next
    case False
    show ?thesis
    proof (cases "fo_lastOK s")
      case None
      then show ?thesis using assms none False gaps by (simp add: fo_inv_def fo_observe_def outage_from_def)
    next
      case (Some t)
      then show ?thesis using assms empty False by (simp add: fo_inv_def gaps fo_observe_def outage_from_snoc)
    qed
  qed
qed

lemma fo_inv_observe: "fo_inv obs s \<Longrightarrow> fo_inv (obs @ [(ok, now)]) (fo_observe ok now s)"
  by (cases ok) (simp_all add: fo_inv_ok fo_inv_fail)

text \<open>The writes of a failover run: the client before the write number \<open>n\<close>, counted from 0, and whether it succeeds.\<close>

definition fo_nth_write :: "fo_cfg \<Rightarrow> (nat \<Rightarrow> fo_iter) \<Rightarrow> nat \<Rightarrow> benchClient \<Rightarrow> bench_result" where
  "fo_nth_write cf its n c =
     writeOnce (fi_net (its n)) ''put'' ''failover-key'' (''v'' @ format_uint (of_nat (Suc n))) (fo_id cf) (of_nat (Suc n)) c"

primrec fo_client_at :: "fo_cfg \<Rightarrow> (nat \<Rightarrow> fo_iter) \<Rightarrow> nat \<Rightarrow> benchClient" where
  "fo_client_at cf its 0 = bench_newClient (split_char CHR '','' (fc_endpoints cf))"
| "fo_client_at cf its (Suc n) =
     (case fo_nth_write cf its n (fo_client_at cf its n) of Inl _ \<Rightarrow> fo_client_at cf its n | Inr (_, c, _) \<Rightarrow> c)"

definition fo_succeeds :: "fo_cfg \<Rightarrow> (nat \<Rightarrow> fo_iter) \<Rightarrow> nat \<Rightarrow> bool" where
  "fo_succeeds cf its n =
     (case fo_nth_write cf its n (fo_client_at cf its n) of Inl _ \<Rightarrow> False | Inr (ok, _, _) \<Rightarrow> ok)"

definition fo_observed :: "fo_cfg \<Rightarrow> (nat \<Rightarrow> fo_iter) \<Rightarrow> nat \<Rightarrow> (bool \<times> int) list" where
  "fo_observed cf its n = map (\<lambda>i. (fo_succeeds cf its i, fi_now (its i))) [0..<n]"

lemma split_char_not_Nil [simp]: "split_char d s \<noteq> []"
  by (induction d s rule: split_char.induct) (auto split: list.split)

lemma writeOnce_call:
  assumes "no_bad_url env" "bc_endpoints c \<noteq> []"
  obtains ok c1 rqs where "writeOnce env op key val clientID reqID c = Inr (ok, c1, rqs)" "bc_endpoints c1 = bc_endpoints c"
    "bench_post env key (bench_body op val clientID reqID) 2 0 c (ok, c1, rqs)"
  using once_loop_call [OF assms, of key "bench_body op val clientID reqID" 2 0]
  by (auto simp: bench_call_def bench_post_def writeOnce_def)

lemma fo_client_at_endpoints:
  assumes "\<forall>i. no_bad_url (fi_net (its i))"
  shows "bc_endpoints (fo_client_at cf its n) = split_char CHR '','' (fc_endpoints cf)"
proof (induction n)
  case (Suc n)
  have ok: "no_bad_url (fi_net (its n))" and ne: "bc_endpoints (fo_client_at cf its n) \<noteq> []" using Suc assms by simp_all
  obtain b c1 rqs where "fo_nth_write cf its n (fo_client_at cf its n) = Inr (b, c1, rqs)"
    "bc_endpoints c1 = bc_endpoints (fo_client_at cf its n)"
    unfolding fo_nth_write_def by (rule writeOnce_call [OF ok ne])
  then show ?case using Suc by simp
qed (simp add: bench_newClient_def)

lemma fo_write_nth:
  assumes "\<forall>i. no_bad_url (fi_net (its i))" "fo_client s = fo_client_at cf its n" "fo_reqID s = of_nat n"
  shows "fo_write cf (its n) s = Inr (fo_succeeds cf its n, s\<lparr>fo_reqID := of_nat (Suc n), fo_client := fo_client_at cf its (Suc n)\<rparr>)"
proof -
  have "bc_endpoints (fo_client_at cf its n) \<noteq> []" using fo_client_at_endpoints [OF assms(1)] by simp
  then obtain ok c1 rqs where w: "fo_nth_write cf its n (fo_client_at cf its n) = Inr (ok, c1, rqs)"
    using writeOnce_call [of "fi_net (its n)"] assms(1) unfolding fo_nth_write_def by metis
  then have "writeOnce (fi_net (its n)) ''put'' ''failover-key'' (''v'' @ format_uint (fo_reqID s + 1)) (fo_id cf) (fo_reqID s + 1) (fo_client s) =
      Inr (ok, c1, rqs)"
    by (simp add: fo_nth_write_def assms(2,3) add.commute)
  then show ?thesis using w by (simp add: fo_write_def Let_def fo_succeeds_def assms(3) add.commute)
qed

lemma fo_observe_keeps [simp]:
  "fo_client (fo_observe ok now s) = fo_client s" "fo_reqID (fo_observe ok now s) = fo_reqID s"
  by (simp_all add: fo_observe_def Let_def)

lemma fo_inv_update [simp]: "fo_inv obs (s\<lparr>fo_reqID := r, fo_client := c\<rparr>) = fo_inv obs s"
  by (simp add: fo_inv_def)

lemma fo_loop_runs:
  assumes "\<forall>i. no_bad_url (fi_net (its i))" "\<forall>j < i + d. fi_test (its j) < deadline" "\<not> fi_test (its (i + d)) < deadline"
    "fo_client s = fo_client_at cf its i" "fo_reqID s = of_nat i" "fo_inv (fo_observed cf its i) s"
  shows "\<exists>s'. fo_loop cf deadline its i s = Some (Inr s') \<and> fo_inv (fo_observed cf its (i + d)) s'"
  using assms(2-)
proof (induction d arbitrary: i s)
  case 0
  then show ?case by (subst fo_loop.simps) simp
next
  case (Suc d)
  let ?s = "fo_observe (fo_succeeds cf its i) (fi_now (its i)) (s\<lparr>fo_reqID := of_nat (Suc i), fo_client := fo_client_at cf its (Suc i)\<rparr>)"
  have w: "fo_write cf (its i) s = Inr (fo_succeeds cf its i, s\<lparr>fo_reqID := of_nat (Suc i), fo_client := fo_client_at cf its (Suc i)\<rparr>)"
    using fo_write_nth [OF assms(1)] Suc.prems by blast
  have "fo_inv (fo_observed cf its (Suc i)) ?s"
    using fo_inv_observe [of "fo_observed cf its i"] Suc.prems(5) by (simp add: fo_observed_def)
  then have "\<exists>s'. fo_loop cf deadline its (Suc i) ?s = Some (Inr s') \<and> fo_inv (fo_observed cf its (Suc i + d)) s'"
    using Suc.IH [of "Suc i" ?s] Suc.prems(1,2) by (simp del: of_nat_Suc)
  moreover have "fi_test (its i) < deadline" using Suc.prems(1) by simp
  ultimately show ?case by (subst fo_loop.simps) (simp add: w del: of_nat_Suc)
qed

section \<open>Properties\<close>

text \<open>
  A write of the benchmark is one command.  With at least one endpoint and well-formed URLs it returns after at most
  eight requests, all of them a PUT of the same body to the same key, so that the session table of the state machine
  applies them once; it reports success exactly when a request was answered with 200, and sends nothing after that answer.
\<close>

theorem bench_write_is_one_command:
  assumes "no_bad_url env" "bc_endpoints c \<noteq> []"
  shows "\<exists>ok c1 rqs. bench_write env op key val clientID reqID c = Inr (ok, c1, rqs) \<and> length rqs \<le> 8 \<and>
    (\<forall>rq \<in> set rqs. rq_Method rq = ''PUT'' \<and> rq_Body rq = bench_body op val clientID reqID \<and> suffix (''/kv/'' @ key) (rq_URL rq)) \<and>
    (ok \<longleftrightarrow> answered env 0 rqs) \<and> (ok \<longrightarrow> \<not> answered env 0 (butlast rqs))"
  using write_loop_call [OF assms, of key "bench_body op val clientID reqID" 8 0]
  by (auto simp: bench_call_def bench_post_def bench_write_def)

text \<open>
  C39: the failover mode measures the outages of its observations.  When the clock passes the deadline before the test of
  round \<open>n\<close>, the loop ends and prints one gap for each write that succeeds right after a failed one: the time since the
  last success before it, or since the first observation when there was none; the maximum it reports is the largest gap.
\<close>

theorem failover_measures_gaps:
  assumes "\<forall>i. no_bad_url (fi_net (its i))" "\<forall>i < n. fi_test (its i) < now + fc_duration cf"
    "\<not> fi_test (its n) < now + fc_duration cf"
  shows "runFailover cf now its = Some (Inr (outage_gaps (fo_observed cf its n), largest (outage_gaps (fo_observed cf its n))))"
proof -
  have "fo_inv (fo_observed cf its 0) (fo_start cf)"
    by (simp add: fo_inv_def fo_start_def fo_observed_def outage_gaps_def largest_def)
  then obtain s where "fo_loop cf (now + fc_duration cf) its 0 (fo_start cf) = Some (Inr s)" "fo_inv (fo_observed cf its n) s"
    using fo_loop_runs [of its 0 n "now + fc_duration cf" "fo_start cf" cf] assms by (auto simp: fo_start_def)
  then show ?thesis by (simp add: runFailover_def fo_inv_def)
qed

text \<open>
  C40: a report of the load mode is in range and does not depend on the order in which the workers end.  When the
  workers ending at some instants give a report, they give the same one whenever they end; its percentiles are measured latencies, the median is at
  most the 95th, that at most the 99th percentile, and the maximum bounds every latency.
\<close>

theorem load_report_stable:
  assumes "runLoad cf seedNet now its ends = Some (Inr rep)" "lr_ops rep \<le> 2 ^ 53"
  shows "runLoad cf seedNet now its ends' = Some (Inr rep) \<and>
    lr_p50 rep \<le> lr_p95 rep \<and> lr_p95 rep \<le> lr_p99 rep \<and> lr_p99 rep \<le> lr_max rep \<and>
    (\<exists>ks. list_all2 (\<lambda>w k. load_loop cf w (now + lc_duration cf) (its w) 0 (load_start cf) = Some (Inr k)) (sort_key ends [0..<lc_clients cf]) ks \<and>
      lr_ops rep = (\<Sum>k\<leftarrow>ks. length (lw_local k)) \<and> lr_errs rep = (\<Sum>k\<leftarrow>ks. lw_errs k) \<and>
      {lr_p50 rep, lr_p95 rep, lr_p99 rep, lr_max rep} \<subseteq> \<Union> (set ` lw_local ` set ks) \<and>
      (\<forall>k \<in> set ks. \<forall>t \<in> set (lw_local k). t \<le> lr_max rep))"
proof -
  let ?order = "sort_key ends [0..<lc_clients cf]" and ?order' = "sort_key ends' [0..<lc_clients cf]"
  let ?R = "\<lambda>w k. load_loop cf w (now + lc_duration cf) (its w) 0 (load_start cf) = Some (Inr k)"
  obtain c where seeded: "seed_loop seedNet (lc_keys cf) 0 (bench_newClient (split_char CHR '','' (lc_endpoints cf))) = Inr c"
    using assms(1) by (auto simp: runLoad_def split: sum.splits)
  obtain lats errs where join: "load_join cf (now + lc_duration cf) its ?order [] 0 = Some (Inr (lats, errs))"
    and rep: "load_report lats errs = Inr rep"
    using assms(1) seeded by (auto simp: runLoad_def rbind_Inr_iff)
  obtain ks where ks: "list_all2 ?R ?order ks" "lats = concat (map lw_local ks)" "errs = (\<Sum>k\<leftarrow>ks. lw_errs k)"
    using join by (auto simp: load_join_facts)
  obtain ks' where ks': "list_all2 ?R ?order' ks'" "mset ks' = mset ks"
    using list_all2_reorder_left_invariance [OF ks(1), of ?order'] by auto
  have perm: "mset (concat (map lw_local ks')) = mset lats" "(\<Sum>k\<leftarrow>ks'. lw_errs k) = errs"
    using ks(2,3) sum_list_perm [OF ks'(2), of lw_errs] sum_list_perm [OF ks'(2), of "\<lambda>k. mset (lw_local k)"]
    by (simp_all add: mset_concat comp_def)
  have "load_join cf (now + lc_duration cf) its ?order' [] 0 = Some (Inr (concat (map lw_local ks'), errs))"
    using ks'(1) perm(2) by (auto simp: load_join_facts)
  moreover have "load_report (concat (map lw_local ks')) errs = load_report lats errs"
    by (rule load_report_mset [OF perm(1)])
  ultimately have same: "runLoad cf seedNet now its ends' = Some (Inr rep)" using seeded rep by (simp add: runLoad_def)
  have ne: "lats \<noteq> []" using rep by (auto simp: load_report_def)
  have len: "lr_ops rep = length lats" using rep ne by (auto simp: load_report_def Let_def)
  obtain rep' where fig: "load_report lats errs = Inr rep'" "lr_ops rep' = length lats" "lr_errs rep' = errs"
    "{lr_p50 rep', lr_p95 rep', lr_p99 rep', lr_max rep'} \<subseteq> set lats"
    "lr_p50 rep' \<le> lr_p95 rep'" "lr_p95 rep' \<le> lr_p99 rep'" "lr_p99 rep' \<le> lr_max rep'" "\<forall>t \<in> set lats. t \<le> lr_max rep'"
    using load_report_figures [OF ne, of errs] assms(2) len by auto
  have "set lats = \<Union> (set ` lw_local ` set ks)" "length lats = (\<Sum>k\<leftarrow>ks. length (lw_local k))"
    by (auto simp: ks(2) length_concat comp_def)
  then show ?thesis using same fig rep ks by (intro conjI exI [of _ ks]) auto
qed

section \<open>Instances\<close>

text \<open>A first node that redirects to the leader, and a leader that answers.\<close>

definition wit_bench_net :: attempt_env where
  "wit_bench_net =
     \<lparr>ae_Intn = (\<lambda>_. 0), ae_NewRequest = (\<lambda>_. None),
      ae_Do = (\<lambda>_ rq. if rq_URL rq = ''b/kv/k'' then Reply 200 '''' '''' else Reply 307 ''b/kv/k'' ''''), ae_CtxErr = (\<lambda>_. False)\<rparr>"

definition wit_bench_client :: benchClient where
  "wit_bench_client = bench_newClient [''a'', ''b'']"

theorem bench_write_is_one_command_witness:
  "(\<exists>ok c1 rqs. bench_write wit_bench_net ''put'' ''k'' ''v'' ''c'' 7 wit_bench_client = Inr (ok, c1, rqs) \<and> length rqs \<le> 8) \<and>
   map_sum id fst (bench_write wit_bench_net ''put'' ''k'' ''v'' ''c'' 7 wit_bench_client) = Inr True"
proof
  have "no_bad_url wit_bench_net" "bc_endpoints wit_bench_client \<noteq> []"
    by (simp_all add: no_bad_url_def wit_bench_net_def wit_bench_client_def bench_newClient_def)
  from bench_write_is_one_command [OF this, of "''put''" "''k''" "''v''" "''c''" 7]
  show "\<exists>ok c1 rqs. bench_write wit_bench_net ''put'' ''k'' ''v'' ''c'' 7 wit_bench_client = Inr (ok, c1, rqs) \<and> length rqs \<le> 8"
    by blast
qed code_simp

text \<open>A success, a failure, a success, with the clock past the deadline after them.\<close>

definition wit_fo_net :: "bool \<Rightarrow> attempt_env" where
  "wit_fo_net up =
     \<lparr>ae_Intn = (\<lambda>_. 0), ae_NewRequest = (\<lambda>_. None),
      ae_Do = (\<lambda>_ _. if up then Reply 200 '''' '''' else TransportError ''refused''), ae_CtxErr = (\<lambda>_. False)\<rparr>"

definition wit_fo_its :: "nat \<Rightarrow> fo_iter" where
  "wit_fo_its i = \<lparr>fi_test = 10 * int i, fi_net = wit_fo_net (i \<noteq> 1), fi_now = 10 * int i + 5\<rparr>"

definition wit_fo_cfg :: fo_cfg where
  "wit_fo_cfg = \<lparr>fc_endpoints = ''http://a,http://b'', fc_duration = 30, fc_pid = 4\<rparr>"

lemma wit_fo_gaps: "outage_gaps (fo_observed wit_fo_cfg wit_fo_its 3) = [20]"
  by code_simp

theorem failover_measures_gaps_witness: "runFailover wit_fo_cfg 0 wit_fo_its = Some (Inr ([20], 20))"
proof -
  have "runFailover wit_fo_cfg 0 wit_fo_its =
      Some (Inr (outage_gaps (fo_observed wit_fo_cfg wit_fo_its 3), largest (outage_gaps (fo_observed wit_fo_cfg wit_fo_its 3))))"
    by (rule failover_measures_gaps) (auto simp: no_bad_url_def wit_fo_its_def wit_fo_net_def wit_fo_cfg_def)
  then show ?thesis by (simp add: wit_fo_gaps largest_def)
qed

text \<open>Two workers with one local read each.\<close>

definition wit_load_cfg :: load_cfg where
  "wit_load_cfg = \<lparr>lc_endpoints = ''a,b'', lc_op = ''localread'', lc_clients = 2, lc_duration = 10, lc_keys = 1, lc_pid = 4\<rparr>"

definition wit_load_its :: "nat \<Rightarrow> nat \<Rightarrow> load_iter" where
  "wit_load_its w i = \<lparr>li_now = 10 * int i, li_key = 0, li_net = wit_fo_net True, li_took = 3 + int w\<rparr>"

definition wit_load_rep :: LoadReport where
  "wit_load_rep = \<lparr>lr_ops = 2, lr_errs = 0, lr_p50 = 3, lr_p95 = 3, lr_p99 = 3, lr_max = 4\<rparr>"

lemma load_loop_once:
  assumes "li_now (its 0) < deadline" "\<not> li_now (its 1) < deadline" "load_round cf w (its 0) k = Inr k1"
  shows "load_loop cf w deadline its 0 k = Some (Inr k1)"
  using assms by (subst load_loop.simps) (simp, subst load_loop.simps, simp)

lemma wit_load_loop: "load_loop wit_load_cfg w 10 (wit_load_its w) 0 (load_start wit_load_cfg) =
    Some (Inr ((load_start wit_load_cfg)\<lparr>lw_local := [3 + int w]\<rparr>))"
  by (rule load_loop_once)
    (simp_all add: wit_load_its_def load_round_def wit_load_cfg_def load_op_def bench_read_def eval_nat_numeral bc_base_def
      load_start_def bench_newClient_def wit_fo_net_def bench_sent_def)

lemma wit_load_seeded:
  "seed_loop (\<lambda>_. wit_fo_net True) (lc_keys wit_load_cfg) 0 (bench_newClient (split_char CHR '','' (lc_endpoints wit_load_cfg))) =
     Inr (bench_newClient [''a'', ''b''])"
  by code_simp

lemma wit_load_report: "load_report [3, 4] 0 = Inr wit_load_rep"
  by code_simp

lemma wit_runLoad: "runLoad wit_load_cfg (\<lambda>_. wit_fo_net True) 0 wit_load_its int = Some (Inr wit_load_rep)"
proof -
  have "0 + lc_duration wit_load_cfg = 10" by (simp add: wit_load_cfg_def)
  moreover have "sort_key int [0..<lc_clients wit_load_cfg] = [0, 1]" by code_simp
  ultimately show ?thesis
    using wit_load_loop [of 0] wit_load_loop [of 1] wit_load_report
    by (simp add: runLoad_def wit_load_seeded) (simp add: load_start_def)
qed

theorem load_report_stable_witness:
  "runLoad wit_load_cfg (\<lambda>_. wit_fo_net True) 0 wit_load_its (\<lambda>w. - int w) = Some (Inr wit_load_rep)"
  using load_report_stable [OF wit_runLoad, of "\<lambda>w. - int w"] by (simp add: wit_load_rep_def)

end
