(* ===== verification/Chaos.thy ===== *)
theory Chaos
  imports Traffic GoNet
begin

text \<open>
  \<open>cmd/qlchaos/main.go\<close>: a cluster of node processes behind fault-injecting proxies, the recorder of its
  clients, one seeded schedule with its faults, its workload and its verdict, and the replay of saved
  histories.

  A process is its command line.  What the network, the clock and the other processes do is an argument; the
  goroutines of a schedule (clients, proxy handlers, the task that kills and restarts a node) interleave in
  the step relation at the end, where every access under a lock or to an atomic is one step.  Sleeping, and the
  panics of \<open>must\<close> on errors of the operating system, are not modelled.
\<close>

section \<open>Faults and cluster\<close>

record faults =
  fl_isolated :: "u64 list"
  fl_delay :: int
  fl_loseResponse :: bool
  fl_lost :: int
  fl_partitioned :: int
  fl_delayed :: int
  fl_kills :: int
  fl_killAfterCommit :: "nat option"

text \<open>
  \<open>fl_isolated\<close> has the keys of the map whose value is true, \<open>fl_killAfterCommit\<close> the node the callback kills.
\<close>

record cluster =
  cl_n :: nat
  cl_bin :: string
  cl_dir :: string
  cl_targets :: "string list"
  cl_proxy :: "string list"
  cl_peers :: string
  cl_processes :: "(nat, string list) fmap"
  cl_faults :: faults

definition no_faults :: faults where
  "no_faults = \<lparr>fl_isolated = [], fl_delay = 0, fl_loseResponse = False, fl_lost = 0, fl_partitioned = 0, fl_delayed = 0,
     fl_kills = 0, fl_killAfterCommit = None\<rparr>"

definition isolated :: "faults \<Rightarrow> u64 \<Rightarrow> bool" where
  "isolated fl i \<longleftrightarrow> i \<in> set (fl_isolated fl)"

definition on_faults :: "(faults \<Rightarrow> faults) \<Rightarrow> cluster \<Rightarrow> cluster" where
  "on_faults f c = c\<lparr>cl_faults := f (cl_faults c)\<rparr>"

text \<open>
  \<open>start\<close>: the command line of the node; \<open>u.Host\<close> of a target, which is \<open>http://\<close> and an address, is the address.  The directory
  comes from \<open>filepath.Join\<close>, so that joining a name to it appends the name.
\<close>

definition node_args :: "nat \<Rightarrow> cluster \<Rightarrow> string list" where
  "node_args i c =
     [cl_bin c, ''-id'', dec_of_nat i, ''-listen'', trim_prefix (cl_targets c ! (i - 1)) ''http://'',
      ''-data'', cl_dir c @ ''/node-'' @ dec_of_nat i, ''-peers'', cl_peers c, ''-tick-ms'', ''10'',
      ''-snapshot-threshold'', ''8'', ''-snapshot-trailing'', ''2'']"

definition chaos_start :: "nat \<Rightarrow> cluster \<Rightarrow> cluster" where
  "chaos_start i c = c\<lparr>cl_processes := fmupd i (node_args i c) (cl_processes c)\<rparr>"

definition chaos_kill :: "nat \<Rightarrow> cluster \<Rightarrow> cluster" where
  "chaos_kill i c =
     (if fmlookup (cl_processes c) i \<noteq> None then
        (on_faults (\<lambda>fl. fl\<lparr>fl_kills := fl_kills fl + 1\<rparr>) c)\<lparr>cl_processes := fmdrop i (cl_processes c)\<rparr>
      else c)"

definition chaos_close :: "cluster \<Rightarrow> cluster" where
  "chaos_close c = fold chaos_kill [1..<cl_n c + 1] c"

text \<open>\<open>newCluster\<close>: \<open>addrs\<close> are the addresses \<open>port\<close> finds, \<open>proxies\<close> the URLs of the proxies.\<close>

definition peers_of :: "string list \<Rightarrow> string" where
  "peers_of proxies = join_with '','' (map (\<lambda>(i, u). dec_of_nat (i + 1) @ ''='' @ u) (enumerate 0 proxies))"

definition newCluster :: "nat \<Rightarrow> string \<Rightarrow> string \<Rightarrow> string list \<Rightarrow> string list \<Rightarrow> cluster" where
  "newCluster n bin dir addrs proxies =
     fold chaos_start [1..<n + 1]
       \<lparr>cl_n = n, cl_bin = bin, cl_dir = dir, cl_targets = map (\<lambda>a. ''http://'' @ a) addrs, cl_proxy = proxies,
        cl_peers = peers_of proxies, cl_processes = fmempty, cl_faults = no_faults\<rparr>"

section \<open>Proxy\<close>

text \<open>
  The handler of the proxy of node \<open>i\<close> up to the forwarded request: \<open>unm\<close> gives the sender of a raft message,
  \<open>gone\<close> tells whether the request's context ends during the delay.  A handler that returns without an answer leaves the
  request hanging until its client gives up.
\<close>

record proxy_request =
  pq_Method :: string
  pq_Path :: string
  pq_URI :: string
  pq_Body :: "string option"

datatype proxy_answer = Answer int string | Hang

definition body_limit :: nat where "body_limit = 8 * 2 ^ 20"

definition forwarded :: "nat \<Rightarrow> cluster \<Rightarrow> proxy_request \<Rightarrow> string \<Rightarrow> http_request" where
  "forwarded i c rq body = \<lparr>rq_Method = pq_Method rq, rq_URL = cl_targets c ! (i - 1) @ pq_URI rq, rq_Body = body\<rparr>"

definition proxy_admit ::
  "(string \<Rightarrow> u64 option) \<Rightarrow> (http_request \<Rightarrow> bool) \<Rightarrow> bool \<Rightarrow> nat \<Rightarrow> proxy_request \<Rightarrow> cluster \<Rightarrow>
   cluster \<times> (proxy_answer + http_request)" where
  "proxy_admit unm bad gone i rq c =
     (case pq_Body rq of
        None \<Rightarrow> (c, Inl (Answer 400 ''read''))
      | Some raw \<Rightarrow>
          let body = take body_limit raw; out = forwarded i c rq body;
              send = (if bad out then Inl (Answer 500 ''request'') else Inr out)
          in if pq_Path rq = ''/raft'' then
               (case unm body of
                  None \<Rightarrow> (c, Inl (Answer 400 ''message''))
                | Some from_id \<Rightarrow>
                    let fl = cl_faults c in
                    if isolated fl from_id \<noteq> isolated fl (of_nat i) then
                      (on_faults (\<lambda>fl. fl\<lparr>fl_partitioned := fl_partitioned fl + 1\<rparr>) c, Inl (Answer 503 ''injected partition''))
                    else if fl_delay fl > 0 then
                      (on_faults (\<lambda>fl. fl\<lparr>fl_delayed := fl_delayed fl + 1\<rparr>) c, if gone then Inl Hang else send)
                    else (c, send))
             else (c, send))"

text \<open>
  The rest of the handler, from the reply of the node.  The swap of \<open>loseResponse\<close>, the counter, the read of the callback and
  the call are separate accesses: \<open>Losing\<close> is the handler after the swap.
\<close>

datatype proxy_reply = NodeDown | BodyBroken | NodeReply int string

datatype losing = Swapped | Counted | Calling "nat option"

definition proxy_return :: "string \<Rightarrow> proxy_reply \<Rightarrow> cluster \<Rightarrow> cluster \<times> (proxy_answer + losing)" where
  "proxy_return mth r c =
     (case r of
        NodeDown \<Rightarrow> (c, Inl (Answer 503 ''owned node unavailable''))
      | BodyBroken \<Rightarrow> (c, Inl (Answer 503 ''response''))
      | NodeReply sc body \<Rightarrow>
          if mth = ''PUT'' \<and> sc = 200 \<and> fl_loseResponse (cl_faults c) then
            (on_faults (\<lambda>fl. fl\<lparr>fl_loseResponse := False\<rparr>) c, Inr Swapped)
          else (c, Inl (Answer sc body)))"

fun losing_step :: "losing \<Rightarrow> cluster \<Rightarrow> cluster \<times> losing option" where
  "losing_step Swapped c = (on_faults (\<lambda>fl. fl\<lparr>fl_lost := fl_lost fl + 1\<rparr>) c, Some Counted)"
| "losing_step Counted c = (c, Some (Calling (fl_killAfterCommit (cl_faults c))))"
| "losing_step (Calling None) c = (c, None)"
| "losing_step (Calling (Some i)) c = (chaos_kill i c, None)"

section \<open>Status and leader\<close>

record nodeStatus =
  cs_ID :: u64
  cs_Leader :: u64
  cs_IsLeader :: bool
  cs_Applied :: u64
  cs_SnapIndex :: u64

definition zero_nodeStatus :: nodeStatus where
  "zero_nodeStatus = \<lparr>cs_ID = 0, cs_Leader = 0, cs_IsLeader = False, cs_Applied = 0, cs_SnapIndex = 0\<rparr>"

definition set_nodeStatus :: "string \<Rightarrow> json \<Rightarrow> nodeStatus \<Rightarrow> nodeStatus option" where
  "set_nodeStatus n j s =
     (if n = ''id'' then map_option (\<lambda>v. s\<lparr>cs_ID := v\<rparr>) (get_u64 j (cs_ID s))
      else if n = ''leader'' then map_option (\<lambda>v. s\<lparr>cs_Leader := v\<rparr>) (get_u64 j (cs_Leader s))
      else if n = ''is_leader'' then map_option (\<lambda>v. s\<lparr>cs_IsLeader := v\<rparr>) (get_bool j (cs_IsLeader s))
      else if n = ''applied'' then map_option (\<lambda>v. s\<lparr>cs_Applied := v\<rparr>) (get_u64 j (cs_Applied s))
      else map_option (\<lambda>v. s\<lparr>cs_SnapIndex := v\<rparr>) (get_u64 j (cs_SnapIndex s)))"

text \<open>\<open>status\<close>: \<open>get\<close> is the reply to the request of the status page; the code does not look at the status code.\<close>

definition chaos_status :: "(string \<Rightarrow> http_reply) \<Rightarrow> nat \<Rightarrow> cluster \<Rightarrow> nodeStatus option" where
  "chaos_status get i c =
     (case get (cl_proxy c ! (i - 1) @ ''/status'') of
        TransportError _ \<Rightarrow> None
      | Reply _ _ body \<Rightarrow>
          (case jdecode body of
             None \<Rightarrow> None
           | Some j \<Rightarrow> get_struct set_nodeStatus [''id'', ''leader'', ''is_leader'', ''applied'', ''snap_index''] j zero_nodeStatus))"

fun first_leader :: "(nat \<Rightarrow> nodeStatus option) \<Rightarrow> nat list \<Rightarrow> nat" where
  "first_leader st [] = 0"
| "first_leader st (i # is) =
     (case st i of
        None \<Rightarrow> first_leader st is
      | Some s \<Rightarrow> if cs_IsLeader s then i else first_leader st is)"

definition chaos_leader :: "(string \<Rightarrow> http_reply) \<Rightarrow> cluster \<Rightarrow> nat" where
  "chaos_leader get c = first_leader (\<lambda>i. chaos_status get i c) [1..<cl_n c + 1]"

text \<open>\<open>waitLeader\<close>: the replies differ from round to round.\<close>

fun wait_rounds :: "(nat \<Rightarrow> string \<Rightarrow> http_reply) \<Rightarrow> cluster \<Rightarrow> nat \<Rightarrow> nat \<Rightarrow> nat" where
  "wait_rounds get c 0 i = 0"
| "wait_rounds get c (Suc n) i =
     (let leader = chaos_leader (get i) c in if leader > 0 then leader else wait_rounds get c n (Suc i))"

definition waitLeader :: "(nat \<Rightarrow> string \<Rightarrow> http_reply) \<Rightarrow> cluster \<Rightarrow> nat" where
  "waitLeader get c = wait_rounds get c 100 0"

section \<open>Recorder\<close>

text \<open>An observation embeds the event the checker reads.\<close>

record observation = HTTPEvent +
  ob_Code :: int
  ob_Error :: string
  ob_LatencyMS :: rat

record recorder =
  cr_events :: "observation list"
  cr_next :: u64
  cr_namespace :: string

definition op_id :: "nat \<Rightarrow> u64 \<Rightarrow> string" where
  "op_id client number = ''c'' @ dec_of_nat client @ ''-op'' @ format_uint number"

definition invocation :: "nat \<Rightarrow> u64 \<Rightarrow> int \<Rightarrow> KVInput \<Rightarrow> observation" where
  "invocation client number now inp =
     \<lparr>he_ID = op_id client number, he_ClientID = int client, he_At = now, he_Input = Some inp, he_Output = None,
      ob_Code = 0, ob_Error = '''', ob_LatencyMS = 0\<rparr>"

text \<open>The HTTP request of an operation: reads have no body, writes carry the session of the client and the number of the operation.\<close>

definition chaos_request :: "string \<Rightarrow> cluster \<Rightarrow> nat \<Rightarrow> nat \<Rightarrow> u64 \<Rightarrow> KVInput \<Rightarrow> http_request" where
  "chaos_request namespace c node client number inp =
     \<lparr>rq_Method = (if in_Op inp \<noteq> ''get'' then ''PUT'' else ''GET''),
      rq_URL = cl_proxy c ! (node - 1) @ ''/kv/'' @ in_Key inp,
      rq_Body = (if in_Op inp \<noteq> ''get'' then
          jprint (JObj [(''client_id'', JStr (namespace @ ''-client-'' @ dec_of_nat client)), (''op'', JStr (in_Op inp)),
            (''req_id'', JNum (format_uint number)), (''value'', JStr (in_Val inp))])
        else '''')\<rparr>"

text \<open>What the reply says: a definite outcome only for 200 with a body that decodes.\<close>

definition reply_output :: "http_reply \<Rightarrow> KVOutput \<times> int \<times> string" where
  "reply_output r =
     (case r of
        TransportError e \<Rightarrow> (unknown_output, 0, e)
      | Reply sc _ body \<Rightarrow>
          (case decode_kv_reply body of
             None \<Rightarrow> (unknown_output, sc, ''decode'')
           | Some (v, f) \<Rightarrow>
               if sc = 200 then (\<lparr>out_Val = v, out_Found = f, out_Unknown = False\<rparr>, sc, '''') else (unknown_output, sc, '''')))"

definition response :: "nat \<Rightarrow> u64 \<Rightarrow> int \<Rightarrow> int \<Rightarrow> http_reply \<Rightarrow> observation" where
  "response client number now micros r =
     (let (out, sc, detail) = reply_output r in
      \<lparr>he_ID = op_id client number, he_ClientID = int client, he_At = now, he_Input = None, he_Output = Some out,
       ob_Code = sc, ob_Error = detail, ob_LatencyMS = of_int micros / 1000\<rparr>)"

definition observe :: "observation \<Rightarrow> recorder \<Rightarrow> recorder" where
  "observe ob r = r\<lparr>cr_events := cr_events r @ [ob]\<rparr>"

definition raw_events :: "observation list \<Rightarrow> HTTPEvent list" where
  "raw_events obs = map HTTPEvent.truncate obs"

section \<open>A schedule\<close>

definition chaos_names :: "string list" where
  "chaos_names = [''stable'', ''leader_sigkill'', ''minority_partition'', ''delayed_raft'', ''committed_response_lost_and_sigkill'',
     ''follower_restart_during_snapshots'']"

definition kind_of :: "nat \<Rightarrow> nat" where
  "kind_of seed = seed mod length chaos_names"

definition seed_key :: "nat \<Rightarrow> string" where
  "seed_key seed = ''seed-'' @ dec_of_nat seed"

text \<open>
  The operations of the clients: 1 and 2 alternate appends and reads for ten rounds, 3 reads once after the faults.
\<close>

definition workload_input :: "nat \<Rightarrow> nat \<Rightarrow> nat \<Rightarrow> KVInput" where
  "workload_input seed client i =
     (if i mod 2 = 0 then \<lparr>in_Op = ''append'', in_Key = seed_key seed, in_Val = ''['' @ dec_of_nat client @ '':'' @ dec_of_nat i @ '']''\<rparr>
      else \<lparr>in_Op = ''get'', in_Key = seed_key seed, in_Val = ''''\<rparr>)"

definition planned_input :: "nat \<Rightarrow> nat \<Rightarrow> nat \<Rightarrow> KVInput" where
  "planned_input seed client i =
     (if client = 3 then \<lparr>in_Op = ''get'', in_Key = seed_key seed, in_Val = ''''\<rparr> else workload_input seed client i)"

definition rounds :: "nat \<Rightarrow> nat" where
  "rounds client = (if client = 3 then 1 else 10)"

text \<open>The node a client asks: the leader it finds, or the one the schedule began with.\<close>

definition pick_node :: "(string \<Rightarrow> http_reply) \<Rightarrow> nat \<Rightarrow> cluster \<Rightarrow> nat" where
  "pick_node get leader c = (let node = chaos_leader get c in if node = 0 then leader else node)"

text \<open>The fault of the schedule, up to the goroutine that kills and restarts a node; \<open>draw\<close> is \<open>random.Intn(5)\<close>.\<close>

datatype task = KillTask nat | StartTask nat | TaskDone

definition reset_counters :: "faults \<Rightarrow> faults" where
  "reset_counters fl = fl\<lparr>fl_lost := 0, fl_partitioned := 0, fl_delayed := 0, fl_kills := 0\<rparr>"

definition minority :: "nat \<Rightarrow> nat \<Rightarrow> u64 list" where
  "minority n leader = map (\<lambda>i. of_nat ((leader + i - 1) mod n + 1)) [1..<n div 2 + 1]"

definition inject :: "nat \<Rightarrow> nat \<Rightarrow> nat \<Rightarrow> cluster \<Rightarrow> cluster \<times> nat \<times> task" where
  "inject kind leader draw c0 =
     (let c = on_faults reset_counters c0 in
      if kind = 1 then (c, leader, KillTask leader)
      else if kind = 2 then
        (on_faults (\<lambda>fl. fl\<lparr>fl_isolated := fl_isolated fl @ minority (cl_n c) leader\<rparr>) c, 0, TaskDone)
      else if kind = 3 then (on_faults (\<lambda>fl. fl\<lparr>fl_delay := (2 + int draw) * 1000000\<rparr>) c, 0, TaskDone)
      else if kind = 4 then
        (on_faults (\<lambda>fl. fl\<lparr>fl_killAfterCommit := Some leader, fl_loseResponse := True\<rparr>) c, leader, TaskDone)
      else if kind = 5 then
        (let killed = leader mod cl_n c + 1 in (c, killed, KillTask killed))
      else (c, 0, TaskDone))"

fun task_step :: "task \<Rightarrow> cluster \<Rightarrow> cluster \<times> task" where
  "task_step (KillTask i) c = (chaos_kill i c, StartTask i)"
| "task_step (StartTask i) c = (chaos_start i c, TaskDone)"
| "task_step TaskDone c = (c, TaskDone)"

text \<open>
  What follows the workload: for the lost response the flag, the callback and the restart are taken back one by one, then the
  partition and the delay.
\<close>

datatype phase = Running | Rearmed | Uncalled | Restarted | Healed

definition heal_step :: "nat \<Rightarrow> nat \<Rightarrow> phase \<Rightarrow> cluster \<Rightarrow> cluster \<times> phase" where
  "heal_step kind killed ph c =
     (case ph of
        Running \<Rightarrow> if kind = 4 then (on_faults (\<lambda>fl. fl\<lparr>fl_loseResponse := False\<rparr>) c, Rearmed) else (c, Restarted)
      | Rearmed \<Rightarrow> (on_faults (\<lambda>fl. fl\<lparr>fl_killAfterCommit := None\<rparr>) c, Uncalled)
      | Uncalled \<Rightarrow> (if fl_lost (cl_faults c) > 0 then chaos_start killed c else c, Restarted)
      | Restarted \<Rightarrow> (on_faults (\<lambda>fl. fl\<lparr>fl_isolated := [], fl_delay := 0\<rparr>) c, Healed)
      | Healed \<Rightarrow> (c, Healed))"

subsection \<open>Interleaving\<close>

text \<open>
  A client draws its number, records the invocation and records the response in three steps; \<open>Waiting\<close> is the request in flight.
  Client \<open>k + 1\<close> has index \<open>k\<close>.  \<open>sd_losing\<close> has the handlers that drop a response, \<open>sd_clock\<close> the last
  instant recorded (the readings are taken under the lock of the recorder, and the monotonic clock does not go back), and
  \<open>sd_raced\<close> remembers whether such a handler was under way when the healing began.
\<close>

datatype client_pc = Ready nat | Numbered nat u64 | Waiting nat u64

record schedule =
  sd_cluster :: cluster
  sd_rec :: recorder
  sd_pcs :: "client_pc list"
  sd_killed :: nat
  sd_task :: task
  sd_losing :: "losing list"
  sd_phase :: phase
  sd_clock :: int
  sd_raced :: bool

definition namespace_of :: "nat \<Rightarrow> nat \<Rightarrow> string" where
  "namespace_of n seed = ''nodes-'' @ dec_of_nat n @ ''-seed-'' @ dec_of_nat seed"

definition begin_schedule :: "nat \<Rightarrow> nat \<Rightarrow> nat \<Rightarrow> cluster \<Rightarrow> schedule" where
  "begin_schedule seed leader draw c0 =
     (let (c, killed, t) = inject (kind_of seed) leader draw c0 in
      \<lparr>sd_cluster = c, sd_rec = \<lparr>cr_events = [], cr_next = 0, cr_namespace = namespace_of (cl_n c0) seed\<rparr>,
       sd_pcs = [Ready 0, Ready 0, Ready 0], sd_killed = killed, sd_task = t, sd_losing = [], sd_phase = Running, sd_clock = 0,
       sd_raced = False\<rparr>)"

text \<open>The start of a schedule: without a leader it panics.\<close>

definition open_schedule :: "(nat \<Rightarrow> string \<Rightarrow> http_reply) \<Rightarrow> nat \<Rightarrow> nat \<Rightarrow> cluster \<Rightarrow> (nat \<times> schedule) res" where
  "open_schedule get seed draw c0 =
     (let leader = waitLeader get c0 in
      if leader = 0 then Inl ErrPanic else Inr (leader, begin_schedule seed leader draw c0))"

definition workers_done :: "schedule \<Rightarrow> bool" where
  "workers_done s \<longleftrightarrow> take 2 (sd_pcs s) = [Ready 10, Ready 10] \<and> sd_task s = TaskDone"

definition schedule_done :: "schedule \<Rightarrow> bool" where
  "schedule_done s \<longleftrightarrow> sd_phase s = Healed \<and> sd_pcs s = [Ready 10, Ready 10, Ready 1]"

definition draw_number :: "nat \<Rightarrow> nat \<Rightarrow> schedule \<Rightarrow> schedule" where
  "draw_number k i s =
     (let number = cr_next (sd_rec s) + 1 in
      s\<lparr>sd_rec := (sd_rec s)\<lparr>cr_next := number\<rparr>, sd_pcs := (sd_pcs s)[k := Numbered i number]\<rparr>)"

definition record_call :: "nat \<Rightarrow> nat \<Rightarrow> nat \<Rightarrow> u64 \<Rightarrow> int \<Rightarrow> schedule \<Rightarrow> schedule" where
  "record_call seed k i number now s =
     s\<lparr>sd_rec := observe (invocation (k + 1) number now (planned_input seed (k + 1) i)) (sd_rec s),
       sd_pcs := (sd_pcs s)[k := Waiting i number], sd_clock := now\<rparr>"

definition record_return :: "nat \<Rightarrow> nat \<Rightarrow> u64 \<Rightarrow> int \<Rightarrow> int \<Rightarrow> http_reply \<Rightarrow> schedule \<Rightarrow> schedule" where
  "record_return k i number now micros r s =
     s\<lparr>sd_rec := observe (response (k + 1) number now micros r) (sd_rec s),
       sd_pcs := (sd_pcs s)[k := Ready (i + 1)], sd_clock := now\<rparr>"

inductive chaos_step :: "nat \<Rightarrow> schedule \<Rightarrow> schedule \<Rightarrow> bool" for seed where
  draws: "k < 3 \<Longrightarrow> sd_pcs s ! k = Ready i \<Longrightarrow> i < rounds (k + 1) \<Longrightarrow> k = 2 \<longrightarrow> sd_phase s = Healed \<Longrightarrow>
     chaos_step seed s (draw_number k i s)"
| invokes: "k < 3 \<Longrightarrow> sd_pcs s ! k = Numbered i number \<Longrightarrow> sd_clock s \<le> now \<Longrightarrow> now < max_int64 \<Longrightarrow>
     chaos_step seed s (record_call seed k i number now s)"
| returns: "k < 3 \<Longrightarrow> sd_pcs s ! k = Waiting i number \<Longrightarrow> sd_clock s \<le> now \<Longrightarrow> now < max_int64 \<Longrightarrow>
     chaos_step seed s (record_return k i number now micros r s)"
| admits: "proxy_admit unm bad gone node rq (sd_cluster s) = (c, out) \<Longrightarrow> chaos_step seed s (s\<lparr>sd_cluster := c\<rparr>)"
| answers: "proxy_return mth r (sd_cluster s) = (c, Inl out) \<Longrightarrow> chaos_step seed s (s\<lparr>sd_cluster := c\<rparr>)"
| swaps: "proxy_return mth r (sd_cluster s) = (c, Inr l) \<Longrightarrow>
     chaos_step seed s (s\<lparr>sd_cluster := c, sd_losing := sd_losing s @ [l]\<rparr>)"
| loses: "j < length (sd_losing s) \<Longrightarrow> losing_step (sd_losing s ! j) (sd_cluster s) = (c, Some l) \<Longrightarrow>
     chaos_step seed s (s\<lparr>sd_cluster := c, sd_losing := (sd_losing s)[j := l]\<rparr>)"
| lost: "j < length (sd_losing s) \<Longrightarrow> losing_step (sd_losing s ! j) (sd_cluster s) = (c, None) \<Longrightarrow>
     chaos_step seed s (s\<lparr>sd_cluster := c, sd_losing := take j (sd_losing s) @ drop (Suc j) (sd_losing s)\<rparr>)"
| task: "task_step (sd_task s) (sd_cluster s) = (c, t) \<Longrightarrow> chaos_step seed s (s\<lparr>sd_cluster := c, sd_task := t\<rparr>)"
| heals: "workers_done s \<Longrightarrow> heal_step (kind_of seed) (sd_killed s) (sd_phase s) (sd_cluster s) = (c, ph) \<Longrightarrow>
     chaos_step seed s (s\<lparr>sd_cluster := c, sd_phase := ph,
       sd_raced := (sd_raced s \<or> sd_phase s = Running \<and> sd_losing s \<noteq> [])\<rparr>)"

inductive chaos_run :: "nat \<Rightarrow> nat \<Rightarrow> nat \<Rightarrow> cluster \<Rightarrow> schedule \<Rightarrow> bool" for seed leader draw c0 where
  start: "chaos_run seed leader draw c0 (begin_schedule seed leader draw c0)"
| steps: "chaos_run seed leader draw c0 s \<Longrightarrow> chaos_step seed s s' \<Longrightarrow> chaos_run seed leader draw c0 s'"

inductive_cases chaos_stepE: "chaos_step seed s s'"

subsection \<open>Result\<close>

record tally =
  ta_latencies :: "rat list"
  ta_unknown :: nat
  ta_ack :: nat
  ta_writes :: nat
  ta_inputs :: "(string, KVInput) fmap"

definition tally_event :: "observation \<Rightarrow> tally \<Rightarrow> tally" where
  "tally_event e t0 =
     (let t = (case he_Input e of None \<Rightarrow> t0 | Some inp \<Rightarrow> t0\<lparr>ta_inputs := fmupd (he_ID e) inp (ta_inputs t0)\<rparr>) in
      case he_Output e of
        None \<Rightarrow> t
      | Some out \<Rightarrow>
          let t1 = t\<lparr>ta_latencies := ta_latencies t @ [ob_LatencyMS e]\<rparr> in
          if out_Unknown out then t1\<lparr>ta_unknown := ta_unknown t1 + 1\<rparr>
          else
            let t2 = t1\<lparr>ta_ack := ta_ack t1 + 1\<rparr>;
                op = (case fmlookup (ta_inputs t2) (he_ID e) of None \<Rightarrow> '''' | Some inp \<Rightarrow> in_Op inp)
            in if op \<noteq> ''get'' then t2\<lparr>ta_writes := ta_writes t2 + 1\<rparr> else t2)"

definition tally_events :: "observation list \<Rightarrow> tally" where
  "tally_events obs =
     fold tally_event obs \<lparr>ta_latencies = [], ta_unknown = 0, ta_ack = 0, ta_writes = 0, ta_inputs = fmempty\<rparr>"

definition verdictFor :: "(Operation list \<Rightarrow> int \<Rightarrow> CheckResult) \<Rightarrow> int \<Rightarrow> HTTPEvent list \<Rightarrow> CheckResult res" where
  "verdictFor chk elapsed events = CheckHTTPHistoryWithin chk events 1000000000 elapsed"

definition verdict_label :: "CheckResult \<Rightarrow> string" where
  "verdict_label v = (if v = Ok then ''LINEARIZABLE'' else if v = Illegal then ''VIOLATION'' else ''INCONCLUSIVE'')"

text \<open>The snapshot indices before and after: how many nodes have one, how many advanced.\<close>

definition snap_before :: "(nat \<Rightarrow> nodeStatus option) \<Rightarrow> nat \<Rightarrow> u64" where
  "snap_before st i = (case st i of None \<Rightarrow> 0 | Some s \<Rightarrow> cs_SnapIndex s)"

definition count_snapshots :: "(nat \<Rightarrow> u64) \<Rightarrow> (nat \<Rightarrow> nodeStatus option) \<Rightarrow> nat \<Rightarrow> nat \<times> nat" where
  "count_snapshots before st n =
     fold (\<lambda>i (snapshots, advanced).
       case st i of
         None \<Rightarrow> (snapshots, advanced)
       | Some s \<Rightarrow>
           if cs_SnapIndex s > 0 then (snapshots + 1, if cs_SnapIndex s > before i then advanced + 1 else advanced)
           else (snapshots, advanced)) [1..<n + 1] (0, 0)"

record chaos_times =
  tm_RecoveryMS :: rat
  tm_DurationMS :: rat
  tm_WorkloadDurationMS :: rat

record chaos_result =
  re_Nodes :: nat
  re_Seed :: nat
  re_Fault :: string
  re_Verdict :: string
  re_Events :: "observation list"
  re_Acknowledged :: nat
  re_Unknown :: nat
  re_P99MS :: rat
  re_SnapshotsObserved :: nat
  re_DroppedCommittedResponses :: int
  re_PartitionedMessages :: int
  re_DelayedMessages :: int
  re_KilledProcesses :: int
  re_WritesAcknowledged :: nat
  re_SnapshotsAdvanced :: nat
  re_FinalReadAcknowledged :: bool
  re_times :: chaos_times

definition final_read_acknowledged :: "observation list \<Rightarrow> bool" where
  "final_read_acknowledged obs =
     (case he_Output (last obs) of None \<Rightarrow> False | Some out \<Rightarrow> \<not> out_Unknown out)"

definition finish_schedule ::
  "(Operation list \<Rightarrow> int \<Rightarrow> CheckResult) \<Rightarrow> int \<Rightarrow> nat \<Rightarrow> (nat \<Rightarrow> nodeStatus option) \<Rightarrow> (nat \<Rightarrow> nodeStatus option) \<Rightarrow>
   chaos_times \<Rightarrow> schedule \<Rightarrow> chaos_result res" where
  "finish_schedule chk elapsed seed before after tm s =
     (let obs = cr_events (sd_rec s); t = tally_events obs; c = sd_cluster s; fl = cl_faults c;
          (snapshots, advanced) = count_snapshots (snap_before before) after (cl_n c)
      in case verdictFor chk elapsed (raw_events obs) of
           Inl e \<Rightarrow> Inl ErrPanic
         | Inr v \<Rightarrow>
             if ta_latencies t = [] then Inl ErrPanic
             else Inr \<lparr>re_Nodes = cl_n c, re_Seed = seed, re_Fault = chaos_names ! kind_of seed, re_Verdict = verdict_label v,
               re_Events = obs, re_Acknowledged = ta_ack t, re_Unknown = ta_unknown t, re_P99MS = last (sort (ta_latencies t)),
               re_SnapshotsObserved = snapshots, re_DroppedCommittedResponses = fl_lost fl,
               re_PartitionedMessages = fl_partitioned fl, re_DelayedMessages = fl_delayed fl, re_KilledProcesses = fl_kills fl,
               re_WritesAcknowledged = ta_writes t, re_SnapshotsAdvanced = advanced,
               re_FinalReadAcknowledged = final_read_acknowledged obs, re_times = tm\<rparr>)"

section \<open>Replay and command\<close>

text \<open>
  \<open>replay\<close> on the rows it has decoded: the counts by label, and the rows whose verdict changed.
\<close>

definition count_label :: "string \<Rightarrow> (string, nat) fmap \<Rightarrow> (string, nat) fmap" where
  "count_label l m = fmupd l (case fmlookup m l of None \<Rightarrow> 1 | Some n \<Rightarrow> n + 1) m"

fun replay ::
  "(Operation list \<Rightarrow> int \<Rightarrow> CheckResult) \<Rightarrow> (nat \<Rightarrow> int) \<Rightarrow> nat \<Rightarrow> chaos_result list \<Rightarrow> (string, nat) fmap \<Rightarrow>
   ((string, nat) fmap \<times> (nat \<times> nat \<times> string \<times> string) list) res" where
  "replay chk elapsed k [] counts = Inr (counts, [])"
| "replay chk elapsed k (row # rows) counts =
     (case verdictFor chk (elapsed k) (raw_events (re_Events row)) of
        Inl e \<Rightarrow> Inl ErrPanic
      | Inr v \<Rightarrow>
          let label = verdict_label v;
              changed = (if label \<noteq> re_Verdict row then [(re_Nodes row, re_Seed row, re_Verdict row, label)] else [])
          in rbind (replay chk elapsed (Suc k) rows (count_label label counts)) (\<lambda>(m, rest). Inr (m, changed @ rest)))"

text \<open>
  \<open>main\<close>: a replay, a panic on missing flags, on a count out of range or on a protocol that differs from the frozen one, the
  frozen protocol alone, or the schedules of clusters of three and of five nodes.
\<close>

record chaos_flags =
  cf_bin :: string
  cf_out :: string
  cf_count :: int
  cf_replay :: string
  cf_lock :: bool

datatype chaos_cmd = CmdReplay string | CmdFreeze | CmdSchedules "(nat \<times> nat) list"

definition schedule_plan :: "nat \<Rightarrow> (nat \<times> nat) list" where
  "schedule_plan cnt = concat (map (\<lambda>nodes. map (\<lambda>seed. (nodes, seed)) [0..<cnt]) [3, 5])"

definition chaos_main :: "string option \<Rightarrow> string \<Rightarrow> chaos_flags \<Rightarrow> chaos_cmd res" where
  "chaos_main prior protocol cf =
     (if cf_replay cf \<noteq> '''' then Inr (CmdReplay (cf_replay cf))
      else if cf_bin cf = '''' \<or> cf_out cf = '''' \<or> cf_count cf < 1 \<or> cf_count cf > 1000 then Inl ErrPanic
      else if prior \<noteq> None \<and> prior \<noteq> Some protocol then Inl ErrPanic
      else if cf_lock cf then Inr CmdFreeze
      else Inr (CmdSchedules (schedule_plan (nat (cf_count cf)))))"

end
