(* ===== verification/ChaosFacts.thy ===== *)
theory ChaosFacts
  imports Chaos CheckFacts
begin

text \<open>
  The partition of a schedule leaves the leader a majority; the recorder's events are always a history the checker
  accepts; after the healing no fault is left and every node runs.
\<close>

section \<open>Minority partition\<close>

definition cut_off :: "nat \<Rightarrow> nat \<Rightarrow> nat set" where
  "cut_off n leader = (\<lambda>i. (leader + i - 1) mod n + 1) ` {1..n div 2}"

lemma rotate_inj:
  assumes "0 < n" "1 \<le> i" "i \<le> n" "1 \<le> j" "j \<le> n" "(leader + i - 1) mod n = (leader + j - 1) mod n"
  shows "i = (j :: nat)"
proof -
  have "(int leader + int i - 1) mod int n = (int leader + int j - 1) mod int n"
    using arg_cong [OF assms(6), of int] assms(2,4) by (simp add: zmod_int of_nat_diff)
  then have "int n dvd (int leader + int i - 1) - (int leader + int j - 1)" by (simp add: mod_eq_dvd_iff)
  then have "int n dvd int i - int j" by simp
  moreover have "\<bar>int i - int j\<bar> < int n" using assms(1-5) by auto
  ultimately have "int i - int j = 0" using dvd_imp_le_int [of "int i - int j" "int n"] by fastforce
  then show ?thesis by simp
qed

lemma cut_off_facts:
  assumes "1 \<le> leader" "leader \<le> n"
  shows "card (cut_off n leader) = n div 2" "cut_off n leader \<subseteq> {1..n}" "leader \<notin> cut_off n leader"
proof -
  have n: "0 < n" using assms by simp
  have "inj_on (\<lambda>i. (leader + i - 1) mod n + 1) {1..n div 2}"
    using rotate_inj [OF n] by (auto simp: inj_on_def)
  then show "card (cut_off n leader) = n div 2" by (simp add: cut_off_def card_image)
  have "(leader + i - 1) mod n < n" for i using n by simp
  then show "cut_off n leader \<subseteq> {1..n}" by (auto simp: cut_off_def Suc_le_eq)
  show "leader \<notin> cut_off n leader"
  proof
    assume "leader \<in> cut_off n leader"
    then obtain i where i: "1 \<le> i" "i \<le> n div 2" "leader = (leader + i - 1) mod n + 1" by (auto simp: cut_off_def)
    have "(leader + n - 1) mod n = (leader - 1) mod n" using assms
      by (metis Nat.add_diff_assoc2 mod_add_self2)
    also have "\<dots> = leader - 1" using assms by simp
    also have "\<dots> = (leader + i - 1) mod n" using i(3) by linarith
    finally have "n = i" using rotate_inj [of n n i leader] n i by auto
    then show False using i n by simp
  qed
qed

lemma of_nat_u64_eq:
  assumes "i < 2 ^ 64" "j < 2 ^ 64"
  shows "(of_nat i :: u64) = of_nat j \<longleftrightarrow> i = j"
proof -
  have "unat (of_nat i :: u64) = i" "unat (of_nat j :: u64) = j" using assms by (simp_all add: unat_of_nat)
  then show ?thesis by metis
qed

lemma minority_cut_off:
  assumes "n < 2 ^ 64" "1 \<le> leader" "leader \<le> n" "i \<le> n"
  shows "(of_nat i :: u64) \<in> set (minority n leader) \<longleftrightarrow> i \<in> cut_off n leader"
proof -
  have "set (minority n leader) = of_nat ` cut_off n leader"
    by (auto simp: minority_def cut_off_def image_image atLeastLessThanSuc_atLeastAtMost)
  moreover have "j < 2 ^ 64" if "j \<in> cut_off n leader" for j
    using that cut_off_facts(2) [OF assms(2,3)] assms(1) by force
  ultimately show ?thesis using of_nat_u64_eq [of i] assms(1,4) by auto
qed

definition raft_request :: "string \<Rightarrow> proxy_request" where
  "raft_request msg = \<lparr>pq_Method = ''POST'', pq_Path = ''/raft'', pq_URI = ''/raft'', pq_Body = Some msg\<rparr>"

lemma proxy_admit_raft:
  assumes "length msg \<le> body_limit" "unm msg = Some src" "fl_delay (cl_faults c) = 0"
  shows "proxy_admit unm (\<lambda>_. False) gone i (raft_request msg) c =
    (if isolated (cl_faults c) src \<noteq> isolated (cl_faults c) (of_nat i)
     then (on_faults (\<lambda>fl. fl\<lparr>fl_partitioned := fl_partitioned fl + 1\<rparr>) c, Inl (Answer 503 ''injected partition''))
     else (c, Inr (forwarded i c (raft_request msg) msg)))"
  using assms by (auto simp: proxy_admit_def raft_request_def Let_def)

section \<open>Leaders\<close>

lemma first_leader_range: "first_leader st is = 0 \<or> first_leader st is \<in> set is"
  by (induction "is") (auto split: option.split)

lemma wait_rounds_range: "wait_rounds get c n i = 0 \<or> wait_rounds get c n i \<in> {1..cl_n c}"
proof (induction n arbitrary: i)
  case (Suc n)
  have "chaos_leader (get i) c = 0 \<or> chaos_leader (get i) c \<in> {1..cl_n c}"
    using first_leader_range [of "\<lambda>j. chaos_status (get i) j c" "[1..<cl_n c + 1]"] by (auto simp: chaos_leader_def simp del: upt_Suc)
  then show ?case using Suc by (auto simp: Let_def)
qed simp

text \<open>The leader a schedule begins with is one of the nodes.\<close>

lemma open_schedule_leader: "open_schedule get seed draw c0 = Inr (leader, s) \<Longrightarrow> leader \<in> {1..cl_n c0} \<and> s = begin_schedule seed leader draw c0"
  using wait_rounds_range [of get c0 100 0] by (auto simp: open_schedule_def waitLeader_def Let_def split: if_splits)

section \<open>Recorded events\<close>

lemma http_events_snoc: "http_events (evs @ [ev]) h = rbind (http_events evs h) (http_event ev)"
  by (induction evs arbitrary: h) (auto simp: rbind_def split: sum.split)

lemma op_id_inj:
  assumes "op_id c m = op_id d k"
  shows "c = d \<and> m = k"
proof -
  have no: "\<not> is_digit CHR ''p''" by (simp add: is_digit_def)
  have "(dec_of_nat c @ ''-o'') @ CHR ''p'' # format_uint m = (dec_of_nat d @ ''-o'') @ CHR ''p'' # format_uint k"
    using assms by (simp add: op_id_def)
  from split_at_last_separator [OF this no] show ?thesis
    by (simp add: format_uint_digits dec_of_nat_inj format_uint_inj)
qed

text \<open>How far a client is: numbers drawn, invocations recorded, responses recorded.\<close>

fun drawn :: "client_pc \<Rightarrow> nat" where
  "drawn (Ready i) = i" | "drawn (Numbered i _) = i + 1" | "drawn (Waiting i _) = i + 1"

fun invoked :: "client_pc \<Rightarrow> nat" where
  "invoked (Ready i) = i" | "invoked (Numbered i _) = i" | "invoked (Waiting i _) = i + 1"

fun returned :: "client_pc \<Rightarrow> nat" where
  "returned (Ready i) = i" | "returned (Numbered i _) = i" | "returned (Waiting i _) = i"

definition planned :: "nat \<Rightarrow> nat \<Rightarrow> nat \<Rightarrow> (int \<times> KVInput) multiset" where
  "planned seed client i = mset (map (\<lambda>j. (int client, planned_input seed client j)) [0..<i])"

definition all_planned :: "nat \<Rightarrow> client_pc list \<Rightarrow> (int \<times> KVInput) multiset" where
  "all_planned seed pcs = planned seed 1 (invoked (pcs ! 0)) + planned seed 2 (invoked (pcs ! 1)) + planned seed 3 (invoked (pcs ! 2))"

definition planned_operations :: "nat \<Rightarrow> (int \<times> KVInput) multiset" where
  "planned_operations seed = planned seed 1 10 + planned seed 2 10 + planned seed 3 1"

definition total :: "(client_pc \<Rightarrow> nat) \<Rightarrow> client_pc list \<Rightarrow> nat" where
  "total f pcs = f (pcs ! 0) + f (pcs ! 1) + f (pcs ! 2)"

definition calls_made :: "observation list \<Rightarrow> (int \<times> KVInput) multiset" where
  "calls_made obs = image_mset (\<lambda>(c, inp, _). (c, inp)) (event_calls (raw_events obs))"

definition responses :: "observation list \<Rightarrow> nat" where
  "responses obs = length (filter (\<lambda>e. he_Output e \<noteq> None) obs)"

definition pcs_ok :: "nat \<Rightarrow> u64 \<Rightarrow> client_pc list \<Rightarrow> bool" where
  "pcs_ok seed next_id pcs \<longleftrightarrow> length pcs = 3 \<and> (\<forall>k < 3. drawn (pcs ! k) \<le> rounds (k + 1)) \<and> unat next_id = total drawn pcs"

definition times_ok :: "observation list \<Rightarrow> int \<Rightarrow> bool" where
  "times_ok obs clock \<longleftrightarrow> sorted (map he_At obs) \<and> (\<forall>ob \<in> set obs. 0 \<le> he_At ob \<and> he_At ob \<le> clock) \<and> 0 \<le> clock \<and> clock < max_int64"

definition counts_ok :: "nat \<Rightarrow> observation list \<Rightarrow> client_pc list \<Rightarrow> bool" where
  "counts_ok seed obs pcs \<longleftrightarrow> calls_made obs = all_planned seed pcs \<and> responses obs = total returned pcs"

text \<open>The state of the conversion after the events so far, and the numbers in use.\<close>

definition conv_ok :: "u64 \<Rightarrow> client_pc list \<Rightarrow> http_state \<Rightarrow> bool" where
  "conv_ok next_id pcs h \<longleftrightarrow>
     (\<forall>k < 3. \<forall>i m. pcs ! k = Waiting i m \<longrightarrow> (\<exists>p. fmlookup (hh_open h) (op_id (k + 1) m) = Some p \<and> pe_client p = int (k + 1))) \<and>
     (\<forall>k < 3. \<forall>i m. pcs ! k = Numbered i m \<longrightarrow> op_id (k + 1) m \<notin> set (hh_seen h) \<and> unat m \<le> unat next_id) \<and>
     (\<forall>x \<in> set (hh_seen h). \<exists>c m. x = op_id c m \<and> unat m \<le> unat next_id)"

definition rec_inv :: "nat \<Rightarrow> recorder \<Rightarrow> client_pc list \<Rightarrow> int \<Rightarrow> bool" where
  "rec_inv seed r pcs clock \<longleftrightarrow>
     pcs_ok seed (cr_next r) pcs \<and> times_ok (cr_events r) clock \<and> counts_ok seed (cr_events r) pcs \<and>
     (\<exists>h. http_events (raw_events (cr_events r)) http_start = Inr h \<and> conv_ok (cr_next r) pcs h)"

lemma conv_okI:
  assumes "\<And>k i m. k < 3 \<Longrightarrow> pcs ! k = Waiting i m \<Longrightarrow> \<exists>p. fmlookup (hh_open h) (op_id (k + 1) m) = Some p \<and> pe_client p = int (k + 1)"
    "\<And>k i m. k < 3 \<Longrightarrow> pcs ! k = Numbered i m \<Longrightarrow> op_id (k + 1) m \<notin> set (hh_seen h) \<and> unat m \<le> unat next_id"
    "\<And>x. x \<in> set (hh_seen h) \<Longrightarrow> \<exists>c m. x = op_id c m \<and> unat m \<le> unat next_id"
  shows "conv_ok next_id pcs h"
  using assms by (simp only: conv_ok_def) blast

lemma conv_okD:
  assumes "conv_ok next_id pcs h"
  shows "k < 3 \<Longrightarrow> pcs ! k = Waiting i m \<Longrightarrow> \<exists>p. fmlookup (hh_open h) (op_id (k + 1) m) = Some p \<and> pe_client p = int (k + 1)"
    "k < 3 \<Longrightarrow> pcs ! k = Numbered i m \<Longrightarrow> op_id (k + 1) m \<notin> set (hh_seen h) \<and> unat m \<le> unat next_id"
    "x \<in> set (hh_seen h) \<Longrightarrow> \<exists>c m. x = op_id c m \<and> unat m \<le> unat next_id"
  using assms by (simp_all only: conv_ok_def) blast+

lemma pcs_updateE:
  assumes "pcs[k := x] ! j = y" "length pcs = 3" "k < 3"
  obtains "j = k" "y = x" | "j \<noteq> k" "pcs ! j = y"
  using assms by (cases "j = k") auto

lemma conv_ok_draw:
  assumes "conv_ok next_id pcs h" "length pcs = 3" "k < 3" "unat next' = unat next_id + 1"
  shows "conv_ok next' (pcs[k := Numbered i next']) h"
proof (rule conv_okI)
  fix j a m assume "j < 3" "pcs[k := Numbered i next'] ! j = Waiting a m"
  then show "\<exists>p. fmlookup (hh_open h) (op_id (j + 1) m) = Some p \<and> pe_client p = int (j + 1)"
    using conv_okD(1) [OF assms(1)] by (auto elim!: pcs_updateE [OF _ assms(2,3)])
next
  have fresh: "op_id c next' \<notin> set (hh_seen h)" for c
    using conv_okD(3) [OF assms(1)] op_id_inj assms(4) by fastforce
  fix j a m assume "j < 3" "pcs[k := Numbered i next'] ! j = Numbered a m"
  then show "op_id (j + 1) m \<notin> set (hh_seen h) \<and> unat m \<le> unat next'"
    using conv_okD(2) [OF assms(1)] fresh assms(4) by (fastforce elim!: pcs_updateE [OF _ assms(2,3)])
qed (use conv_okD(3) [OF assms(1)] assms(4) in fastforce)

lemma conv_ok_call:
  assumes "conv_ok next_id pcs h" "length pcs = 3" "k < 3" "pcs ! k = Numbered i m"
    "hh_seen h' = op_id (k + 1) m # hh_seen h" "hh_open h' = fmupd (op_id (k + 1) m) p (hh_open h)" "pe_client p = int (k + 1)"
  shows "conv_ok next_id (pcs[k := Waiting i m]) h'"
proof (rule conv_okI)
  fix j a q assume "j < 3" "pcs[k := Waiting i m] ! j = Waiting a q"
  then show "\<exists>p. fmlookup (hh_open h') (op_id (j + 1) q) = Some p \<and> pe_client p = int (j + 1)"
    using conv_okD(1) [OF assms(1)] assms(6,7) by (auto elim!: pcs_updateE [OF _ assms(2,3)] dest: op_id_inj)
next
  fix j a q assume "j < 3" "pcs[k := Waiting i m] ! j = Numbered a q"
  then show "op_id (j + 1) q \<notin> set (hh_seen h') \<and> unat q \<le> unat next_id"
    using conv_okD(2) [OF assms(1)] assms(5) by (auto elim!: pcs_updateE [OF _ assms(2,3)] dest: op_id_inj)
next
  fix x assume "x \<in> set (hh_seen h')"
  then show "\<exists>c m. x = op_id c m \<and> unat m \<le> unat next_id"
    using conv_okD(3) [OF assms(1)] conv_okD(2) [OF assms(1,3,4)] assms(5) by auto
qed

lemma conv_ok_return:
  assumes "conv_ok next_id pcs h" "length pcs = 3" "k < 3" "hh_seen h' = hh_seen h" "hh_open h' = fmdrop (op_id (k + 1) m) (hh_open h)"
  shows "conv_ok next_id (pcs[k := Ready i]) h'"
proof (rule conv_okI)
  fix j a q assume "j < 3" "pcs[k := Ready i] ! j = Waiting a q"
  then show "\<exists>p. fmlookup (hh_open h') (op_id (j + 1) q) = Some p \<and> pe_client p = int (j + 1)"
    using conv_okD(1) [OF assms(1)] assms(5) by (auto elim!: pcs_updateE [OF _ assms(2,3)] dest: op_id_inj)
next
  fix j a q assume "j < 3" "pcs[k := Ready i] ! j = Numbered a q"
  then show "op_id (j + 1) q \<notin> set (hh_seen h') \<and> unat q \<le> unat next_id"
    using conv_okD(2) [OF assms(1)] assms(4) by (auto elim!: pcs_updateE [OF _ assms(2,3)])
qed (use conv_okD(3) [OF assms(1)] assms(4) in simp)

lemma three_cases: "(k :: nat) < 3 \<Longrightarrow> k = 0 \<or> k = 1 \<or> k = 2"
  by auto

lemma total_update:
  assumes "length pcs = 3" "k < 3"
  shows "total f (pcs[k := x]) + f (pcs ! k) = total f pcs + f x"
  using three_cases [OF assms(2)] assms(1) by (auto simp: total_def)

lemma all_planned_update:
  assumes "length pcs = 3" "k < 3"
  shows "all_planned seed (pcs[k := x]) + planned seed (k + 1) (invoked (pcs ! k)) = all_planned seed pcs + planned seed (k + 1) (invoked x)"
  using three_cases [OF assms(2)] assms(1) by (auto simp: all_planned_def eval_nat_numeral)

lemma planned_Suc [simp]: "planned seed c (Suc i) = add_mset (int c, planned_input seed c i) (planned seed c i)"
  by (simp add: planned_def)

lemma raw_events_snoc [simp]: "raw_events (obs @ [ob]) = raw_events obs @ [HTTPEvent.truncate ob]"
  by (simp add: raw_events_def)

lemma calls_made_snoc [simp]:
  "calls_made (obs @ [ob]) = calls_made obs + (case he_Input ob of None \<Rightarrow> {#} | Some inp \<Rightarrow> {#(he_ClientID ob, inp)#})"
  by (auto simp: calls_made_def event_calls_def HTTPEvent.defs split: option.split)

lemma responses_snoc [simp]: "responses (obs @ [ob]) = responses obs + (if he_Output ob = None then 0 else 1)"
  by (simp add: responses_def)

lemma times_ok_snoc:
  "times_ok obs clock \<Longrightarrow> clock \<le> he_At ob \<Longrightarrow> he_At ob < max_int64 \<Longrightarrow> times_ok (obs @ [ob]) (he_At ob)"
  by (auto simp: times_ok_def sorted_append)

lemma response_fields [simp]:
  "he_ID (response c m now us r) = op_id c m" "he_ClientID (response c m now us r) = int c" "he_At (response c m now us r) = now"
  "he_Input (response c m now us r) = None" "he_Output (response c m now us r) \<noteq> None"
  by (simp_all add: response_def split_beta)

lemma drawn_bounded: "pcs_ok seed next_id pcs \<Longrightarrow> unat next_id \<le> 21"
proof -
  assume ok: "pcs_ok seed next_id pcs"
  have "drawn (pcs ! k) \<le> rounds (k + 1)" if "k < 3" for k using ok that by (simp add: pcs_ok_def)
  from this [of 0] this [of 1] this [of 2] show ?thesis using ok by (simp add: pcs_ok_def total_def rounds_def)
qed

lemma unat_next:
  assumes "pcs_ok seed next_id pcs"
  shows "unat (next_id + 1) = unat next_id + 1"
  using drawn_bounded [OF assms] by (simp add: unat_word_ariths)

text \<open>The three steps of a client keep the invariant.\<close>

lemma pcs_ok_draw:
  assumes "pcs_ok seed next_id pcs" "k < 3" "pcs ! k = Ready i" "i < rounds (k + 1)"
  shows "pcs_ok seed (next_id + 1) (pcs[k := Numbered i (next_id + 1)])"
  using assms total_update [of pcs k drawn "Numbered i (next_id + 1)"] unat_next [OF assms(1)]
  by (auto simp: pcs_ok_def nth_list_update)

lemma pcs_ok_same:
  assumes "pcs_ok seed next_id pcs" "k < 3" "drawn x = drawn (pcs ! k)"
  shows "pcs_ok seed next_id (pcs[k := x])"
  using assms total_update [of pcs k drawn x] by (auto simp: pcs_ok_def nth_list_update)

lemma counts_ok_same:
  assumes "counts_ok seed obs pcs" "length pcs = 3" "k < 3" "invoked x = invoked (pcs ! k)" "returned x = returned (pcs ! k)"
  shows "counts_ok seed obs (pcs[k := x])"
  using assms total_update [of pcs k returned x] all_planned_update [of pcs k seed x] by (simp add: counts_ok_def)

lemma rec_inv_draw:
  assumes "rec_inv seed r pcs clock" "k < 3" "pcs ! k = Ready i" "i < rounds (k + 1)"
  shows "rec_inv seed (r\<lparr>cr_next := cr_next r + 1\<rparr>) (pcs[k := Numbered i (cr_next r + 1)]) clock"
proof -
  have ok: "pcs_ok seed (cr_next r) pcs" "times_ok (cr_events r) clock" "counts_ok seed (cr_events r) pcs"
    using assms(1) by (auto simp: rec_inv_def)
  obtain h where h: "http_events (raw_events (cr_events r)) http_start = Inr h" "conv_ok (cr_next r) pcs h"
    using assms(1) by (auto simp: rec_inv_def)
  have len: "length pcs = 3" using ok(1) by (simp add: pcs_ok_def)
  have up: "unat (cr_next r + 1) = unat (cr_next r) + 1" by (rule unat_next [OF ok(1)])
  have "conv_ok (cr_next r + 1) (pcs[k := Numbered i (cr_next r + 1)]) h" by (rule conv_ok_draw [OF h(2) len assms(2) up])
  moreover have "pcs_ok seed (cr_next r + 1) (pcs[k := Numbered i (cr_next r + 1)])" by (rule pcs_ok_draw [OF ok(1) assms(2-4)])
  moreover have "counts_ok seed (cr_events r) (pcs[k := Numbered i (cr_next r + 1)])"
    by (rule counts_ok_same [OF ok(3) len assms(2)]) (simp_all add: assms(3))
  ultimately show ?thesis using ok(2) h(1) by (auto simp: rec_inv_def)
qed

lemma planned_input_ok: "in_Op (planned_input seed c i) \<in> {OpGet, OpAppend}" "in_Key (planned_input seed c i) \<noteq> ''''"
  by (simp_all add: planned_input_def workload_input_def OpGet_def OpAppend_def seed_key_def)

lemma op_id_nonempty [simp]: "op_id c m \<noteq> []"
  by (simp add: op_id_def)

lemma http_event_invocation:
  assumes "0 \<le> now" "now < max_int64" "op_id c m \<notin> set (hh_seen h)"
  shows "\<exists>h'. http_event (HTTPEvent.truncate (invocation c m now (planned_input seed c i))) h = Inr h' \<and>
    hh_seen h' = op_id c m # hh_seen h \<and>
    hh_open h' = fmupd (op_id c m) \<lparr>pe_client = int c, pe_input = planned_input seed c i, pe_call = now\<rparr> (hh_open h)"
proof -
  have "in_Op (planned_input seed c i) \<noteq> ''''" using planned_input_ok(1) [of seed c i] by (auto simp: OpGet_def OpAppend_def)
  then show ?thesis
    using assms planned_input_ok [of seed c i] by (simp add: http_event_def invocation_def HTTPEvent.defs Let_def) blast
qed

lemma http_event_response:
  assumes "0 \<le> now" "now < max_int64" "fmlookup (hh_open h) (op_id c m) = Some p" "pe_client p = int c"
  shows "\<exists>h'. http_event (HTTPEvent.truncate (response c m now us rp)) h = Inr h' \<and>
    hh_seen h' = hh_seen h \<and> hh_open h' = fmdrop (op_id c m) (hh_open h)"
proof -
  obtain out where "he_Output (response c m now us rp) = Some out" using response_fields(5) by blast
  then show ?thesis using assms by (simp add: http_event_def HTTPEvent.defs Let_def)
qed

lemma rec_inv_call:
  assumes "rec_inv seed r pcs clock" "k < 3" "pcs ! k = Numbered i m" "clock \<le> now" "now < max_int64"
  shows "rec_inv seed (observe (invocation (k + 1) m now (planned_input seed (k + 1) i)) r) (pcs[k := Waiting i m]) now"
proof -
  let ?ob = "invocation (k + 1) m now (planned_input seed (k + 1) i)"
  have ok: "pcs_ok seed (cr_next r) pcs" "times_ok (cr_events r) clock" "counts_ok seed (cr_events r) pcs"
    using assms(1) by (auto simp: rec_inv_def)
  obtain h where h: "http_events (raw_events (cr_events r)) http_start = Inr h" "conv_ok (cr_next r) pcs h"
    using assms(1) by (auto simp: rec_inv_def)
  have len: "length pcs = 3" using ok(1) by (simp add: pcs_ok_def)
  have mine: "op_id (k + 1) m \<notin> set (hh_seen h)" using conv_okD(2) [OF h(2) assms(2,3)] by blast
  have pos: "0 \<le> now" using ok(2) assms(4) by (auto simp: times_ok_def)
  obtain h' where h': "http_event (HTTPEvent.truncate ?ob) h = Inr h'" "hh_seen h' = op_id (k + 1) m # hh_seen h"
    "hh_open h' = fmupd (op_id (k + 1) m) \<lparr>pe_client = int (k + 1), pe_input = planned_input seed (k + 1) i, pe_call = now\<rparr> (hh_open h)"
    using http_event_invocation [OF pos assms(5) mine] by blast
  have "conv_ok (cr_next r) (pcs[k := Waiting i m]) h'" by (rule conv_ok_call [OF h(2) len assms(2,3) h'(2,3)]) simp
  moreover have "pcs_ok seed (cr_next r) (pcs[k := Waiting i m])" by (rule pcs_ok_same [OF ok(1) assms(2)]) (simp add: assms(3))
  moreover have "times_ok (cr_events r @ [?ob]) now"
    using times_ok_snoc [OF ok(2), of ?ob] assms(4,5) by (simp add: invocation_def)
  moreover have "counts_ok seed (cr_events r @ [?ob]) (pcs[k := Waiting i m])"
    using ok(3) total_update [OF len assms(2), of returned "Waiting i m"] all_planned_update [OF len assms(2), of seed "Waiting i m"] assms(3)
    by (simp add: counts_ok_def invocation_def)
  ultimately show ?thesis using h(1) h'(1) by (auto simp: rec_inv_def observe_def http_events_snoc)
qed

lemma rec_inv_return:
  assumes "rec_inv seed r pcs clock" "k < 3" "pcs ! k = Waiting i m" "clock \<le> now" "now < max_int64"
  shows "rec_inv seed (observe (response (k + 1) m now us rp) r) (pcs[k := Ready (i + 1)]) now"
proof -
  let ?ob = "response (k + 1) m now us rp"
  have ok: "pcs_ok seed (cr_next r) pcs" "times_ok (cr_events r) clock" "counts_ok seed (cr_events r) pcs"
    using assms(1) by (auto simp: rec_inv_def)
  obtain h where h: "http_events (raw_events (cr_events r)) http_start = Inr h" "conv_ok (cr_next r) pcs h"
    using assms(1) by (auto simp: rec_inv_def)
  have len: "length pcs = 3" using ok(1) by (simp add: pcs_ok_def)
  obtain p where p: "fmlookup (hh_open h) (op_id (k + 1) m) = Some p" "pe_client p = int (k + 1)"
    using conv_okD(1) [OF h(2) assms(2,3)] by blast
  have pos: "0 \<le> now" using ok(2) assms(4) by (auto simp: times_ok_def)
  obtain h' where h': "http_event (HTTPEvent.truncate ?ob) h = Inr h'" "hh_seen h' = hh_seen h"
    "hh_open h' = fmdrop (op_id (k + 1) m) (hh_open h)"
    using http_event_response [OF pos assms(5) p] by blast
  have "conv_ok (cr_next r) (pcs[k := Ready (i + 1)]) h'" by (rule conv_ok_return [OF h(2) len assms(2) h'(2,3)])
  moreover have "pcs_ok seed (cr_next r) (pcs[k := Ready (i + 1)])" by (rule pcs_ok_same [OF ok(1) assms(2)]) (simp add: assms(3))
  moreover have "times_ok (cr_events r @ [?ob]) now"
    using times_ok_snoc [OF ok(2), of ?ob] assms(4,5) by simp
  moreover have "counts_ok seed (cr_events r @ [?ob]) (pcs[k := Ready (i + 1)])"
    using ok(3) total_update [OF len assms(2), of returned "Ready (i + 1)"] all_planned_update [OF len assms(2), of seed "Ready (i + 1)"] assms(3)
    by (simp add: counts_ok_def)
  ultimately show ?thesis using h(1) h'(1) by (auto simp: rec_inv_def observe_def http_events_snoc)
qed

lemma rec_inv_step:
  assumes "chaos_step seed s s'" "rec_inv seed (sd_rec s) (sd_pcs s) (sd_clock s)"
  shows "rec_inv seed (sd_rec s') (sd_pcs s') (sd_clock s')"
  using assms
proof (cases rule: chaos_step.cases)
  case (draws k i)
  then show ?thesis using rec_inv_draw [OF assms(2)] by (simp add: draw_number_def Let_def)
next
  case (invokes k i number now)
  then show ?thesis using rec_inv_call [OF assms(2)] by (simp add: record_call_def)
next
  case (returns k i number now micros r)
  then show ?thesis using rec_inv_return [OF assms(2)] by (simp add: record_return_def)
qed simp_all

lemma rec_inv_run:
  assumes "chaos_run seed leader draw c0 s"
  shows "rec_inv seed (sd_rec s) (sd_pcs s) (sd_clock s)"
  using assms
proof induction
  case start
  have "conv_ok 0 [Ready 0, Ready 0, Ready 0] http_start"
    by (rule conv_okI) (use three_cases in \<open>fastforce simp: http_start_def\<close>)+
  then show ?case
    using three_cases
    by (auto simp: begin_schedule_def split_beta Let_def rec_inv_def pcs_ok_def total_def times_ok_def max_int64_def counts_ok_def
        calls_made_def responses_def all_planned_def planned_def raw_events_def less_Suc_eq numeral_eq_Suc)
next
  case (steps s s')
  then show ?case using rec_inv_step by blast
qed

lemma tally_event_counts:
  "ta_ack (tally_event e t) + ta_unknown (tally_event e t) = ta_ack t + ta_unknown t + responses [e]"
  "length (ta_latencies (tally_event e t)) = length (ta_latencies t) + responses [e]"
  by (auto simp: tally_event_def Let_def responses_def split: option.split)

lemma responses_Cons: "responses (e # obs) = responses [e] + responses obs"
  by (simp add: responses_def)

lemma tally_counts:
  "ta_ack (fold tally_event obs t) + ta_unknown (fold tally_event obs t) = ta_ack t + ta_unknown t + responses obs"
  "length (ta_latencies (fold tally_event obs t)) = length (ta_latencies t) + responses obs"
proof (induction obs arbitrary: t)
  case (Cons e obs)
  { case 1 then show ?case using Cons.IH(1) [of "tally_event e t"] tally_event_counts(1) [of e t] responses_Cons [of e obs] by simp
  next case 2 then show ?case using Cons.IH(2) [of "tally_event e t"] tally_event_counts(2) [of e t] responses_Cons [of e obs] by simp }
qed (simp_all add: responses_def)

lemma HTTPHistory_accepts:
  assumes "rec_inv seed r pcs clock"
  shows "\<exists>h. HTTPHistory (raw_events (cr_events r)) = Inr h"
proof -
  have "sorted (map he_At (raw_events (cr_events r)))"
    using assms by (simp add: rec_inv_def times_ok_def raw_events_def HTTPEvent.defs comp_def)
  then have "sort_key he_At (raw_events (cr_events r)) = raw_events (cr_events r)" by (rule sort_key_id_if_sorted)
  then show ?thesis using assms by (auto simp: HTTPHistory_def rec_inv_def)
qed

lemma all_planned_done: "all_planned seed [Ready 10, Ready 10, Ready 1] = planned_operations seed"
  by (simp only: all_planned_def planned_operations_def nth_Cons_0 nth_Cons_Suc numeral_2_eq_2 One_nat_def invoked.simps)

lemma event_times_raw: "times_ok obs clock \<Longrightarrow> event_times (raw_events obs)"
  by (fastforce simp: event_times_def times_ok_def raw_events_def HTTPEvent.defs)

lemma verdict_label_iff [simp]:
  "verdict_label v = ''LINEARIZABLE'' \<longleftrightarrow> v = Ok" "verdict_label v = ''VIOLATION'' \<longleftrightarrow> v = Illegal"
  by (cases v; simp add: verdict_label_def)+

section \<open>Healing\<close>

text \<open>What the proxies leave alone, and the invariant of the processes: which nodes run in which phase.\<close>

definition nodes_up :: "cluster \<Rightarrow> nat set" where
  "nodes_up c = fset (fmdom (cl_processes c))"

definition all_nodes :: "cluster \<Rightarrow> nat set" where
  "all_nodes c = {1..cl_n c}"

definition core :: "cluster \<Rightarrow> nat \<times> nat set \<times> u64 list \<times> int \<times> bool \<times> int \<times> nat option" where
  "core c = (cl_n c, nodes_up c, fl_isolated (cl_faults c), fl_delay (cl_faults c), fl_loseResponse (cl_faults c), fl_lost (cl_faults c),
     fl_killAfterCommit (cl_faults c))"

lemma proxy_admit_core: "proxy_admit unm bad gone i rq c = (c', out) \<Longrightarrow> core c' = core c"
  by (auto simp: proxy_admit_def Let_def on_faults_def core_def nodes_up_def split: option.splits if_splits)

lemma proxy_return_core:
  "proxy_return mth r c = (c', Inl out) \<Longrightarrow> core c' = core c"
  "proxy_return mth r c = (c', Inr l) \<Longrightarrow> l = Swapped \<and> fl_loseResponse (cl_faults c) \<and>
     core c' = core (on_faults (\<lambda>fl. fl\<lparr>fl_loseResponse := False\<rparr>) c)"
  by (auto simp: proxy_return_def split: proxy_reply.splits if_splits)

lemma nodes_up_start [simp]: "nodes_up (chaos_start i c) = insert i (nodes_up c)"
  by (simp add: nodes_up_def chaos_start_def)

lemma nodes_up_kill [simp]: "nodes_up (chaos_kill i c) = nodes_up c - {i}"
  by (auto simp: nodes_up_def chaos_kill_def on_faults_def fmlookup_dom_iff)

lemma cluster_fields [simp]:
  "cl_n (chaos_start i c) = cl_n c" "cl_faults (chaos_start i c) = cl_faults c"
  "cl_n (on_faults f c) = cl_n c" "cl_faults (on_faults f c) = f (cl_faults c)" "nodes_up (on_faults f c) = nodes_up c"
  "cl_n (chaos_kill i c) = cl_n c"
  "fl_isolated (cl_faults (chaos_kill i c)) = fl_isolated (cl_faults c)" "fl_delay (cl_faults (chaos_kill i c)) = fl_delay (cl_faults c)"
  "fl_loseResponse (cl_faults (chaos_kill i c)) = fl_loseResponse (cl_faults c)" "fl_lost (cl_faults (chaos_kill i c)) = fl_lost (cl_faults c)"
  "fl_killAfterCommit (cl_faults (chaos_kill i c)) = fl_killAfterCommit (cl_faults c)"
  by (simp_all add: chaos_start_def chaos_kill_def on_faults_def nodes_up_def)

text \<open>
  The path of the one lost response: armed, swapped, counted, about to kill, and the leader down.
\<close>

definition losing_ok :: "nat \<Rightarrow> nat set \<Rightarrow> nat set \<Rightarrow> bool \<Rightarrow> int \<Rightarrow> losing list \<Rightarrow> bool" where
  "losing_ok leader N U lose lost ls \<longleftrightarrow>
     (lose \<and> ls = [] \<and> lost = 0 \<and> U = N) \<or>
     (\<not> lose \<and> ((ls = [Swapped] \<and> lost = 0 \<and> U = N) \<or> (ls = [Counted] \<and> lost = 1 \<and> U = N) \<or>
        (ls = [Calling (Some leader)] \<and> lost = 1 \<and> U = N) \<or> (ls = [] \<and> lost = 1 \<and> U = N - {leader})))"

definition down_ok :: "nat \<Rightarrow> nat set \<Rightarrow> nat set \<Rightarrow> int \<Rightarrow> bool" where
  "down_ok leader N U lost \<longleftrightarrow> (lost = 0 \<and> U = N) \<or> (lost = 1 \<and> U = N - {leader})"

definition lost_inv :: "nat \<Rightarrow> nat set \<Rightarrow> nat set \<Rightarrow> bool \<Rightarrow> int \<Rightarrow> nat option \<Rightarrow> losing list \<Rightarrow> phase \<Rightarrow> bool" where
  "lost_inv leader N U lose lost cb ls ph \<longleftrightarrow>
     (case ph of
        Running \<Rightarrow> cb = Some leader \<and> losing_ok leader N U lose lost ls
      | Rearmed \<Rightarrow> ls = [] \<and> \<not> lose \<and> down_ok leader N U lost
      | Uncalled \<Rightarrow> ls = [] \<and> \<not> lose \<and> cb = None \<and> down_ok leader N U lost
      | _ \<Rightarrow> ls = [] \<and> \<not> lose \<and> cb = None \<and> U = N)"

definition task_inv :: "nat set \<Rightarrow> nat set \<Rightarrow> task \<Rightarrow> bool" where
  "task_inv N U t \<longleftrightarrow> (case t of KillTask i \<Rightarrow> i \<in> N \<and> U = N | StartTask i \<Rightarrow> i \<in> N \<and> U = N - {i} | TaskDone \<Rightarrow> U = N)"

fun heal_inv ::
  "nat \<Rightarrow> nat \<Rightarrow> nat \<times> nat set \<times> u64 list \<times> int \<times> bool \<times> int \<times> nat option \<Rightarrow> nat \<Rightarrow> task \<Rightarrow> losing list \<Rightarrow> phase \<Rightarrow> bool \<Rightarrow> bool" where
  "heal_inv seed leader (n, U, isol, del, lose, lost, cb) killed t ls ph raced \<longleftrightarrow>
     leader \<in> {1..n} \<and> (ph = Healed \<longrightarrow> isol = [] \<and> del = 0) \<and>
     (if kind_of seed = 4 then t = TaskDone \<and> killed = leader \<and> (raced \<or> lost_inv leader {1..n} U lose lost cb ls ph)
      else \<not> lose \<and> cb = None \<and> ls = [] \<and> task_inv {1..n} U t \<and> (ph \<noteq> Running \<longrightarrow> t = TaskDone) \<and>
        ph \<noteq> Rearmed \<and> ph \<noteq> Uncalled)"

definition sched_inv :: "nat \<Rightarrow> nat \<Rightarrow> schedule \<Rightarrow> bool" where
  "sched_inv seed leader s \<longleftrightarrow>
     heal_inv seed leader (core (sd_cluster s)) (sd_killed s) (sd_task s) (sd_losing s) (sd_phase s) (sd_raced s)"

lemma losing_ok_loses:
  assumes "losing_ok leader N U lose lost ls" "j < length ls" "losing_step (ls ! j) c = (c', r)"
    "U = nodes_up c" "lost = fl_lost (cl_faults c)" "fl_killAfterCommit (cl_faults c) = Some leader" "leader \<in> N"
  shows "losing_ok leader N (nodes_up c') lose (fl_lost (cl_faults c'))
    (case r of None \<Rightarrow> take j ls @ drop (Suc j) ls | Some l \<Rightarrow> ls[j := l])"
proof -
  consider "ls = [Swapped]" "\<not> lose" "lost = 0" "U = N" | "ls = [Counted]" "\<not> lose" "lost = 1" "U = N"
    | "ls = [Calling (Some leader)]" "\<not> lose" "lost = 1" "U = N"
    using assms(1,2) unfolding losing_ok_def by fastforce
  then show ?thesis using assms(2-6) by cases (auto simp: losing_ok_def)
qed

lemma losing_step_core:
  assumes "losing_step l c = (c', r)"
  shows "cl_n c' = cl_n c" "fl_isolated (cl_faults c') = fl_isolated (cl_faults c)" "fl_delay (cl_faults c') = fl_delay (cl_faults c)"
    "fl_loseResponse (cl_faults c') = fl_loseResponse (cl_faults c)" "fl_killAfterCommit (cl_faults c') = fl_killAfterCommit (cl_faults c)"
  using assms by (induction l c rule: losing_step.induct) auto

lemma sched_inv_losing:
  assumes "sched_inv seed leader s" "j < length (sd_losing s)" "losing_step (sd_losing s ! j) (sd_cluster s) = (c, r)"
  shows "sched_inv seed leader (s\<lparr>sd_cluster := c,
    sd_losing := (case r of None \<Rightarrow> take j (sd_losing s) @ drop (Suc j) (sd_losing s) | Some l \<Rightarrow> (sd_losing s)[j := l])\<rparr>)"
proof -
  have k: "kind_of seed = 4" "sd_task s = TaskDone" "sd_killed s = leader" and n: "leader \<in> {1..cl_n (sd_cluster s)}"
    using assms(1,2) by (auto simp: sched_inv_def core_def split: if_splits)
  show ?thesis
  proof (cases "sd_raced s")
    case False
    have ph: "sd_phase s = Running" using assms(1,2) k False
      by (cases "sd_phase s") (auto simp: sched_inv_def core_def lost_inv_def)
    then have "losing_ok leader {1..cl_n (sd_cluster s)} (nodes_up (sd_cluster s)) (fl_loseResponse (cl_faults (sd_cluster s)))
        (fl_lost (cl_faults (sd_cluster s))) (sd_losing s)" "fl_killAfterCommit (cl_faults (sd_cluster s)) = Some leader"
      using assms(1) k False by (auto simp: sched_inv_def core_def lost_inv_def)
    from losing_ok_loses [OF this(1) assms(2,3) refl refl this(2) n] show ?thesis
      using assms(1) k False ph losing_step_core [OF assms(3)] by (simp add: sched_inv_def core_def lost_inv_def)
  qed (use assms(1) k losing_step_core [OF assms(3)] in \<open>auto simp: sched_inv_def core_def\<close>)
qed

lemma lost_inv_heals:
  assumes "heal_step 4 leader ph c = (c', ph')" "leader \<in> N" "ph = Running \<longrightarrow> ls = []"
    "lost_inv leader N (nodes_up c) (fl_loseResponse (cl_faults c)) (fl_lost (cl_faults c)) (fl_killAfterCommit (cl_faults c)) ls ph"
  shows "lost_inv leader N (nodes_up c') (fl_loseResponse (cl_faults c')) (fl_lost (cl_faults c')) (fl_killAfterCommit (cl_faults c')) ls ph'"
proof (cases ph)
  case Running
  have ls: "ls = []" using assms(3) Running by simp
  have "losing_ok leader N (nodes_up c) (fl_loseResponse (cl_faults c)) (fl_lost (cl_faults c)) []"
    using assms(4) Running ls by (simp add: lost_inv_def)
  then have "down_ok leader N (nodes_up c) (fl_lost (cl_faults c))" by (simp add: losing_ok_def down_ok_def) blast
  moreover have "c' = on_faults (\<lambda>fl. fl\<lparr>fl_loseResponse := False\<rparr>) c" "ph' = Rearmed"
    using assms(1) Running by (simp_all add: heal_step_def)
  ultimately show ?thesis by (simp add: lost_inv_def ls)
next
  case Uncalled
  then have "down_ok leader N (nodes_up c) (fl_lost (cl_faults c))" using assms(4) by (simp add: lost_inv_def)
  moreover have "nodes_up c' = (if fl_lost (cl_faults c) > 0 then insert leader (nodes_up c) else nodes_up c)"
    using Uncalled assms(1) by (auto simp: heal_step_def)
  ultimately have "nodes_up c' = N" using assms(2) unfolding down_ok_def
    by (metis insert_Diff_single insert_absorb less_irrefl zero_less_one)
  moreover have "cl_faults c' = cl_faults c" "ph' = Restarted" using Uncalled assms(1) by (auto simp: heal_step_def)
  ultimately show ?thesis using Uncalled assms(4) by (simp add: lost_inv_def)
next
  case Rearmed
  moreover from Rearmed have "c' = on_faults (\<lambda>fl. fl\<lparr>fl_killAfterCommit := None\<rparr>) c" "ph' = Uncalled"
    using assms(1) by (simp_all add: heal_step_def)
  ultimately show ?thesis using assms(4) by (simp add: lost_inv_def)
next
  case Restarted
  moreover from Restarted have "c' = on_faults (\<lambda>fl. fl\<lparr>fl_isolated := [], fl_delay := 0\<rparr>) c" "ph' = Healed"
    using assms(1) by (simp_all add: heal_step_def)
  ultimately show ?thesis using assms(4) by (simp add: lost_inv_def)
next
  case Healed
  moreover from Healed have "c' = c" "ph' = Healed" using assms(1) by (simp_all add: heal_step_def)
  ultimately show ?thesis using assms(4) by (simp add: lost_inv_def)
qed

lemma heal_step_fields:
  assumes "heal_step kind killed ph c = (c', ph')"
  shows "cl_n c' = cl_n c" "ph' = Healed \<Longrightarrow> ph \<noteq> Healed \<Longrightarrow> fl_isolated (cl_faults c') = [] \<and> fl_delay (cl_faults c') = 0"
    "ph = Healed \<Longrightarrow> c' = c \<and> ph' = Healed" "ph = Running \<Longrightarrow> kind \<noteq> 4 \<Longrightarrow> c' = c \<and> ph' = Restarted"
    "ph = Restarted \<Longrightarrow> nodes_up c' = nodes_up c \<and> fl_loseResponse (cl_faults c') = fl_loseResponse (cl_faults c) \<and>
       fl_killAfterCommit (cl_faults c') = fl_killAfterCommit (cl_faults c)"
  using assms by (auto simp: heal_step_def split: phase.splits if_splits)

lemma sched_inv_heals:
  assumes "sched_inv seed leader s" "workers_done s" "heal_step (kind_of seed) (sd_killed s) (sd_phase s) (sd_cluster s) = (c, ph)"
  shows "sched_inv seed leader (s\<lparr>sd_cluster := c, sd_phase := ph, sd_raced := (sd_raced s \<or> sd_phase s = Running \<and> sd_losing s \<noteq> [])\<rparr>)"
proof -
  note f = heal_step_fields [OF assms(3)]
  have leader: "leader \<in> {1..cl_n (sd_cluster s)}" using assms(1) by (simp add: sched_inv_def core_def)
  have iso: "ph = Healed \<Longrightarrow> fl_isolated (cl_faults c) = [] \<and> fl_delay (cl_faults c) = 0"
    using f(2,3) assms(1) by (cases "sd_phase s = Healed") (simp_all add: sched_inv_def core_def)
  show ?thesis
  proof (cases "kind_of seed = 4")
    case True
    then have k: "sd_task s = TaskDone" "sd_killed s = leader" using assms(1) by (simp_all add: sched_inv_def core_def)
    show ?thesis
    proof (cases "sd_raced s \<or> sd_phase s = Running \<and> sd_losing s \<noteq> []")
      case False
      then have "lost_inv leader {1..cl_n c} (nodes_up c) (fl_loseResponse (cl_faults c)) (fl_lost (cl_faults c)) (fl_killAfterCommit (cl_faults c))
          (sd_losing s) ph"
        using lost_inv_heals [of leader "sd_phase s" "sd_cluster s" c ph "{1..cl_n (sd_cluster s)}" "sd_losing s"] assms(1,3) True leader k f(1)
        by (simp add: sched_inv_def core_def)
      then show ?thesis using True k leader iso f(1) by (simp add: sched_inv_def core_def)
    qed (use True k leader iso f(1) in \<open>simp add: sched_inv_def core_def\<close>)
  next
    case False
    then have inv4: "\<not> fl_loseResponse (cl_faults (sd_cluster s))" "fl_killAfterCommit (cl_faults (sd_cluster s)) = None" "sd_losing s = []"
        "task_inv {1..cl_n (sd_cluster s)} (nodes_up (sd_cluster s)) (sd_task s)" "sd_task s = TaskDone"
        "sd_phase s \<noteq> Rearmed" "sd_phase s \<noteq> Uncalled"
      using assms(1,2) by (simp_all add: sched_inv_def core_def workers_done_def)
    then have "\<not> fl_loseResponse (cl_faults c) \<and> fl_killAfterCommit (cl_faults c) = None \<and> nodes_up c = nodes_up (sd_cluster s) \<and>
        ph \<noteq> Rearmed \<and> ph \<noteq> Uncalled"
      using f(3-5) False assms(3) unfolding heal_step_def by (cases "sd_phase s") (auto split: if_splits)
    then show ?thesis using False inv4 leader iso f(1) by (simp add: sched_inv_def core_def)
  qed
qed

lemma sched_inv_task:
  assumes "sched_inv seed leader s" "task_step (sd_task s) (sd_cluster s) = (c, t)"
  shows "sched_inv seed leader (s\<lparr>sd_cluster := c, sd_task := t\<rparr>)"
proof (cases "sd_task s = TaskDone")
  case True
  then show ?thesis using assms by (simp add: sched_inv_def)
next
  case False
  let ?c = "sd_cluster s"
  have k: "kind_of seed \<noteq> 4" using assms(1) False by (auto simp: sched_inv_def core_def)
  then have inv: "\<not> fl_loseResponse (cl_faults ?c)" "fl_killAfterCommit (cl_faults ?c) = None" "sd_losing s = []" "leader \<in> {1..cl_n ?c}"
      "task_inv {1..cl_n ?c} (nodes_up ?c) (sd_task s)" "sd_phase s = Running"
    using assms(1) False by (simp_all add: sched_inv_def core_def)
  have "task_inv {1..cl_n ?c} (nodes_up c) t" "cl_n c = cl_n ?c"
    using inv(5) assms(2) by (cases "sd_task s"; force simp: task_inv_def)+
  moreover have "\<not> fl_loseResponse (cl_faults c)" "fl_killAfterCommit (cl_faults c) = None"
    using inv(1,2) assms(2) by (cases "sd_task s"; auto)+
  ultimately show ?thesis using inv k by (simp add: sched_inv_def core_def)
qed

lemma sched_inv_step:
  assumes "chaos_step seed s s'" "sched_inv seed leader s"
  shows "sched_inv seed leader s'"
  using assms
proof (cases rule: chaos_step.cases)
  case (admits unm bad gone node rq c out)
  then show ?thesis using assms(2) proxy_admit_core by (simp add: sched_inv_def)
next
  case (answers mth r c out)
  then show ?thesis using assms(2) proxy_return_core(1) by (simp add: sched_inv_def)
next
  case (swaps mth r c l)
  then show ?thesis using assms(2) proxy_return_core(2) [OF swaps(2)]
    by (cases "sd_phase s") (auto simp: sched_inv_def core_def lost_inv_def losing_ok_def split: if_splits)
next
  case (loses j c l)
  then show ?thesis using sched_inv_losing [OF assms(2)] by fastforce
next
  case (lost j c)
  then show ?thesis using sched_inv_losing [OF assms(2)] by fastforce
next
  case (task c t)
  then show ?thesis using sched_inv_task [OF assms(2)] by blast
next
  case (heals c ph)
  then show ?thesis using sched_inv_heals [OF assms(2)] by blast
qed (simp_all add: sched_inv_def draw_number_def record_call_def record_return_def Let_def)

lemma sched_inv_start:
  assumes "leader \<in> {1..cl_n c0}" "nodes_up c0 = {1..cl_n c0}" "\<not> fl_loseResponse (cl_faults c0)" "fl_killAfterCommit (cl_faults c0) = None"
  shows "sched_inv seed leader (begin_schedule seed leader draw c0)"
proof -
  have "leader mod cl_n c0 + 1 \<in> {1..cl_n c0}" using assms(1) by (simp add: Suc_le_eq)
  then show ?thesis using assms
    by (simp add: begin_schedule_def inject_def Let_def sched_inv_def core_def reset_counters_def lost_inv_def losing_ok_def task_inv_def)
qed

lemma sched_inv_run:
  assumes "chaos_run seed leader draw c0 s" "leader \<in> {1..cl_n c0}" "nodes_up c0 = {1..cl_n c0}" "\<not> fl_loseResponse (cl_faults c0)"
    "fl_killAfterCommit (cl_faults c0) = None"
  shows "sched_inv seed leader s"
  using assms(1)
proof induction
  case start
  then show ?case by (rule sched_inv_start [OF assms(2-)])
next
  case (steps s s')
  then show ?case using sched_inv_step by blast
qed

lemma cl_n_step:
  assumes "chaos_step seed s s'"
  shows "cl_n (sd_cluster s') = cl_n (sd_cluster s)"
  using assms
proof (cases rule: chaos_step.cases)
  case (task c t)
  then show ?thesis by (cases "sd_task s") auto
next
  case (admits unm bad gone node rq c out)
  then show ?thesis using proxy_admit_core by (fastforce simp: core_def)
next
  case (answers mth r c out)
  then show ?thesis using proxy_return_core(1) by (fastforce simp: core_def)
next
  case (swaps mth r c l)
  then show ?thesis using proxy_return_core(2) [OF swaps(2)] by (simp add: core_def)
qed (auto simp: draw_number_def record_call_def record_return_def Let_def losing_step_core heal_step_fields)

lemma cl_n_run: "chaos_run seed leader draw c0 s \<Longrightarrow> cl_n (sd_cluster s) = cl_n c0"
  by (induction rule: chaos_run.induct)
    (auto simp: begin_schedule_def inject_def Let_def dest: cl_n_step)

section \<open>Properties\<close>

text \<open>
  C34: whatever a schedule's clients, proxies and fault tasks do in whatever order, its result is not a panic and its verdict is right.
  When the workload and the final read have ended, the recorded events are a history the checker accepts; it has exactly the
  21 planned operations, each counted as acknowledged or unknown, and a definite label tells whether it is linearizable.
\<close>

theorem schedule_verdict_sound:
  assumes "porcupine chk" "chaos_run seed leader draw c0 s" "schedule_done s"
  shows "\<exists>res h. finish_schedule chk elapsed seed before after tm s = Inr res \<and> HTTPHistory (raw_events (re_Events res)) = Inr h \<and>
    image_mset (\<lambda>op. (po_ClientId op, po_Input op)) (mset h) = planned_operations seed \<and>
    re_Acknowledged res + re_Unknown res = 21 \<and>
    (re_Verdict res = ''LINEARIZABLE'' \<longrightarrow> linearizable h) \<and> (re_Verdict res = ''VIOLATION'' \<longrightarrow> \<not> linearizable h)"
proof -
  let ?obs = "cr_events (sd_rec s)"
  have inv: "rec_inv seed (sd_rec s) (sd_pcs s) (sd_clock s)" by (rule rec_inv_run [OF assms(2)])
  have pcs: "sd_pcs s = [Ready 10, Ready 10, Ready 1]" using assms(3) by (simp add: schedule_done_def)
  have counts: "calls_made ?obs = planned_operations seed" "responses ?obs = 21"
    using inv all_planned_done [of seed] by (auto simp: rec_inv_def counts_ok_def pcs total_def)
  obtain h where h: "HTTPHistory (raw_events ?obs) = Inr h" using HTTPHistory_accepts [OF inv] by blast
  have times: "event_times (raw_events ?obs)" using inv event_times_raw by (auto simp: rec_inv_def)
  have hist: "wf_history h" "op_calls h = event_calls (raw_events ?obs)" using HTTPHistory_facts [OF h times] by simp_all
  have ops: "image_mset (\<lambda>op. (po_ClientId op, po_Input op)) (mset h) = planned_operations seed"
    using arg_cong [OF hist(2), of "image_mset (\<lambda>(c, inp, _). (c, inp))"] counts(1)
    by (simp add: calls_made_def op_calls_def image_mset.compositionality comp_def)
  obtain v where v: "verdictFor chk elapsed (raw_events ?obs) = Inr v"
    by (simp add: verdictFor_def CheckHTTPHistoryWithin_def h)
  have sound: "(v = Ok \<longrightarrow> linearizable h) \<and> (v = Illegal \<longrightarrow> \<not> linearizable h)"
    using porcupine.Within_verdict [OF assms(1) _ h hist(1)] v by (simp add: verdictFor_def)
  have tally: "ta_ack (tally_events ?obs) + ta_unknown (tally_events ?obs) = 21" "length (ta_latencies (tally_events ?obs)) = 21"
    by (simp_all add: tally_events_def tally_counts counts(2))
  then have "ta_latencies (tally_events ?obs) \<noteq> []" by auto
  then show ?thesis using h ops sound tally v by (auto simp: finish_schedule_def Let_def split_beta)
qed

text \<open>
  C36: the minority partition of a schedule cuts off exactly half of the nodes, rounded down, and never the leader, so that with
  an odd number of nodes the leader's side is a majority; and the proxies enforce it: a raft message is refused with 503 when its sender and the
  receiving node are on different sides, and forwarded unchanged otherwise.
\<close>

theorem partition_spares_leader:
  assumes "inject 2 leader draw c0 = (c, killed, t)" "1 \<le> leader" "leader \<le> cl_n c0" "cl_n c0 < 2 ^ 64"
    "fl_isolated (cl_faults c0) = []" "fl_delay (cl_faults c0) = 0"
    "length msg \<le> body_limit" "unm msg = Some (of_nat j)" "j \<le> cl_n c0" "i \<le> cl_n c0"
  shows "card {k \<in> {1..cl_n c0}. isolated (cl_faults c) (of_nat k)} = cl_n c0 div 2 \<and> \<not> isolated (cl_faults c) (of_nat leader) \<and>
    (odd (cl_n c0) \<longrightarrow> 2 * card {k \<in> {1..cl_n c0}. \<not> isolated (cl_faults c) (of_nat k)} > cl_n c0) \<and>
    proxy_admit unm (\<lambda>_. False) gone i (raft_request msg) c =
      (if isolated (cl_faults c) (of_nat j) \<noteq> isolated (cl_faults c) (of_nat i)
       then (on_faults (\<lambda>fl. fl\<lparr>fl_partitioned := fl_partitioned fl + 1\<rparr>) c, Inl (Answer 503 ''injected partition''))
       else (c, Inr (forwarded i c (raft_request msg) msg)))"
proof -
  let ?n = "cl_n c0"
  have c: "c = on_faults (\<lambda>fl. fl\<lparr>fl_isolated := fl_isolated fl @ minority ?n leader\<rparr>) (on_faults reset_counters c0)"
    using assms(1) by (simp add: inject_def Let_def)
  then have cut: "isolated (cl_faults c) (of_nat k) \<longleftrightarrow> k \<in> cut_off ?n leader" if "k \<le> ?n" for k
    using minority_cut_off [OF assms(4,2,3) that] assms(5) by (simp add: isolated_def reset_counters_def)
  note facts = cut_off_facts [OF assms(2,3)]
  have sides: "{k \<in> {1..?n}. isolated (cl_faults c) (of_nat k)} = cut_off ?n leader"
      "{k \<in> {1..?n}. \<not> isolated (cl_faults c) (of_nat k)} = {1..?n} - cut_off ?n leader"
    using cut facts(2) by auto
  have "card ({1..?n} - cut_off ?n leader) = ?n - ?n div 2" using facts by (simp add: card_Diff_subset finite_subset)
  then have "odd ?n \<Longrightarrow> 2 * card ({1..?n} - cut_off ?n leader) > ?n" by presburger
  moreover have "fl_delay (cl_faults c) = 0" using assms(6) by (simp add: c reset_counters_def)
  ultimately show ?thesis
    using facts cut [OF assms(3)] proxy_admit_raft [of msg unm "of_nat j" c] assms(7,8) unfolding sides by simp
qed

text \<open>
  C35: a schedule cleans up after itself.  From a cluster whose nodes all run, with no response to lose, every state with the faults healed
  has no partition and no delay; unless a handler was still dropping a response when the healing began, no response will be
  lost, no kill is armed, and all nodes run again.
\<close>

theorem schedule_heals:
  assumes "chaos_run seed leader draw c0 s" "leader \<in> {1..cl_n c0}" "nodes_up c0 = {1..cl_n c0}" "\<not> fl_loseResponse (cl_faults c0)"
    "fl_killAfterCommit (cl_faults c0) = None" "sd_phase s = Healed"
  shows "fl_isolated (cl_faults (sd_cluster s)) = [] \<and> fl_delay (cl_faults (sd_cluster s)) = 0 \<and>
    (\<not> sd_raced s \<longrightarrow> \<not> fl_loseResponse (cl_faults (sd_cluster s)) \<and> fl_killAfterCommit (cl_faults (sd_cluster s)) = None \<and>
       nodes_up (sd_cluster s) = {1..cl_n c0})"
  using sched_inv_run [OF assms(1-5)] cl_n_run [OF assms(1)] assms(6)
  by (auto simp: sched_inv_def core_def lost_inv_def task_inv_def split: if_splits)

end
