(* ===== verification/ChaosExamples.thy ===== *)
theory ChaosExamples
  imports ChaosFacts
begin

text \<open>
  Schedules that end, and one that ends with a node down: the restart after a lost response is not ordered
  after the kill.
\<close>

section \<open>Rounds of a client\<close>

definition same_but_client :: "schedule \<Rightarrow> schedule \<Rightarrow> bool" where
  "same_but_client s s' \<longleftrightarrow> sd_cluster s' = sd_cluster s \<and> sd_killed s' = sd_killed s \<and> sd_task s' = sd_task s \<and> sd_losing s' = sd_losing s \<and>
     sd_phase s' = sd_phase s \<and> sd_clock s' = sd_clock s \<and> sd_raced s' = sd_raced s"

lemma client_round:
  assumes "chaos_run seed leader draw c0 s" "k < 3" "sd_pcs s ! k = Ready i" "i < rounds (k + 1)" "k = 2 \<longrightarrow> sd_phase s = Healed"
  shows "\<exists>s'. chaos_run seed leader draw c0 s' \<and> sd_pcs s' = (sd_pcs s)[k := Ready (i + 1)] \<and> same_but_client s s'"
proof -
  have inv: "length (sd_pcs s) = 3" "sd_clock s < max_int64"
    using rec_inv_run [OF assms(1)] by (auto simp: rec_inv_def pcs_ok_def times_ok_def)
  define m where "m = cr_next (sd_rec s) + 1"
  define s1 where "s1 = draw_number k i s"
  define s2 where "s2 = record_call seed k i m (sd_clock s) s1"
  define s3 where "s3 = record_return k i m (sd_clock s) 0 (TransportError ''timeout'') s2"
  have "chaos_run seed leader draw c0 s1" unfolding s1_def
    using assms by (blast intro: chaos_run.steps chaos_step.draws)
  then have "chaos_run seed leader draw c0 s2" unfolding s2_def
    by (rule chaos_run.steps) (rule chaos_step.invokes [OF assms(2)],
      use inv assms(2) in \<open>simp_all add: s1_def draw_number_def Let_def m_def\<close>)
  then have "chaos_run seed leader draw c0 s3" unfolding s3_def
    by (rule chaos_run.steps) (rule chaos_step.returns [OF assms(2)],
      use inv assms(2) in \<open>simp_all add: s2_def s1_def draw_number_def record_call_def Let_def\<close>)
  moreover have "sd_pcs s3 = (sd_pcs s)[k := Ready (i + 1)]" "same_but_client s s3"
    by (simp_all add: s3_def s2_def s1_def draw_number_def record_call_def record_return_def Let_def same_but_client_def)
  ultimately show ?thesis by blast
qed

lemma client_rounds:
  assumes "chaos_run seed leader draw c0 s" "k < 3" "sd_pcs s ! k = Ready i" "i + d \<le> rounds (k + 1)" "k = 2 \<longrightarrow> sd_phase s = Healed"
  shows "\<exists>s'. chaos_run seed leader draw c0 s' \<and> sd_pcs s' = (sd_pcs s)[k := Ready (i + d)] \<and> same_but_client s s'"
  using assms
proof (induction d arbitrary: s i)
  case 0
  then show ?case by (metis add.right_neutral list_update_id same_but_client_def)
next
  case (Suc d)
  have len: "length (sd_pcs s) = 3" using rec_inv_run [OF Suc.prems(1)] by (auto simp: rec_inv_def pcs_ok_def)
  obtain s1 where s1: "chaos_run seed leader draw c0 s1" "sd_pcs s1 = (sd_pcs s)[k := Ready (i + 1)]" "same_but_client s s1"
    using client_round [OF Suc.prems(1-3) _ Suc.prems(5)] Suc.prems(4) by auto
  obtain s2 where "chaos_run seed leader draw c0 s2" "sd_pcs s2 = (sd_pcs s1)[k := Ready (i + 1 + d)]" "same_but_client s1 s2"
    using Suc.IH [OF s1(1) Suc.prems(2), of "i + 1"] s1 Suc.prems(2,4,5) len by (auto simp: same_but_client_def)
  then show ?case using s1 by (auto simp: same_but_client_def intro!: exI [of _ s2])
qed

text \<open>After the rounds of both workers nothing but the recorder has changed.\<close>

lemma workers_finish:
  "\<exists>s. chaos_run seed leader draw c0 s \<and> sd_pcs s = [Ready 10, Ready 10, Ready 0] \<and> same_but_client (begin_schedule seed leader draw c0) s"
proof -
  let ?s = "begin_schedule seed leader draw c0"
  have p: "sd_pcs ?s = [Ready 0, Ready 0, Ready 0]" by (simp add: begin_schedule_def split_beta Let_def)
  obtain s1 where s1: "chaos_run seed leader draw c0 s1" "sd_pcs s1 = [Ready 10, Ready 0, Ready 0]" "same_but_client ?s s1"
    using client_rounds [OF chaos_run.start, of 0 seed leader draw c0 0 10] p by (auto simp: rounds_def)
  obtain s2 where "chaos_run seed leader draw c0 s2" "sd_pcs s2 = [Ready 10, Ready 10, Ready 0]" "same_but_client s1 s2"
    using client_rounds [OF s1(1), of 1 0 10] s1(2) by (auto simp: rounds_def)
  then show ?thesis using s1(3) by (auto simp: same_but_client_def)
qed

lemma final_read:
  assumes "chaos_run seed leader draw c0 s" "sd_pcs s = [Ready 10, Ready 10, Ready 0]" "sd_phase s = Healed"
  shows "\<exists>s'. chaos_run seed leader draw c0 s' \<and> schedule_done s' \<and> same_but_client s s'"
  using client_rounds [OF assms(1), of 2 0 1] assms(2,3) by (auto simp: rounds_def schedule_done_def same_but_client_def eval_nat_numeral)

text \<open>One step of the healing, once the workers are done.\<close>

lemma heal_once:
  assumes "chaos_run seed leader draw c0 s" "sd_pcs s = [Ready 10, Ready 10, Ready 0]" "sd_task s = TaskDone"
    "heal_step (kind_of seed) (sd_killed s) (sd_phase s) (sd_cluster s) = (c, ph)"
  shows "chaos_run seed leader draw c0 (s\<lparr>sd_cluster := c, sd_phase := ph,
    sd_raced := (sd_raced s \<or> sd_phase s = Running \<and> sd_losing s \<noteq> [])\<rparr>)"
  by (rule chaos_run.steps [OF assms(1)], rule chaos_step.heals) (simp_all add: assms workers_done_def)

section \<open>Instances\<close>

definition wit_cluster :: cluster where
  "wit_cluster = newCluster 3 ''quorumlogd'' ''out'' [''127.0.0.1:7001'', ''127.0.0.1:7002'', ''127.0.0.1:7003'']
     [''http://127.0.0.1:8001'', ''http://127.0.0.1:8002'', ''http://127.0.0.1:8003'']"

lemma wit_cluster_facts:
  "cl_n wit_cluster = 3" "nodes_up wit_cluster = {1..3}" "cl_faults wit_cluster = no_faults"
  by (simp_all add: wit_cluster_def newCluster_def upt_rec) (auto simp: nodes_up_def chaos_start_def)

lemma stable_schedule_ends: "\<exists>s. chaos_run 0 1 0 wit_cluster s \<and> schedule_done s \<and> \<not> sd_raced s"
proof -
  obtain s where s: "chaos_run 0 1 0 wit_cluster s" "sd_pcs s = [Ready 10, Ready 10, Ready 0]"
    "same_but_client (begin_schedule 0 1 0 wit_cluster) s"
    using workers_finish by blast
  have k: "kind_of 0 = 0" by (simp add: kind_of_def chaos_names_def)
  have b: "sd_task s = TaskDone" "sd_phase s = Running" "sd_losing s = []" "\<not> sd_raced s"
    using s(3) by (simp_all add: same_but_client_def begin_schedule_def inject_def k Let_def)
  define s1 where "s1 = s\<lparr>sd_phase := Restarted, sd_raced := False\<rparr>"
  have s1: "chaos_run 0 1 0 wit_cluster s1"
    using heal_once [OF s(1,2) b(1)] b k by (simp add: s1_def heal_step_def)
  obtain s2 where s2: "chaos_run 0 1 0 wit_cluster s2" "sd_pcs s2 = [Ready 10, Ready 10, Ready 0]" "sd_phase s2 = Healed" "\<not> sd_raced s2"
    using heal_once [OF s1] s(2) b k by (fastforce simp: s1_def heal_step_def)
  then show ?thesis using final_read [OF s2(1-3)] by (auto simp: same_but_client_def)
qed

theorem schedule_verdict_sound_witness:
  "\<exists>s res h. chaos_run 0 1 0 wit_cluster s \<and>
     finish_schedule search_check 5 0 (\<lambda>_. None) (\<lambda>_. None) \<lparr>tm_RecoveryMS = 1, tm_DurationMS = 2, tm_WorkloadDurationMS = 1\<rparr> s = Inr res \<and>
     HTTPHistory (raw_events (re_Events res)) = Inr h \<and> re_Acknowledged res + re_Unknown res = 21"
proof -
  obtain s where "chaos_run 0 1 0 wit_cluster s" "schedule_done s" using stable_schedule_ends by blast
  then show ?thesis using schedule_verdict_sound [OF exhaustive.porcupine_axioms] by blast
qed

theorem schedule_heals_witness: "\<exists>s. chaos_run 0 1 0 wit_cluster s \<and> schedule_done s \<and> nodes_up (sd_cluster s) = {1..3}"
proof -
  obtain s where s: "chaos_run 0 1 0 wit_cluster s" "schedule_done s" "\<not> sd_raced s" using stable_schedule_ends by blast
  then have "sd_phase s = Healed" by (simp add: schedule_done_def)
  then show ?thesis using schedule_heals [OF s(1)] s by (auto simp: wit_cluster_facts no_faults_def)
qed

theorem partition_spares_leader_witness:
  "\<exists>c killed t. inject 2 1 0 wit_cluster = (c, killed, t) \<and> card {k \<in> {1..3}. isolated (cl_faults c) (of_nat k)} = 1 \<and>
     \<not> isolated (cl_faults c) 1"
proof -
  obtain c killed t where inj: "inject 2 1 0 wit_cluster = (c, killed, t)" by (cases "inject 2 1 0 wit_cluster")
  then show ?thesis
    using partition_spares_leader [OF inj, of "''m''" "\<lambda>_. Some (of_nat 1)" 1 2 False]
    by (simp add: wit_cluster_facts no_faults_def body_limit_def)
qed

text \<open>
  The restart after a lost response can come before the kill: the handler has read the callback when the workload ends, the schedule
  starts the node because the counter is up, and the handler then kills the node that was just started.  The schedule ends
  with the leader of its beginning not running.
\<close>

definition lost_reply :: proxy_reply where
  "lost_reply = NodeReply 200 ''{}''"

lemma lost_response_path:
  assumes "chaos_run 4 1 0 wit_cluster s" "sd_losing s = []" "fl_loseResponse (cl_faults (sd_cluster s))"
    "fl_killAfterCommit (cl_faults (sd_cluster s)) = Some 1"
  shows "\<exists>c. chaos_run 4 1 0 wit_cluster (s\<lparr>sd_cluster := c, sd_losing := [Calling (Some 1)]\<rparr>) \<and>
    fl_lost (cl_faults c) = fl_lost (cl_faults (sd_cluster s)) + 1"
proof -
  let ?c1 = "on_faults (\<lambda>fl. fl\<lparr>fl_loseResponse := False\<rparr>) (sd_cluster s)"
  let ?c2 = "on_faults (\<lambda>fl. fl\<lparr>fl_lost := fl_lost fl + 1\<rparr>) ?c1"
  have "chaos_run 4 1 0 wit_cluster (s\<lparr>sd_cluster := ?c1, sd_losing := sd_losing s @ [Swapped]\<rparr>)"
    by (rule chaos_run.steps [OF assms(1)], rule chaos_step.swaps [of "''PUT''" lost_reply])
      (simp add: proxy_return_def lost_reply_def assms(3))
  then have "chaos_run 4 1 0 wit_cluster (s\<lparr>sd_cluster := ?c2, sd_losing := [Counted]\<rparr>)"
    using chaos_run.steps [OF _ chaos_step.loses [of 0 "s\<lparr>sd_cluster := ?c1, sd_losing := [Swapped]\<rparr>" ?c2 Counted 4]] assms(2) by simp
  then have "chaos_run 4 1 0 wit_cluster (s\<lparr>sd_cluster := ?c2, sd_losing := [Calling (Some 1)]\<rparr>)"
    using chaos_run.steps [OF _ chaos_step.loses [of 0 "s\<lparr>sd_cluster := ?c2, sd_losing := [Counted]\<rparr>" ?c2 "Calling (Some 1)" 4]] assms(4) by simp
  then show ?thesis by (intro exI [of _ ?c2]) simp
qed

definition raced_at :: "losing list \<Rightarrow> cluster \<Rightarrow> phase \<Rightarrow> schedule \<Rightarrow> schedule" where
  "raced_at ls c ph s = s\<lparr>sd_losing := ls, sd_cluster := c, sd_phase := ph, sd_raced := True\<rparr>"

lemma raced_heals:
  assumes "chaos_run 4 1 0 wit_cluster (raced_at ls c ph s)" "sd_pcs s = [Ready 10, Ready 10, Ready 0]" "sd_task s = TaskDone" "sd_killed s = 1"
    "heal_step 4 1 ph c = (c', ph')"
  shows "chaos_run 4 1 0 wit_cluster (raced_at ls c' ph' s)"
proof -
  have "kind_of 4 = 4" by (simp add: kind_of_def chaos_names_def)
  then show ?thesis using heal_once [OF assms(1), of c' ph'] assms(2-) by (simp add: raced_at_def)
qed

lemma raced_kills:
  assumes "chaos_run 4 1 0 wit_cluster (raced_at [Calling (Some i)] c ph s)"
  shows "chaos_run 4 1 0 wit_cluster (raced_at [] (chaos_kill i c) ph s)"
proof -
  have eq: "raced_at [] (chaos_kill i c) ph s =
      (raced_at [Calling (Some i)] c ph s)\<lparr>sd_cluster := chaos_kill i c, sd_losing := []\<rparr>" by (cases s) (simp add: raced_at_def)
  show ?thesis unfolding eq
    using chaos_run.steps [OF assms chaos_step.lost [of 0 _ "chaos_kill i c"]] by (simp add: raced_at_def)
qed

theorem restart_can_precede_kill:
  "\<exists>s. chaos_run 4 1 0 wit_cluster s \<and> schedule_done s \<and> sd_losing s = [] \<and> 1 \<notin> nodes_up (sd_cluster s)"
proof -
  have k: "kind_of 4 = 4" by (simp add: kind_of_def chaos_names_def)
  obtain s where s: "chaos_run 4 1 0 wit_cluster s" "sd_pcs s = [Ready 10, Ready 10, Ready 0]"
    "same_but_client (begin_schedule 4 1 0 wit_cluster) s"
    using workers_finish by blast
  have b: "sd_task s = TaskDone" "sd_phase s = Running" "sd_losing s = []" "sd_killed s = 1" "fl_loseResponse (cl_faults (sd_cluster s))"
      "fl_killAfterCommit (cl_faults (sd_cluster s)) = Some 1" "fl_lost (cl_faults (sd_cluster s)) = 0"
    using s(3) by (simp_all add: same_but_client_def begin_schedule_def inject_def k Let_def reset_counters_def)
  obtain c where c: "chaos_run 4 1 0 wit_cluster (s\<lparr>sd_cluster := c, sd_losing := [Calling (Some 1)]\<rparr>)" "fl_lost (cl_faults c) = 1"
    using lost_response_path [OF s(1) b(3,5,6)] b(7) by auto
  let ?c1 = "on_faults (\<lambda>fl. fl\<lparr>fl_loseResponse := False\<rparr>) c"
  have "chaos_run 4 1 0 wit_cluster (raced_at [Calling (Some 1)] ?c1 Rearmed s)"
    using heal_once [OF c(1)] s(2) b(1,2) k by (simp add: raced_at_def heal_step_def)
  note heal = raced_heals [OF _ s(2) b(1,4)]
  let ?c2 = "on_faults (\<lambda>fl. fl\<lparr>fl_killAfterCommit := None\<rparr>) ?c1"
  have "chaos_run 4 1 0 wit_cluster (raced_at [Calling (Some 1)] ?c2 Uncalled s)"
    by (rule heal [OF \<open>chaos_run 4 1 0 wit_cluster (raced_at [Calling (Some 1)] ?c1 Rearmed s)\<close>]) (simp add: heal_step_def)
  then have "chaos_run 4 1 0 wit_cluster (raced_at [Calling (Some 1)] (chaos_start 1 ?c2) Restarted s)"
    by (rule heal) (simp add: heal_step_def c(2))
  then have "chaos_run 4 1 0 wit_cluster (raced_at [] (chaos_kill 1 (chaos_start 1 ?c2)) Restarted s)"
    by (rule raced_kills)
  then obtain c5 where s5: "chaos_run 4 1 0 wit_cluster (raced_at [] c5 Healed s)" "nodes_up c5 = nodes_up (chaos_kill 1 (chaos_start 1 ?c2))"
    using heal [of "[]" "chaos_kill 1 (chaos_start 1 ?c2)" Restarted _ Healed] by (fastforce simp: heal_step_def)
  obtain s6 where "chaos_run 4 1 0 wit_cluster s6" "schedule_done s6" "same_but_client (raced_at [] c5 Healed s) s6"
    using final_read [OF s5(1)] s(2) by (auto simp: raced_at_def)
  then show ?thesis using s5(2) by (intro exI [of _ s6]) (simp add: same_but_client_def raced_at_def)
qed

end
