(* ===== verification/ChaosNodes.thy ===== *)
theory ChaosNodes
  imports ChaosExamples Commands
begin

text \<open>What \<open>qlchaos\<close> writes on the command line of its nodes, \<open>quorumlogd\<close> understands.\<close>

lemma node_args_same: "node_args i (c\<lparr>cl_processes := p\<rparr>) = node_args i c"
  by (simp add: node_args_def)

lemma fold_chaos_start:
  "fold chaos_start is c = c\<lparr>cl_processes := fold (\<lambda>i. fmupd i (node_args i c)) is (cl_processes c)\<rparr>"
  by (induction "is" arbitrary: c) (simp_all add: chaos_start_def node_args_same)

lemma fold_fmupd_lookup:
  "fmlookup (fold (\<lambda>i. fmupd i (f i)) is m) k = (if k \<in> set is then Some (f k) else fmlookup m k)"
  by (induction "is" arbitrary: m) auto

lemma newCluster_process:
  assumes "1 \<le> i" "i \<le> n" "length addrs = n"
  shows "fmlookup (cl_processes (newCluster n bin dir addrs proxies)) i =
    Some (bin # [''-id'', dec_of_nat i, ''-listen'', addrs ! (i - 1), ''-data'', dir @ ''/node-'' @ dec_of_nat i, ''-peers'', peers_of proxies,
      ''-tick-ms'', ''10'', ''-snapshot-threshold'', ''8'', ''-snapshot-trailing'', ''2''])"
proof -
  have "trim_prefix (''http://'' @ a) ''http://'' = a" for a by (simp add: trim_prefix_def)
  then show ?thesis using assms by (simp add: newCluster_def fold_chaos_start fold_fmupd_lookup node_args_def del: upt_Suc)
qed

lemma flag_value:
  assumes "name \<noteq> ''''" "set name \<inter> {CHR ''=''} = {}" "hd name \<noteq> CHR ''-''" "name \<in> set (fs_names F)" "\<not> fs_bool F name"
    "fs_set F name w x = Some y"
  shows "flag_parse F ((CHR ''-'' # name) # w # rest) x = flag_parse F rest y"
proof -
  have "hd name \<noteq> CHR ''=''" using assms(1,2) hd_in_set by fastforce
  then have "flag_name name = Some (name, None)" using assms(1-3) by (simp add: flag_name_def)
  then show ?thesis
    using assms by (intro flag_parse_value) (auto simp: hd_conv_nth Suc_le_eq)
qed

lemma node_args_parse:
  assumes "0 < i" "i < 2 ^ 64"
  shows "flag_parse node_flag_set
    [''-id'', dec_of_nat i, ''-listen'', addr, ''-data'', dd, ''-peers'', ps, ''-tick-ms'', ''10'', ''-snapshot-threshold'', ''8'', ''-snapshot-trailing'', ''2'']
    node_defaults =
    Inr (\<lparr>nf_id = of_nat i, nf_listen = addr, nf_peers = ps, nf_data = dd, nf_join = False, nf_snapThresh = 8, nf_snapTrail = 2, nf_tickMs = 10,
      nf_chaos = ''''\<rparr>, [])"
proof -
  have nums: "flag_uint ''8'' = Some 8" "flag_uint ''2'' = Some 2" "flag_int ''10'' = Some 10" by code_simp+
  show ?thesis
    by (simp add: flag_value node_flag_set_def set_node_flag_def flag_uint_dec [OF assms] nums node_defaults_def del: flag_parse.simps(2))
qed

lemma peers_of_pairs:
  assumes "length proxies < 2 ^ 64"
  shows "peers_of proxies = join_with '','' (map (\<lambda>(i, u). format_uint i @ ''='' @ u) (map (\<lambda>(k, u). (of_nat (k + 1), u)) (enumerate 0 proxies)))"
proof -
  have "format_uint (of_nat (k + 1)) = dec_of_nat (k + 1)" if "k < length proxies" for k
    using that assms by (simp add: format_uint_def unat_of_nat del: of_nat_Suc of_nat_add)
  then show ?thesis
    unfolding peers_of_def map_map by (intro arg_cong [of _ _ "join_with '',''"] map_cong) (auto simp: in_set_enumerate_eq)
qed

lemma parsePeers_proxies:
  assumes "proxies \<noteq> []" "length proxies < 2 ^ 64" "\<forall>u \<in> set proxies. u \<noteq> [] \<and> is_digit (last u) \<and> CHR '','' \<notin> set u"
  shows "\<exists>peers. parsePeers (peers_of proxies) = Inr peers \<and>
    (\<forall>j \<in> {1..length proxies}. fmlookup peers (of_nat j) = Some (proxies ! (j - 1))) \<and> fset (fmdom peers) = of_nat ` {1..length proxies}"
proof -
  let ?n = "length proxies"
  let ?ps = "map (\<lambda>(k, u). (of_nat (k + 1) :: u64, u)) (enumerate 0 proxies)"
  let ?pairs = "map (\<lambda>(i, u). format_uint i @ ''='' @ u) ?ps"
  have nz: "(of_nat (k + 1) :: u64) \<noteq> 0" if "k < ?n" for k
    using of_nat_u64_eq [of "k + 1" 0] that assms(2) by simp
  have ps: "\<forall>(i, u) \<in> set ?ps. i \<noteq> 0 \<and> u \<noteq> [] \<and> is_digit (last u)"
    using nz assms(3) by (auto simp: in_set_enumerate_eq)
  have "CHR '','' \<notin> set (format_uint i)" for i
    using format_uint_digits [of i] by (force simp: is_digit_def list_all_iff)
  then have "\<forall>p \<in> set ?pairs. CHR '','' \<notin> set p" using assms(3) by (auto simp: in_set_enumerate_eq)
  moreover have ne: "?pairs \<noteq> []" using assms(1) by (cases proxies) simp_all
  ultimately have split: "split_char CHR '','' (peers_of proxies) = ?pairs"
    unfolding peers_of_pairs [OF assms(2)] by (intro split_char_join) simp_all
  have "peers_of proxies \<noteq> ''''"
  proof
    assume "peers_of proxies = ''''"
    then have "?pairs = [[]]" using split by simp
    then show False by (auto simp: map_eq_Cons_conv)
  qed
  then have parsed: "parsePeers (peers_of proxies) = Inr (fold (\<lambda>(i, u). fmupd i u) ?ps fmempty)"
    using add_pairs_urls [OF ps] by (simp add: parsePeers_def split)
  have keys: "map fst ?ps = map of_nat [1..<?n + 1]"
    by (rule nth_equalityI) (simp_all add: nth_enumerate_eq del: upt_Suc)
  have "inj_on (of_nat :: nat \<Rightarrow> u64) (set [1..<?n + 1])"
    using of_nat_u64_eq assms(2) by (auto simp: inj_on_def)
  then have dist: "distinct (map fst ?ps)" unfolding keys by (simp add: distinct_map)
  have "(of_nat j, proxies ! (j - 1)) \<in> set ?ps" if "j \<in> {1..?n}" for j
    using that by (auto simp: in_set_enumerate_eq image_iff intro!: bexI [of _ "(j - 1, proxies ! (j - 1))"])
  then have "fmlookup (fold (\<lambda>(i, u). fmupd i u) ?ps fmempty) (of_nat j) = Some (proxies ! (j - 1))" if "j \<in> {1..?n}" for j
    using fold_fmupd_distinct [OF dist] that by blast
  moreover have "fset (fmdom (fold (\<lambda>(i, u). fmupd i u) ?ps fmempty)) = of_nat ` {1..?n}"
  proof -
    have "fst ` set ?ps = set (map of_nat [1..<?n + 1])" unfolding keys [symmetric] by (rule set_map [symmetric])
    also have "\<dots> = of_nat ` {1..?n}" by (simp add: atLeastLessThanSuc_atLeastAtMost del: upt_Suc)
    finally show ?thesis using fold_fmupd_dom [of ?ps fmempty] by simp
  qed
  ultimately show ?thesis using parsed by blast
qed

text \<open>
  C38: the nodes of a chaos cluster run with the configuration the tool means.  For every node the process that \<open>newCluster\<close> starts has a
  command line that \<open>quorumlogd\<close> parses without an exit: the node's number as its id, its own address and directory,
  snapshots every 8 entries with 2 kept, a tick of 10 ms, no chaos listener, and a peer table that sends every message through
  the proxy of its target.
\<close>

theorem chaos_nodes_configured:
  assumes "1 \<le> i" "i \<le> n" "n < 2 ^ 64" "length addrs = n" "length proxies = n"
    "\<forall>u \<in> set proxies. u \<noteq> [] \<and> is_digit (last u) \<and> CHR '','' \<notin> set u"
  shows "\<exists>args peers. fmlookup (cl_processes (newCluster n bin dir addrs proxies)) i = Some (bin # args) \<and>
    node_main args = NodeRun \<lparr>nc_sv = \<lparr>sc_ID = of_nat i, sc_Peers = peers, sc_Join = False, sc_SnapshotThreshold = 8, sc_SnapshotTrailing = 2\<rparr>,
      nc_DataDir = dir @ ''/node-'' @ dec_of_nat i, nc_ListenAddr = addrs ! (i - 1), nc_TickInterval = 10000000, nc_ChaosListen = ''''\<rparr> \<and>
    (\<forall>j \<in> {1..n}. fmlookup peers (of_nat j) = Some (proxies ! (j - 1))) \<and> fset (fmdom peers) = of_nat ` {1..n}"
proof -
  have "proxies \<noteq> []" using assms(1,2,5) by auto
  then obtain peers where p: "parsePeers (peers_of proxies) = Inr peers"
      "\<forall>j \<in> {1..n}. fmlookup peers (of_nat j) = Some (proxies ! (j - 1))" "fset (fmdom peers) = of_nat ` {1..n}"
    using parsePeers_proxies [OF _ _ assms(6)] assms(3,5) by auto
  have i: "0 < i" "i < 2 ^ 64" "(of_nat i :: u64) \<noteq> 0" using of_nat_u64_eq [of i 0] assms(1-3) by auto
  have tick: "wrap64 10000000 = 10000000" by (simp add: wrap64_def)
  show ?thesis
    using newCluster_process [OF assms(1,2,4), of bin dir proxies] p i(3)
    by (intro exI [of _ peers] exI conjI) (assumption, simp_all add: node_main_def node_args_parse [OF i(1,2)] tick del: flag_parse.simps(2))
qed

theorem chaos_nodes_configured_witness:
  "\<exists>args. fmlookup (cl_processes wit_cluster) 2 = Some (''quorumlogd'' # args) \<and>
     (case node_main args of NodeExit _ \<Rightarrow> False | NodeRun c \<Rightarrow> sc_ID (nc_sv c) = 2 \<and> nc_ListenAddr c = ''127.0.0.1:7002'')"
proof -
  have "list_all (\<lambda>u. u \<noteq> [] \<and> is_digit (last u) \<and> CHR '','' \<notin> set u) [''http://127.0.0.1:8001'', ''http://127.0.0.1:8002'', ''http://127.0.0.1:8003'']"
    by code_simp
  then have "\<forall>u \<in> set [''http://127.0.0.1:8001'', ''http://127.0.0.1:8002'', ''http://127.0.0.1:8003'']. u \<noteq> [] \<and> is_digit (last u) \<and> CHR '','' \<notin> set u"
    unfolding list_all_iff .
  from chaos_nodes_configured [OF _ _ _ _ _ this, of 2 3 "[''127.0.0.1:7001'', ''127.0.0.1:7002'', ''127.0.0.1:7003'']" "''quorumlogd''" "''out''"]
  show ?thesis unfolding wit_cluster_def by fastforce
qed

end
