(* ===== verification/Planted.thy ===== *)
theory Planted
  imports EngineExamples CheckFacts
begin

text \<open>
  \<open>internal/engine/planted_apply_before_quorum.go\<close>: the build with the planted fault, whose leader applies a proposal
  and answers it before the log has it.  It is the negative control of the harness, and the theorem says why the checks must
  reject it: the replay of the committed log, which every engine of the shipped build is, fails, and an answered write that
  the survivors do not have makes the history not linearizable.
\<close>

definition planted_hook :: "Op \<Rightarrow> ('m, 'r) Engine \<Rightarrow> ('m, 'r) Engine" where
  "planted_hook op e =
     (let (m, res) = Apply (eng_sm e) op
      in fire_prop (propKey (op_ClientID op) (op_ReqID op)) res (e\<lparr>eng_sm := m\<rparr>))"

text \<open>\<open>Propose\<close> of that build: the same code with the other hook.\<close>

definition planted_Propose :: "('m, 'r, 'g) raw_ops \<Rightarrow> Op \<Rightarrow> nat option \<Rightarrow> ('m, 'r, unit) ecall" where
  "planted_Propose R op cb e =
     (if \<not> IsLeader R e then (Inl (ErrNotLeader (lead e)), e)
      else
        let key = propKey (op_ClientID op) (op_ReqID op);
            e1 = (case cb of None \<Rightarrow> e | Some c \<Rightarrow> e\<lparr>propWaiters := fmupd key c (propWaiters e)\<rparr>)
        in (case rn_Propose R (rn e1) (eng_mem e1) (Encode op) of
              Inl x \<Rightarrow> (Inl x, e1\<lparr>propWaiters := fmdrop key (propWaiters e1)\<rparr>)
            | Inr r \<Rightarrow> (Inr (), planted_hook op (e1\<lparr>rn := r\<rparr>))))"

lemma planted_Propose_accepted:
  assumes "IsLeader R e" "rn_Propose R (rn e) (eng_mem e) (Encode op) = Inr r"
  shows "eng_sm (snd (planted_Propose R op (Some cb) e)) = fst (Apply (eng_sm e) op)"
    "events (snd (planted_Propose R op (Some cb) e)) = events e @ [PropDone cb (snd (Apply (eng_sm e) op))]"
    "appliedIndex (snd (planted_Propose R op (Some cb) e)) = appliedIndex e"
  using assms by (simp_all add: planted_Propose_def planted_hook_def fire_prop_def emit_def Let_def split_beta)

lemma Propose_accepted:
  assumes "IsLeader R e" "rn_Propose R (rn e) (eng_mem e) (Encode op) = Inr r"
  shows "eng_sm (snd (Propose R op (Some cb) e)) = eng_sm e" "events (snd (Propose R op (Some cb) e)) = events e"
  using assms by (simp_all add: Propose_def plantedApplyBeforeQuorum_def Let_def)

text \<open>The two operations of the history: the write as its client saw it, and a later read of a survivor.\<close>

definition acked_put :: "string \<Rightarrow> string \<Rightarrow> int \<Rightarrow> int \<Rightarrow> Operation" where
  "acked_put k v call ret = \<lparr>po_ClientId = 1, po_Input = \<lparr>in_Op = OpPut, in_Key = k, in_Val = v\<rparr>, po_Call = call,
     po_Output = \<lparr>out_Val = v, out_Found = True, out_Unknown = False\<rparr>, po_Return = ret\<rparr>"

definition read_of :: "SM \<Rightarrow> string \<Rightarrow> int \<Rightarrow> int \<Rightarrow> Operation" where
  "read_of s k call ret = \<lparr>po_ClientId = 2, po_Input = \<lparr>in_Op = OpGet, in_Key = k, in_Val = ''''\<rparr>, po_Call = call,
     po_Output = \<lparr>out_Val = fst (Get s k), out_Found = snd (Get s k), out_Unknown = False\<rparr>, po_Return = ret\<rparr>"

lemma mset_two: "mset xs = {#a, b#} \<Longrightarrow> xs = [a, b] \<or> xs = [b, a]"
proof -
  assume m: "mset xs = {#a, b#}"
  then have "length xs = 2" by (metis size_mset size_add_mset size_empty numeral_2_eq_2)
  then obtain x y where xs: "xs = [x, y]" by (auto simp: length_Suc_conv numeral_2_eq_2)
  then show ?thesis using m by (auto simp: add_eq_conv_ex)
qed

lemma lost_write_not_linearizable:
  assumes "fmlookup (kv s) k = None" "ret < call"
  shows "\<not> linearizable [acked_put k v t0 ret, read_of s k call t1]"
proof
  let ?w = "acked_put k v t0 ret" and ?g = "read_of s k call t1"
  assume "linearizable [?w, ?g]"
  moreover have "key_part k [?w, ?g] = [?w, ?g]" by (simp add: op_key_def acked_put_def read_of_def)
  ultimately obtain order where o: "linearizes [?w, ?g] order" unfolding linearizable_keys by metis
  then have "order = [?w, ?g] \<or> order = [?g, ?w]" using mset_two [of order ?w ?g] by (simp add: linearizes_def)
  moreover have "\<not> legal kv_Init [?w, ?g]"
    using assms(1) by (simp add: acked_put_def read_of_def kv_Step_def Get_def kv_Init_def OpGet_def OpPut_def OpAppend_def OpDelete_def)
  moreover have "\<not> rt_respects [?g, ?w]" using assms(2) by (simp add: rt_respects_def rt_before_def acked_put_def read_of_def)
  ultimately show False using o by (auto simp: linearizes_def)
qed

text \<open>
  C37: what the planted build does wrong, and that the checker sees it.  In every state an engine can reach where it leads and its raft
  node accepts a new put of a value the key does not have, the planted build answers the client at once with nothing applied from the
  log, and its store is no longer that of the committed log; the shipped build answers nothing yet and leaves its state machine alone.  When a
  survivor that never got the entry then serves a read, the two operations are not linearizable, so that no sound
  search accepts the history.
\<close>

theorem planted_fault_is_rejected:
  assumes "memory_storage M view" "follows 0 L" "engine_run L M R view e"
    "IsLeader R e" "rn_Propose R (rn e) (eng_mem e) (Encode op) = Inr r" "op_Type op = OpPut" "cached (eng_sm e) op = None"
    "fmlookup (kv (eng_sm e)) (op_Key op) \<noteq> Some (op_Val op)"
    "fmlookup (kv survivor) (op_Key op) = None" "ret < call" "porcupine chk" "t0 \<le> ret" "call \<le> t1"
  shows "events (snd (planted_Propose R op (Some cb) e)) = events e @ [PropDone cb \<lparr>res_Val = op_Val op, res_OK = True\<rparr>] \<and>
    kv (eng_sm (snd (planted_Propose R op (Some cb) e))) \<noteq>
      spec_store (log_ops (take (unat (appliedIndex (snd (planted_Propose R op (Some cb) e)))) L)) \<and>
    events (snd (Propose R op (Some cb) e)) = events e \<and> eng_sm (snd (Propose R op (Some cb) e)) = eng_sm e \<and>
    chk [acked_put (op_Key op) (op_Val op) t0 ret, read_of survivor (op_Key op) call t1] timeout \<noteq> Ok"
proof -
  have ap: "kv (fst (Apply (eng_sm e) op)) = fmupd (op_Key op) (op_Val op) (kv (eng_sm e))"
      "snd (Apply (eng_sm e) op) = \<lparr>res_Val = op_Val op, res_OK = True\<rparr>"
    using assms(6,7) by (simp_all add: Apply_def exec_op_def Let_def)
  have spec: "kv (eng_sm e) = spec_store (log_ops (take (unat (appliedIndex e)) L))"
    using engine_run_inv [OF assms(1-3)] by (simp add: engine_inv_def sm_at_def kv_run_log)
  have "fmupd (op_Key op) (op_Val op) (kv (eng_sm e)) \<noteq> kv (eng_sm e)"
    using assms(8) by (metis fmupd_lookup)
  moreover have "\<forall>o' \<in> set [acked_put (op_Key op) (op_Val op) t0 ret, read_of survivor (op_Key op) call t1]. timed o'"
    using assms(12,13) by (simp add: timed_def acked_put_def read_of_def)
  then have "chk [acked_put (op_Key op) (op_Val op) t0 ret, read_of survivor (op_Key op) call t1] timeout \<noteq> Ok"
    using porcupine.ok_sound [OF assms(11)] lost_write_not_linearizable [OF assms(9,10)] by blast
  ultimately show ?thesis
    using planted_Propose_accepted [OF assms(4,5)] Propose_accepted [OF assms(4,5)] ap spec by simp
qed

lemma wit_reach0: "wit_reachable wit_engine0"
  by (rule engine_run.start [OF _ wit_start]) (simp add: wit_fresh_def)

definition wit_put :: Op where
  "wit_put = \<lparr>op_Type = OpPut, op_Key = ''k'', op_Val = ''x'', op_ClientID = ''c1'', op_ReqID = 1\<rparr>"

theorem planted_fault_is_rejected_witness:
  "events (snd (planted_Propose script_node wit_put (Some 7) wit_engine0)) = [PropDone 7 \<lparr>res_Val = ''x'', res_OK = True\<rparr>] \<and>
   search_check [acked_put ''k'' ''x'' 1 2, read_of sm_New ''k'' 3 4] 1000 \<noteq> Ok"
  using planted_fault_is_rejected [OF ref.memory_storage_axioms wit_follows wit_reach0, of wit_put _ sm_New 2 3 search_check 1 4 7 1000] exhaustive.porcupine_axioms
  by (simp add: wit_put_def wit_engine0_def IsLeader_def script_node_def cached_def sm_New_def)

end
