(* ===== verification/Demo.thy ===== *)
theory Demo
  imports CheckFacts Driver
begin

text \<open>
  \<open>cmd/public-demo/main_js.go\<close>: the checker behind the browser demo.  The callback gets its arguments from JavaScript;
  what it returns is the report or the error, not their encoding.
\<close>

section \<open>Decoding the events\<close>

definition set_KVInput :: "string \<Rightarrow> json \<Rightarrow> KVInput \<Rightarrow> KVInput option" where
  "set_KVInput n j x =
     (if n = ''Op'' then map_option (\<lambda>v. x\<lparr>in_Op := v\<rparr>) (get_str j (in_Op x))
      else if n = ''Key'' then map_option (\<lambda>v. x\<lparr>in_Key := v\<rparr>) (get_str j (in_Key x))
      else map_option (\<lambda>v. x\<lparr>in_Val := v\<rparr>) (get_str j (in_Val x)))"

definition set_KVOutput :: "string \<Rightarrow> json \<Rightarrow> KVOutput \<Rightarrow> KVOutput option" where
  "set_KVOutput n j x =
     (if n = ''Val'' then map_option (\<lambda>v. x\<lparr>out_Val := v\<rparr>) (get_str j (out_Val x))
      else if n = ''Found'' then map_option (\<lambda>b. x\<lparr>out_Found := b\<rparr>) (get_bool j (out_Found x))
      else map_option (\<lambda>b. x\<lparr>out_Unknown := b\<rparr>) (get_bool j (out_Unknown x)))"

text \<open>A pointer: \<open>null\<close> makes it nil, an object is decoded into what it points to, or into a new value.\<close>

definition get_ptr :: "(json \<Rightarrow> 'a \<Rightarrow> 'a option) \<Rightarrow> 'a \<Rightarrow> json \<Rightarrow> 'a option \<Rightarrow> 'a option option" where
  "get_ptr f zero j cur =
     (if j = JNull then Some None else map_option Some (f j (case cur of None \<Rightarrow> zero | Some x \<Rightarrow> x)))"

definition zero_KVInput :: KVInput where
  "zero_KVInput = \<lparr>in_Op = '''', in_Key = '''', in_Val = ''''\<rparr>"

definition set_HTTPEvent :: "string \<Rightarrow> json \<Rightarrow> HTTPEvent \<Rightarrow> HTTPEvent option" where
  "set_HTTPEvent n j e =
     (if n = ''id'' then map_option (\<lambda>v. e\<lparr>he_ID := v\<rparr>) (get_str j (he_ID e))
      else if n = ''client_id'' then map_option (\<lambda>v. e\<lparr>he_ClientID := v\<rparr>) (get_int j (he_ClientID e))
      else if n = ''at'' then map_option (\<lambda>v. e\<lparr>he_At := v\<rparr>) (get_int j (he_At e))
      else if n = ''input'' then
        map_option (\<lambda>v. e\<lparr>he_Input := v\<rparr>) (get_ptr (get_struct set_KVInput [''Op'', ''Key'', ''Val'']) zero_KVInput j (he_Input e))
      else
        map_option (\<lambda>v. e\<lparr>he_Output := v\<rparr>) (get_ptr (get_struct set_KVOutput [''Val'', ''Found'', ''Unknown'']) zero_KVOutput j (he_Output e)))"

definition zero_HTTPEvent :: HTTPEvent where
  "zero_HTTPEvent = \<lparr>he_ID = '''', he_ClientID = 0, he_At = 0, he_Input = None, he_Output = None\<rparr>"

fun get_events :: "json list \<Rightarrow> HTTPEvent list option" where
  "get_events [] = Some []"
| "get_events (j # js) =
     (case (get_struct set_HTTPEvent [''id'', ''client_id'', ''at'', ''input'', ''output''] j zero_HTTPEvent, get_events js) of
        (Some e, Some es) \<Rightarrow> Some (e # es)
      | _ \<Rightarrow> None)"

definition decode_events :: "string \<Rightarrow> HTTPEvent list option" where
  "decode_events raw =
     (case jparse raw of
        Some (JArr js) \<Rightarrow> get_events js
      | Some JNull \<Rightarrow> Some []
      | _ \<Rightarrow> None)"

section \<open>Evaluation\<close>

datatype demo_error = DemoArgs | DemoTooLarge | DemoJSON | DemoCount | DemoEvent | DemoInput | DemoOutput | DemoHistory err

record demo_report =
  dr_result :: CheckResult
  dr_operations :: nat
  dr_indeterminate :: nat
  dr_budget_ms :: int

definition check_event :: "HTTPEvent \<Rightarrow> demo_error option" where
  "check_event e =
     (if length (he_ID e) > 64 \<or> he_ClientID e < 0 \<or> he_ClientID e > 16 \<or> he_At e > 1000000 then Some DemoEvent
      else if (case he_Input e of None \<Rightarrow> False | Some i \<Rightarrow> length (in_Key i) > 64 \<or> length (in_Val i) > 128) then Some DemoInput
      else if (case he_Output e of None \<Rightarrow> False | Some out \<Rightarrow> length (out_Val out) > 128) then Some DemoOutput
      else None)"

fun check_events :: "HTTPEvent list \<Rightarrow> demo_error option" where
  "check_events [] = None"
| "check_events (e # es) = (case check_event e of Some x \<Rightarrow> Some x | None \<Rightarrow> check_events es)"

definition evaluate :: "(Operation list \<Rightarrow> int \<Rightarrow> CheckResult) \<Rightarrow> int \<Rightarrow> string \<Rightarrow> demo_error + demo_report" where
  "evaluate chk elapsed raw =
     (case decode_events raw of
        None \<Rightarrow> Inl DemoJSON
      | Some events \<Rightarrow>
          if length events < 1 \<or> length events > 24 then Inl DemoCount
          else
            (case check_events events of
               Some e \<Rightarrow> Inl e
             | None \<Rightarrow>
                 (case HTTPHistory events of
                    Inl e \<Rightarrow> Inl (DemoHistory e)
                  | Inr history \<Rightarrow>
                      (case CheckHTTPHistoryWithin chk events 100000000 elapsed of
                         Inl e \<Rightarrow> Inl (DemoHistory e)
                       | Inr result \<Rightarrow>
                           Inr \<lparr>dr_result = result, dr_operations = length history,
                             dr_indeterminate = length (filter is_unknown history), dr_budget_ms = 100\<rparr>))))"

text \<open>The callback: \<open>args\<close> are the arguments, \<^term>\<open>None\<close> for one that is no string.\<close>

definition publicDemo :: "(Operation list \<Rightarrow> int \<Rightarrow> CheckResult) \<Rightarrow> int \<Rightarrow> string option list \<Rightarrow> demo_error + demo_report" where
  "publicDemo chk elapsed args =
     (case args of
        [Some raw] \<Rightarrow> if length raw > 32768 then Inl DemoTooLarge else evaluate chk elapsed raw
      | _ \<Rightarrow> Inl DemoArgs)"

section \<open>Facts\<close>

lemma check_events_bounded: "check_events es = None \<Longrightarrow> e \<in> set es \<Longrightarrow> he_At e \<le> 1000000"
  by (induction es) (auto simp: check_event_def split: option.splits if_splits)

lemma size_event_calls: "size (event_calls es) \<le> length es"
  unfolding event_calls_def size_mset length_map by (rule length_filter_le)

text \<open>
  A report of the demo is about a history of the events it was given, with at most 24 operations, and its verdict is right when
  it is definite.
\<close>

theorem demo_report_sound:
  assumes "porcupine chk" "publicDemo chk elapsed args = Inr rep"
  shows "\<exists>raw events h. args = [Some raw] \<and> decode_events raw = Some events \<and> HTTPHistory events = Inr h \<and>
    dr_operations rep = length h \<and> dr_operations rep \<le> 24 \<and> dr_indeterminate rep \<le> dr_operations rep \<and>
    (dr_result rep = Ok \<longrightarrow> linearizable h) \<and> (dr_result rep = Illegal \<longrightarrow> \<not> linearizable h)"
proof -
  obtain raw where raw: "args = [Some raw]" "evaluate chk elapsed raw = Inr rep"
    using assms(2) by (auto simp: publicDemo_def split: list.splits option.splits if_splits)
  obtain events where ev: "decode_events raw = Some events" "length events \<le> 24" "check_events events = None"
    using raw(2) by (auto simp: evaluate_def split: option.splits if_splits)
  obtain h v where h: "HTTPHistory events = Inr h" "CheckHTTPHistoryWithin chk events 100000000 elapsed = Inr v"
      "rep = \<lparr>dr_result = v, dr_operations = length h, dr_indeterminate = length (filter is_unknown h), dr_budget_ms = 100\<rparr>"
    using raw(2) ev by (auto simp: evaluate_def split: if_splits sum.splits)
  have "event_times events"
    using check_events_bounded [OF ev(3)] by (fastforce simp: event_times_def max_int64_def)
  then have facts: "wf_history h" "op_calls h = event_calls events" using HTTPHistory_facts [OF h(1)] by simp_all
  have "size (op_calls h) = length h" by (simp add: op_calls_def)
  then have "length h \<le> 24" using size_event_calls [of events] facts(2) ev(2) by simp
  then show ?thesis
    using raw(1) ev(1) h porcupine.Within_verdict [OF assms(1) h(2,1) facts(1)] by (auto intro: length_filter_le)
qed

end
