(* ===== verification/Spec2Isabelle.thy ===== *)
theory Spec2Isabelle
  imports ClientRequests SimExamples DriverServer GateExamples OutageFacts BenchFacts ChaosNodes Planted Demo
begin

text \<open>
  A verification of quorum-log, a replicated key-value log in Go on top of the etcd raft library.  File names are
  relative to \<open>src/\<close>.

  \<^bold>\<open>The program.\<close>  A node is a state machine (\<open>internal/sm\<close>), a storage on disk (\<open>internal/storage\<close>) and an engine
  (\<open>internal/engine\<close>) that drives one raft node: it persists what raft hands out, applies committed commands, answers
  the waiting callbacks and takes snapshots.  The server (\<open>internal/server\<close>) puts HTTP around the engine, sends raft
  messages to its peers, keeps the peer table on disk and can drop messages for tests.  The simulator (\<open>internal/sim\<close>)
  runs several engines in one process under a seeded schedule.  The checker (\<open>internal/check\<close>) turns recorded client
  calls into a history and asks porcupine whether it is linearizable.  The multi-host driver (\<open>internal/multihost\<close>,
  \<open>cmd/qlmultihost\<close>) deploys nodes on three machines, runs traffic, injects faults, restarts everything, re-reads the
  acknowledged writes and judges the run.  Around them stand the node command (\<open>cmd/quorumlogd\<close>), a benchmark
  (\<open>cmd/qlbench\<close>), a tool that runs seeded fault schedules against local processes behind proxies (\<open>cmd/qlchaos\<close>), a
  browser front end of the checker (\<open>cmd/public-demo\<close>) and the planted fault of the negative control
  (\<open>planted_apply_before_quorum.go\<close>).

  \<^bold>\<open>The theories.\<close>
  \<^item> \<open>Prelude\<close>, \<open>GoText\<close>, \<open>GoJson\<close>, \<open>GoJsonFacts\<close>, \<open>GoStruct\<close>, \<open>GoStrings\<close>, \<open>GoNet\<close>: Go's strings, numbers, JSON (printing,
    scanning, struct decoding, UTF-8 repair), splitting and trimming, host and port syntax, IP addresses.  Strings are
    lists of bytes; \<open>uint64\<close> is \<open>u64\<close>, a 64-bit word; \<open>int\<close> and \<open>int64\<close> are \<^typ>\<open>int\<close> with \<open>wrap64\<close> or \<open>sat64\<close> where the
    code can leave the range.
  \<^item> \<open>StateMachine\<close> (\<open>sm.go\<close>): \<open>Apply\<close>, the sessions that make a retried request apply once, the snapshot codec and
    \<open>Hash\<close>.
  \<^item> \<open>RaftApi\<close>, \<open>Disk\<close>, \<open>Storage\<close>, \<open>WalFacts\<close>, \<open>Durability\<close>, \<open>Recovery\<close>, \<open>TornLog\<close>, \<open>RecoveryExamples\<close> (\<open>storage.go\<close>): one
    directory with written and synced contents, every call of which can fail after any byte; \<open>Open\<close>, \<open>Append\<close>,
    \<open>SetHardState\<close>, \<open>CreateSnapshot\<close>, \<open>SaveSnapshot\<close>, the log format.  The memory storage of the raft library is the
    locale \<open>memory_storage\<close>, interpreted by \<open>ref_mem\<close>.
  \<^item> \<open>Engine\<close>, \<open>EngineSafety\<close>, \<open>EngineProps\<close>, \<open>EngineAnswers\<close>, \<open>EngineExamples\<close> (\<open>engine.go\<close>): the raft node is a record of
    operations (\<open>raw_ops\<close>); runs of an engine are an inductive relation over proposals, reads, Ready batches and restarts,
    and \<open>client_run\<close> are those that know which request each callback belongs to.
  \<^item> \<open>Peers\<close>, \<open>Server\<close>, \<open>ServerFacts\<close>, \<open>ServerExamples\<close> (\<open>server.go\<close>, \<open>chaos.go\<close>): every handler as a function on the state
    under the mutex, split where it waits; runs of the goroutines are an inductive relation.
  \<^item> \<open>Simulation\<close>, \<open>SimFacts\<close>, \<open>SimExamples\<close> (\<open>sim.go\<close>, \<open>client.go\<close>): the cluster, its network and its clients; \<open>math/rand\<close>
    is a parameter.
  \<^item> \<open>Check\<close>, \<open>CheckFacts\<close> (\<open>check.go\<close>, \<open>http_history.go\<close>): recorder, model, history building, verdict.  Porcupine is the
    locale \<open>porcupine\<close>, interpreted by an exhaustive search that is proved to decide linearizability.
  \<^item> \<open>MhHistory\<close>, \<open>Traffic\<close>, \<open>TrafficFacts\<close> (\<open>history.go\<close>, \<open>checkrun.go\<close>, \<open>traffic.go\<close>): the recorded operations, the table
    of acknowledged writes, the retrying client, the workers as an inductive relation, the verification.
  \<^item> \<open>Inventory\<close>, \<open>Driver\<close>, \<open>Preflight\<close>, \<open>Faults\<close>, \<open>Gate\<close> (\<open>inventory.go\<close>, \<open>exec.go\<close>, \<open>status.go\<close>, \<open>deploy.go\<close>, \<open>preflight.go\<close>,
    \<open>faults.go\<close>, \<open>run.go\<close>, \<open>report.go\<close>, \<open>cmd/qlmultihost\<close>, \<open>parsePeers\<close> of \<open>cmd/quorumlogd\<close>): the driver as actions on a
    state with an explicit world (clock, timers, processes, files, HTTP), errors as values, \<^term>\<open>None\<close> for an action
    that never returns.  \<open>DriverFacts\<close>, \<open>FaultFacts\<close>, \<open>OutageFacts\<close>, \<open>GateFacts\<close> hold the lemmas, with the locales \<open>clock\<close>
    and \<open>responsive\<close> for the laws of time; \<open>DriverExamples\<close> and \<open>GateExamples\<close> run whole scenarios and a whole gate run in
    one concrete world that satisfies them.
  \<^item> \<open>ClientServer\<close>, \<open>ClientRequests\<close>, \<open>DriverServer\<close>: what the clients, the driver and the server promise each other; the
    requests of a write from the URL the client builds to the command the server proposes.
  \<^item> \<open>GoFlag\<close>, \<open>Commands\<close> (\<open>cmd/quorumlogd\<close>, \<open>cmd/qlmultihost\<close>, \<open>Server.Start\<close>, \<open>startChaosListener\<close>, \<open>chaosMux\<close>): Go's flag
    package, the command lines of the two commands, the routes and the start of a server.
  \<^item> \<open>Bench\<close>, \<open>BenchFacts\<close> (\<open>cmd/qlbench\<close>): the client, the load and the failover mode.  The percentile index is computed in
    \<open>float64\<close>, whose rounding is \<open>round53\<close>.
  \<^item> \<open>Chaos\<close>, \<open>ChaosFacts\<close>, \<open>ChaosExamples\<close>, \<open>ChaosNodes\<close> (\<open>cmd/qlchaos\<close>): cluster, proxies, recorder and replay; a schedule is
    the inductive relation \<open>chaos_step\<close> over the steps of its clients, proxy handlers, fault task and healing, in any
    order.
  \<^item> \<open>Planted\<close> (\<open>planted_apply_before_quorum.go\<close>) and \<open>Demo\<close> (\<open>cmd/public-demo\<close>).

  \<^bold>\<open>What is shown.\<close>
  \<^item> Engine: every reachable engine is the replay of a prefix of the committed log, so replicas agree; callbacks get the
    answer of a committed entry with the client and number of their own request, which is their own command unless the
    log holds several under that name; messages leave only after their state is durable; snapshots keep their threshold.
  \<^item> State machine: applying a log refines a store that executes each fresh request once; retries get the first answer;
    snapshots and commands survive encoding.
  \<^item> Storage: after a power loss \<open>Open\<close> recovers what successful calls wrote, within the size limits of the format and on
    a file system that keeps its directory; a call cut at any byte leaves the old or the new state, or a prefix of the
    new entries.  The cases in which this fails are proved too: an append behind a torn line is lost or makes the log
    unreadable, a record too long for the scanner makes \<open>Open\<close> fail, a lost rename brings the old hard state back.
  \<^item> Checker and history: definite verdicts are right, the reference search decides, histories are complete, a store
    that serves calls in order gives a linearizable history.
  \<^item> Traffic: a write is one command for the server however often it is sent, acknowledged writes are unambiguous, a clean
    verification has read all of them back.
  \<^item> Server and clients: queues are bounded, isolated peers are cut off, redirects reach the leader, membership
    survives restarts.
  \<^item> Simulator: messages in flight are due in time, partitions cut messages.
  \<^item> Driver: validation meets its specification; nodes accept the flags the driver gives them; waiting for a leader
    succeeds when there is one; faults never overlap; isolation requests cut off exactly the named hosts; the driver
    reads what nodes report; outages are the gaps in the history; a shortened run keeps its plan in order; a gate that
    exits with success has the evidence it claims, the reads after the restart among it, or, when it was told to expect a
    rejection, has rejected.
  \<^item> Benchmark: a write is one command however often it is sent; the failover loop ends and reports the gaps of its
    observations; a load report does not depend on the order in which workers end, and its percentiles are latencies
    it measured, in ascending order.
  \<^item> Chaos tool: however a schedule interleaves, its history is well formed, has the 21 planned operations and a
    definite label is right; the minority partition spares the leader; a healed schedule has no fault left; nodes
    accept the command lines they are started with.  A restart can overtake the kill it answers, which is exhibited.
  \<^item> Planted fault and demo: the planted build answers a put that nothing has committed, and the history that exposes it
    is rejected; the report of the demo agrees with linearizability of the events it was given.

  \<^bold>\<open>Bounds.\<close>  Loops over data are structural or have a measure.  The loops that wait (\<open>poll\<close>, \<open>stop_loop\<close>, \<open>waitOp\<close>) are
  partial functions into \<^typ>\<open>'a option\<close>; that \<open>WaitLeader\<close> returns is proved from the laws of the locale \<open>responsive\<close>.
  So are the timed loops of the benchmark (\<open>load_loop\<close>, \<open>fo_loop\<close>); that the failover loop returns is proved from a clock
  that passes its deadline.
  The simulator's synchronous helpers and the clients retry a bounded number of times, as the code does, and their
  bounds are those of the code.
  The log format has two limits, lines of \<open>1 << 26\<close> and logs of \<open>1 << 30\<close> bytes.  The program enforces neither; they are
  hypotheses (\<open>entry_ok\<close>, \<open>may_create\<close>, \<open>restart_recovers\<close>) of the theorems on storage and engine.  A crash keeps the
  directory (\<open>power_loss\<close>, \<open>keeps_directory\<close>): the program never syncs it, so this is a hypothesis on the file system.

  \<^bold>\<open>Not modelled.\<close>  The raft library, its message format and porcupine are parameters with stated laws, not code of
  this repository.  Sockets, signals, log lines, the printed lines of \<open>qlbench\<close> with its throughput quotient, and the
  registration of the demo with JavaScript are I/O.  The errors of the operating system on which \<open>qlchaos\<close> panics, the
  JSON of its rows and its protocol file are left out, as are the JSON texts of the driver's artifacts and wall-clock
  texts.  The driver's milliseconds are exact quotients instead of \<open>float64\<close>.  The end of an operation of a traffic worker
  (record, table, counters) is one step, where the code has a mutex for each.
\<close>

end
